(* ===== verification/Keylane_Prelude.thy ===== *)
theory Keylane_Prelude
  imports Complex_Main "HOL-Library.Word" "HOL-Library.Char_ord" "HOL-Library.List_Lexorder"
    "HOL-Library.Multiset"
begin

text \<open>
  Shared vocabulary of the development: the Go machine types as words, the sentinel errors of
  \<open>internal/core/errors.go\<close>, Go's saturating time difference, and the generic list and
  sum lemmas that the component theories use. The collections \<open>inv_intros\<close> and \<open>len_simps\<close> are filled
  by the components.
\<close>

named_theorems inv_intros \<open>preservation facts: one per operation and invariant\<close>
named_theorems len_simps \<open>operations that keep the length of a slice\<close>

subsection \<open>Machine types\<close>

type_synonym u64 = "64 word"
type_synonym u32 = "32 word"
type_synonym u16 = "16 word"

text \<open>Go's \<open>LaneID\<close> is a \<open>uint16\<close>. The conversion \<open>int(id)\<close> of the source is \<open>unat\<close>.\<close>

type_synonym LaneID = "16 word"

text \<open>
  A \<open>time.Time\<close> is its number of nanoseconds since the Unix epoch; the zero \<open>time.Time\<close>, for which
  \<open>IsZero\<close> holds, is \<open>None\<close> where the source tests for it. A \<open>time.Duration\<close> is an \<open>int\<close> of
  nanoseconds.
\<close>

type_synonym time = int
type_synonym duration = int

definition minDuration :: duration where
  "minDuration = - (2 ^ 63)"

definition maxDuration :: duration where
  "maxDuration = 2 ^ 63 - 1"

text \<open>\<open>Time.Sub\<close> saturates at the ends of the \<open>Duration\<close> range.\<close>

definition timeSub :: "time \<Rightarrow> time \<Rightarrow> duration" where
  "timeSub t u = max minDuration (min maxDuration (t - u))"

lemma timeSub_bounds: "minDuration \<le> timeSub t u" "timeSub t u \<le> maxDuration"
  by (auto simp: timeSub_def minDuration_def maxDuration_def)

lemma timeSub_exact:
  "minDuration \<le> t - u \<Longrightarrow> t - u \<le> maxDuration \<Longrightarrow> timeSub t u = t - u"
  by (simp add: timeSub_def)

lemma timeSub_pos_iff: "0 < timeSub t u \<longleftrightarrow> u < t"
  by (auto simp: timeSub_def minDuration_def maxDuration_def)

lemma timeSub_self [simp]: "timeSub t t = 0"
  by (simp add: timeSub_def minDuration_def maxDuration_def)

lemma timeSub_mono: "t \<le> t' \<Longrightarrow> timeSub t u \<le> timeSub t' u"
  by (auto simp: timeSub_def)

definition Millisecond :: duration where "Millisecond = 1000000"
definition Second :: duration where "Second = 1000000000"

text \<open>Addition and subtraction of Go's \<open>int\<close>, \<open>int64\<close> and \<open>time.Duration\<close> wrap at 64 bits.\<close>

definition wrapInt :: "int \<Rightarrow> int" where
  "wrapInt x = sint (word_of_int x :: 64 word)"

lemma wrapInt_id: "- (2 ^ 63) \<le> x \<Longrightarrow> x < 2 ^ 63 \<Longrightarrow> wrapInt x = x"
  by (simp add: wrapInt_def int_word_sint)

lemma wrapInt_bounds: "- (2 ^ 63) \<le> wrapInt x" "wrapInt x < 2 ^ 63"
  using sint_range_size [of "word_of_int x :: 64 word"] by (simp_all add: wrapInt_def word_size)

subsection \<open>Sentinel errors\<close>

text \<open>
  An error value is identified with the sentinel it is or wraps (\<open>errors.Is\<close>); the message text that
  \<open>fmt.Errorf\<close> adds around a sentinel carries no control flow in this code base.
\<close>

datatype core_error =
    ErrInvalidConfig | ErrInvalidShardCount | ErrInvalidWorkerCount | ErrInvalidQueueSize
  | ErrInvalidLane | ErrInvalidLaneQuota | ErrMissingLaneQuotas | ErrInvalidQuotaPolicy
  | ErrQuotaPolicyVersionConflict | ErrQuotaTooLarge | ErrInvalidAdmissionPolicy
  | ErrInvalidOverloadPolicy | ErrInvalidAdaptiveQuotaConfig | ErrInvalidHotKeyConfig
  | ErrInvalidPerKeyAdmissionConfig | ErrInvalidLaneClass | ErrInvalidJob | ErrInvalidKey
  | ErrNilJobRun | ErrQueueFull | ErrNotStarted | ErrQueueAlreadyStarted | ErrStopped
  | ErrInvalidLaneID

text \<open>\<open>isOk\<close> says that a fallible operation returned a value.\<close>

definition isOk :: "'e + 'a \<Rightarrow> bool" where
  "isOk r = (case r of Inl _ \<Rightarrow> False | Inr _ \<Rightarrow> True)"

lemma isOk_simps [simp]: "isOk (Inr x)" "\<not> isOk (Inl e)"
  by (simp_all add: isOk_def)

lemma isOk_iff: "isOk r \<longleftrightarrow> (\<exists>x. r = Inr x)"
  by (cases r) auto

subsection \<open>Lists\<close>

lemma sum_list_update_int:
  fixes f :: "'a \<Rightarrow> int"
  assumes "i < length xs"
  shows "sum_list (map f (xs[i := x])) = sum_list (map f xs) - f (xs ! i) + f x"
  using assms
proof (induction xs arbitrary: i)
  case Nil
  then show ?case by simp
next
  case (Cons y ys)
  then show ?case by (cases i) auto
qed

lemma sum_list_update_nat:
  fixes f :: "'a \<Rightarrow> nat"
  assumes "i < length xs"
  shows "sum_list (map f (xs[i := x])) + f (xs ! i) = sum_list (map f xs) + f x"
  using assms
proof (induction xs arbitrary: i)
  case Nil
  then show ?case by simp
next
  case (Cons y ys)
  then show ?case by (cases i) auto
qed

lemma elem_le_sum_list_nat:
  fixes f :: "'a \<Rightarrow> nat"
  shows "x \<in> set xs \<Longrightarrow> f x \<le> sum_list (map f xs)"
  by (induction xs) auto

lemma list_all_update:
  "list_all P xs \<Longrightarrow> P x \<Longrightarrow> list_all P (xs[i := x])"
  by (induction xs arbitrary: i) (auto split: nat.split)

lemma list_all_nthD: "list_all P xs \<Longrightarrow> i < length xs \<Longrightarrow> P (xs ! i)"
  by (simp add: list_all_length)

lemma sum_list_unat_le:
  fixes f :: "'a \<Rightarrow> nat"
  assumes "\<And>x. x \<in> set xs \<Longrightarrow> f x \<le> g x"
  shows "sum_list (map f xs) \<le> sum_list (map g xs)"
  using assms by (rule sum_list_mono)

lemma last_take_Suc: "n < length xs \<Longrightarrow> take (Suc n) xs = take n xs @ [xs ! n]"
  by (rule take_Suc_conv_app_nth)

lemma distinct_countI: "(\<And>x. count_list xs x \<le> 1) \<Longrightarrow> distinct xs"
proof (induction xs)
  case (Cons y ys)
  have "count_list ys y = 0" using Cons.prems [of y] by simp
  moreover have "distinct ys"
  proof (rule Cons.IH)
    fix x show "count_list ys x \<le> 1" using Cons.prems [of x] by (simp split: if_splits)
  qed
  ultimately show ?case by (simp add: count_list_0_iff)
qed simp

subsection \<open>Words\<close>

lemma unat_plus_one_u64: "unat (w :: u64) < 2 ^ 64 - 1 \<Longrightarrow> unat (w + 1) = unat w + 1"
  by (simp add: unat_word_ariths)

lemma one_le_word_iff [simp]: "1 \<le> (w :: 'a :: len word) \<longleftrightarrow> w \<noteq> 0"
  by (simp flip: not_less)

lemma unat_lane_bound: "unat (l :: LaneID) < 65536"
  using unsigned_less [of l, where 'a = nat] by simp

subsection \<open>Components driven by operations\<close>

text \<open>
  The contract of a component whose state is only changed through its operations: every operation
  keeps the invariant. A component proves one preservation fact and gets the invariant of
  every run.
\<close>

locale op_system =
  fixes step :: "'op \<Rightarrow> 's \<Rightarrow> 's" and inv :: "'s \<Rightarrow> bool"
  assumes step_inv: "inv s \<Longrightarrow> inv (step op s)"
begin

lemma run_inv: "inv s \<Longrightarrow> inv (fold step ops s)"
  by (induction ops arbitrary: s) (simp_all add: step_inv)

end

end
