(* ===== verification/Lane_Queue.thy ===== *)
theory Lane_Queue
  imports Keylane_Prelude
begin

text \<open>
  The bounded lane queue of \<open>internal/core/lane_queue.go\<close>: a ring buffer of \<open>InternalJob\<close>s with
  a head, a tail and a size. The theory gives the operations, the representation invariant
  \<open>lq_wf\<close> (which also says that a slot outside the live window holds the zero job, so that a
  popped closure is not kept alive), and the refinement to a bounded list: the locale
  \<open>bounded_fifo\<close> states the contract its clients use and is interpreted on the ring buffer.
\<close>

subsection \<open>Jobs\<close>

text \<open>A job's closure is opaque: \<open>job_Run\<close> is a handle of it, \<open>None\<close> is Go's \<open>nil\<close>.\<close>

type_synonym run_ref = nat

record InternalJob =
  job_KeyHash :: u64
  job_RawKey :: string
  job_LaneID :: LaneID
  job_Run :: "run_ref option"
  job_AcceptedAt :: "time option"
  job_EnqueuedAt :: "time option"
  job_UseWorkerTiming :: bool

definition zeroJob :: InternalJob where
  "zeroJob = \<lparr>job_KeyHash = 0, job_RawKey = [], job_LaneID = 0, job_Run = None,
     job_AcceptedAt = None, job_EnqueuedAt = None, job_UseWorkerTiming = False\<rparr>"

definition NewInternalJob :: "run_ref option \<Rightarrow> u64 \<Rightarrow> LaneID \<Rightarrow> core_error + InternalJob" where
  "NewInternalJob run keyHash laneID =
     (if run = None then Inl ErrNilJobRun
      else Inr (zeroJob\<lparr>job_KeyHash := keyHash, job_LaneID := laneID, job_Run := run\<rparr>))"

subsection \<open>The ring buffer\<close>

record laneQueue =
  lq_items :: "InternalJob list"
  lq_head :: nat
  lq_tail :: nat
  lq_size :: nat

definition newLaneQueue :: "nat \<Rightarrow> laneQueue" where
  "newLaneQueue capacity =
     \<lparr>lq_items = replicate capacity zeroJob, lq_head = 0, lq_tail = 0, lq_size = 0\<rparr>"

definition push :: "laneQueue \<Rightarrow> InternalJob \<Rightarrow> core_error + laneQueue" where
  "push q job =
     (if lq_size q = length (lq_items q) then Inl ErrQueueFull
      else Inr (q\<lparr>lq_items := (lq_items q)[lq_tail q := job],
                  lq_tail := (lq_tail q + 1) mod length (lq_items q),
                  lq_size := lq_size q + 1\<rparr>))"

definition stampJob :: "time \<Rightarrow> bool \<Rightarrow> bool \<Rightarrow> InternalJob \<Rightarrow> InternalJob" where
  "stampJob acceptedAt stampAcceptedAt trackQueueWait job =
     (let j1 = (if stampAcceptedAt then job\<lparr>job_AcceptedAt := Some acceptedAt\<rparr> else job)
      in if trackQueueWait then j1\<lparr>job_EnqueuedAt := Some acceptedAt\<rparr> else j1)"

definition stampNewestAccepted :: "laneQueue \<Rightarrow> time \<Rightarrow> bool \<Rightarrow> bool \<Rightarrow> laneQueue" where
  "stampNewestAccepted q acceptedAt stampAcceptedAt trackQueueWait =
     (if lq_size q = 0 then q
      else let idx = (lq_tail q + length (lq_items q) - 1) mod length (lq_items q)
           in q\<lparr>lq_items := (lq_items q)
                 [idx := stampJob acceptedAt stampAcceptedAt trackQueueWait (lq_items q ! idx)]\<rparr>)"

definition pop :: "laneQueue \<Rightarrow> (InternalJob \<times> bool) \<times> laneQueue" where
  "pop q =
     (if lq_size q = 0 then ((zeroJob, False), q)
      else ((lq_items q ! lq_head q, True),
            q\<lparr>lq_items := (lq_items q)[lq_head q := zeroJob],
              lq_head := (lq_head q + 1) mod length (lq_items q),
              lq_size := lq_size q - 1\<rparr>))"

text \<open>The copying loop of \<open>popN\<close>: it pops \<open>n\<close> jobs and appends them to \<open>dst\<close>.\<close>

fun popLoop :: "nat \<Rightarrow> laneQueue \<Rightarrow> InternalJob list \<Rightarrow> laneQueue \<times> InternalJob list" where
  "popLoop 0 q dst = (q, dst)"
| "popLoop (Suc n) q dst = (let (r, q') = pop q in popLoop n q' (dst @ [fst r]))"

text \<open>The slice \<open>dst\<close> is its live elements and its capacity \<open>cap(dst)\<close>.\<close>

definition popN :: "laneQueue \<Rightarrow> int \<Rightarrow> InternalJob list \<Rightarrow> nat \<Rightarrow> laneQueue \<times> InternalJob list" where
  "popN q limit dst capDst =
     (if limit \<le> 0 \<or> lq_size q = 0 then (q, dst)
      else let l1 = (if limit > int (lq_size q) then int (lq_size q) else limit);
               avail = int capDst - int (length dst);
               l2 = (if l1 > avail then avail else l1)
           in popLoop (nat l2) q dst)"

definition isFull :: "laneQueue \<Rightarrow> bool" where
  "isFull q \<longleftrightarrow> lq_size q = length (lq_items q)"

definition isEmpty :: "laneQueue \<Rightarrow> bool" where
  "isEmpty q \<longleftrightarrow> lq_size q = 0"

definition depth :: "laneQueue \<Rightarrow> nat" where
  "depth q = lq_size q"

definition capacity :: "laneQueue \<Rightarrow> nat" where
  "capacity q = length (lq_items q)"

subsection \<open>Abstraction and invariant\<close>

definition lq_list :: "laneQueue \<Rightarrow> InternalJob list" where
  "lq_list q = take (lq_size q) (rotate (lq_head q) (lq_items q))"

definition lq_wf :: "laneQueue \<Rightarrow> bool" where
  "lq_wf q \<longleftrightarrow> lq_size q \<le> length (lq_items q)
     \<and> (if lq_items q = [] then lq_head q = 0 else lq_head q < length (lq_items q))
     \<and> lq_tail q = (lq_head q + lq_size q) mod length (lq_items q)
     \<and> drop (lq_size q) (rotate (lq_head q) (lq_items q))
         = replicate (length (lq_items q) - lq_size q) zeroJob"

lemma mod_add_left_inj:
  assumes "i < n" "j < (n :: nat)"
  shows "(m + j) mod n = (m + i) mod n \<longleftrightarrow> j = i"
proof -
  have "j = i" if "i \<le> j" "j < n" "(m + j) mod n = (m + i) mod n" for i j :: nat
  proof -
    have "n dvd (m + j) - (m + i)"
      using that by (subst mod_eq_dvd_iff_nat [symmetric]) auto
    then have "n dvd j - i" by simp
    show ?thesis
    proof (rule ccontr)
      assume "j \<noteq> i"
      with that have "0 < j - i" "j - i < n" by auto
      with \<open>n dvd j - i\<close> show False by (simp add: nat_dvd_not_less)
    qed
  qed
  from this [of i j] this [of j i] assms show ?thesis by (metis nat_le_linear)
qed

lemma rotate_list_update:
  assumes "i < length xs"
  shows "rotate m (xs[(m + i) mod length xs := x]) = (rotate m xs)[i := x]"
proof (rule nth_equalityI)
  show "length (rotate m (xs[(m + i) mod length xs := x])) = length ((rotate m xs)[i := x])"
    by simp
  fix j assume "j < length (rotate m (xs[(m + i) mod length xs := x]))"
  then have j: "j < length xs" by simp
  have inj: "(m + j) mod length xs = (m + i) mod length xs \<longleftrightarrow> j = i"
    using mod_add_left_inj [OF assms j] .
  have lt: "(m + j) mod length xs < length xs" using j by (intro mod_less_divisor) auto
  show "rotate m (xs[(m + i) mod length xs := x]) ! j = (rotate m xs)[i := x] ! j"
    using assms j inj lt by (cases "j = i") (auto simp: nth_rotate nth_list_update)
qed

lemma lq_wf_rotate:
  assumes "lq_wf q"
  shows "rotate (lq_head q) (lq_items q)
    = lq_list q @ replicate (capacity q - lq_size q) zeroJob"
  using assms append_take_drop_id [of "lq_size q" "rotate (lq_head q) (lq_items q)"]
  by (simp add: lq_wf_def lq_list_def capacity_def)

lemma lq_list_length [simp]: "lq_wf q \<Longrightarrow> length (lq_list q) = lq_size q"
  by (simp add: lq_list_def lq_wf_def)


lemma lq_wf_new [inv_intros]: "lq_wf (newLaneQueue n)"
  by (simp add: lq_wf_def newLaneQueue_def)

lemma lq_list_new [simp]: "lq_list (newLaneQueue n) = []"
  by (simp add: lq_list_def newLaneQueue_def)

text \<open>A queue is determined, up to the position of its head, by its contents: the invariant and the
  contents follow from the rotated buffer.\<close>

lemma lq_wfI:
  assumes "rotate (lq_head q) (lq_items q) = xs @ replicate (length (lq_items q) - length xs) zeroJob"
    and "lq_size q = length xs" and "length xs \<le> length (lq_items q)"
    and "lq_items q \<noteq> [] \<Longrightarrow> lq_head q < length (lq_items q)" and "lq_items q = [] \<Longrightarrow> lq_head q = 0"
    and "lq_tail q = (lq_head q + lq_size q) mod length (lq_items q)"
  shows "lq_wf q" "lq_list q = xs"
  using assms by (simp_all add: lq_wf_def lq_list_def)

lemma push_full: "push q job = Inl e \<longleftrightarrow> isFull q \<and> e = ErrQueueFull"
  by (auto simp: push_def isFull_def)

lemma push_refines:
  assumes wf: "lq_wf q" and ok: "push q job = Inr q'"
  shows "lq_wf q'" "lq_list q' = lq_list q @ [job]" "capacity q' = capacity q"
proof -
  let ?n = "length (lq_items q)"
  have nf: "lq_size q < ?n" and q': "q' = q\<lparr>lq_items := (lq_items q)[lq_tail q := job],
      lq_tail := (lq_tail q + 1) mod ?n, lq_size := lq_size q + 1\<rparr>"
    using ok wf by (auto simp: push_def lq_wf_def split: if_splits)
  have t: "lq_tail q = (lq_head q + lq_size q) mod ?n" using wf by (simp add: lq_wf_def)
  have "rotate (lq_head q) ((lq_items q)[lq_tail q := job])
      = (rotate (lq_head q) (lq_items q))[lq_size q := job]"
    unfolding t by (rule rotate_list_update [OF nf])
  also have "\<dots> = (lq_list q @ [job]) @ replicate (?n - length (lq_list q @ [job])) zeroJob"
    using nf wf by (simp add: lq_wf_rotate capacity_def list_update_append Suc_diff_Suc [symmetric])
  finally have rot: "rotate (lq_head q') (lq_items q')
      = (lq_list q @ [job]) @ replicate (length (lq_items q') - length (lq_list q @ [job])) zeroJob"
    by (simp add: q')
  have tail: "lq_tail q' = (lq_head q' + lq_size q') mod length (lq_items q')"
    by (simp add: q' t mod_Suc_eq)
  note * = lq_wfI [OF rot _ _ _ _ tail]
  show "lq_wf q'"
    by (rule *(1)) (use nf wf in \<open>auto simp: q' lq_wf_def [of q]\<close>)
  show "lq_list q' = lq_list q @ [job]"
    by (rule *(2)) (use nf wf in \<open>auto simp: q' lq_wf_def [of q]\<close>)
  show "capacity q' = capacity q" by (simp add: q' capacity_def)
qed

lemma pop_empty: "lq_size q = 0 \<Longrightarrow> pop q = ((zeroJob, False), q)"
  by (simp add: pop_def)

lemma pop_refines:
  assumes wf: "lq_wf q" and ne: "lq_list q = x # xs" and p: "pop q = (r, q')"
  shows "lq_wf q'" "lq_list q' = xs" "r = (x, True)" "capacity q' = capacity q"
proof -
  let ?n = "length (lq_items q)"
  have sz: "lq_size q = Suc (length xs)" using wf ne lq_list_length [of q] by simp
  then have n: "0 < ?n" "Suc (length xs) \<le> ?n" using wf by (auto simp: lq_wf_def)
  have h: "lq_head q < ?n" using wf n by (auto simp: lq_wf_def split: if_splits)
  have q': "q' = q\<lparr>lq_items := (lq_items q)[lq_head q := zeroJob],
      lq_head := (lq_head q + 1) mod ?n, lq_size := length xs\<rparr>"
    and r: "r = (lq_items q ! lq_head q, True)"
    using p sz by (auto simp: pop_def)
  have rq: "rotate (lq_head q) (lq_items q) = x # xs @ replicate (?n - Suc (length xs)) zeroJob"
    using wf by (simp add: lq_wf_rotate ne sz capacity_def)
  have "lq_items q ! lq_head q = rotate (lq_head q) (lq_items q) ! 0"
    using n h by (subst nth_rotate) auto
  then show "r = (x, True)" by (simp add: r rq)
  have "rotate (Suc (lq_head q) mod ?n) ((lq_items q)[lq_head q := zeroJob])
      = rotate1 (rotate (lq_head q) ((lq_items q)[(lq_head q + 0) mod ?n := zeroJob]))"
    using h by (subst rotate_conv_mod [symmetric, of "Suc (lq_head q)", where xs = "(lq_items q)[lq_head q := zeroJob]", simplified]) simp
  also have "\<dots> = rotate1 ((rotate (lq_head q) (lq_items q))[0 := zeroJob])"
    using n by (subst rotate_list_update) auto
  also have "\<dots> = xs @ replicate (?n - length xs) zeroJob"
    using n by (simp add: rq replicate_append_same Suc_diff_Suc flip: replicate_Suc)
  finally have rot: "rotate (lq_head q') (lq_items q')
      = xs @ replicate (length (lq_items q') - length xs) zeroJob"
    by (simp add: q')
  have tail: "lq_tail q' = (lq_head q' + lq_size q') mod length (lq_items q')"
    using wf sz by (simp add: q' lq_wf_def mod_simps)
  note * = lq_wfI [OF rot _ _ _ _ tail]
  show "lq_wf q'"
    by (rule *(1)) (use n in \<open>auto simp: q'\<close>)
  show "lq_list q' = xs"
    by (rule *(2)) (use n in \<open>auto simp: q'\<close>)
  show "capacity q' = capacity q" by (simp add: q' capacity_def)
qed


lemma pop_drops:
  assumes "lq_wf q" "pop q = (r, q')"
  shows "lq_wf q' \<and> lq_list q' = tl (lq_list q) \<and> capacity q' = capacity q
    \<and> fst r = (if lq_list q = [] then zeroJob else hd (lq_list q)) \<and> (snd r \<longleftrightarrow> lq_list q \<noteq> [])"
proof (cases "lq_list q")
  case Nil
  then have "lq_size q = 0" using assms(1) lq_list_length [of q] by simp
  with assms Nil show ?thesis by (auto simp: pop_empty)
next
  case (Cons x xs)
  then show ?thesis using pop_refines [OF assms(1) Cons assms(2)] by simp
qed

lemma popLoop_refines:
  assumes "lq_wf q" "n \<le> lq_size q" "popLoop n q dst = (q', out)"
  shows "lq_wf q' \<and> out = dst @ take n (lq_list q) \<and> lq_list q' = drop n (lq_list q)
    \<and> capacity q' = capacity q"
  using assms
proof (induction n arbitrary: q dst)
  case 0
  then show ?case by simp
next
  case (Suc n)
  obtain r q1 where p: "pop q = (r, q1)" by (cases "pop q")
  obtain x xs where ne: "lq_list q = x # xs"
    using Suc.prems(1,2) lq_list_length [of q] by (cases "lq_list q") auto
  note q1 = pop_refines [OF Suc.prems(1) ne p]
  have "n \<le> lq_size q1" using Suc.prems(1,2) ne q1 lq_list_length [of q] lq_list_length [of q1] by simp
  with Suc.IH [OF q1(1), of "dst @ [fst r]"] Suc.prems(3) q1 ne p show ?case by simp
qed

lemma popN_refines:
  assumes "lq_wf q" "length dst \<le> capDst" "popN q limit dst capDst = (q', out)"
  defines "k \<equiv> min (nat limit) (min (lq_size q) (capDst - length dst))"
  shows "lq_wf q' \<and> out = dst @ take k (lq_list q) \<and> lq_list q' = drop k (lq_list q)
    \<and> capacity q' = capacity q"
proof (cases "limit \<le> 0 \<or> lq_size q = 0")
  case True
  then show ?thesis using assms(1,3) by (auto simp: popN_def k_def)
next
  case False
  have "nat (let l1 = if limit > int (lq_size q) then int (lq_size q) else limit;
      avail = int capDst - int (length dst) in if l1 > avail then avail else l1) = k"
    using False assms(2) by (auto simp: k_def Let_def)
  then have l: "popLoop k q dst = (q', out)"
    using False assms(3) by (simp add: popN_def Let_def)
  have "k \<le> lq_size q" by (simp add: k_def)
  from popLoop_refines [OF assms(1) this l] show ?thesis .
qed

lemma stampNewestAccepted_refines:
  assumes wf: "lq_wf q" and ne: "lq_list q = xs @ [x]"
    and q'_def: "q' = stampNewestAccepted q t a w"
  shows "lq_wf q'" "lq_list q' = xs @ [stampJob t a w x]" "capacity q' = capacity q"
proof -
  let ?n = "length (lq_items q)"
  have sz: "lq_size q = Suc (length xs)" using lq_list_length [OF wf] ne by simp
  then have n: "0 < ?n" "Suc (length xs) \<le> ?n" using wf by (auto simp: lq_wf_def)
  have t: "lq_tail q = (lq_head q + length xs + 1) mod ?n" using wf sz by (simp add: lq_wf_def)
  define i where "i = (lq_head q + length xs) mod ?n"
  have i: "(lq_tail q + ?n - 1) mod ?n = i"
  proof -
    have "(lq_tail q + ?n - 1) mod ?n = (lq_tail q + (?n - 1)) mod ?n" using n by simp
    also have "\<dots> = (lq_head q + length xs + 1 + (?n - 1)) mod ?n"
      unfolding t by (rule mod_add_left_eq)
    also have "\<dots> = (lq_head q + length xs + ?n) mod ?n" using n by simp
    also have "\<dots> = i" by (simp add: i_def)
    finally show ?thesis .
  qed
  have rq: "rotate (lq_head q) (lq_items q) = xs @ x # replicate (?n - Suc (length xs)) zeroJob"
    using wf by (simp add: lq_wf_rotate ne sz capacity_def)
  have at: "lq_items q ! i = x"
  proof -
    have "lq_items q ! i = rotate (lq_head q) (lq_items q) ! length xs"
      using n by (subst nth_rotate) (auto simp: i_def)
    then show ?thesis by (simp add: rq)
  qed
  have q': "q' = q\<lparr>lq_items := (lq_items q)[i := stampJob t a w x]\<rparr>"
    using sz by (simp add: q'_def stampNewestAccepted_def Let_def i [simplified] at)
  have "rotate (lq_head q) ((lq_items q)[i := stampJob t a w x])
      = (rotate (lq_head q) (lq_items q))[length xs := stampJob t a w x]"
    using n unfolding i_def by (intro rotate_list_update) auto
  then have rot: "rotate (lq_head q') (lq_items q') = (xs @ [stampJob t a w x])
      @ replicate (length (lq_items q') - length (xs @ [stampJob t a w x])) zeroJob"
    by (simp add: q' rq)
  note * = lq_wfI [OF rot]
  show "lq_wf q'" by (rule *(1)) (use wf n sz in \<open>auto simp: q' lq_wf_def\<close>)
  show "lq_list q' = xs @ [stampJob t a w x]"
    by (rule *(2)) (use wf n sz in \<open>auto simp: q' lq_wf_def\<close>)
  show "capacity q' = capacity q" by (simp add: q' capacity_def)
qed

subsection \<open>The contract\<close>

text \<open>What a client of a lane queue relies on, over an abstraction to a list.\<close>

datatype 'a qop = Enq 'a | Deq

text \<open>\<open>fifoRun\<close> performs a sequence of operations and collects the accepted and the delivered
  elements, in order.\<close>

fun fifoRun :: "('q \<Rightarrow> 'a \<Rightarrow> core_error + 'q) \<Rightarrow> ('q \<Rightarrow> ('a \<times> bool) \<times> 'q) \<Rightarrow> 'q \<Rightarrow> 'a qop list
    \<Rightarrow> 'q \<times> 'a list \<times> 'a list" where
  "fifoRun enq deq q [] = (q, [], [])"
| "fifoRun enq deq q (Enq x # ops) =
     (case enq q x of
        Inl _ \<Rightarrow> fifoRun enq deq q ops
      | Inr q1 \<Rightarrow> (let (q2, acc, del) = fifoRun enq deq q1 ops in (q2, x # acc, del)))"
| "fifoRun enq deq q (Deq # ops) =
     (let (r, q1) = deq q; (q2, acc, del) = fifoRun enq deq q1 ops
      in (q2, acc, if snd r then fst r # del else del))"

locale bounded_fifo =
  fixes enq :: "'q \<Rightarrow> 'a \<Rightarrow> core_error + 'q"
    and deq :: "'q \<Rightarrow> ('a \<times> bool) \<times> 'q"
    and cap :: "'q \<Rightarrow> nat"
    and contents :: "'q \<Rightarrow> 'a list"
    and invar :: "'q \<Rightarrow> bool"
  assumes enq_full: "invar q \<Longrightarrow> length (contents q) = cap q \<Longrightarrow> enq q x = Inl ErrQueueFull"
    and enq_room: "invar q \<Longrightarrow> length (contents q) < cap q \<Longrightarrow>
      \<exists>q'. enq q x = Inr q' \<and> invar q' \<and> contents q' = contents q @ [x] \<and> cap q' = cap q"
    and deq_empty: "invar q \<Longrightarrow> contents q = [] \<Longrightarrow> \<exists>z. deq q = ((z, False), q)"
    and deq_some: "invar q \<Longrightarrow> contents q = x # xs \<Longrightarrow>
      \<exists>q'. deq q = ((x, True), q') \<and> invar q' \<and> contents q' = xs \<and> cap q' = cap q"
    and within_cap: "invar q \<Longrightarrow> length (contents q) \<le> cap q"
begin

lemma enq_cases:
  assumes "invar q"
  obtains (full) "length (contents q) = cap q" "enq q x = Inl ErrQueueFull"
    | (room) q' where "enq q x = Inr q'" "invar q'" "contents q' = contents q @ [x]" "cap q' = cap q"
  using assms enq_full enq_room within_cap by (metis le_neq_implies_less)

lemma fifoRun_fifo:
  assumes "invar q" "fifoRun enq deq q ops = (q', acc, del)"
  shows "contents q @ acc = del @ contents q' \<and> invar q' \<and> length (contents q') \<le> cap q"
  using assms
proof (induction ops arbitrary: q q' acc del)
  case Nil
  then show ?case by (simp add: within_cap)
next
  case (Cons op ops)
  show ?case
  proof (cases op)
    case (Enq x)
    from \<open>invar q\<close> show ?thesis
    proof (cases rule: enq_cases [where x = x])
      case full
      then show ?thesis using Cons Enq by simp
    next
      case (room q1)
      obtain q2 acc1 del1 where r: "fifoRun enq deq q1 ops = (q2, acc1, del1)"
        by (cases "fifoRun enq deq q1 ops")
      from Cons.IH [OF room(2) r] room r Cons.prems Enq show ?thesis by auto
    qed
  next
    case Deq
    obtain r q1 where d: "deq q = (r, q1)" by (cases "deq q")
    obtain q2 acc1 del1 where f: "fifoRun enq deq q1 ops = (q2, acc1, del1)"
      by (cases "fifoRun enq deq q1 ops")
    show ?thesis
    proof (cases "contents q")
      case Nil
      with deq_empty [OF Cons.prems(1)] d have "q1 = q" "\<not> snd r" by auto
      with Cons.IH [OF Cons.prems(1)] f Cons.prems(2) d Deq show ?thesis by auto
    next
      case c: (Cons x xs)
      with deq_some [OF Cons.prems(1) c] d have "r = (x, True)" "invar q1" "contents q1 = xs" "cap q1 = cap q"
        by auto
      with Cons.IH [OF \<open>invar q1\<close> f] f Cons.prems(2) d Deq c show ?thesis by auto
    qed
  qed
qed

end

lemma isFull_iff: "lq_wf q \<Longrightarrow> isFull q \<longleftrightarrow> length (lq_list q) = capacity q"
  by (simp add: isFull_def capacity_def)

lemma push_room:
  assumes "lq_wf q" "length (lq_list q) < capacity q"
  shows "\<exists>q'. push q x = Inr q' \<and> lq_wf q' \<and> lq_list q' = lq_list q @ [x] \<and> capacity q' = capacity q"
proof (cases "push q x")
  case (Inl e)
  then show ?thesis using assms by (auto simp: push_full isFull_iff)
next
  case (Inr q')
  then show ?thesis using push_refines [OF assms(1) Inr] by blast
qed

interpretation lq: bounded_fifo push pop capacity lq_list lq_wf
proof unfold_locales
  fix q x assume "lq_wf q" "length (lq_list q) = capacity q"
  then show "push q x = Inl ErrQueueFull" by (simp add: push_full isFull_iff)
next
  fix q x assume "lq_wf q" "length (lq_list q) < capacity q"
  then show "\<exists>q'. push q x = Inr q' \<and> lq_wf q' \<and> lq_list q' = lq_list q @ [x]
      \<and> capacity q' = capacity q" by (rule push_room)
next
  fix q assume "lq_wf q" "lq_list q = []"
  then show "\<exists>z. pop q = ((z, False), q)" using lq_list_length [of q] by (auto simp: pop_empty)
next
  fix q x xs assume q: "lq_wf q" "lq_list q = x # xs"
  obtain r q' where p: "pop q = (r, q')" by (cases "pop q")
  show "\<exists>q'. pop q = ((x, True), q') \<and> lq_wf q' \<and> lq_list q' = xs \<and> capacity q' = capacity q"
    using pop_refines [OF q p] p by auto
next
  fix q assume "lq_wf q"
  then show "length (lq_list q) \<le> capacity q" by (simp add: lq_wf_def capacity_def)
qed

subsection \<open>Properties\<close>

text \<open>C8: A lane is a bounded FIFO. Whatever sequence of pushes and pops is performed on a new lane queue, the
  delivered jobs followed by the jobs still inside are exactly the accepted jobs in the order of their
  acceptance, and never more jobs are inside than the capacity.\<close>

theorem lane_queue_fifo:
  assumes "fifoRun push pop (newLaneQueue n) ops = (q', acc, del)"
  shows "acc = del @ lq_list q' \<and> length (lq_list q') \<le> n"
proof -
  have "capacity (newLaneQueue n) = n" by (simp add: capacity_def newLaneQueue_def)
  then show ?thesis using lq.fifoRun_fifo [OF lq_wf_new assms] by (metis append_Nil lq_list_new)
qed

definition demoOps :: "InternalJob qop list" where
  "demoOps = [Enq (zeroJob\<lparr>job_KeyHash := 1\<rparr>), Enq (zeroJob\<lparr>job_KeyHash := 2\<rparr>), Enq (zeroJob\<lparr>job_KeyHash := 3\<rparr>),
     Deq, Enq (zeroJob\<lparr>job_KeyHash := 4\<rparr>)]"

theorem lane_queue_fifo_witness:
  "map job_KeyHash (fst (snd (fifoRun push pop (newLaneQueue 2) demoOps))) = [1, 2, 4]
   \<and> length (lq_list (fst (fifoRun push pop (newLaneQueue 2) demoOps))) \<le> 2"
proof
  show "map job_KeyHash (fst (snd (fifoRun push pop (newLaneQueue 2) demoOps))) = [1, 2, 4]" by code_simp
  show "length (lq_list (fst (fifoRun push pop (newLaneQueue 2) demoOps))) \<le> 2"
    using lane_queue_fifo [of 2 demoOps] by (metis prod.collapse)
qed

text \<open>A popped closure is not kept alive. After any sequence of operations on a new lane queue every slot
  outside the live window holds the zero job, and the indices stay in range.\<close>

lemma lane_queue_cleared:
  assumes "fifoRun push pop (newLaneQueue n) ops = (q', acc, del)"
  shows "drop (lq_size q') (rotate (lq_head q') (lq_items q')) = replicate (length (lq_items q') - lq_size q') zeroJob
    \<and> (lq_items q' \<noteq> [] \<longrightarrow> lq_head q' < length (lq_items q') \<and> lq_tail q' < length (lq_items q'))"
proof -
  have "lq_wf q'" using lq.fifoRun_fifo [OF lq_wf_new assms] by simp
  then show ?thesis by (simp add: lq_wf_def)
qed

end
