(* ===== verification/Shard.thy ===== *)
theory Shard
  imports Lane_Queue
begin

text \<open>
  Shards: routing (\<open>hash.go\<close>, \<open>route.go\<close>), the lane queues of one shard (\<open>shard.go\<close>), the enqueue
  of \<open>enqueue.go\<close> and the batch collection of \<open>process_shard.go\<close> and \<open>pool.go\<close>. The lemmas give the
  meaning of each operation on the contents of the lanes: an enqueue appends to one lane, a
  collection takes from every lane a prefix no longer than its quota.
\<close>

unbundle bit_operations_syntax

subsection \<open>Routing\<close>

text \<open>FNV-1a, 64 bits, of \<open>hash/fnv\<close>.\<close>

definition fnvOffset64 :: u64 where "fnvOffset64 = 14695981039346656037"
definition fnvPrime64 :: u64 where "fnvPrime64 = 1099511628211"

fun fnv1aWrite :: "u64 \<Rightarrow> string \<Rightarrow> u64" where
  "fnv1aWrite h [] = h"
| "fnv1aWrite h (c # cs) = fnv1aWrite ((h XOR of_char c) * fnvPrime64) cs"

definition HashKey :: "string \<Rightarrow> u64" where
  "HashKey key = fnv1aWrite fnvOffset64 key"

definition routeShardID :: "u64 \<Rightarrow> nat \<Rightarrow> nat" where
  "routeShardID keyHash shardCount = unat (keyHash mod of_nat shardCount)"

definition routeJob :: "InternalJob \<Rightarrow> nat \<Rightarrow> nat" where
  "routeJob job shardCount = routeShardID (job_KeyHash job) shardCount"

lemma routeShardID_mod:
  "shardCount < 2 ^ 64 \<Longrightarrow> routeShardID h shardCount = unat h mod shardCount"
  by (simp add: routeShardID_def unat_mod unat_of_nat)

lemma routeShardID_less:
  "0 < shardCount \<Longrightarrow> shardCount < 2 ^ 64 \<Longrightarrow> routeShardID h shardCount < shardCount"
  by (simp add: routeShardID_mod)

subsection \<open>State\<close>

record shard =
  sh_Ready :: bool
  sh_Lanes :: "laneQueue list"

definition newShard :: "nat \<Rightarrow> nat \<Rightarrow> shard" where
  "newShard laneCount queueSizePerLane =
     \<lparr>sh_Ready = False, sh_Lanes = map (\<lambda>i. newLaneQueue queueSizePerLane) [0..<laneCount]\<rparr>"

definition totalDepthLocked :: "shard \<Rightarrow> nat" where
  "totalDepthLocked s = sum_list (map depth (sh_Lanes s))"

definition hasWorkLocked :: "shard \<Rightarrow> bool" where
  "hasWorkLocked s \<longleftrightarrow> list_ex (\<lambda>q. \<not> isEmpty q) (sh_Lanes s)"

definition laneDepthLocked :: "shard \<Rightarrow> LaneID \<Rightarrow> nat" where
  "laneDepthLocked s laneID =
     (if unat laneID \<ge> length (sh_Lanes s) then 0 else depth (sh_Lanes s ! unat laneID))"

subsection \<open>Enqueue\<close>

text \<open>\<open>now\<close> is the reading of the clock after a successful push.\<close>

definition enqueueIntoShard ::
  "shard \<Rightarrow> InternalJob \<Rightarrow> bool \<Rightarrow> bool \<Rightarrow> time \<Rightarrow> core_error + (bool \<times> shard)" where
  "enqueueIntoShard s job stampAcceptedAt trackQueueWait now =
     (if unat (job_LaneID job) \<ge> length (sh_Lanes s) then Inl ErrInvalidLaneID
      else let l = unat (job_LaneID job) in
        case push (sh_Lanes s ! l) job of
          Inl e \<Rightarrow> Inl e
        | Inr q \<Rightarrow>
            (let q' = (if stampAcceptedAt \<or> trackQueueWait
                       then stampNewestAccepted q now stampAcceptedAt trackQueueWait else q);
                 s' = s\<lparr>sh_Lanes := (sh_Lanes s)[l := q']\<rparr>
             in if \<not> sh_Ready s' then Inr (True, s'\<lparr>sh_Ready := True\<rparr>) else Inr (False, s')))"

subsection \<open>Batch collection\<close>

text \<open>
  The pooled slice: \<open>poolCap\<close> is the capacity of the slice \<open>sync.Pool\<close> hands out (its length is
  0, since \<open>releaseJobBatch\<close> resets it).
\<close>

definition acquireJobBatch :: "nat \<Rightarrow> int \<Rightarrow> nat" where
  "acquireJobBatch poolCap minCapacity =
     (if int poolCap < minCapacity then nat minCapacity else poolCap)"

fun collectLanes ::
  "int list \<Rightarrow> nat \<Rightarrow> laneQueue list \<Rightarrow> InternalJob list \<Rightarrow> nat \<Rightarrow> laneQueue list \<times> InternalJob list" where
  "collectLanes [] laneID lanes batch capB = (lanes, batch)"
| "collectLanes (quota # quotas) laneID lanes batch capB =
     (let (q', batch') = popN (lanes ! laneID) quota batch capB
      in collectLanes quotas (Suc laneID) (lanes[laneID := q']) batch' capB)"

definition collectBatch :: "bool \<Rightarrow> nat \<Rightarrow> int list \<Rightarrow> shard \<Rightarrow> shard \<times> InternalJob list" where
  "collectBatch disablePooling poolCap quotas s =
     (let totalQuota = sum_list quotas;
          capB = (if disablePooling then nat totalQuota else acquireJobBatch poolCap totalQuota);
          (lanes, batch) = collectLanes quotas 0 (sh_Lanes s) [] capB
      in (s\<lparr>sh_Lanes := lanes\<rparr>, batch))"

subsection \<open>Invariant and contents\<close>

definition shard_wf :: "shard \<Rightarrow> bool" where
  "shard_wf s \<longleftrightarrow> list_all lq_wf (sh_Lanes s)"

definition laneContents :: "shard \<Rightarrow> InternalJob list list" where
  "laneContents s = map lq_list (sh_Lanes s)"

lemma shard_wf_new [inv_intros]: "shard_wf (newShard n c)"
  by (simp add: shard_wf_def newShard_def list_all_iff lq_wf_new)

lemma hasWorkLocked_iff_depth: "hasWorkLocked s \<longleftrightarrow> 0 < totalDepthLocked s"
  by (auto simp: hasWorkLocked_def totalDepthLocked_def list_ex_iff isEmpty_def depth_def
      sum_list_eq_0_iff [where 'a = nat, simplified] simp flip: neq0_conv)

lemma totalDepthLocked_contents:
  assumes "shard_wf s"
  shows "totalDepthLocked s = sum_list (map length (laneContents s))"
proof -
  have "map depth (sh_Lanes s) = map (length \<circ> lq_list) (sh_Lanes s)"
    using assms by (simp add: shard_wf_def list_all_iff depth_def)
  then show ?thesis by (simp only: totalDepthLocked_def laneContents_def map_map)
qed

lemma hasWorkLocked_contents: "shard_wf s \<Longrightarrow> hasWorkLocked s \<longleftrightarrow> concat (laneContents s) \<noteq> []"
  by (auto simp: hasWorkLocked_def list_ex_iff isEmpty_def shard_wf_def list_all_iff laneContents_def
      simp flip: lq_list_length)


subsection \<open>What an enqueue does\<close>

lemma stampJob_none [simp]: "stampJob t False False job = job"
  by (simp add: stampJob_def)

lemma enqueueIntoShard_err_iff:
  "enqueueIntoShard s job a w now = Inl e \<longleftrightarrow>
     (unat (job_LaneID job) \<ge> length (sh_Lanes s) \<and> e = ErrInvalidLaneID)
   \<or> (unat (job_LaneID job) < length (sh_Lanes s) \<and> isFull (sh_Lanes s ! unat (job_LaneID job))
      \<and> e = ErrQueueFull)"
  by (auto simp: enqueueIntoShard_def Let_def push_full split: sum.splits if_splits)
     (metis push_full sum.distinct(1))+

lemma enqueueIntoShard_ok:
  assumes wf: "shard_wf s" and ok: "enqueueIntoShard s job a w now = Inr (b, s')"
  defines "l \<equiv> unat (job_LaneID job)"
  shows "l < length (sh_Lanes s)" "shard_wf s'"
    "laneContents s' = (laneContents s)[l := laneContents s ! l @ [stampJob now a w job]]"
    "sh_Ready s'" "b \<longleftrightarrow> \<not> sh_Ready s"
    "map capacity (sh_Lanes s') = map capacity (sh_Lanes s)"
proof -
  show l: "l < length (sh_Lanes s)"
    using ok by (auto simp: enqueueIntoShard_def l_def split: if_splits)
  obtain q where q: "push (sh_Lanes s ! l) job = Inr q"
    using ok l by (auto simp: enqueueIntoShard_def Let_def l_def split: sum.splits)
  define q' where "q' = (if a \<or> w then stampNewestAccepted q now a w else q)"
  have s': "s' = s\<lparr>sh_Lanes := (sh_Lanes s)[l := q'], sh_Ready := True\<rparr>" and b: "b \<longleftrightarrow> \<not> sh_Ready s"
    using ok l q by (auto simp: enqueueIntoShard_def Let_def l_def [symmetric] q'_def split: if_splits)
  have wfl: "lq_wf (sh_Lanes s ! l)" using wf l by (simp add: shard_wf_def list_all_nthD)
  note pr = push_refines [OF wfl q]
  have q'r: "lq_wf q'" "lq_list q' = lq_list (sh_Lanes s ! l) @ [stampJob now a w job]"
      "capacity q' = capacity (sh_Lanes s ! l)"
    using stampNewestAccepted_refines [OF pr(1,2) refl, of now a w] pr by (auto simp: q'_def)
  show "shard_wf s'" using wf q'r(1) by (simp add: s' shard_wf_def list_all_update)
  show "laneContents s' = (laneContents s)[l := laneContents s ! l @ [stampJob now a w job]]"
    using l q'r(2) by (simp add: s' laneContents_def map_update)
  show "sh_Ready s'" by (simp add: s')
  show "b \<longleftrightarrow> \<not> sh_Ready s" by (rule b)
  show "map capacity (sh_Lanes s') = map capacity (sh_Lanes s)"
    using l q'r(3) by (simp add: s' map_update) (metis list_update_id map_update)
qed

lemma concat_update_append:
  assumes "l < length xss"
  shows "mset (concat (xss[l := xss ! l @ [x]])) = add_mset x (mset (concat xss))"
  using assms
proof (induction xss arbitrary: l)
  case Nil
  then show ?case by simp
next
  case (Cons xs xss)
  then show ?case by (cases l) auto
qed

subsection \<open>What a collection does\<close>

definition batchOf :: "int list \<Rightarrow> InternalJob list list \<Rightarrow> InternalJob list" where
  "batchOf quotas cs = concat (map2 (\<lambda>q c. take (nat q) c) quotas cs)"

definition restOf :: "int list \<Rightarrow> InternalJob list list \<Rightarrow> InternalJob list list" where
  "restOf quotas cs = map2 (\<lambda>q c. drop (nat q) c) quotas cs @ drop (length quotas) cs"

definition quotaSum :: "int list \<Rightarrow> nat" where
  "quotaSum quotas = sum_list (map nat quotas)"

lemma batchOf_simps [simp]:
  "batchOf [] cs = []"
  "batchOf (q # qs) (c # cs) = take (nat q) c @ batchOf qs cs"
  by (simp_all add: batchOf_def)

lemma restOf_simps [simp]:
  "restOf [] cs = cs"
  "restOf (q # qs) (c # cs) = drop (nat q) c # restOf qs cs"
  by (simp_all add: restOf_def)

lemma restOf_length [simp]: "length qs \<le> length cs \<Longrightarrow> length (restOf qs cs) = length cs"
  by (simp add: restOf_def)

lemma popN_within:
  assumes "lq_wf q" "length dst + nat limit \<le> capB" "popN q limit dst capB = (q', out)"
  shows "lq_wf q' \<and> out = dst @ take (nat limit) (lq_list q) \<and> lq_list q' = drop (nat limit) (lq_list q)
    \<and> capacity q' = capacity q"
proof -
  have d: "length dst \<le> capB" using assms(2) by simp
  have "min (nat limit) (min (lq_size q) (capB - length dst)) = min (nat limit) (lq_size q)"
    using assms(2) by auto
  moreover have "take (min (nat limit) (lq_size q)) (lq_list q) = take (nat limit) (lq_list q)"
    "drop (min (nat limit) (lq_size q)) (lq_list q) = drop (nat limit) (lq_list q)"
    using lq_list_length [OF assms(1)] by (auto simp: min_def)
  ultimately show ?thesis using popN_refines [OF assms(1) d assms(3)] by simp
qed

lemma collectLanes_refines:
  assumes "list_all lq_wf lanes" "i + length quotas \<le> length lanes"
    and "length batch + quotaSum quotas \<le> capB"
    and "collectLanes quotas i lanes batch capB = (lanes', batch')"
  shows "list_all lq_wf lanes' \<and> batch' = batch @ batchOf quotas (drop i (map lq_list lanes))
    \<and> map lq_list lanes' = take i (map lq_list lanes) @ restOf quotas (drop i (map lq_list lanes))
    \<and> map capacity lanes' = map capacity lanes"
  using assms
proof (induction quotas i lanes batch capB rule: collectLanes.induct)
  case (1 i lanes batch capB)
  then show ?case by simp
next
  case (2 quota quotas i lanes batch capB)
  obtain q' b' where p: "popN (lanes ! i) quota batch capB = (q', b')"
    by (cases "popN (lanes ! i) quota batch capB")
  have i: "i < length lanes" using "2.prems"(2) by simp
  have fit: "length batch + nat quota \<le> capB" using "2.prems"(3) by (simp add: quotaSum_def)
  have wfi: "lq_wf (lanes ! i)" using "2.prems"(1) i by (rule list_all_nthD)
  note pr = popN_within [OF wfi fit p]
  have b': "length b' \<le> length batch + nat quota" using pr by simp
  have step: "collectLanes quotas (Suc i) (lanes[i := q']) b' capB = (lanes', batch')"
    using "2.prems"(4) p by simp
  have IH: "list_all lq_wf lanes' \<and> batch' = b' @ batchOf quotas (drop (Suc i) (map lq_list (lanes[i := q'])))
    \<and> map lq_list lanes' = take (Suc i) (map lq_list (lanes[i := q']))
        @ restOf quotas (drop (Suc i) (map lq_list (lanes[i := q'])))
    \<and> map capacity lanes' = map capacity (lanes[i := q'])"
    by (rule "2.IH" [OF p [symmetric] refl _ _ _ step])
       (use pr b' "2.prems" in \<open>auto simp: list_all_update quotaSum_def\<close>)
  have cap: "map capacity (lanes[i := q']) = map capacity lanes"
    using pr i by (metis list_update_id map_update)
  have d: "drop i (map lq_list lanes) = lq_list (lanes ! i) # drop (Suc i) (map lq_list lanes)"
    using i by (metis Cons_nth_drop_Suc length_map nth_map)
  have u: "drop (Suc i) (map lq_list (lanes[i := q'])) = drop (Suc i) (map lq_list lanes)"
    "take (Suc i) (map lq_list (lanes[i := q'])) = take i (map lq_list lanes) @ [lq_list q']"
    using i by (simp_all add: map_update take_Suc_conv_app_nth)
  show ?case using IH pr by (simp only: d u cap batchOf_simps restOf_simps append_assoc append_Cons append_Nil)
qed

lemma quotaSum_nonneg: "\<forall>q \<in> set quotas. 0 \<le> q \<Longrightarrow> int (quotaSum quotas) = sum_list quotas"
  by (induction quotas) (auto simp: quotaSum_def)

lemma collectBatch_refines:
  assumes wf: "shard_wf s" and len: "length quotas \<le> length (sh_Lanes s)"
    and nn: "\<forall>q \<in> set quotas. 0 \<le> q"
    and c: "collectBatch dp poolCap quotas s = (s', batch)"
  shows "shard_wf s' \<and> batch = batchOf quotas (laneContents s)
    \<and> laneContents s' = restOf quotas (laneContents s) \<and> sh_Ready s' = sh_Ready s
    \<and> map capacity (sh_Lanes s') = map capacity (sh_Lanes s)"
proof -
  define capB where "capB = (if dp then nat (sum_list quotas) else acquireJobBatch poolCap (sum_list quotas))"
  obtain lanes where l: "collectLanes quotas 0 (sh_Lanes s) [] capB = (lanes, batch)"
    and s': "s' = s\<lparr>sh_Lanes := lanes\<rparr>"
    using c by (auto simp: collectBatch_def Let_def capB_def split: prod.splits)
  have "quotaSum quotas \<le> capB"
    using quotaSum_nonneg [OF nn] by (auto simp: capB_def acquireJobBatch_def)
  then have "list_all lq_wf lanes \<and> batch = [] @ batchOf quotas (drop 0 (map lq_list (sh_Lanes s)))
    \<and> map lq_list lanes = take 0 (map lq_list (sh_Lanes s)) @ restOf quotas (drop 0 (map lq_list (sh_Lanes s)))
    \<and> map capacity lanes = map capacity (sh_Lanes s)"
    using wf len by (intro collectLanes_refines [OF _ _ _ l]) (simp_all add: shard_wf_def)
  then show ?thesis by (simp add: s' shard_wf_def laneContents_def)
qed

lemma mset_batch_rest:
  "length quotas \<le> length cs \<Longrightarrow>
     mset (batchOf quotas cs) + mset (concat (restOf quotas cs)) = mset (concat cs)"
proof (induction quotas arbitrary: cs)
  case Nil
  then show ?case by simp
next
  case (Cons q quotas)
  then obtain c cs' where cs: "cs = c # cs'" by (cases cs) auto
  have "mset (take (nat q) c) + mset (drop (nat q) c) = mset c"
    by (metis append_take_drop_id mset_append)
  then show ?case using Cons.IH [of cs'] Cons.prems cs by (simp add: ac_simps)
qed

end
