(* ===== verification/Lane_Registry.thy ===== *)
theory Lane_Registry
  imports Keylane_Prelude
begin

text \<open>
  The lane registry of \<open>internal/core/lane_registry.go\<close>: lane names are sorted and numbered, and
  the registry maps names to \<open>LaneID\<close>s and back. A Go map is given as the list of its entries in
  the order one iteration visits them (keys distinct, order arbitrary); the theory shows that the
  registry does not depend on that order. \<open>LaneID\<close> is a \<open>uint16\<close>, so the conversion
  \<open>LaneID(i)\<close> truncates.
\<close>

record LaneRegistry =
  reg_ids :: "string \<rightharpoonup> LaneID"
  reg_names :: "string list"
  reg_quotas :: "int list"

type_synonym 'v go_map = "(string \<times> 'v) list"

text \<open>Reading a missing key of a Go map gives the zero value.\<close>

definition mapGet :: "'v \<Rightarrow> 'v go_map \<Rightarrow> string \<Rightarrow> 'v" where
  "mapGet zero m k = (case map_of m k of None \<Rightarrow> zero | Some v \<Rightarrow> v)"

lemma mapGet_in: "distinct (map fst m) \<Longrightarrow> e \<in> set m \<Longrightarrow> mapGet z m (fst e) = snd e"
  by (cases e) (simp add: mapGet_def map_of_is_SomeI)

lemma mapGet_mset:
  assumes "distinct (map fst m)" "mset m' = mset m"
  shows "mapGet z m' k = mapGet z m k"
proof -
  have "set m' = set m" using assms(2) by (rule mset_eq_setD)
  moreover have "mset (map fst m') = mset (map fst m)" using assms(2) by simp
  then have "distinct (map fst m')" using assms(1) mset_eq_imp_distinct_iff by blast
  ultimately have "map_of m' = map_of m" using assms(1) by (metis map_of_inject_set)
  then show ?thesis by (simp add: mapGet_def)
qed

text \<open>The numbering loop: \<open>i\<close> is the index of the first name of the rest.\<close>

fun registerLanes :: "int go_map \<Rightarrow> nat \<Rightarrow> string list \<Rightarrow> LaneRegistry \<Rightarrow> core_error + LaneRegistry" where
  "registerLanes quotas i [] r = Inr r"
| "registerLanes quotas i (name # rest) r =
     (let quota = mapGet 0 quotas name
      in if quota < 1 then Inl ErrInvalidLaneQuota
         else registerLanes quotas (Suc i) rest
           (r\<lparr>reg_ids := (reg_ids r)(name \<mapsto> of_nat i),
              reg_names := (reg_names r)[i := name],
              reg_quotas := (reg_quotas r)[i := quota]\<rparr>))"

definition NewLaneRegistry :: "int go_map \<Rightarrow> core_error + LaneRegistry" where
  "NewLaneRegistry quotas =
     (if quotas = [] then Inl ErrMissingLaneQuotas
      else if list_ex (\<lambda>e. fst e = []) quotas then Inl ErrInvalidLane
      else registerLanes quotas 0 (sort (map fst quotas))
        \<lparr>reg_ids = Map.empty, reg_names = replicate (length quotas) [],
         reg_quotas = replicate (length quotas) 0\<rparr>)"

definition Lookup :: "LaneRegistry \<Rightarrow> string \<Rightarrow> LaneID option" where
  "Lookup r lane = reg_ids r lane"

definition Quota :: "LaneRegistry \<Rightarrow> LaneID \<Rightarrow> int" where
  "Quota r lid = (if unat lid \<ge> length (reg_quotas r) then 0 else reg_quotas r ! unat lid)"

definition Name :: "LaneRegistry \<Rightarrow> LaneID \<Rightarrow> string" where
  "Name r lid = (if unat lid \<ge> length (reg_names r) then [] else reg_names r ! unat lid)"

definition Len :: "LaneRegistry \<Rightarrow> nat" where
  "Len r = length (reg_names r)"

subsection \<open>The loop computes the numbering\<close>

lemma registerLanes_err:
  "registerLanes qs i ns r = Inl e \<Longrightarrow> e = ErrInvalidLaneQuota \<and> (\<exists>n \<in> set ns. mapGet 0 qs n < 1)"
  by (induction qs i ns r rule: registerLanes.induct) (auto simp: Let_def split: if_splits)

lemma registerLanes_ok_iff:
  "isOk (registerLanes qs i ns r) \<longleftrightarrow> (\<forall>n \<in> set ns. 1 \<le> mapGet 0 qs n)"
  by (induction qs i ns r rule: registerLanes.induct) (auto simp: Let_def)

lemma registerLanes_names:
  assumes "registerLanes qs i ns r = Inr r'" "i + length ns \<le> length (reg_names r)"
  shows "reg_names r' = take i (reg_names r) @ ns @ drop (i + length ns) (reg_names r)"
  using assms
proof (induction qs i ns r rule: registerLanes.induct)
  case (1 qs i r)
  then show ?case by simp
next
  case (2 qs i n ns r)
  then show ?case
    by (auto simp: Let_def take_Suc_conv_app_nth drop_update_cancel split: if_splits)
qed

lemma registerLanes_quotas:
  assumes "registerLanes qs i ns r = Inr r'" "i + length ns \<le> length (reg_quotas r)"
  shows "reg_quotas r' = take i (reg_quotas r) @ map (mapGet 0 qs) ns
    @ drop (i + length ns) (reg_quotas r)"
  using assms
proof (induction qs i ns r rule: registerLanes.induct)
  case (1 qs i r)
  then show ?case by simp
next
  case (2 qs i n ns r)
  then show ?case
    by (auto simp: Let_def take_Suc_conv_app_nth drop_update_cancel split: if_splits)
qed

lemma registerLanes_ids:
  assumes "registerLanes qs i ns r = Inr r'" "distinct ns"
  shows "reg_ids r' = reg_ids r ++ map_of (zip ns (map of_nat [i..<i + length ns]))"
  using assms
proof (induction qs i ns r rule: registerLanes.induct)
  case (1 qs i r)
  then show ?case by simp
next
  case (2 qs i n ns r)
  let ?M = "map_of (zip ns (map of_nat [Suc i..<Suc i + length ns])) :: string \<rightharpoonup> LaneID"
  have "?M n = None"
    using "2.prems"(2) by (subst map_of_zip_is_None) (simp_all del: upt_Suc)
  then have n: "n \<notin> dom ?M" by (simp only: domIff not_not)
  have "reg_ids r' = (reg_ids r)(n \<mapsto> of_nat i) ++ ?M"
    using 2 by (simp add: Let_def fun_upd_def del: upt_Suc split: if_splits)
  also have "\<dots> = reg_ids r ++ ?M(n \<mapsto> of_nat i)"
    unfolding map_add_upd by (rule map_add_upd_left [OF n])
  finally show ?case by (simp add: upt_conv_Cons fun_eq_iff map_add_def del: upt_Suc)
qed

lemma NewLaneRegistry_fields:
  assumes "NewLaneRegistry qs = Inr r" "distinct (map fst qs)"
  shows "reg_names r = sort (map fst qs)"
    and "reg_quotas r = map (mapGet 0 qs) (reg_names r)"
    and "reg_ids r = map_of (zip (reg_names r) (map of_nat [0..<length qs]))"
proof -
  let ?ns = "sort (map fst qs)"
  let ?r0 = "\<lparr>reg_ids = Map.empty, reg_names = replicate (length qs) [],
         reg_quotas = replicate (length qs) 0\<rparr> :: LaneRegistry"
  have loop: "registerLanes qs 0 ?ns ?r0 = Inr r"
    using assms(1) by (auto simp: NewLaneRegistry_def split: if_splits)
  show names: "reg_names r = ?ns" using registerLanes_names [OF loop] by simp
  show "reg_quotas r = map (mapGet 0 qs) (reg_names r)"
    using registerLanes_quotas [OF loop] names by simp
  show "reg_ids r = map_of (zip (reg_names r) (map of_nat [0..<length qs]))"
    using registerLanes_ids [OF loop] assms(2) names by simp
qed

lemma NewLaneRegistry_ok_iff:
  assumes "distinct (map fst qs)"
  shows "isOk (NewLaneRegistry qs) \<longleftrightarrow>
    qs \<noteq> [] \<and> (\<forall>(lane, quota) \<in> set qs. lane \<noteq> [] \<and> 1 \<le> quota)"
proof -
  note get = mapGet_in [OF assms]
  show ?thesis
    using get
    by (auto simp: NewLaneRegistry_def registerLanes_ok_iff list_ex_iff split_beta)
qed

text \<open>A well-formed registry: the shape every registry built by \<open>NewLaneRegistry\<close> has.\<close>

definition reg_wf :: "LaneRegistry \<Rightarrow> bool" where
  "reg_wf r \<longleftrightarrow> reg_names r \<noteq> [] \<and> distinct (reg_names r) \<and> sorted (reg_names r)
     \<and> [] \<notin> set (reg_names r)
     \<and> length (reg_quotas r) = length (reg_names r) \<and> (\<forall>q \<in> set (reg_quotas r). 1 \<le> q)
     \<and> reg_ids r = map_of (zip (reg_names r) (map of_nat [0..<length (reg_names r)]))"

lemma NewLaneRegistry_wf [inv_intros]:
  assumes "NewLaneRegistry qs = Inr r" "distinct (map fst qs)"
  shows "reg_wf r"
proof -
  note f = NewLaneRegistry_fields [OF assms]
  have ok: "qs \<noteq> [] \<and> (\<forall>(lane, quota) \<in> set qs. lane \<noteq> [] \<and> 1 \<le> quota)"
    using NewLaneRegistry_ok_iff [OF assms(2)] assms(1) by (simp add: isOk_iff)
  note get = mapGet_in [OF assms(2)]
  have len: "length (reg_names r) = length qs" by (simp add: f(1))
  have "length (reg_names r) \<noteq> 0" using ok len by simp
  then have names: "reg_names r \<noteq> []" "distinct (reg_names r)" "sorted (reg_names r)"
      "[] \<notin> set (reg_names r)"
    using ok assms(2) by (simp_all only: length_0_conv not_False_eq_True f(1))
      (auto simp: split_beta)
  have "\<forall>q \<in> set (reg_quotas r). 1 \<le> q"
    using ok get by (auto simp: f(1,2) split_beta)
  with names show ?thesis
    by (simp add: reg_wf_def f(3) len) (simp add: f(2) len)
qed

lemma Lookup_Some_iff:
  assumes "reg_wf r"
  shows "Lookup r lane = Some l \<longleftrightarrow> (\<exists>i < Len r. reg_names r ! i = lane \<and> l = of_nat i)"
proof -
  let ?n = "length (reg_names r)"
  have d: "distinct (map fst (zip (reg_names r) (map of_nat [0..<?n] :: LaneID list)))"
    using assms by (simp add: reg_wf_def)
  have "Lookup r lane = map_of (zip (reg_names r) (map of_nat [0..<?n])) lane"
    using assms by (simp add: Lookup_def reg_wf_def)
  then have "Lookup r lane = Some l \<longleftrightarrow>
      (lane, l) \<in> set (zip (reg_names r) (map of_nat [0..<?n]))"
    by (simp only: map_of_eq_Some_iff [OF d])
  also have "\<dots> \<longleftrightarrow> (\<exists>i < Len r. reg_names r ! i = lane \<and> l = of_nat i)"
    by (auto simp: set_zip Len_def)
  finally show ?thesis .
qed

lemma Lookup_None_iff: "reg_wf r \<Longrightarrow> Lookup r lane = None \<longleftrightarrow> lane \<notin> set (reg_names r)"
  by (simp add: reg_wf_def Lookup_def map_of_zip_is_None)

lemma Name_nth: "i < Len r \<Longrightarrow> i < 65536 \<Longrightarrow> Name r (of_nat i) = reg_names r ! i"
  by (simp add: Name_def Len_def unat_of_nat take_bit_nat_def)

lemma Quota_nth:
  "i < length (reg_quotas r) \<Longrightarrow> i < 65536 \<Longrightarrow> Quota r (of_nat i) = reg_quotas r ! i"
  by (simp add: Quota_def unat_of_nat take_bit_nat_def)

text \<open>Looking a name up and reading the name back are inverse, as long as the lane numbers fit
  a \<open>uint16\<close>.\<close>

lemma Name_Lookup:
  assumes "reg_wf r" "Len r \<le> 65536" "Lookup r lane = Some l"
  shows "Name r l = lane \<and> unat l < Len r"
proof -
  obtain i where i: "i < Len r" "reg_names r ! i = lane" "l = of_nat i"
    using assms(1,3) by (auto simp: Lookup_Some_iff)
  then show ?thesis
    using assms(2) Name_nth [of i r] by (simp add: unat_of_nat take_bit_nat_def)
qed

lemma Lookup_Name:
  assumes "reg_wf r" "unat l < Len r"
  shows "Lookup r (Name r l) = Some l"
  using assms by (auto simp: Lookup_Some_iff Name_def Len_def intro!: exI [of _ "unat l"])

lemma Lookup_inj:
  assumes "reg_wf r" "Len r \<le> 65536" "Lookup r a = Some l" "Lookup r b = Some l"
  shows "a = b"
  using Name_Lookup [OF assms(1,2)] assms(3,4) by metis

text \<open>Iteration order does not matter: permuted inputs give the same registry.\<close>

lemma registerLanes_cong:
  assumes "\<And>n. mapGet 0 qs' n = mapGet 0 qs n"
  shows "registerLanes qs' i ns r = registerLanes qs i ns r"
  using assms by (induction qs i ns r rule: registerLanes.induct) (simp_all add: Let_def)

lemma NewLaneRegistry_perm:
  assumes "distinct (map fst qs)" "mset qs' = mset qs"
  shows "NewLaneRegistry qs' = NewLaneRegistry qs"
proof -
  have set: "set qs' = set qs" and len: "length qs' = length qs"
    using assms(2) by (auto dest: mset_eq_setD mset_eq_length)
  have "mset (map fst qs') = mset (map fst qs)" using assms(2) by simp
  then have sort: "sort (map fst qs') = sort (map fst qs)"
    by (metis properties_for_sort mset_sort sorted_sort)
  have empty: "qs' = [] \<longleftrightarrow> qs = []" using len by (metis length_0_conv)
  have ex: "list_ex (\<lambda>e. fst e = []) qs' = list_ex (\<lambda>e. fst e = []) qs"
    by (simp add: list_ex_iff set)
  show ?thesis
    by (simp only: NewLaneRegistry_def empty ex sort len
        registerLanes_cong [OF mapGet_mset [OF assms]])
qed

text \<open>With more than 65536 lanes two lanes share an id.\<close>

lemma Lookup_collision:
  assumes "reg_wf r" "65536 < Len r"
  shows "\<exists>a b. a \<noteq> b \<and> a \<in> set (reg_names r) \<and> b \<in> set (reg_names r) \<and> Lookup r a = Lookup r b"
proof -
  have d: "distinct (reg_names r)" using assms(1) by (simp add: reg_wf_def)
  let ?a = "reg_names r ! 0" and ?b = "reg_names r ! 65536"
  have "Lookup r ?a = Some (of_nat 0)"
    unfolding Lookup_Some_iff [OF assms(1)] using assms(2) by (intro exI [of _ 0]) simp
  moreover have "Lookup r ?b = Some (of_nat 65536)"
    unfolding Lookup_Some_iff [OF assms(1)] using assms(2) by (intro exI [of _ 65536]) simp
  moreover have "(of_nat 65536 :: LaneID) = of_nat 0" by simp
  moreover have "?a \<noteq> ?b"
    using nth_eq_iff_index_eq [OF d, of 0 65536] assms(2) by (force simp: Len_def)
  ultimately show ?thesis using assms(2) by (metis Len_def nth_mem gr_zeroI less_nat_zero_code)
qed

subsection \<open>Properties\<close>

text \<open>C13: Lane names and lane ids are inverse. In a registry built from at most 65536 lanes, every configured lane
  is found, reading the name of its id gives the lane back, its quota is the configured one, and an unknown lane
  is not found.\<close>

theorem lane_lookup_roundtrip:
  assumes "NewLaneRegistry quotas = Inr r" "distinct (map fst quotas)" "length quotas \<le> 65536"
  shows "((lane, quota) \<in> set quotas \<longrightarrow>
      (\<exists>l. Lookup r lane = Some l \<and> Name r l = lane \<and> Quota r l = quota \<and> unat l < Len r))
    \<and> (lane \<notin> fst ` set quotas \<longrightarrow> Lookup r lane = None)"
proof (intro conjI impI)
  note wf = NewLaneRegistry_wf [OF assms(1,2)] and f = NewLaneRegistry_fields [OF assms(1,2)]
  have len: "Len r \<le> 65536" "length (reg_quotas r) = Len r" using assms(3) by (simp_all add: Len_def f)
  show "\<exists>l. Lookup r lane = Some l \<and> Name r l = lane \<and> Quota r l = quota \<and> unat l < Len r"
    if q: "(lane, quota) \<in> set quotas"
  proof -
    have "lane \<in> set (reg_names r)" using q by (force simp: f(1))
    then obtain i where i: "i < Len r" "reg_names r ! i = lane" by (auto simp: in_set_conv_nth Len_def)
    have l: "Lookup r lane = Some (of_nat i)" using Lookup_Some_iff [OF wf] i by blast
    have "Quota r (of_nat i) = reg_quotas r ! i" using i len by (intro Quota_nth) simp_all
    also have "\<dots> = mapGet 0 quotas lane" using i by (simp add: f(2) Len_def)
    also have "\<dots> = quota" using mapGet_in [OF assms(2) q] by simp
    finally show ?thesis using l Name_Lookup [OF wf len(1) l] by blast
  qed
  show "Lookup r lane = None" if "lane \<notin> fst ` set quotas"
    using that Lookup_None_iff [OF wf] by (simp add: f(1))
qed

theorem lane_lookup_roundtrip_witness:
  "\<exists>r l. NewLaneRegistry [(''io'', 4), (''bg'', 1)] = Inr r \<and> Lookup r ''io'' = Some l \<and> Name r l = ''io''"
proof -
  let ?q = "[(''io'', 4), (''bg'', 1)] :: int go_map"
  have d: "distinct (map fst ?q)" by simp
  then have "isOk (NewLaneRegistry ?q)" by (subst NewLaneRegistry_ok_iff) simp_all
  then obtain r where r: "NewLaneRegistry ?q = Inr r" by (auto simp: isOk_iff)
  then show ?thesis using lane_lookup_roundtrip [OF r d, of "''io''" 4] by auto
qed

text \<open>Numbering does not depend on map iteration order: two iterations over the same quota map give the same
  registry.\<close>

lemma lane_order_independent:
  assumes "distinct (map fst quotas)" "mset quotas' = mset quotas"
  shows "NewLaneRegistry quotas' = NewLaneRegistry quotas"
  using assms by (rule NewLaneRegistry_perm)

text \<open>Construction succeeds exactly on a non-empty map of non-empty lane names with positive quotas.\<close>

lemma lane_registry_accepts:
  assumes "distinct (map fst quotas)"
  shows "isOk (NewLaneRegistry quotas) \<longleftrightarrow>
    quotas \<noteq> [] \<and> (\<forall>(lane, quota) \<in> set quotas. lane \<noteq> [] \<and> 1 \<le> quota)"
  using assms by (rule NewLaneRegistry_ok_iff)

text \<open>Lane ids wrap. \<open>LaneID(i)\<close> truncates to sixteen bits, and nothing limits the number of lanes: with more
  than 65536 lanes two different configured lanes get the same id, so jobs of one run under the quota and the
  counters of the other.\<close>

lemma lane_id_collision:
  assumes "NewLaneRegistry quotas = Inr r" "distinct (map fst quotas)" "65536 < length quotas"
  shows "\<exists>a b. a \<noteq> b \<and> a \<in> fst ` set quotas \<and> b \<in> fst ` set quotas \<and> Lookup r a = Lookup r b"
proof -
  have n: "reg_names r = sort (map fst quotas)" by (rule NewLaneRegistry_fields(1) [OF assms(1,2)])
  have len: "65536 < Len r" unfolding Len_def n length_sort length_map by (rule assms(3))
  have "set (reg_names r) = fst ` set quotas" unfolding n set_sort set_map ..
  then show ?thesis using Lookup_collision [OF NewLaneRegistry_wf [OF assms(1,2)] len] by metis
qed

definition manyLanes :: "nat \<Rightarrow> int go_map" where
  "manyLanes n = map (\<lambda>i. (replicate (Suc i) CHR ''a'', 1)) [0..<n]"

lemma manyLanes_distinct: "distinct (map fst (manyLanes n))"
proof -
  have "inj_on (\<lambda>i. replicate (Suc i) CHR ''a'') {0..<n}"
    by (rule inj_onI) (metis length_replicate nat.inject)
  then show ?thesis by (simp only: manyLanes_def map_map comp_def fst_conv distinct_map distinct_upt set_upt simp_thms)
qed

lemma manyLanes_ok: "0 < n \<Longrightarrow> \<exists>r. NewLaneRegistry (manyLanes n) = Inr r"
  using NewLaneRegistry_ok_iff [OF manyLanes_distinct, of n]
  by (simp only: isOk_iff) (auto simp: manyLanes_def)

lemma manyLanes_length: "length (manyLanes n) = n"
  by (simp add: manyLanes_def)

end
