(* ===== verification/Quota_Policy.thy ===== *)
theory Quota_Policy
  imports Lane_Registry
begin

text \<open>
  The drain-quota policy of \<open>internal/core/quota_policy.go\<close>: validation of a policy against the lane
  registry and the immutable snapshot the workers read. The lemmas give the exact acceptance
  condition, the quota of every lane, and the round trip between a snapshot and its view.
\<close>

definition MaxLaneQuota :: u32 where "MaxLaneQuota = 1024"

record QuotaPolicyInput =
  qpi_DefaultQuota :: u32
  qpi_LaneQuotas :: "u32 go_map"

record quotaPolicySnapshot =
  qps_version :: u64
  qps_defaultQuota :: u32
  qps_laneQuotas :: "int list"

subsection \<open>What the lane policies share\<close>

text \<open>
  The contract of a lane policy: what \<open>build\<close> accepts becomes a snapshot in \<open>snap_ok\<close>, built snapshots
  are unversioned, and building from the \<open>view\<close> of a snapshot gives the snapshot back. The quota,
  admission and overload policies are the three interpretations.
\<close>

locale lane_policy =
  fixes build :: "LaneRegistry \<Rightarrow> 'p \<Rightarrow> core_error + 's"
    and view :: "LaneRegistry \<Rightarrow> 's \<Rightarrow> u64 \<times> 'p"
    and snap_ok :: "LaneRegistry \<Rightarrow> 's \<Rightarrow> bool"
    and set_version :: "u64 \<Rightarrow> 's \<Rightarrow> 's"
  assumes build_ok: "reg_wf reg \<Longrightarrow> Len reg \<le> 65536 \<Longrightarrow> build reg p = Inr s \<Longrightarrow> snap_ok reg s"
    and build_version: "build reg p = Inr s \<Longrightarrow> set_version 0 s = s"
    and build_view: "reg_wf reg \<Longrightarrow> Len reg \<le> 65536 \<Longrightarrow> snap_ok reg s \<Longrightarrow>
      build reg (snd (view reg s)) = Inr (set_version 0 s)"
    and view_version: "snd (view reg (set_version v s)) = snd (view reg s)"
    and ok_version: "snap_ok reg (set_version v s) \<longleftrightarrow> snap_ok reg s"
begin

text \<open>Whatever was accepted once is accepted again when it is read back, under any version
  it was published with, and yields the same snapshot.\<close>

lemma republish:
  assumes "reg_wf reg" "Len reg \<le> 65536" "build reg p = Inr s"
  shows "build reg (snd (view reg (set_version v s))) = Inr s"
  using assms build_ok build_view build_version by (simp add: view_version)

end

text \<open>One entry per registered lane, in \<open>LaneID\<close> order; the loop asks for \<open>Name(LaneID(i))\<close>.\<close>

definition laneTable :: "LaneRegistry \<Rightarrow> (string \<Rightarrow> 'e) \<Rightarrow> 'e list" where
  "laneTable reg f = map (\<lambda>i. f (Name reg (of_nat i))) [0..<Len reg]"

lemma length_laneTable [simp, len_simps]: "length (laneTable reg f) = Len reg"
  by (simp add: laneTable_def)

lemma laneTable_names:
  "Len reg \<le> 65536 \<Longrightarrow> laneTable reg f = map f (reg_names reg)"
  by (rule nth_equalityI) (simp_all add: laneTable_def Name_nth Len_def)

definition snapshotFromRegistry :: "LaneRegistry \<Rightarrow> quotaPolicySnapshot" where
  "snapshotFromRegistry reg =
     \<lparr>qps_version = 0, qps_defaultQuota = 1,
      qps_laneQuotas = map (\<lambda>i. Quota reg (of_nat i)) [0..<Len reg]\<rparr>"

text \<open>The validation loop over the entries of the map, in iteration order.\<close>

fun validateLaneQuotas :: "LaneRegistry \<Rightarrow> u32 go_map \<Rightarrow> core_error option" where
  "validateLaneQuotas reg [] = None"
| "validateLaneQuotas reg ((lane, q) # rest) =
     (if lane = [] then Some ErrInvalidLane
      else if Lookup reg lane = None then Some ErrInvalidQuotaPolicy
      else if q < 1 then Some ErrInvalidLaneQuota
      else if q > MaxLaneQuota then Some ErrQuotaTooLarge
      else validateLaneQuotas reg rest)"

definition buildQuotaPolicySnapshot ::
  "LaneRegistry \<Rightarrow> QuotaPolicyInput \<Rightarrow> core_error + quotaPolicySnapshot" where
  "buildQuotaPolicySnapshot reg policy =
     (if qpi_DefaultQuota policy < 1 then Inl ErrInvalidLaneQuota
      else if qpi_DefaultQuota policy > MaxLaneQuota then Inl ErrQuotaTooLarge
      else case validateLaneQuotas reg (qpi_LaneQuotas policy) of
        Some e \<Rightarrow> Inl e
      | None \<Rightarrow> Inr
          \<lparr>qps_version = 0, qps_defaultQuota = qpi_DefaultQuota policy,
           qps_laneQuotas = laneTable reg (\<lambda>name.
             case map_of (qpi_LaneQuotas policy) name of
               Some q \<Rightarrow> uint q | None \<Rightarrow> uint (qpi_DefaultQuota policy))\<rparr>)"

text \<open>The map that \<open>CurrentQuotaPolicyView\<close> returns, entries in \<open>LaneID\<close> order.\<close>

definition quotaPolicyView :: "LaneRegistry \<Rightarrow> quotaPolicySnapshot \<Rightarrow> u64 \<times> QuotaPolicyInput" where
  "quotaPolicyView reg snap =
     (qps_version snap,
      \<lparr>qpi_DefaultQuota = qps_defaultQuota snap,
       qpi_LaneQuotas = map (\<lambda>i. (Name reg (of_nat i), word_of_int (qps_laneQuotas snap ! i)))
         [0..<Len reg]\<rparr>)"

subsection \<open>Acceptance\<close>

definition quotaOk :: "u32 \<Rightarrow> bool" where
  "quotaOk q \<longleftrightarrow> 1 \<le> q \<and> q \<le> MaxLaneQuota"

lemma validateLaneQuotas_None_iff:
  "validateLaneQuotas reg m = None \<longleftrightarrow>
     (\<forall>(lane, q) \<in> set m. lane \<noteq> [] \<and> Lookup reg lane \<noteq> None \<and> quotaOk q)"
  by (induction reg m rule: validateLaneQuotas.induct) (auto simp: quotaOk_def)

lemma buildQuotaPolicySnapshot_ok_iff:
  "isOk (buildQuotaPolicySnapshot reg policy) \<longleftrightarrow>
     quotaOk (qpi_DefaultQuota policy) \<and>
     (\<forall>(lane, q) \<in> set (qpi_LaneQuotas policy). lane \<noteq> [] \<and> Lookup reg lane \<noteq> None \<and> quotaOk q)"
  unfolding validateLaneQuotas_None_iff [symmetric]
  by (auto simp: buildQuotaPolicySnapshot_def quotaOk_def split: option.splits)

lemma uint_quotaOk: "quotaOk q \<Longrightarrow> 1 \<le> uint q \<and> uint q \<le> 1024"
  by (simp add: quotaOk_def MaxLaneQuota_def word_le_def)

text \<open>What a snapshot that was built from a policy always satisfies.\<close>

definition quotaSnap_ok :: "LaneRegistry \<Rightarrow> quotaPolicySnapshot \<Rightarrow> bool" where
  "quotaSnap_ok reg snap \<longleftrightarrow> length (qps_laneQuotas snap) = Len reg
     \<and> quotaOk (qps_defaultQuota snap) \<and> (\<forall>q \<in> set (qps_laneQuotas snap). 1 \<le> q \<and> q \<le> 1024)"

lemma buildQuotaPolicySnapshot_ok [inv_intros]:
  assumes "buildQuotaPolicySnapshot reg policy = Inr snap"
  shows "quotaSnap_ok reg snap"
proof -
  have ok: "quotaOk (qpi_DefaultQuota policy)"
      "\<And>lane q. (lane, q) \<in> set (qpi_LaneQuotas policy) \<Longrightarrow> quotaOk q"
    using buildQuotaPolicySnapshot_ok_iff [of reg policy] assms by (auto simp: isOk_iff)
  show ?thesis
    using assms ok
    by (auto simp: buildQuotaPolicySnapshot_def quotaSnap_ok_def laneTable_def
        uint_quotaOk dest!: map_of_SomeD split: if_splits option.splits)
qed

lemma buildQuotaPolicySnapshot_quotas:
  assumes "buildQuotaPolicySnapshot reg policy = Inr snap" "Len reg \<le> 65536"
  shows "qps_laneQuotas snap = map (\<lambda>name. uint (mapGet (qpi_DefaultQuota policy)
    (qpi_LaneQuotas policy) name)) (reg_names reg)"
  using assms
  by (auto simp: buildQuotaPolicySnapshot_def laneTable_names mapGet_def
      split: if_splits option.splits)

subsection \<open>The view\<close>

lemma map_of_laneTable_view:
  assumes "distinct names" "length xs = length names" "i < length names"
  shows "map_of (map (\<lambda>i. (names ! i, f (xs ! i))) [0..<length names]) (names ! i) = Some (f (xs ! i))"
proof (rule map_of_is_SomeI)
  have "map fst (map (\<lambda>i. (names ! i, f (xs ! i))) [0..<length names]) = names"
    by (simp add: comp_def map_nth)
  then show "distinct (map fst (map (\<lambda>i. (names ! i, f (xs ! i))) [0..<length names]))"
    using assms(1) by (simp only:)
  show "(names ! i, f (xs ! i)) \<in> set (map (\<lambda>i. (names ! i, f (xs ! i))) [0..<length names])"
    using assms(3) by auto
qed

lemma quotaPolicyView_entries:
  assumes "Len reg \<le> 65536"
  shows "qpi_LaneQuotas (snd (quotaPolicyView reg snap)) =
    map (\<lambda>i. (reg_names reg ! i, word_of_int (qps_laneQuotas snap ! i))) [0..<length (reg_names reg)]"
  using assms by (auto simp: quotaPolicyView_def Name_nth Len_def)

lemma wordQuota: "1 \<le> q \<Longrightarrow> q \<le> 1024 \<Longrightarrow> quotaOk (word_of_int q) \<and> uint (word_of_int q :: u32) = q"
  by (simp add: quotaOk_def MaxLaneQuota_def word_le_def uint_word_of_int)

text \<open>Publishing the view of a built snapshot again gives the same quotas.\<close>

lemma buildQuotaPolicySnapshot_view:
  assumes reg: "reg_wf reg" "Len reg \<le> 65536" and ok: "quotaSnap_ok reg snap"
  shows "buildQuotaPolicySnapshot reg (snd (quotaPolicyView reg snap)) = Inr (snap\<lparr>qps_version := 0\<rparr>)"
proof -
  let ?v = "snd (quotaPolicyView reg snap)"
  have d: "distinct (reg_names reg)" and ne: "[] \<notin> set (reg_names reg)"
    using reg(1) by (simp_all add: reg_wf_def)
  have len: "length (qps_laneQuotas snap) = length (reg_names reg)"
    using ok by (simp add: quotaSnap_ok_def Len_def)
  have q: "1 \<le> qps_laneQuotas snap ! i \<and> qps_laneQuotas snap ! i \<le> 1024"
    if "i < length (reg_names reg)" for i
    using ok that len by (simp add: quotaSnap_ok_def)
  have def: "qpi_DefaultQuota ?v = qps_defaultQuota snap" by (simp add: quotaPolicyView_def)
  have "\<forall>(lane, q) \<in> set (qpi_LaneQuotas ?v). lane \<noteq> [] \<and> Lookup reg lane \<noteq> None \<and> quotaOk q"
    using q ne by (auto simp: quotaPolicyView_entries [OF reg(2)] Lookup_None_iff [OF reg(1)]
        wordQuota simp del: not_None_eq) (metis nth_mem)
  moreover have "quotaOk (qps_defaultQuota snap)" using ok by (simp add: quotaSnap_ok_def)
  ultimately obtain s where s: "buildQuotaPolicySnapshot reg ?v = Inr s"
    using buildQuotaPolicySnapshot_ok_iff [of reg ?v] def by (auto simp: isOk_iff)
  have "qps_laneQuotas s = qps_laneQuotas snap"
    unfolding buildQuotaPolicySnapshot_quotas [OF s reg(2)]
    by (rule nth_equalityI)
       (simp_all add: len mapGet_def quotaPolicyView_entries [OF reg(2)] wordQuota q
        map_of_laneTable_view [OF d len])
  moreover have "qps_version s = 0" "qps_defaultQuota s = qps_defaultQuota snap"
    using s def by (auto simp: buildQuotaPolicySnapshot_def split: if_splits option.splits)
  ultimately show ?thesis using s by simp
qed

interpretation quota: lane_policy buildQuotaPolicySnapshot quotaPolicyView quotaSnap_ok
  "\<lambda>v s. s\<lparr>qps_version := v\<rparr>"
proof (unfold_locales, goal_cases)
  case (1 reg p s)
  then show ?case by (simp add: buildQuotaPolicySnapshot_ok)
next
  case (2 reg p s)
  then show ?case by (auto simp: buildQuotaPolicySnapshot_def split: if_splits option.splits)
next
  case (3 reg s)
  then show ?case by (rule buildQuotaPolicySnapshot_view)
qed (simp_all add: quotaPolicyView_def quotaSnap_ok_def)

subsection \<open>Properties\<close>

text \<open>A quota policy is accepted exactly when its default and every lane quota lie between 1 and 1024 and every
  named lane is known; the resulting table has one quota per lane, the override where there is one and the default
  elsewhere, so no lane can be starved by a zero quota.\<close>

lemma quota_policy_build:
  assumes "Len reg \<le> 65536"
  shows "(isOk (buildQuotaPolicySnapshot reg policy) \<longleftrightarrow> quotaOk (qpi_DefaultQuota policy) \<and>
     (\<forall>(lane, q) \<in> set (qpi_LaneQuotas policy). lane \<noteq> [] \<and> Lookup reg lane \<noteq> None \<and> quotaOk q))
    \<and> (\<forall>snap. buildQuotaPolicySnapshot reg policy = Inr snap \<longrightarrow>
      qps_laneQuotas snap = map (\<lambda>name. uint (mapGet (qpi_DefaultQuota policy) (qpi_LaneQuotas policy) name)) (reg_names reg)
      \<and> (\<forall>q \<in> set (qps_laneQuotas snap). 1 \<le> q \<and> q \<le> 1024))"
proof (rule conjI, rule_tac [2] allI, rule_tac [2] impI)
  show "isOk (buildQuotaPolicySnapshot reg policy) \<longleftrightarrow> quotaOk (qpi_DefaultQuota policy) \<and>
     (\<forall>(lane, q) \<in> set (qpi_LaneQuotas policy). lane \<noteq> [] \<and> Lookup reg lane \<noteq> None \<and> quotaOk q)"
    by (rule buildQuotaPolicySnapshot_ok_iff)
  fix snap assume b: "buildQuotaPolicySnapshot reg policy = Inr snap"
  show "qps_laneQuotas snap = map (\<lambda>name. uint (mapGet (qpi_DefaultQuota policy) (qpi_LaneQuotas policy) name)) (reg_names reg)
      \<and> (\<forall>q \<in> set (qps_laneQuotas snap). 1 \<le> q \<and> q \<le> 1024)"
    using buildQuotaPolicySnapshot_quotas [OF b assms] buildQuotaPolicySnapshot_ok [OF b]
    unfolding quotaSnap_ok_def by blast
qed

definition demoReg :: LaneRegistry where
  "demoReg = \<lparr>reg_ids = [''bg'' \<mapsto> 0, ''io'' \<mapsto> 1], reg_names = [''bg'', ''io''], reg_quotas = [1, 4]\<rparr>"

lemma demoReg_built: "NewLaneRegistry [(''io'', 4), (''bg'', 1)] = Inr demoReg"
  by (simp add: NewLaneRegistry_def mapGet_def demoReg_def Let_def fun_upd_twist)

lemma demoReg_wf: "reg_wf demoReg" "Len demoReg \<le> 65536"
  using NewLaneRegistry_wf [OF demoReg_built] by (simp_all add: demoReg_def Len_def)

text \<open>Publishing what the policy view shows changes nothing: rebuilding from the view of a published quota
  snapshot gives the same snapshot, whatever its version.\<close>

lemma quota_republish:
  assumes "NewLaneRegistry quotas = Inr reg" "distinct (map fst quotas)" "length quotas \<le> 65536"
    "buildQuotaPolicySnapshot reg policy = Inr snap"
  shows "buildQuotaPolicySnapshot reg (snd (quotaPolicyView reg (snap\<lparr>qps_version := v\<rparr>))) = Inr snap"
  using quota.republish [OF NewLaneRegistry_wf [OF assms(1,2)] _ assms(4)] assms(3)
  by (simp add: Len_def NewLaneRegistry_fields [OF assms(1,2)])

end
