(* ===== verification/Go_Float.thy ===== *)
theory Go_Float
  imports Keylane_Prelude "HOL-Library.Log_Nat"
begin

text \<open>
  Go's \<open>float64\<close>: IEEE 754 binary64 with round-to-nearest, ties to even. A value is a NaN, an
  infinity or a rational; the two zeros are one value, since the code compares floats and divides
  by counts only. The rounding function is computed, so that the ratios of the
  source are the ratios of the model bit for bit, and its monotonicity is proved, since the
  threshold comparisons of the admission, overload and pressure code rest on it.
\<close>

datatype float64 = FNaN | FPosInf | FNegInf | FFin rat

subsection \<open>Rounding\<close>

definition pow2 :: "int \<Rightarrow> rat" where
  "pow2 e = (if 0 \<le> e then 2 ^ nat e else 1 / 2 ^ nat (- e))"

text \<open>The binary exponent of a positive rational.\<close>

definition ilog2 :: "rat \<Rightarrow> int" where
  "ilog2 x = (let (p, q) = quotient_of x; k = bitlen p - bitlen q
              in if pow2 k \<le> x then k else k - 1)"

definition rne :: "rat \<Rightarrow> int" where
  "rne x = (let n = \<lfloor>x\<rfloor>; d = x - of_int n
            in if d < 1 / 2 then n else if 1 / 2 < d then n + 1
               else if even n then n else n + 1)"

text \<open>The spacing of the binary64 values around \<open>x\<close> is \<open>2 ^ (ilog2 x - 52)\<close>, or
  \<open>2 ^ (-1074)\<close> for the subnormal ones.\<close>

definition ulpExp :: "rat \<Rightarrow> int" where
  "ulpExp x = max (ilog2 x - 52) (- 1074)"

definition roundPos :: "rat \<Rightarrow> rat" where
  "roundPos x = of_int (rne (x / pow2 (ulpExp x))) * pow2 (ulpExp x)"

definition fround :: "rat \<Rightarrow> float64" where
  "fround x =
     (if x = 0 then FFin 0
      else if 0 < x then
        (let r = roundPos x in if pow2 1024 \<le> r then FPosInf else FFin r)
      else
        (let r = roundPos (- x) in if pow2 1024 \<le> r then FNegInf else FFin (- r)))"

subsection \<open>Operations and comparisons\<close>

text \<open>A comparison with a NaN is false, whatever the operator.\<close>

fun flt :: "float64 \<Rightarrow> float64 \<Rightarrow> bool" where
  "flt FNaN _ = False"
| "flt _ FNaN = False"
| "flt FPosInf _ = False"
| "flt _ FNegInf = False"
| "flt _ FPosInf = True"
| "flt FNegInf _ = True"
| "flt (FFin a) (FFin b) = (a < b)"

fun fle :: "float64 \<Rightarrow> float64 \<Rightarrow> bool" where
  "fle FNaN _ = False"
| "fle _ FNaN = False"
| "fle _ FPosInf = True"
| "fle FNegInf _ = True"
| "fle FPosInf _ = False"
| "fle _ FNegInf = False"
| "fle (FFin a) (FFin b) = (a \<le> b)"

abbreviation fge :: "float64 \<Rightarrow> float64 \<Rightarrow> bool" where
  "fge a b \<equiv> fle b a"

abbreviation fgt :: "float64 \<Rightarrow> float64 \<Rightarrow> bool" where
  "fgt a b \<equiv> flt b a"

fun feq :: "float64 \<Rightarrow> float64 \<Rightarrow> bool" where
  "feq FNaN _ = False"
| "feq _ FNaN = False"
| "feq a b = (a = b)"

fun fneg :: "float64 \<Rightarrow> float64" where
  "fneg FNaN = FNaN"
| "fneg FPosInf = FNegInf"
| "fneg FNegInf = FPosInf"
| "fneg (FFin a) = FFin (- a)"

fun fadd :: "float64 \<Rightarrow> float64 \<Rightarrow> float64" where
  "fadd FNaN _ = FNaN"
| "fadd _ FNaN = FNaN"
| "fadd FPosInf FNegInf = FNaN"
| "fadd FNegInf FPosInf = FNaN"
| "fadd FPosInf _ = FPosInf"
| "fadd _ FPosInf = FPosInf"
| "fadd FNegInf _ = FNegInf"
| "fadd _ FNegInf = FNegInf"
| "fadd (FFin a) (FFin b) = fround (a + b)"

definition fsub :: "float64 \<Rightarrow> float64 \<Rightarrow> float64" where
  "fsub a b = fadd a (fneg b)"

definition infOfSign :: "bool \<Rightarrow> float64" where
  "infOfSign pos = (if pos then FPosInf else FNegInf)"

fun fmul :: "float64 \<Rightarrow> float64 \<Rightarrow> float64" where
  "fmul FNaN _ = FNaN"
| "fmul _ FNaN = FNaN"
| "fmul (FFin a) (FFin b) = fround (a * b)"
| "fmul (FFin a) FPosInf = (if a = 0 then FNaN else infOfSign (0 < a))"
| "fmul (FFin a) FNegInf = (if a = 0 then FNaN else infOfSign (a < 0))"
| "fmul FPosInf (FFin b) = (if b = 0 then FNaN else infOfSign (0 < b))"
| "fmul FNegInf (FFin b) = (if b = 0 then FNaN else infOfSign (b < 0))"
| "fmul FPosInf FPosInf = FPosInf"
| "fmul FNegInf FNegInf = FPosInf"
| "fmul FPosInf FNegInf = FNegInf"
| "fmul FNegInf FPosInf = FNegInf"

text \<open>Division by zero does not trap: it gives an infinity, or a NaN for \<open>0/0\<close>.\<close>

fun fdiv :: "float64 \<Rightarrow> float64 \<Rightarrow> float64" where
  "fdiv FNaN _ = FNaN"
| "fdiv _ FNaN = FNaN"
| "fdiv (FFin a) (FFin b) =
     (if b = 0 then (if a = 0 then FNaN else infOfSign (0 < a)) else fround (a / b))"
| "fdiv (FFin a) FPosInf = FFin 0"
| "fdiv (FFin a) FNegInf = FFin 0"
| "fdiv FPosInf (FFin b) = infOfSign (0 \<le> b)"
| "fdiv FNegInf (FFin b) = infOfSign (b < 0)"
| "fdiv _ _ = FNaN"

definition float64_of_u64 :: "u64 \<Rightarrow> float64" where
  "float64_of_u64 w = fround (of_nat (unat w))"

definition float64_of_int :: "int \<Rightarrow> float64" where
  "float64_of_int i = fround (of_int i)"

text \<open>An untyped float constant of the source, such as \<open>0.70\<close>, converted to \<open>float64\<close>.\<close>

definition flit :: "rat \<Rightarrow> float64" where
  "flit r = fround r"

text \<open>
  A conversion of a float to an integer type drops the fraction. When the value does not fit, the language leaves
  the result to the implementation; \<open>cv\<close> is the 64-bit pattern the machine produces then.
\<close>

definition truncRat :: "rat \<Rightarrow> int" where
  "truncRat r = (if 0 \<le> r then \<lfloor>r\<rfloor> else \<lceil>r\<rceil>)"

definition int64_of_float :: "(float64 \<Rightarrow> 64 word) \<Rightarrow> float64 \<Rightarrow> int" where
  "int64_of_float cv x =
     (case x of
        FFin r \<Rightarrow> (let n = truncRat r in if - (2 ^ 63) \<le> n \<and> n < 2 ^ 63 then n else sint (cv x))
      | _ \<Rightarrow> sint (cv x))"

definition u64_of_float :: "(float64 \<Rightarrow> 64 word) \<Rightarrow> float64 \<Rightarrow> u64" where
  "u64_of_float cv x =
     (case x of
        FFin r \<Rightarrow> (let n = truncRat r in if 0 \<le> n \<and> n < 2 ^ 64 then word_of_int n else cv x)
      | _ \<Rightarrow> cv x)"

subsection \<open>Order facts\<close>

definition isNaN :: "float64 \<Rightarrow> bool" where
  "isNaN x \<longleftrightarrow> x = FNaN"

lemma flt_or_fge: "\<not> isNaN a \<Longrightarrow> \<not> isNaN b \<Longrightarrow> flt a b \<longleftrightarrow> \<not> fge a b"
  by (cases a; cases b) (auto simp: isNaN_def)

lemma not_flt_fle: "flt a b \<Longrightarrow> \<not> fge a b"
  by (cases a; cases b) auto

lemma fle_trans: "fle a b \<Longrightarrow> fle b c \<Longrightarrow> fle a c"
  by (cases a; cases b; cases c) auto

lemma flt_fle_trans: "flt a b \<Longrightarrow> fle b c \<Longrightarrow> flt a c"
  by (cases a; cases b; cases c) auto

lemma fle_flt_trans: "fle a b \<Longrightarrow> flt b c \<Longrightarrow> flt a c"
  by (cases a; cases b; cases c) auto

lemma flt_imp_fle: "flt a b \<Longrightarrow> fle a b"
  by (cases a; cases b) auto

lemma fle_refl_iff: "fle a a \<longleftrightarrow> \<not> isNaN a"
  by (cases a) (auto simp: isNaN_def)

lemma flt_irrefl: "\<not> flt a a"
  by (cases a) auto

lemma fle_NaN_simps [simp]: "\<not> fle FNaN a" "\<not> fle a FNaN" "\<not> flt FNaN a" "\<not> flt a FNaN"
  by (cases a; simp)+


subsection \<open>Rounding is monotone\<close>

lemma pow2_pos [simp]: "0 < pow2 e"
  by (simp add: pow2_def)

lemma pow2_powi: "pow2 e = 2 powi e"
  by (auto simp: pow2_def power_int_def field_simps)

lemma pow2_add: "pow2 (a + b) = pow2 a * pow2 b"
  by (simp add: pow2_powi power_int_add)

lemma pow2_strict_mono: "a < b \<Longrightarrow> pow2 a < pow2 b"
  by (simp add: pow2_powi power_int_strict_increasing)

lemma pow2_less_iff [simp]: "pow2 a < pow2 b \<longleftrightarrow> a < b"
  using pow2_strict_mono [of a b] pow2_strict_mono [of b a] by (cases a b rule: linorder_cases) auto

lemma pow2_le_iff [simp]: "pow2 a \<le> pow2 b \<longleftrightarrow> a \<le> b"
  using pow2_less_iff [of b a] by (simp flip: not_less)

lemma pow2_of_nat: "pow2 (int n) = 2 ^ n"
  by (simp add: pow2_def)

lemma bitlen_pow2_bounds:
  assumes "0 < p"
  shows "pow2 (bitlen p - 1) \<le> of_int p" "of_int p < pow2 (bitlen p)"
proof -
  have b: "2 ^ nat (bitlen p - 1) \<le> p \<and> p < 2 ^ nat (bitlen p)"
    using bitlen_bounds [OF assms] .
  have pos: "0 < bitlen p" using assms bitlen_nonneg [of p] bitlen_eq_zero_iff [of p] by linarith
  have "(of_int (2 ^ nat (bitlen p - 1)) :: rat) \<le> of_int p" "(of_int p :: rat) < of_int (2 ^ nat (bitlen p))"
    using b by (simp_all only: of_int_le_iff of_int_less_iff)
  then show "pow2 (bitlen p - 1) \<le> of_int p" "of_int p < pow2 (bitlen p)"
    using pos by (simp_all add: pow2_def)
qed

lemma ilog2_bounds:
  assumes "0 < x"
  shows "pow2 (ilog2 x) \<le> x" "x < pow2 (ilog2 x + 1)"
proof -
  obtain p q where pq: "quotient_of x = (p, q)" by (cases "quotient_of x")
  have q: "0 < q" using quotient_of_denom_pos [OF pq] .
  have x: "x = of_int p / of_int q" using quotient_of_div [OF pq] .
  have p: "0 < p" using assms q by (simp add: x zero_less_divide_iff)
  define k where "k = bitlen p - bitlen q"
  have bp: "pow2 (bitlen p - 1) \<le> of_int p" "of_int p < pow2 (bitlen p)"
    by (rule bitlen_pow2_bounds [OF p])+
  have bq: "pow2 (bitlen q - 1) \<le> of_int q" "of_int q < pow2 (bitlen q)"
    by (rule bitlen_pow2_bounds [OF q])+
  have up: "x < pow2 (k + 1)"
  proof -
    have "of_int p < pow2 (k + 1) * pow2 (bitlen q - 1)"
      using bp(2) by (simp add: k_def flip: pow2_add)
    also have "\<dots> \<le> pow2 (k + 1) * of_int q"
      using bq(1) by (intro mult_left_mono) (simp_all add: less_imp_le)
    finally show ?thesis using q by (simp add: x pos_divide_less_eq)
  qed
  have lo: "pow2 (k - 1) \<le> x"
  proof -
    have "pow2 (k - 1) * of_int q \<le> pow2 (k - 1) * pow2 (bitlen q)"
      using bq(2) by (intro mult_left_mono) (simp_all add: less_imp_le)
    also have "\<dots> \<le> of_int p" using bp(1) by (simp add: k_def flip: pow2_add)
    finally show ?thesis using q by (simp add: x pos_le_divide_eq)
  qed
  show "pow2 (ilog2 x) \<le> x" "x < pow2 (ilog2 x + 1)"
    using lo up by (auto simp: ilog2_def pq k_def [symmetric] not_le)
qed

text \<open>Code equations that avoid the power \<open>2 ^ 1024\<close>.\<close>

lemma pow2_le_iff_ilog2: "0 < r \<Longrightarrow> pow2 e \<le> r \<longleftrightarrow> e \<le> ilog2 r"
proof -
  assume r: "0 < r"
  note b = ilog2_bounds [OF r]
  show ?thesis
  proof
    assume "pow2 e \<le> r"
    then have "pow2 e < pow2 (ilog2 r + 1)" using b(2) by (rule le_less_trans)
    then show "e \<le> ilog2 r" by simp
  next
    assume "e \<le> ilog2 r"
    then have "pow2 e \<le> pow2 (ilog2 r)" by simp
    then show "pow2 e \<le> r" using b(1) by (rule order_trans)
  qed
qed

lemma fround_code [code]:
  "fround x =
     (if x = 0 then FFin 0
      else if 0 < x then
        (let r = roundPos x in if 0 < r \<and> 1024 \<le> ilog2 r then FPosInf else FFin r)
      else
        (let r = roundPos (- x) in if 0 < r \<and> 1024 \<le> ilog2 r then FNegInf else FFin (- r)))"
proof -
  have "pow2 1024 \<le> r \<longleftrightarrow> 0 < r \<and> 1024 \<le> ilog2 r" for r
    using pow2_le_iff_ilog2 [of r 1024] pow2_pos [of 1024] by (cases "0 < r") (auto simp del: pow2_pos)
  then show ?thesis unfolding fround_def Let_def by simp
qed

lemma pow2_code [code]:
  "pow2 e = (if 0 \<le> e then of_int (push_bit (nat e) 1) else 1 / of_int (push_bit (nat (- e)) 1))"
  by (simp add: pow2_def push_bit_eq_mult)

lemma ilog2_mono: "0 < x \<Longrightarrow> x \<le> y \<Longrightarrow> ilog2 x \<le> ilog2 y"
proof -
  assume x: "0 < x" and xy: "x \<le> y"
  have "pow2 (ilog2 x) < pow2 (ilog2 y + 1)"
    using ilog2_bounds(1) [OF x] ilog2_bounds(2) [of y] x xy by linarith
  then show ?thesis by simp
qed

lemma rne_bounds: "\<lfloor>x\<rfloor> \<le> rne x" "rne x \<le> \<lfloor>x\<rfloor> + 1"
  by (auto simp: rne_def Let_def)

lemma rne_of_int [simp]: "rne (of_int n) = n"
  by (simp add: rne_def)

lemma rne_mono: "x \<le> y \<Longrightarrow> rne x \<le> rne y"
proof (cases "\<lfloor>x\<rfloor> = \<lfloor>y\<rfloor>")
  case True
  assume "x \<le> y"
  then show ?thesis using True by (auto simp: rne_def Let_def)
next
  case False
  assume "x \<le> y"
  with False have "\<lfloor>x\<rfloor> + 1 \<le> \<lfloor>y\<rfloor>" using floor_mono [of x y] by linarith
  then show ?thesis using rne_bounds [of x] rne_bounds [of y] by linarith
qed

lemma rne_error: "\<bar>of_int (rne x) - x\<bar> \<le> 1 / 2"
proof -
  have "of_int \<lfloor>x\<rfloor> \<le> x" "x < of_int \<lfloor>x\<rfloor> + 1" by linarith+
  then show ?thesis by (auto simp: rne_def Let_def abs_le_iff)
qed

lemma rne_le_int: "x \<le> of_int n \<Longrightarrow> rne x \<le> n"
  using rne_mono [of x "of_int n"] by simp

lemma rne_ge_int: "of_int n \<le> x \<Longrightarrow> n \<le> rne x"
  using rne_mono [of "of_int n" x] by simp

text \<open>A power of two on the grid of \<open>x\<close> bounds the rounded value when it bounds \<open>x\<close>.\<close>

lemma roundPos_le_pow2:
  assumes "x \<le> pow2 k" "ulpExp x \<le> k"
  shows "roundPos x \<le> pow2 k"
proof -
  let ?u = "pow2 (ulpExp x)"
  obtain n where n: "k = ulpExp x + int n" using assms(2) zle_iff_zadd by blast
  then have k: "pow2 k = of_int (2 ^ n) * ?u" by (simp add: pow2_add pow2_of_nat)
  have "x / ?u \<le> of_int (2 ^ n)" using assms(1) by (simp add: k pos_divide_le_eq)
  then have "rne (x / ?u) \<le> 2 ^ n" by (rule rne_le_int)
  then have "of_int (rne (x / ?u)) * ?u \<le> of_int (2 ^ n) * ?u"
    by (intro mult_right_mono) (simp_all only: of_int_le_iff less_imp_le pow2_pos)
  then show ?thesis by (simp add: roundPos_def k)
qed

lemma roundPos_ge_pow2:
  assumes "pow2 k \<le> x" "ulpExp x \<le> k"
  shows "pow2 k \<le> roundPos x"
proof -
  let ?u = "pow2 (ulpExp x)"
  obtain n where n: "k = ulpExp x + int n" using assms(2) zle_iff_zadd by blast
  then have k: "pow2 k = of_int (2 ^ n) * ?u" by (simp add: pow2_add pow2_of_nat)
  have "of_int (2 ^ n) \<le> x / ?u" using assms(1) by (simp add: k pos_le_divide_eq)
  then have "2 ^ n \<le> rne (x / ?u)" by (rule rne_ge_int)
  then have "of_int (2 ^ n) * ?u \<le> of_int (rne (x / ?u)) * ?u"
    by (intro mult_right_mono) (simp_all only: of_int_le_iff less_imp_le pow2_pos)
  then show ?thesis by (simp add: roundPos_def k)
qed

lemma roundPos_mono:
  assumes x: "0 < x" and xy: "x \<le> y"
  shows "roundPos x \<le> roundPos y"
proof (cases "ulpExp x = ulpExp y")
  case True
  have "x / pow2 (ulpExp y) \<le> y / pow2 (ulpExp y)"
    using xy by (intro divide_right_mono) (simp_all add: less_imp_le)
  then have "rne (x / pow2 (ulpExp y)) \<le> rne (y / pow2 (ulpExp y))" by (rule rne_mono)
  then show ?thesis
    by (simp add: roundPos_def True)
next
  case False
  have le: "ilog2 x \<le> ilog2 y" by (rule ilog2_mono [OF x xy])
  with False have lt: "ilog2 x < ilog2 y" and uy: "ulpExp y = ilog2 y - 52" "ulpExp x \<le> ilog2 y"
    by (auto simp: ulpExp_def max_def split: if_splits)
  have "x \<le> pow2 (ilog2 x + 1)" using ilog2_bounds(2) [OF x] by simp
  also have "\<dots> \<le> pow2 (ilog2 y)" using lt by simp
  finally have "roundPos x \<le> pow2 (ilog2 y)" using uy(2) by (rule roundPos_le_pow2)
  also have "\<dots> \<le> roundPos y"
    using x xy uy by (intro roundPos_ge_pow2 ilog2_bounds) auto
  finally show ?thesis .
qed

lemma roundPos_nonneg: "0 < x \<Longrightarrow> 0 \<le> roundPos x"
proof -
  assume "0 < x"
  then have "of_int 0 \<le> x / pow2 (ulpExp x)"
    by (simp add: divide_nonneg_pos less_imp_le)
  then have "0 \<le> rne (x / pow2 (ulpExp x))" by (rule rne_ge_int)
  then show ?thesis by (simp add: roundPos_def less_imp_le)
qed

lemma fround_nonneg_cases:
  "0 \<le> x \<Longrightarrow> fround x = FPosInf \<or> (\<exists>r \<ge> 0. fround x = FFin r)"
  by (auto simp: fround_def Let_def roundPos_nonneg)

lemma fround_not_NaN [simp]: "\<not> isNaN (fround x)"
  by (auto simp: fround_def Let_def isNaN_def)

lemma fround_mono_nonneg: "0 \<le> x \<Longrightarrow> x \<le> y \<Longrightarrow> fle (fround x) (fround y)"
proof -
  assume x: "0 \<le> x" and xy: "x \<le> y"
  show ?thesis
  proof (cases "x = 0")
    case True
    then show ?thesis using fround_nonneg_cases [of y] xy by (auto simp: fround_def)
  next
    case False
    with x xy have "roundPos x \<le> roundPos y" by (intro roundPos_mono) auto
    then show ?thesis using False x xy by (auto simp: fround_def Let_def)
  qed
qed

lemma fround_mono: "x \<le> y \<Longrightarrow> fle (fround x) (fround y)"
proof -
  assume xy: "x \<le> y"
  show ?thesis
  proof (cases "0 \<le> x")
    case True then show ?thesis using xy by (rule fround_mono_nonneg)
  next
    case False
    show ?thesis
    proof (cases "y \<le> 0")
      case True
      with False xy have "fle (fround (- y)) (fround (- x))" by (intro fround_mono_nonneg) auto
      then show ?thesis using False True by (auto simp: fround_def Let_def split: if_splits)
    next
      case y: False
      have nn: "\<And>z. 0 < z \<Longrightarrow> 0 \<le> roundPos z" by (rule roundPos_nonneg)
      have "- roundPos (- x) \<le> roundPos y" using nn [of "- x"] nn [of y] False y by auto
      then show ?thesis using False y by (auto simp: fround_def Let_def)
    qed
  qed
qed

lemma fround_zero [simp]: "fround 0 = FFin 0"
  by (simp add: fround_def)

lemma fround_one [simp]: "fround 1 = FFin 1"
  by code_simp

lemma fdiv_mono_num:
  assumes "a \<le> b" "0 < d"
  shows "fle (fdiv (FFin a) (FFin d)) (fdiv (FFin b) (FFin d))"
  using assms by (simp add: divide_right_mono fround_mono)

lemma fdiv_le_one:
  assumes "0 \<le> a" "a \<le> d" "0 < d"
  shows "fle (fdiv (FFin a) (FFin d)) (FFin 1)"
proof -
  have "fle (fround (a / d)) (fround 1)" using assms by (intro fround_mono) (simp add: divide_le_eq)
  then show ?thesis using assms by simp
qed

end
