(* ===== verification/Pressure.thy ===== *)
theory Pressure
  imports Go_Float
begin

text \<open>
  The queue-depth signal of \<open>internal/core/pressure.go\<close>: a depth ratio in \<open>float64\<close> and its three
  classes. The lemmas show that the classes partition the states of a scheduler that has capacity,
  that they only get worse as the depth grows, and that the ratio lies in the unit interval.
\<close>

definition PressuredDepthRatio :: float64 where "PressuredDepthRatio = flit (7 / 10)"
definition OverloadedDepthRatio :: float64 where "OverloadedDepthRatio = flit (9 / 10)"

record Pressure =
  p_TotalDepth :: u64
  p_TotalCapacity :: u64
  p_TotalInFlight :: u64
  p_TotalDepthRatio :: float64
  p_IsHealthy :: bool
  p_IsPressured :: bool
  p_IsOverloaded :: bool

definition safeRatio :: "u64 \<Rightarrow> u64 \<Rightarrow> float64" where
  "safeRatio n d = (if d = 0 then FFin 0 else fdiv (float64_of_u64 n) (float64_of_u64 d))"

definition classifyPressure :: "u64 \<Rightarrow> u64 \<Rightarrow> u64 \<Rightarrow> Pressure" where
  "classifyPressure depth capacity inFlight =
     (let ratio = safeRatio depth capacity;
          p = \<lparr>p_TotalDepth = depth, p_TotalCapacity = capacity, p_TotalInFlight = inFlight,
               p_TotalDepthRatio = ratio, p_IsHealthy = False, p_IsPressured = False,
               p_IsOverloaded = False\<rparr>
      in if capacity = 0 then p
         else p\<lparr>p_IsHealthy := flt ratio PressuredDepthRatio,
                p_IsPressured := fge ratio PressuredDepthRatio \<and> flt ratio OverloadedDepthRatio,
                p_IsOverloaded := fge ratio OverloadedDepthRatio\<rparr>)"

subsection \<open>The ratio\<close>

lemma fround_finite_u64: "fround (2 ^ 64) = FFin (2 ^ 64)"
  by code_simp

lemma float64_of_u64_fin:
  obtains r where "float64_of_u64 w = FFin r" "0 \<le> r" "w \<noteq> 0 \<Longrightarrow> 1 \<le> r"
proof -
  have nat: "0 \<le> (of_nat (unat w) :: rat)" by (rule of_nat_0_le_iff)
  have "(of_nat (unat w) :: rat) \<le> of_nat (2 ^ 64)"
    using unsigned_less [of w, where 'a = nat] by (intro of_nat_mono) simp
  then have "fle (fround (of_nat (unat w))) (fround (of_nat (2 ^ 64)))" by (rule fround_mono)
  then have le: "fle (fround (of_nat (unat w))) (FFin (2 ^ 64))"
    by (simp only: fround_finite_u64 of_nat_power of_nat_numeral)
  then obtain r where r: "float64_of_u64 w = FFin r" "0 \<le> r"
    using fround_nonneg_cases [OF nat] by (auto simp: float64_of_u64_def)
  have "1 \<le> r" if "w \<noteq> 0"
  proof -
    have "(of_nat 1 :: rat) \<le> of_nat (unat w)"
      using that by (intro of_nat_mono) (simp add: Suc_le_eq unat_gt_0)
    then have "fle (fround (of_nat 1)) (fround (of_nat (unat w)))" by (rule fround_mono)
    then show ?thesis using r(1) by (simp only: float64_of_u64_def of_nat_1 fround_one fle.simps)
  qed
  with r show ?thesis using that by blast
qed

lemma float64_of_u64_pos:
  assumes "w \<noteq> 0" obtains r where "float64_of_u64 w = FFin r" "1 \<le> r"
  using assms float64_of_u64_fin by metis

lemma float64_of_u64_mono:
  assumes "a \<le> b" shows "fle (float64_of_u64 a) (float64_of_u64 b)"
  unfolding float64_of_u64_def using assms by (intro fround_mono of_nat_mono) (simp add: word_le_nat_alt)

lemma safeRatio_not_NaN: "\<not> isNaN (safeRatio n d)"
proof (cases "d = 0")
  case False
  obtain a where "float64_of_u64 n = FFin a" by (rule float64_of_u64_fin)
  moreover obtain b where "float64_of_u64 d = FFin b" "1 \<le> b"
    using False by (rule float64_of_u64_pos)
  ultimately show ?thesis using False by (simp add: safeRatio_def)
qed (simp add: safeRatio_def isNaN_def)

lemma safeRatio_mono:
  assumes "n \<le> n'" shows "fle (safeRatio n d) (safeRatio n' d)"
proof (cases "d = 0")
  case False
  obtain a where a: "float64_of_u64 n = FFin a" by (rule float64_of_u64_fin)
  obtain a' where a': "float64_of_u64 n' = FFin a'" by (rule float64_of_u64_fin)
  obtain b where b: "float64_of_u64 d = FFin b" "1 \<le> b"
    using False by (rule float64_of_u64_pos)
  have "a \<le> a'" using float64_of_u64_mono [OF assms] a a' by simp
  then show ?thesis using fdiv_mono_num [of a a' b] False a a' b by (simp add: safeRatio_def)
qed (simp add: safeRatio_def)

lemma safeRatio_zero: "safeRatio 0 d = FFin 0"
proof (cases "d = 0")
  case False
  obtain b where "float64_of_u64 d = FFin b" "1 \<le> b"
    using False by (rule float64_of_u64_pos)
  then show ?thesis by (simp add: safeRatio_def float64_of_u64_def [of 0])
qed (simp add: safeRatio_def)

lemma safeRatio_self: "d \<noteq> 0 \<Longrightarrow> safeRatio d d = FFin 1"
proof -
  assume d: "d \<noteq> 0"
  obtain b where "float64_of_u64 d = FFin b" "1 \<le> b"
    using d by (rule float64_of_u64_pos)
  with d show ?thesis by (simp add: safeRatio_def)
qed

lemma safeRatio_nonneg: "fle (FFin 0) (safeRatio n d)"
  using safeRatio_mono [of 0 n d] by (simp add: safeRatio_zero)

lemma safeRatio_le_one: "n \<le> d \<Longrightarrow> fle (safeRatio n d) (FFin 1)"
  using safeRatio_mono [of n d d] by (cases "d = 0") (simp_all add: safeRatio_self, simp add: safeRatio_def)

subsection \<open>The classes\<close>

lemma ratio_thresholds_lt: "flt PressuredDepthRatio OverloadedDepthRatio"
  by code_simp

lemma ratio_thresholds_one: "fle OverloadedDepthRatio (FFin 1)"
  by code_simp

lemma ratio_thresholds:
  "\<not> isNaN PressuredDepthRatio" "\<not> isNaN OverloadedDepthRatio"
  by (simp_all add: PressuredDepthRatio_def OverloadedDepthRatio_def flit_def)

lemma classifyPressure_flags:
  assumes "capacity \<noteq> 0"
  shows "p_IsHealthy (classifyPressure depth capacity n)
      \<longleftrightarrow> \<not> fge (safeRatio depth capacity) PressuredDepthRatio"
    and "p_IsPressured (classifyPressure depth capacity n)
      \<longleftrightarrow> fge (safeRatio depth capacity) PressuredDepthRatio
        \<and> \<not> fge (safeRatio depth capacity) OverloadedDepthRatio"
    and "p_IsOverloaded (classifyPressure depth capacity n)
      \<longleftrightarrow> fge (safeRatio depth capacity) OverloadedDepthRatio"
  using assms flt_or_fge [OF safeRatio_not_NaN ratio_thresholds(1)]
    flt_or_fge [OF safeRatio_not_NaN ratio_thresholds(2)]
  by (simp_all add: classifyPressure_def Let_def)

lemma fge_thresholds: "fge r OverloadedDepthRatio \<Longrightarrow> fge r PressuredDepthRatio"
  using ratio_thresholds_lt flt_imp_fle fle_trans by blast

subsection \<open>Properties\<close>

lemma pressured_pos: "flt (FFin 0) PressuredDepthRatio"
  by code_simp

text \<open>Exactly one of healthy, pressured and overloaded holds for a queue with capacity; an empty queue is
  healthy and a full one overloaded.\<close>

lemma pressure_partition:
  assumes "cap \<noteq> 0"
  shows "(if p_IsHealthy (classifyPressure d cap n) then 1 else 0) + (if p_IsPressured (classifyPressure d cap n) then 1 else 0)
      + (if p_IsOverloaded (classifyPressure d cap n) then 1 else 0) = (1 :: nat)
    \<and> p_IsHealthy (classifyPressure 0 cap n) \<and> p_IsOverloaded (classifyPressure cap cap n)"
proof (intro conjI)
  note f = classifyPressure_flags [OF assms]
  show "(if p_IsHealthy (classifyPressure d cap n) then 1 else 0) + (if p_IsPressured (classifyPressure d cap n) then 1 else 0)
      + (if p_IsOverloaded (classifyPressure d cap n) then 1 else 0) = (1 :: nat)"
    using fge_thresholds [of "safeRatio d cap"] by (simp add: f)
  show "p_IsHealthy (classifyPressure 0 cap n)"
    using not_flt_fle [OF pressured_pos] by (simp only: f safeRatio_zero not_False_eq_True)
  show "p_IsOverloaded (classifyPressure cap cap n)"
    using ratio_thresholds_one by (simp only: f safeRatio_self [OF assms])
qed

text \<open>Pressure grows with depth: at the same capacity a deeper queue has no smaller ratio, is overloaded if the
  shallower one is, and is not healthy if the shallower one is not.\<close>

lemma pressure_monotone:
  assumes "d \<le> d'" "cap \<noteq> 0"
  shows "fle (p_TotalDepthRatio (classifyPressure d cap n)) (p_TotalDepthRatio (classifyPressure d' cap n'))
    \<and> (p_IsOverloaded (classifyPressure d cap n) \<longrightarrow> p_IsOverloaded (classifyPressure d' cap n'))
    \<and> (p_IsHealthy (classifyPressure d' cap n') \<longrightarrow> p_IsHealthy (classifyPressure d cap n))"
proof (intro conjI impI)
  have m: "fle (safeRatio d cap) (safeRatio d' cap)" by (rule safeRatio_mono [OF assms(1)])
  then show "fle (p_TotalDepthRatio (classifyPressure d cap n)) (p_TotalDepthRatio (classifyPressure d' cap n'))"
    by (simp add: classifyPressure_def Let_def assms(2))
  have g: "fge (safeRatio d cap) t \<Longrightarrow> fge (safeRatio d' cap) t" for t
    using m fle_trans by blast
  then show "p_IsOverloaded (classifyPressure d cap n) \<Longrightarrow> p_IsOverloaded (classifyPressure d' cap n')"
    "p_IsHealthy (classifyPressure d' cap n') \<Longrightarrow> p_IsHealthy (classifyPressure d cap n)"
    using classifyPressure_flags [OF assms(2)] by blast+
qed

end
