(* ===== verification/Admission_Policy.thy ===== *)
theory Admission_Policy
  imports Quota_Policy Pressure
begin

text \<open>
  The lane admission policy of \<open>internal/core/admission_policy.go\<close>: lane classes, validation,
  snapshot, and the decision whether a lane admits a job at a given pressure and depth. The lemmas
  characterise acceptance and the decision, and show that admission only gets stricter as
  pressure and depth grow.
\<close>

subsection \<open>Data\<close>

definition LaneClassCritical :: string where "LaneClassCritical = ''critical''"
definition LaneClassNormal :: string where "LaneClassNormal = ''normal''"
definition LaneClassBackground :: string where "LaneClassBackground = ''background''"
definition LaneClassBestEffort :: string where "LaneClassBestEffort = ''best_effort''"

lemmas laneClass_defs = LaneClassCritical_def LaneClassNormal_def LaneClassBackground_def
  LaneClassBestEffort_def

text \<open>The rejection reasons; \<open>AdmissionReasonEmpty\<close> is the empty string of an admitting result.\<close>

datatype AdmissionReason =
    AdmissionReasonEmpty
  | AdmissionReasonPressureAboveThreshold
  | AdmissionReasonLaneQueueDepthExceeded

record LanePolicyInput =
  lpi_Lane :: string
  lpi_Class :: string
  lpi_RejectAboveRatio :: float64
  lpi_MaxQueueDepth :: u32

record AdmissionPolicyInput =
  api_DefaultClass :: string
  api_DefaultRejectAboveRatio :: float64
  api_DefaultMaxQueueDepth :: u32
  api_Lanes :: "LanePolicyInput list"

record laneAdmissionEntry =
  lae_class :: string
  lae_rejectAboveRatio :: float64
  lae_maxQueueDepth :: u32

record admissionPolicySnapshot =
  aps_version :: u64
  aps_defaultClass :: string
  aps_defaultRejectAboveRatio :: float64
  aps_defaultMaxQueueDepth :: u32
  aps_lanes :: "laneAdmissionEntry list"

record AdmissionEvalResult =
  aer_Admit :: bool
  aer_Reason :: AdmissionReason
  aer_Class :: string
  aer_Threshold :: float64
  aer_MaxDepth :: u32

subsection \<open>Validation\<close>

definition ValidateLaneClass :: "string \<Rightarrow> core_error option" where
  "ValidateLaneClass c =
     (if c = LaneClassCritical \<or> c = LaneClassNormal \<or> c = LaneClassBackground
         \<or> c = LaneClassBestEffort then None else Some ErrInvalidLaneClass)"

definition validateRejectRatio :: "float64 \<Rightarrow> core_error option" where
  "validateRejectRatio ratio =
     (if flt ratio (FFin 0) \<or> fgt ratio (FFin 1) then Some ErrInvalidAdmissionPolicy else None)"

text \<open>The loop over the lane entries; \<open>seen\<close> is the set of the names met before.\<close>

fun validateAdmissionLanes ::
  "LaneRegistry \<Rightarrow> string list \<Rightarrow> LanePolicyInput list \<Rightarrow> core_error option" where
  "validateAdmissionLanes reg seen [] = None"
| "validateAdmissionLanes reg seen (lp # rest) =
     (if lpi_Lane lp = [] then Some ErrInvalidLane
      else if Lookup reg (lpi_Lane lp) = None then Some ErrInvalidAdmissionPolicy
      else if lpi_Lane lp \<in> set seen then Some ErrInvalidAdmissionPolicy
      else case ValidateLaneClass (lpi_Class lp) of
        Some e \<Rightarrow> Some e
      | None \<Rightarrow>
         (case validateRejectRatio (lpi_RejectAboveRatio lp) of
            Some e \<Rightarrow> Some e
          | None \<Rightarrow>
              (if lpi_MaxQueueDepth lp < 1 then Some ErrInvalidAdmissionPolicy
               else validateAdmissionLanes reg (lpi_Lane lp # seen) rest)))"

text \<open>The map \<open>override\<close>: the last entry of a name wins.\<close>

definition overrideMap :: "('p \<Rightarrow> string) \<Rightarrow> 'p list \<Rightarrow> string \<rightharpoonup> 'p" where
  "overrideMap nm lps = map_of (rev (map (\<lambda>lp. (nm lp, lp)) lps))"

definition admissionEntry :: "LanePolicyInput \<Rightarrow> laneAdmissionEntry" where
  "admissionEntry lp = \<lparr>lae_class = lpi_Class lp, lae_rejectAboveRatio = lpi_RejectAboveRatio lp,
     lae_maxQueueDepth = lpi_MaxQueueDepth lp\<rparr>"

definition buildAdmissionPolicySnapshot ::
  "LaneRegistry \<Rightarrow> AdmissionPolicyInput \<Rightarrow> core_error + admissionPolicySnapshot" where
  "buildAdmissionPolicySnapshot reg policy =
     (case ValidateLaneClass (api_DefaultClass policy) of
        Some e \<Rightarrow> Inl e
      | None \<Rightarrow>
     (case validateRejectRatio (api_DefaultRejectAboveRatio policy) of
        Some e \<Rightarrow> Inl e
      | None \<Rightarrow>
      if api_DefaultMaxQueueDepth policy < 1 then Inl ErrInvalidAdmissionPolicy
      else
     (case validateAdmissionLanes reg [] (api_Lanes policy) of
        Some e \<Rightarrow> Inl e
      | None \<Rightarrow> Inr
          \<lparr>aps_version = 0, aps_defaultClass = api_DefaultClass policy,
           aps_defaultRejectAboveRatio = api_DefaultRejectAboveRatio policy,
           aps_defaultMaxQueueDepth = api_DefaultMaxQueueDepth policy,
           aps_lanes = laneTable reg (\<lambda>name.
             case overrideMap lpi_Lane (api_Lanes policy) name of
               Some lp \<Rightarrow> admissionEntry lp
             | None \<Rightarrow> \<lparr>lae_class = api_DefaultClass policy,
                        lae_rejectAboveRatio = api_DefaultRejectAboveRatio policy,
                        lae_maxQueueDepth = api_DefaultMaxQueueDepth policy\<rparr>)\<rparr>)))"

text \<open>\<open>uint32(shardCount * queueSizePerLane)\<close> truncates.\<close>

definition defaultMaxDepth :: "nat \<Rightarrow> nat \<Rightarrow> u32" where
  "defaultMaxDepth shardCount queueSizePerLane =
     (let maxDepth = of_nat (shardCount * queueSizePerLane) in if maxDepth < 1 then 1 else maxDepth)"

definition defaultAdmissionPolicy :: "nat \<Rightarrow> nat \<Rightarrow> AdmissionPolicyInput" where
  "defaultAdmissionPolicy shardCount queueSizePerLane =
     \<lparr>api_DefaultClass = LaneClassNormal, api_DefaultRejectAboveRatio = flit (9 / 10),
      api_DefaultMaxQueueDepth = defaultMaxDepth shardCount queueSizePerLane, api_Lanes = []\<rparr>"

definition admissionPolicyView ::
  "LaneRegistry \<Rightarrow> admissionPolicySnapshot \<Rightarrow> u64 \<times> AdmissionPolicyInput" where
  "admissionPolicyView reg snap =
     (aps_version snap,
      \<lparr>api_DefaultClass = aps_defaultClass snap,
       api_DefaultRejectAboveRatio = aps_defaultRejectAboveRatio snap,
       api_DefaultMaxQueueDepth = aps_defaultMaxQueueDepth snap,
       api_Lanes = map (\<lambda>i. \<lparr>lpi_Lane = Name reg (of_nat i), lpi_Class = lae_class (aps_lanes snap ! i),
           lpi_RejectAboveRatio = lae_rejectAboveRatio (aps_lanes snap ! i),
           lpi_MaxQueueDepth = lae_maxQueueDepth (aps_lanes snap ! i)\<rparr>)
         [0..<length (aps_lanes snap)]\<rparr>)"

subsection \<open>Decision\<close>

definition evaluateAdmission ::
  "admissionPolicySnapshot \<Rightarrow> LaneID \<Rightarrow> float64 \<Rightarrow> u32 \<Rightarrow> AdmissionEvalResult" where
  "evaluateAdmission snap laneID pressure depth =
     (if unat laneID \<ge> length (aps_lanes snap) then
        \<lparr>aer_Admit = False, aer_Reason = AdmissionReasonPressureAboveThreshold,
         aer_Class = aps_defaultClass snap, aer_Threshold = FFin 0, aer_MaxDepth = 0\<rparr>
      else
        (let entry = aps_lanes snap ! unat laneID;
             result = (\<lambda>admit reason. \<lparr>aer_Admit = admit, aer_Reason = reason,
               aer_Class = lae_class entry, aer_Threshold = lae_rejectAboveRatio entry,
               aer_MaxDepth = lae_maxQueueDepth entry\<rparr>)
         in if depth \<ge> lae_maxQueueDepth entry then result False AdmissionReasonLaneQueueDepthExceeded
            else if fge pressure (lae_rejectAboveRatio entry)
            then result False AdmissionReasonPressureAboveThreshold
            else result True AdmissionReasonEmpty))"

subsection \<open>Overrides\<close>

lemma overrideMap_SomeD: "overrideMap nm lps n = Some lp \<Longrightarrow> lp \<in> set lps \<and> nm lp = n"
  by (auto simp: overrideMap_def dest!: map_of_SomeD)

lemma overrideMap_nth:
  assumes "distinct (map nm lps)" "lp \<in> set lps"
  shows "overrideMap nm lps (nm lp) = Some lp"
proof -
  have "distinct (map fst (rev (map (\<lambda>lp. (nm lp, lp)) lps)))"
    using assms(1) by (simp add: rev_map [symmetric] comp_def)
  then show ?thesis unfolding overrideMap_def by (rule map_of_is_SomeI) (use assms(2) in auto)
qed

text \<open>A table of overrides that names every lane, in order, is the list of their entries.\<close>

lemma laneTable_override:
  assumes "Len reg \<le> 65536" "map nm lps = reg_names reg" "distinct (reg_names reg)"
  shows "laneTable reg (\<lambda>name. case overrideMap nm lps name of Some lp \<Rightarrow> f lp | None \<Rightarrow> d name)
    = map f lps"
proof -
  have "distinct (map nm lps)" using assms(2,3) by (simp only:)
  then have "map (\<lambda>name. case overrideMap nm lps name of Some lp \<Rightarrow> f lp | None \<Rightarrow> d name) (map nm lps)
      = map f lps"
    by (simp add: overrideMap_nth)
  then show ?thesis by (simp add: laneTable_names [OF assms(1)] assms(2))
qed

subsection \<open>Acceptance\<close>

definition ratioOk :: "float64 \<Rightarrow> bool" where
  "ratioOk r \<longleftrightarrow> isNaN r \<or> (fle (FFin 0) r \<and> fle r (FFin 1))"

lemma ratio_out_of_range: "(flt r (FFin 0) \<or> fgt r (FFin 1)) \<longleftrightarrow> \<not> ratioOk r"
  by (cases r) (auto simp: ratioOk_def isNaN_def)

lemma validateRejectRatio_None_iff: "validateRejectRatio r = None \<longleftrightarrow> ratioOk r"
  using ratio_out_of_range [of r] by (simp add: validateRejectRatio_def)

definition admissionLaneOk :: "LaneRegistry \<Rightarrow> LanePolicyInput \<Rightarrow> bool" where
  "admissionLaneOk reg lp \<longleftrightarrow> lpi_Lane lp \<noteq> [] \<and> Lookup reg (lpi_Lane lp) \<noteq> None
     \<and> ValidateLaneClass (lpi_Class lp) = None \<and> ratioOk (lpi_RejectAboveRatio lp)
     \<and> lpi_MaxQueueDepth lp \<noteq> 0"

lemma validateAdmissionLanes_None_iff:
  "validateAdmissionLanes reg seen lps = None \<longleftrightarrow>
     distinct (map lpi_Lane lps) \<and> set (map lpi_Lane lps) \<inter> set seen = {}
     \<and> (\<forall>lp \<in> set lps. admissionLaneOk reg lp)"
  by (induction reg seen lps rule: validateAdmissionLanes.induct)
     (auto simp: admissionLaneOk_def validateRejectRatio_None_iff [symmetric] split: option.splits)

lemma buildAdmissionPolicySnapshot_ok_iff:
  "isOk (buildAdmissionPolicySnapshot reg policy) \<longleftrightarrow>
     ValidateLaneClass (api_DefaultClass policy) = None
     \<and> ratioOk (api_DefaultRejectAboveRatio policy) \<and> api_DefaultMaxQueueDepth policy \<noteq> 0
     \<and> distinct (map lpi_Lane (api_Lanes policy))
     \<and> (\<forall>lp \<in> set (api_Lanes policy). admissionLaneOk reg lp)"
  using validateAdmissionLanes_None_iff [of reg "[]" "api_Lanes policy"]
  by (auto simp: buildAdmissionPolicySnapshot_def validateRejectRatio_None_iff [symmetric]
      split: option.splits)

text \<open>\<open>initAdmissionPolicy\<close> never panics: the default policy is valid for every registry.\<close>

lemma ratioOk_flit_nine: "ratioOk (flit (9 / 10))"
  by code_simp

lemma defaultMaxDepth_pos: "defaultMaxDepth n c \<noteq> 0"
  by (simp add: defaultMaxDepth_def Let_def)

lemma defaultAdmissionPolicy_ok:
  "isOk (buildAdmissionPolicySnapshot reg (defaultAdmissionPolicy shardCount queueSizePerLane))"
  by (simp add: buildAdmissionPolicySnapshot_ok_iff defaultAdmissionPolicy_def ratioOk_flit_nine
      defaultMaxDepth_pos ValidateLaneClass_def)

definition admissionEntryOk :: "laneAdmissionEntry \<Rightarrow> bool" where
  "admissionEntryOk e \<longleftrightarrow> ValidateLaneClass (lae_class e) = None \<and> ratioOk (lae_rejectAboveRatio e)
     \<and> lae_maxQueueDepth e \<noteq> 0"

definition admissionSnap_ok :: "LaneRegistry \<Rightarrow> admissionPolicySnapshot \<Rightarrow> bool" where
  "admissionSnap_ok reg snap \<longleftrightarrow> length (aps_lanes snap) = Len reg
     \<and> admissionEntryOk \<lparr>lae_class = aps_defaultClass snap,
         lae_rejectAboveRatio = aps_defaultRejectAboveRatio snap,
         lae_maxQueueDepth = aps_defaultMaxQueueDepth snap\<rparr>
     \<and> (\<forall>e \<in> set (aps_lanes snap). admissionEntryOk e)"

lemma buildAdmissionPolicySnapshot_ok [inv_intros]:
  assumes "buildAdmissionPolicySnapshot reg policy = Inr snap"
  shows "admissionSnap_ok reg snap"
proof -
  have "isOk (buildAdmissionPolicySnapshot reg policy)" using assms by simp
  note ok = this [unfolded buildAdmissionPolicySnapshot_ok_iff]
  have lanes: "aps_lanes snap = laneTable reg (\<lambda>name.
      case overrideMap lpi_Lane (api_Lanes policy) name of Some lp \<Rightarrow> admissionEntry lp
      | None \<Rightarrow> \<lparr>lae_class = api_DefaultClass policy,
          lae_rejectAboveRatio = api_DefaultRejectAboveRatio policy,
          lae_maxQueueDepth = api_DefaultMaxQueueDepth policy\<rparr>)"
    and rest: "aps_defaultClass snap = api_DefaultClass policy"
      "aps_defaultRejectAboveRatio snap = api_DefaultRejectAboveRatio policy"
      "aps_defaultMaxQueueDepth snap = api_DefaultMaxQueueDepth policy"
    using assms
    by (auto simp: buildAdmissionPolicySnapshot_def split: if_splits option.splits)
  have "admissionEntryOk e" if "e \<in> set (aps_lanes snap)" for e
    using that ok
    by (auto simp: lanes laneTable_def admissionEntryOk_def admissionEntry_def admissionLaneOk_def
        dest!: overrideMap_SomeD split: option.splits)
  then show ?thesis using ok by (simp add: admissionSnap_ok_def admissionEntryOk_def rest) (simp add: lanes)
qed

subsection \<open>The view\<close>

lemma admissionPolicyView_names:
  assumes "Len reg \<le> 65536" "length (aps_lanes snap) = Len reg"
  shows "map lpi_Lane (api_Lanes (snd (admissionPolicyView reg snap))) = reg_names reg"
  using assms by (auto intro!: nth_equalityI simp: admissionPolicyView_def Name_nth Len_def)

lemma admissionPolicyView_entries:
  "map admissionEntry (api_Lanes (snd (admissionPolicyView reg snap))) = aps_lanes snap"
  by (auto intro!: nth_equalityI simp: admissionPolicyView_def admissionEntry_def)

lemma buildAdmissionPolicySnapshot_view:
  assumes reg: "reg_wf reg" "Len reg \<le> 65536" and ok: "admissionSnap_ok reg snap"
  shows "buildAdmissionPolicySnapshot reg (snd (admissionPolicyView reg snap))
    = Inr (snap\<lparr>aps_version := 0\<rparr>)"
proof -
  let ?v = "snd (admissionPolicyView reg snap)"
  have d: "distinct (reg_names reg)" and ne: "[] \<notin> set (reg_names reg)"
    using reg(1) by (simp_all add: reg_wf_def)
  have len: "length (aps_lanes snap) = Len reg" using ok by (simp add: admissionSnap_ok_def)
  note names = admissionPolicyView_names [OF reg(2) len]
  have "admissionLaneOk reg lp" if "lp \<in> set (api_Lanes ?v)" for lp
  proof -
    have "admissionEntry lp \<in> set (aps_lanes snap)"
      using that admissionPolicyView_entries [of reg snap] by (metis image_eqI image_set)
    then have "admissionEntryOk (admissionEntry lp)" using ok by (simp add: admissionSnap_ok_def)
    moreover have "lpi_Lane lp \<in> set (reg_names reg)" using that names by (metis image_eqI image_set)
    ultimately show ?thesis
      using ne Lookup_None_iff [OF reg(1)]
      by (auto simp: admissionLaneOk_def admissionEntryOk_def admissionEntry_def simp del: not_None_eq)
  qed
  then have "isOk (buildAdmissionPolicySnapshot reg ?v)"
    using ok d names
    by (simp add: buildAdmissionPolicySnapshot_ok_iff admissionSnap_ok_def admissionEntryOk_def)
       (simp add: admissionPolicyView_def)
  then obtain s where s: "buildAdmissionPolicySnapshot reg ?v = Inr s" by (auto simp: isOk_iff)
  then have "aps_lanes s = aps_lanes snap"
    using laneTable_override [OF reg(2) names d, where f = admissionEntry] admissionPolicyView_entries
    by (auto simp: buildAdmissionPolicySnapshot_def split: if_splits option.splits)
  with s show ?thesis
    by (auto simp: buildAdmissionPolicySnapshot_def admissionPolicyView_def
        split: if_splits option.splits)
qed

interpretation admission: lane_policy buildAdmissionPolicySnapshot admissionPolicyView
  admissionSnap_ok "\<lambda>v s. s\<lparr>aps_version := v\<rparr>"
proof (unfold_locales, goal_cases)
  case (1 reg p s)
  then show ?case by (simp add: buildAdmissionPolicySnapshot_ok)
next
  case (2 reg p s)
  then show ?case by (auto simp: buildAdmissionPolicySnapshot_def split: if_splits option.splits)
next
  case (3 reg s)
  then show ?case by (rule buildAdmissionPolicySnapshot_view)
qed (simp_all add: admissionPolicyView_def admissionSnap_ok_def)

subsection \<open>The decision\<close>

lemma evaluateAdmission_Admit_iff:
  "aer_Admit (evaluateAdmission snap l p d) \<longleftrightarrow>
     unat l < length (aps_lanes snap) \<and> d < lae_maxQueueDepth (aps_lanes snap ! unat l)
     \<and> \<not> fge p (lae_rejectAboveRatio (aps_lanes snap ! unat l))"
  by (auto simp: evaluateAdmission_def Let_def)

subsection \<open>Properties\<close>


text \<open>Admission is monotone: what is admitted at some pressure and depth is admitted at every lower pressure
  and depth.\<close>

lemma admission_monotone:
  assumes "aer_Admit (evaluateAdmission snap l p d)" "fle p' p" "d' \<le> d"
  shows "aer_Admit (evaluateAdmission snap l p' d')"
proof -
  have a: "unat l < length (aps_lanes snap)" "d < lae_maxQueueDepth (aps_lanes snap ! unat l)"
    "\<not> fge p (lae_rejectAboveRatio (aps_lanes snap ! unat l))"
    using assms(1) by (simp_all add: evaluateAdmission_Admit_iff)
  then show ?thesis
    unfolding evaluateAdmission_Admit_iff using assms(2,3) fle_trans by (meson le_less_trans)
qed

text \<open>Republishing the admission policy view changes nothing.\<close>

lemma admission_republish:
  assumes "NewLaneRegistry quotas = Inr reg" "distinct (map fst quotas)" "length quotas \<le> 65536"
    "buildAdmissionPolicySnapshot reg policy = Inr snap"
  shows "buildAdmissionPolicySnapshot reg (snd (admissionPolicyView reg (snap\<lparr>aps_version := v\<rparr>))) = Inr snap"
  using admission.republish [OF NewLaneRegistry_wf [OF assms(1,2)] _ assms(4)] assms(3)
  by (simp add: Len_def NewLaneRegistry_fields [OF assms(1,2)])

end
