(* ===== verification/Lane_Counters.thy ===== *)
theory Lane_Counters
  imports Keylane_Prelude
begin

text \<open>
  The atomic counters of one lane (\<open>lane_counters.go\<close>), the queue-wait and run-duration
  accumulators (\<open>queue_wait.go\<close>, \<open>run_duration.go\<close>) and the snapshot types of
  \<open>stats_gc_pressure.go\<close> they are read into. \<open>atomic.Uint64\<close> is \<open>u64\<close> and wraps;
  \<open>atomic.Int64\<close> is \<open>int\<close>.
\<close>

subsection \<open>Adaptive quota vocabulary\<close>

text \<open>The string constants of \<open>adaptive_quota_types.go\<close>; \<open>QuotaReasonEmpty\<close> is the empty string.\<close>

datatype QuotaAdjustmentAction = QuotaAdjustmentHold | QuotaAdjustmentIncrease | QuotaAdjustmentDecrease

datatype QuotaAdjustmentReason =
    QuotaReasonEmpty
  | QuotaReasonNone | QuotaReasonCriticalQueueWaitHigh | QuotaReasonNormalQueueWaitHigh
  | QuotaReasonGlobalPressureHigh | QuotaReasonBackgroundPressureHigh
  | QuotaReasonBestEffortPressureHigh | QuotaReasonRunTimeTooHigh | QuotaReasonCooldownActive
  | QuotaReasonAtMinBound | QuotaReasonAtMaxBound | QuotaReasonInsufficientSamples
  | QuotaReasonIncreaseDisabled | QuotaReasonDecreaseDisabled | QuotaReasonWarmupActive
  | QuotaReasonNeutralPressure | QuotaReasonBackgroundQueueWaitHigh | QuotaReasonQueueFull
  | QuotaReasonUpdateFailed

definition allQuotaAdjustmentReasons :: "QuotaAdjustmentReason list" where
  "allQuotaAdjustmentReasons =
    [QuotaReasonNone, QuotaReasonCriticalQueueWaitHigh, QuotaReasonNormalQueueWaitHigh,
     QuotaReasonGlobalPressureHigh, QuotaReasonBackgroundPressureHigh,
     QuotaReasonBestEffortPressureHigh, QuotaReasonRunTimeTooHigh, QuotaReasonCooldownActive,
     QuotaReasonAtMinBound, QuotaReasonAtMaxBound, QuotaReasonInsufficientSamples,
     QuotaReasonIncreaseDisabled, QuotaReasonDecreaseDisabled, QuotaReasonWarmupActive,
     QuotaReasonNeutralPressure, QuotaReasonBackgroundQueueWaitHigh, QuotaReasonQueueFull,
     QuotaReasonUpdateFailed]"

fun reasonIndexFrom :: "nat \<Rightarrow> QuotaAdjustmentReason list \<Rightarrow> QuotaAdjustmentReason \<Rightarrow> u64" where
  "reasonIndexFrom i [] r = 0"
| "reasonIndexFrom i (reason # rest) r =
     (if reason = r then of_nat (i + 1) else reasonIndexFrom (Suc i) rest r)"

definition reasonIndex :: "QuotaAdjustmentReason \<Rightarrow> u64" where
  "reasonIndex r = reasonIndexFrom 0 allQuotaAdjustmentReasons r"

definition reasonFromIndex :: "u64 \<Rightarrow> QuotaAdjustmentReason" where
  "reasonFromIndex idx =
     (if idx = 0 \<or> idx > of_nat (length allQuotaAdjustmentReasons) then QuotaReasonEmpty
      else allQuotaAdjustmentReasons ! unat (idx - 1))"

subsection \<open>Accumulators\<close>

record durationAccum =
  acc_count :: u64
  acc_totalNanos :: u64
  acc_maxNanos :: u64

definition zeroAccum :: durationAccum where
  "zeroAccum = \<lparr>acc_count = 0, acc_totalNanos = 0, acc_maxNanos = 0\<rparr>"

text \<open>
  The compare-and-swap loop of \<open>atomicMaxUint64\<close>: \<open>old\<close> is what this \<open>Load\<close> saw, and \<open>moved\<close> lists what
  the target holds at the successive \<open>CompareAndSwap\<close>s (a value other than \<open>old\<close> is the write of
  another goroutine, the swap fails and the next \<open>Load\<close> sees it). Once the list is used up nobody
  interferes any more. The result is the target when the loop returns.
\<close>

fun atomicMaxLoop :: "u64 \<Rightarrow> u64 \<Rightarrow> u64 list \<Rightarrow> u64" where
  "atomicMaxLoop value old moved =
     (if value \<le> old then old
      else case moved of [] \<Rightarrow> value
           | cur # rest \<Rightarrow> if cur = old then value else atomicMaxLoop value cur rest)"

text \<open>Without interference the loop is a maximum.\<close>

definition atomicMaxUint64 :: "u64 \<Rightarrow> u64 \<Rightarrow> u64" where
  "atomicMaxUint64 target value = (if value \<le> target then target else value)"

definition accumRecord :: "durationAccum \<Rightarrow> u64 \<Rightarrow> durationAccum" where
  "accumRecord a nanos =
     a\<lparr>acc_count := acc_count a + 1, acc_totalNanos := acc_totalNanos a + nanos,
       acc_maxNanos := atomicMaxUint64 (acc_maxNanos a) nanos\<rparr>"

record DurationStats =
  ds_Count :: u64
  ds_TotalNanos :: u64
  ds_MaxNanos :: u64

definition accumSnapshot :: "durationAccum \<Rightarrow> DurationStats" where
  "accumSnapshot a =
     \<lparr>ds_Count = acc_count a, ds_TotalNanos = acc_totalNanos a, ds_MaxNanos = acc_maxNanos a\<rparr>"

definition AverageNanos :: "DurationStats \<Rightarrow> u64" where
  "AverageNanos s = (if ds_Count s = 0 then 0 else ds_TotalNanos s div ds_Count s)"

subsection \<open>Lane counters\<close>

record laneCounters =
  lc_submitted :: u64
  lc_accepted :: u64
  lc_rejected :: u64
  lc_pressureAdmissionRejected :: u64
  lc_overloadReject :: u64
  lc_overloadShed :: u64
  lc_overloadDegrade :: u64
  lc_canceled :: u64
  lc_panicked :: u64
  lc_gcQueueWait :: durationAccum
  lc_gcRun :: durationAccum
  lc_submittedTotal :: int
  lc_completedTotal :: int
  lc_failedTotal :: int
  lc_queueFullTotal :: int
  lc_queueWaitTotalNanos :: int
  lc_queueWaitCount :: int
  lc_quotaChangeTotal :: u64
  lc_adaptiveIncreaseTotal :: u64
  lc_adaptiveDecreaseTotal :: u64
  lc_adaptiveHoldTotal :: u64
  lc_lastQuotaChangeUnix :: int
  lc_lastAdaptiveReason :: u64

definition zeroCounters :: laneCounters where
  "zeroCounters = \<lparr>lc_submitted = 0, lc_accepted = 0, lc_rejected = 0,
     lc_pressureAdmissionRejected = 0, lc_overloadReject = 0, lc_overloadShed = 0,
     lc_overloadDegrade = 0, lc_canceled = 0, lc_panicked = 0,
     lc_gcQueueWait = zeroAccum, lc_gcRun = zeroAccum, lc_submittedTotal = 0,
     lc_completedTotal = 0, lc_failedTotal = 0, lc_queueFullTotal = 0,
     lc_queueWaitTotalNanos = 0, lc_queueWaitCount = 0, lc_quotaChangeTotal = 0,
     lc_adaptiveIncreaseTotal = 0, lc_adaptiveDecreaseTotal = 0, lc_adaptiveHoldTotal = 0,
     lc_lastQuotaChangeUnix = 0, lc_lastAdaptiveReason = 0\<rparr>"

record LaneCountersGCPressure =
  gc_Submitted :: u64
  gc_Accepted :: u64
  gc_Rejected :: u64
  gc_AdmissionRejected :: u64
  gc_OverloadRejected :: u64
  gc_OverloadShed :: u64
  gc_OverloadDegrade :: u64
  gc_Completed :: u64
  gc_Failed :: u64
  gc_QueueFull :: u64
  gc_Canceled :: u64
  gc_Panicked :: u64

definition snapshotGCPressure :: "laneCounters \<Rightarrow> LaneCountersGCPressure" where
  "snapshotGCPressure c =
     \<lparr>gc_Submitted = lc_submitted c, gc_Accepted = lc_accepted c, gc_Rejected = lc_rejected c,
      gc_AdmissionRejected = lc_pressureAdmissionRejected c,
      gc_OverloadRejected = lc_overloadReject c, gc_OverloadShed = lc_overloadShed c,
      gc_OverloadDegrade = lc_overloadDegrade c,
      gc_Completed = word_of_int (lc_completedTotal c), gc_Failed = word_of_int (lc_failedTotal c),
      gc_QueueFull = word_of_int (lc_queueFullTotal c), gc_Canceled = lc_canceled c,
      gc_Panicked = lc_panicked c\<rparr>"

definition snapshotGCPressureQueueWait :: "laneCounters \<Rightarrow> DurationStats" where
  "snapshotGCPressureQueueWait c = accumSnapshot (lc_gcQueueWait c)"

definition snapshotGCPressureRun :: "laneCounters \<Rightarrow> DurationStats" where
  "snapshotGCPressureRun c = accumSnapshot (lc_gcRun c)"

definition recordLaneAdmissionAttempt :: "laneCounters \<Rightarrow> laneCounters" where
  "recordLaneAdmissionAttempt c = c\<lparr>lc_submitted := lc_submitted c + 1\<rparr>"

text \<open>\<open>None\<close> is the nil error.\<close>

definition recordLaneAdmissionResult :: "laneCounters \<Rightarrow> core_error option \<Rightarrow> laneCounters" where
  "recordLaneAdmissionResult c err =
     (case err of
        None \<Rightarrow> c\<lparr>lc_accepted := lc_accepted c + 1, lc_submittedTotal := lc_submittedTotal c + 1\<rparr>
      | Some e \<Rightarrow>
          (let c1 = c\<lparr>lc_rejected := lc_rejected c + 1\<rparr>
           in if e = ErrQueueFull then c1\<lparr>lc_queueFullTotal := lc_queueFullTotal c1 + 1\<rparr> else c1))"

definition recordLaneAdmissionRejected :: "laneCounters \<Rightarrow> laneCounters" where
  "recordLaneAdmissionRejected c = c\<lparr>lc_rejected := lc_rejected c + 1\<rparr>"

definition recordPressureAdmissionRejected :: "laneCounters \<Rightarrow> laneCounters" where
  "recordPressureAdmissionRejected c =
     c\<lparr>lc_rejected := lc_rejected c + 1,
       lc_pressureAdmissionRejected := lc_pressureAdmissionRejected c + 1\<rparr>"

definition admissionSampleFragment :: "laneCounters \<Rightarrow> u64 \<times> u64 \<times> u64" where
  "admissionSampleFragment c =
     (let counters = snapshotGCPressure c
      in (gc_Submitted counters, gc_AdmissionRejected counters + gc_OverloadRejected counters,
          gc_OverloadShed counters))"

definition queueWaitMaxNanos :: "laneCounters \<Rightarrow> u64" where
  "queueWaitMaxNanos c = acc_maxNanos (lc_gcQueueWait c)"

definition recordLastAdaptiveReason :: "laneCounters \<Rightarrow> QuotaAdjustmentReason \<Rightarrow> laneCounters" where
  "recordLastAdaptiveReason c reason = c\<lparr>lc_lastAdaptiveReason := reasonIndex reason\<rparr>"

definition recordManualQuotaChange :: "laneCounters \<Rightarrow> int \<Rightarrow> laneCounters" where
  "recordManualQuotaChange c nowUnix =
     c\<lparr>lc_quotaChangeTotal := lc_quotaChangeTotal c + 1, lc_lastQuotaChangeUnix := nowUnix\<rparr>"

definition recordAdaptiveDecision ::
  "laneCounters \<Rightarrow> QuotaAdjustmentAction \<Rightarrow> QuotaAdjustmentReason \<Rightarrow> int \<Rightarrow> bool \<Rightarrow> laneCounters" where
  "recordAdaptiveDecision c action reason nowUnix countHold =
     (let c1 = recordLastAdaptiveReason c reason;
          c2 = (case action of
                  QuotaAdjustmentIncrease \<Rightarrow>
                    c1\<lparr>lc_adaptiveIncreaseTotal := lc_adaptiveIncreaseTotal c1 + 1\<rparr>
                | QuotaAdjustmentDecrease \<Rightarrow>
                    c1\<lparr>lc_adaptiveDecreaseTotal := lc_adaptiveDecreaseTotal c1 + 1\<rparr>
                | QuotaAdjustmentHold \<Rightarrow>
                    (if countHold then c1\<lparr>lc_adaptiveHoldTotal := lc_adaptiveHoldTotal c1 + 1\<rparr>
                     else c1))
      in if action = QuotaAdjustmentIncrease \<or> action = QuotaAdjustmentDecrease
         then c2\<lparr>lc_quotaChangeTotal := lc_quotaChangeTotal c2 + 1,
                 lc_lastQuotaChangeUnix := nowUnix\<rparr>
         else c2)"

record LaneAdaptiveStatsSnapshot =
  las_LaneName :: string
  las_KeepTotal :: u64
  las_RejectTotal :: u64
  las_ShedTotal :: u64
  las_DegradeTotal :: u64
  las_QueueFullTotal :: u64
  las_QuotaChangeTotal :: u64
  las_AdaptiveIncreaseTotal :: u64
  las_AdaptiveDecreaseTotal :: u64
  las_AdaptiveHoldTotal :: u64
  las_LastQuotaChangeUnix :: int
  las_LastAdaptiveReason :: QuotaAdjustmentReason

definition snapshotAdaptiveStats :: "laneCounters \<Rightarrow> string \<Rightarrow> LaneAdaptiveStatsSnapshot" where
  "snapshotAdaptiveStats c laneName =
     (let counters = snapshotGCPressure c;
          idx = lc_lastAdaptiveReason c;
          reason = (if idx \<noteq> 0 then reasonFromIndex idx else QuotaReasonEmpty)
      in \<lparr>las_LaneName = laneName, las_KeepTotal = gc_Accepted counters,
          las_RejectTotal = gc_AdmissionRejected counters + gc_OverloadRejected counters,
          las_ShedTotal = gc_OverloadShed counters, las_DegradeTotal = gc_OverloadDegrade counters,
          las_QueueFullTotal = gc_QueueFull counters, las_QuotaChangeTotal = lc_quotaChangeTotal c,
          las_AdaptiveIncreaseTotal = lc_adaptiveIncreaseTotal c,
          las_AdaptiveDecreaseTotal = lc_adaptiveDecreaseTotal c,
          las_AdaptiveHoldTotal = lc_adaptiveHoldTotal c,
          las_LastQuotaChangeUnix = lc_lastQuotaChangeUnix c, las_LastAdaptiveReason = reason\<rparr>)"

subsection \<open>Facts\<close>

lemma atomicMaxUint64_max: "atomicMaxUint64 target value = max target value"
  by (auto simp: atomicMaxUint64_def max_def)

declare atomicMaxLoop.simps [simp del]

text \<open>Whatever the other goroutines write, the target is at least \<open>value\<close> when the loop returns; and
  if they only raise it, the result is the maximum of \<open>value\<close> and the last write that was seen.\<close>

lemma atomicMaxLoop_ge: "value \<le> atomicMaxLoop value old moved"
proof (induction moved arbitrary: old)
  case Nil
  then show ?case by (subst atomicMaxLoop.simps) simp
next
  case (Cons cur rest)
  then show ?case by (subst atomicMaxLoop.simps) simp
qed

lemma atomicMaxLoop_undisturbed: "atomicMaxLoop value old [] = atomicMaxUint64 old value"
  by (subst atomicMaxLoop.simps) (simp add: atomicMaxUint64_def)

lemma atomicMaxLoop_keeps:
  "sorted (old # moved) \<Longrightarrow> old \<le> atomicMaxLoop value old moved"
proof (induction moved arbitrary: old)
  case Nil
  then show ?case by (subst atomicMaxLoop.simps) auto
next
  case (Cons cur rest)
  then have "cur \<le> atomicMaxLoop value cur rest" "old \<le> cur" by simp_all
  then show ?case by (subst atomicMaxLoop.simps) (auto intro: order_trans)
qed

lemma reasonFromIndex_reasonIndex:
  "reasonFromIndex (reasonIndex r) = r"
  by (cases r) (simp_all add: reasonIndex_def reasonFromIndex_def allQuotaAdjustmentReasons_def)

end
