(* ===== verification/Overload_Policy.thy ===== *)
theory Overload_Policy
  imports Admission_Policy Lane_Counters
begin

text \<open>
  The overload policy of \<open>internal/core/overload_policy.go\<close>: validation, snapshot, the decision to
  keep, reject, shed or degrade a submission, and the counters a decision moves. The lemmas
  characterise every outcome of the decision, show that a validated policy degrades or sheds before it
  rejects, and that only best-effort and background lanes are ever shed.
\<close>

subsection \<open>Data\<close>

datatype OverloadAction = OverloadActionKeep | OverloadActionReject | OverloadActionShed
  | OverloadActionDegrade

datatype OverloadReason =
    OverloadReasonNone | OverloadReasonGlobalPressureHigh | OverloadReasonLanePressureHigh
  | OverloadReasonLaneDepthExceeded | OverloadReasonQueueFull | OverloadReasonQueueClosed
  | OverloadReasonBestEffortShedding | OverloadReasonBackgroundShedding
  | OverloadReasonDegradePreferred

record LaneOverloadPolicyInput =
  lop_Lane :: string
  lop_Class :: string
  lop_RejectAboveRatio :: float64
  lop_ShedAboveRatio :: float64
  lop_DegradeAboveRatio :: float64
  lop_MaxQueueDepth :: u32
  lop_RetryAfter :: duration
  lop_MinBackoff :: duration
  lop_MaxBackoff :: duration
  lop_Jitter :: bool

record OverloadPolicyInput =
  opi_Default :: LaneOverloadPolicyInput
  opi_Lanes :: "LaneOverloadPolicyInput list"

record OverloadSignals =
  os_GlobalPressure :: float64
  os_LanePressure :: float64
  os_LaneDepth :: u32
  os_QueueFull :: bool
  os_QueueClosed :: bool

record laneOverloadEntry =
  loe_class :: string
  loe_rejectAboveRatio :: float64
  loe_shedAboveRatio :: float64
  loe_degradeAboveRatio :: float64
  loe_maxQueueDepth :: u32
  loe_retryAfter :: duration
  loe_minBackoff :: duration
  loe_maxBackoff :: duration
  loe_jitter :: bool

record overloadPolicySnapshot =
  ops_version :: u64
  ops_defaultPolicy :: laneOverloadEntry
  ops_lanes :: "laneOverloadEntry list"

record OverloadEvalResult =
  oer_Action :: OverloadAction
  oer_Reason :: OverloadReason
  oer_Class :: string
  oer_Pressure :: float64
  oer_LaneDepth :: u32
  oer_MaxDepth :: u32
  oer_RetryAfter :: duration
  oer_MinBackoff :: duration
  oer_MaxBackoff :: duration
  oer_Jitter :: bool
  oer_PolicyVersion :: u64

subsection \<open>Validation\<close>

definition validateOverloadRatio :: "float64 \<Rightarrow> core_error option" where
  "validateOverloadRatio ratio =
     (if flt ratio (FFin 0) \<or> fgt ratio (FFin 1) then Some ErrInvalidOverloadPolicy else None)"

definition validateBackoffDurations :: "duration \<Rightarrow> duration \<Rightarrow> duration \<Rightarrow> core_error option" where
  "validateBackoffDurations retryAfter minBackoff maxBackoff =
     (if retryAfter < 0 then Some ErrInvalidOverloadPolicy
      else if minBackoff < 0 then Some ErrInvalidOverloadPolicy
      else if maxBackoff < 0 then Some ErrInvalidOverloadPolicy
      else if maxBackoff > 0 \<and> minBackoff > maxBackoff then Some ErrInvalidOverloadPolicy
      else if maxBackoff > 0 \<and> retryAfter > maxBackoff then Some ErrInvalidOverloadPolicy
      else None)"

text \<open>\<open>if err := ...; err != nil { return err }\<close>: the first error of a list of checks.\<close>

fun firstError :: "core_error option list \<Rightarrow> core_error option" where
  "firstError [] = None"
| "firstError (None # rest) = firstError rest"
| "firstError (Some e # rest) = Some e"

definition failIf :: "bool \<Rightarrow> core_error \<Rightarrow> core_error option" where
  "failIf b e = (if b then Some e else None)"

definition validateLaneOverloadPolicyInput ::
  "LaneOverloadPolicyInput \<Rightarrow> LaneRegistry \<Rightarrow> bool \<Rightarrow> core_error option" where
  "validateLaneOverloadPolicyInput lp reg requireLane =
     firstError
       [failIf (requireLane \<and> lop_Lane lp = []) ErrInvalidLane,
        failIf (requireLane \<and> Lookup reg (lop_Lane lp) = None) ErrInvalidOverloadPolicy,
        ValidateLaneClass (if lop_Class lp = [] then LaneClassNormal else lop_Class lp),
        validateOverloadRatio (lop_RejectAboveRatio lp),
        validateOverloadRatio (lop_ShedAboveRatio lp),
        validateOverloadRatio (lop_DegradeAboveRatio lp),
        failIf (flt (lop_ShedAboveRatio lp) (FFin 1)
          \<and> fgt (lop_ShedAboveRatio lp) (lop_RejectAboveRatio lp)) ErrInvalidOverloadPolicy,
        failIf (flt (lop_DegradeAboveRatio lp) (FFin 1)
          \<and> fgt (lop_DegradeAboveRatio lp) (lop_RejectAboveRatio lp)) ErrInvalidOverloadPolicy,
        failIf (lop_MaxQueueDepth lp < 1) ErrInvalidOverloadPolicy,
        validateBackoffDurations (lop_RetryAfter lp) (lop_MinBackoff lp) (lop_MaxBackoff lp)]"

definition laneEntryFromInput :: "LaneOverloadPolicyInput \<Rightarrow> laneOverloadEntry" where
  "laneEntryFromInput lp =
     \<lparr>loe_class = (if lop_Class lp = [] then LaneClassNormal else lop_Class lp),
      loe_rejectAboveRatio = lop_RejectAboveRatio lp,
      loe_shedAboveRatio = (if feq (lop_ShedAboveRatio lp) (FFin 0) then FFin 1
        else lop_ShedAboveRatio lp),
      loe_degradeAboveRatio = (if feq (lop_DegradeAboveRatio lp) (FFin 0) then FFin 1
        else lop_DegradeAboveRatio lp),
      loe_maxQueueDepth = lop_MaxQueueDepth lp, loe_retryAfter = lop_RetryAfter lp,
      loe_minBackoff = lop_MinBackoff lp, loe_maxBackoff = lop_MaxBackoff lp,
      loe_jitter = lop_Jitter lp\<rparr>"

fun validateOverloadLanes ::
  "LaneRegistry \<Rightarrow> string list \<Rightarrow> LaneOverloadPolicyInput list \<Rightarrow> core_error option" where
  "validateOverloadLanes reg seen [] = None"
| "validateOverloadLanes reg seen (lp # rest) =
     (if lop_Lane lp \<in> set seen then Some ErrInvalidOverloadPolicy
      else case validateLaneOverloadPolicyInput lp reg True of
        Some e \<Rightarrow> Some e
      | None \<Rightarrow> validateOverloadLanes reg (lop_Lane lp # seen) rest)"

definition buildOverloadPolicySnapshot ::
  "LaneRegistry \<Rightarrow> OverloadPolicyInput \<Rightarrow> core_error + overloadPolicySnapshot" where
  "buildOverloadPolicySnapshot reg policy =
     (case validateLaneOverloadPolicyInput (opi_Default policy) reg False of
        Some e \<Rightarrow> Inl e
      | None \<Rightarrow>
     (case validateOverloadLanes reg [] (opi_Lanes policy) of
        Some e \<Rightarrow> Inl e
      | None \<Rightarrow>
         (let defaultEntry = laneEntryFromInput (opi_Default policy)
          in Inr \<lparr>ops_version = 0, ops_defaultPolicy = defaultEntry,
               ops_lanes = laneTable reg (\<lambda>name.
                 case overrideMap lop_Lane (opi_Lanes policy) name of
                   Some lp \<Rightarrow> laneEntryFromInput lp | None \<Rightarrow> defaultEntry)\<rparr>)))"

definition defaultOverloadPolicy :: "nat \<Rightarrow> nat \<Rightarrow> OverloadPolicyInput" where
  "defaultOverloadPolicy shardCount queueSizePerLane =
     \<lparr>opi_Default =
        \<lparr>lop_Lane = [], lop_Class = LaneClassNormal, lop_RejectAboveRatio = flit (9 / 10),
         lop_ShedAboveRatio = FFin 1, lop_DegradeAboveRatio = FFin 1,
         lop_MaxQueueDepth = defaultMaxDepth shardCount queueSizePerLane,
         lop_RetryAfter = 250 * Millisecond, lop_MinBackoff = 100 * Millisecond,
         lop_MaxBackoff = 2 * Second, lop_Jitter = True\<rparr>,
      opi_Lanes = []\<rparr>"

definition laneOverloadPolicyInputFromEntry ::
  "laneOverloadEntry \<Rightarrow> string \<Rightarrow> LaneOverloadPolicyInput" where
  "laneOverloadPolicyInputFromEntry entry lane =
     \<lparr>lop_Lane = lane, lop_Class = loe_class entry, lop_RejectAboveRatio = loe_rejectAboveRatio entry,
      lop_ShedAboveRatio = loe_shedAboveRatio entry,
      lop_DegradeAboveRatio = loe_degradeAboveRatio entry,
      lop_MaxQueueDepth = loe_maxQueueDepth entry, lop_RetryAfter = loe_retryAfter entry,
      lop_MinBackoff = loe_minBackoff entry, lop_MaxBackoff = loe_maxBackoff entry,
      lop_Jitter = loe_jitter entry\<rparr>"

definition overloadPolicyView ::
  "LaneRegistry \<Rightarrow> overloadPolicySnapshot \<Rightarrow> u64 \<times> OverloadPolicyInput" where
  "overloadPolicyView reg snap =
     (ops_version snap,
      \<lparr>opi_Default = laneOverloadPolicyInputFromEntry (ops_defaultPolicy snap) [],
       opi_Lanes = map (\<lambda>i. laneOverloadPolicyInputFromEntry (ops_lanes snap ! i) (Name reg (of_nat i)))
         [0..<length (ops_lanes snap)]\<rparr>)"

subsection \<open>Decision\<close>

definition overloadDecisionFromEntry ::
  "overloadPolicySnapshot \<Rightarrow> LaneID \<Rightarrow> OverloadSignals \<Rightarrow> OverloadAction \<Rightarrow> OverloadReason \<Rightarrow>
   OverloadEvalResult" where
  "overloadDecisionFromEntry snap laneID signals action reason =
     (let entry = (if unat laneID < length (ops_lanes snap) then ops_lanes snap ! unat laneID
                   else ops_defaultPolicy snap)
      in \<lparr>oer_Action = action, oer_Reason = reason, oer_Class = loe_class entry,
          oer_Pressure = os_GlobalPressure signals, oer_LaneDepth = os_LaneDepth signals,
          oer_MaxDepth = loe_maxQueueDepth entry, oer_RetryAfter = loe_retryAfter entry,
          oer_MinBackoff = loe_minBackoff entry, oer_MaxBackoff = loe_maxBackoff entry,
          oer_Jitter = loe_jitter entry, oer_PolicyVersion = ops_version snap\<rparr>)"

definition keepResult ::
  "overloadPolicySnapshot \<Rightarrow> OverloadSignals \<Rightarrow> laneOverloadEntry \<Rightarrow> OverloadEvalResult" where
  "keepResult snap signals entry =
     \<lparr>oer_Action = OverloadActionKeep, oer_Reason = OverloadReasonNone, oer_Class = loe_class entry,
      oer_Pressure = os_GlobalPressure signals, oer_LaneDepth = os_LaneDepth signals,
      oer_MaxDepth = loe_maxQueueDepth entry, oer_RetryAfter = 0, oer_MinBackoff = 0,
      oer_MaxBackoff = 0, oer_Jitter = False, oer_PolicyVersion = ops_version snap\<rparr>"

definition evaluateOverload ::
  "overloadPolicySnapshot \<Rightarrow> LaneID \<Rightarrow> OverloadSignals \<Rightarrow> OverloadEvalResult" where
  "evaluateOverload snap laneID signals =
     (let decide = overloadDecisionFromEntry snap laneID signals;
          entry = ops_lanes snap ! unat laneID;
          pressure = os_GlobalPressure signals
      in if os_QueueClosed signals then decide OverloadActionReject OverloadReasonQueueClosed
         else if os_QueueFull signals then decide OverloadActionReject OverloadReasonQueueFull
         else if unat laneID \<ge> length (ops_lanes snap)
         then decide OverloadActionReject OverloadReasonGlobalPressureHigh
         else if os_LaneDepth signals \<ge> loe_maxQueueDepth entry
         then decide OverloadActionReject OverloadReasonLaneDepthExceeded
         else if flt (loe_shedAboveRatio entry) (FFin 1) \<and> fge pressure (loe_shedAboveRatio entry)
           \<and> loe_class entry = LaneClassBestEffort
         then decide OverloadActionShed OverloadReasonBestEffortShedding
         else if flt (loe_shedAboveRatio entry) (FFin 1) \<and> fge pressure (loe_shedAboveRatio entry)
           \<and> loe_class entry = LaneClassBackground
         then decide OverloadActionShed OverloadReasonBackgroundShedding
         else if flt (loe_degradeAboveRatio entry) (FFin 1)
           \<and> fge pressure (loe_degradeAboveRatio entry)
         then decide OverloadActionDegrade OverloadReasonDegradePreferred
         else if fge pressure (loe_rejectAboveRatio entry)
         then decide OverloadActionReject
           (if fge pressure (flit (9 / 10)) then OverloadReasonGlobalPressureHigh
            else OverloadReasonLanePressureHigh)
         else keepResult snap signals entry)"

text \<open>The counters a recorded decision moves; \<open>Keep\<close> is not meant to be recorded, but would count as a
  pressure rejection.\<close>

definition recordOverload :: "laneCounters \<Rightarrow> OverloadAction \<Rightarrow> laneCounters" where
  "recordOverload c action =
     (let c1 = recordPressureAdmissionRejected c
      in case action of
           OverloadActionShed \<Rightarrow> c1\<lparr>lc_overloadShed := lc_overloadShed c1 + 1\<rparr>
         | OverloadActionDegrade \<Rightarrow> c1\<lparr>lc_overloadDegrade := lc_overloadDegrade c1 + 1\<rparr>
         | OverloadActionReject \<Rightarrow> c1\<lparr>lc_overloadReject := lc_overloadReject c1 + 1\<rparr>
         | OverloadActionKeep \<Rightarrow> c1)"

definition RecordOverloadDecision ::
  "bool \<Rightarrow> laneCounters list \<Rightarrow> LaneID \<Rightarrow> OverloadAction \<Rightarrow> laneCounters list" where
  "RecordOverloadDecision enableCounters counters laneID action =
     (if \<not> enableCounters then counters
      else if unat laneID \<ge> length counters then counters
      else counters[unat laneID := recordOverload (counters ! unat laneID) action])"

subsection \<open>Acceptance\<close>

lemma firstError_None_iff: "firstError es = None \<longleftrightarrow> (\<forall>e \<in> set es. e = None)"
  by (induction es rule: firstError.induct) auto

lemma failIf_None_iff [simp]: "failIf b e = None \<longleftrightarrow> \<not> b"
  by (simp add: failIf_def)

lemma validateOverloadRatio_None_iff: "validateOverloadRatio r = None \<longleftrightarrow> ratioOk r"
  using ratio_out_of_range [of r] by (simp add: validateOverloadRatio_def)

text \<open>The ordering of the thresholds that validation enforces.\<close>

definition thresholdsOrdered :: "float64 \<Rightarrow> float64 \<Rightarrow> bool" where
  "thresholdsOrdered a reject \<longleftrightarrow> \<not> (flt a (FFin 1) \<and> fgt a reject)"

definition backoffOk :: "duration \<Rightarrow> duration \<Rightarrow> duration \<Rightarrow> bool" where
  "backoffOk ra mn mx \<longleftrightarrow> 0 \<le> ra \<and> 0 \<le> mn \<and> 0 \<le> mx \<and> (mx = 0 \<or> mn \<le> mx \<and> ra \<le> mx)"

lemma validateBackoffDurations_None_iff:
  "validateBackoffDurations ra mn mx = None \<longleftrightarrow> backoffOk ra mn mx"
  by (auto simp: validateBackoffDurations_def backoffOk_def)

definition overloadLaneOk :: "LaneOverloadPolicyInput \<Rightarrow> bool" where
  "overloadLaneOk lp \<longleftrightarrow>
     ValidateLaneClass (if lop_Class lp = [] then LaneClassNormal else lop_Class lp) = None
     \<and> ratioOk (lop_RejectAboveRatio lp) \<and> ratioOk (lop_ShedAboveRatio lp)
     \<and> ratioOk (lop_DegradeAboveRatio lp)
     \<and> thresholdsOrdered (lop_ShedAboveRatio lp) (lop_RejectAboveRatio lp)
     \<and> thresholdsOrdered (lop_DegradeAboveRatio lp) (lop_RejectAboveRatio lp)
     \<and> lop_MaxQueueDepth lp \<noteq> 0
     \<and> backoffOk (lop_RetryAfter lp) (lop_MinBackoff lp) (lop_MaxBackoff lp)"

lemma validateLaneOverloadPolicyInput_None_iff:
  "validateLaneOverloadPolicyInput lp reg b = None \<longleftrightarrow>
     (b \<longrightarrow> lop_Lane lp \<noteq> [] \<and> Lookup reg (lop_Lane lp) \<noteq> None) \<and> overloadLaneOk lp"
  unfolding validateLaneOverloadPolicyInput_def firstError_None_iff overloadLaneOk_def
    thresholdsOrdered_def
  by (simp only: list.set ball_simps failIf_None_iff validateOverloadRatio_None_iff
      validateBackoffDurations_None_iff) (auto simp del: not_None_eq)

lemma validateOverloadLanes_None_iff:
  "validateOverloadLanes reg seen lps = None \<longleftrightarrow>
     distinct (map lop_Lane lps) \<and> set (map lop_Lane lps) \<inter> set seen = {}
     \<and> (\<forall>lp \<in> set lps. validateLaneOverloadPolicyInput lp reg True = None)"
  by (induction reg seen lps rule: validateOverloadLanes.induct) (auto split: option.splits)

lemma buildOverloadPolicySnapshot_ok_iff:
  "isOk (buildOverloadPolicySnapshot reg policy) \<longleftrightarrow>
     overloadLaneOk (opi_Default policy) \<and> distinct (map lop_Lane (opi_Lanes policy))
     \<and> (\<forall>lp \<in> set (opi_Lanes policy).
          lop_Lane lp \<noteq> [] \<and> Lookup reg (lop_Lane lp) \<noteq> None \<and> overloadLaneOk lp)"
  using validateOverloadLanes_None_iff [of reg "[]" "opi_Lanes policy"]
    validateLaneOverloadPolicyInput_None_iff [of "opi_Default policy" reg False]
  by (simp add: validateLaneOverloadPolicyInput_None_iff [where b = True])
     (auto simp: buildOverloadPolicySnapshot_def Let_def split: option.splits)

lemma backoffOk_default: "backoffOk (250 * Millisecond) (100 * Millisecond) (2 * Second)"
  by code_simp

lemma ratioOk_one: "ratioOk (FFin 1)"
  by (simp add: ratioOk_def)

lemma thresholdsOrdered_one: "thresholdsOrdered (FFin 1) r"
  by (simp add: thresholdsOrdered_def)

lemma defaultOverloadPolicy_ok:
  "isOk (buildOverloadPolicySnapshot reg (defaultOverloadPolicy shardCount queueSizePerLane))"
  by (simp add: buildOverloadPolicySnapshot_ok_iff defaultOverloadPolicy_def overloadLaneOk_def
      ratioOk_flit_nine ratioOk_one thresholdsOrdered_one defaultMaxDepth_pos ValidateLaneClass_def
      backoffOk_default)

text \<open>An entry of a built snapshot.\<close>

definition overloadEntryOk :: "laneOverloadEntry \<Rightarrow> bool" where
  "overloadEntryOk e \<longleftrightarrow> loe_class e \<noteq> [] \<and> overloadLaneOk (laneOverloadPolicyInputFromEntry e [])
     \<and> \<not> feq (loe_shedAboveRatio e) (FFin 0) \<and> \<not> feq (loe_degradeAboveRatio e) (FFin 0)"

lemma laneEntryFromInput_ok: "overloadLaneOk lp \<Longrightarrow> overloadEntryOk (laneEntryFromInput lp)"
  by (auto simp: overloadLaneOk_def overloadEntryOk_def laneEntryFromInput_def
      laneOverloadPolicyInputFromEntry_def LaneClassNormal_def ratioOk_one thresholdsOrdered_one)

lemma laneEntryFromInput_view:
  "overloadEntryOk e \<Longrightarrow> laneEntryFromInput (laneOverloadPolicyInputFromEntry e n) = e"
  by (simp add: overloadEntryOk_def laneEntryFromInput_def laneOverloadPolicyInputFromEntry_def)

lemma overloadLaneOk_view:
  "overloadEntryOk e \<Longrightarrow> overloadLaneOk (laneOverloadPolicyInputFromEntry e n)"
  by (auto simp: overloadEntryOk_def overloadLaneOk_def laneOverloadPolicyInputFromEntry_def
      cong: if_cong)

lemma overloadEntryOk_ordered:
  "overloadEntryOk e \<Longrightarrow> thresholdsOrdered (loe_shedAboveRatio e) (loe_rejectAboveRatio e)
     \<and> thresholdsOrdered (loe_degradeAboveRatio e) (loe_rejectAboveRatio e)"
  by (auto simp: overloadEntryOk_def overloadLaneOk_def laneOverloadPolicyInputFromEntry_def)

definition overloadSnap_ok :: "LaneRegistry \<Rightarrow> overloadPolicySnapshot \<Rightarrow> bool" where
  "overloadSnap_ok reg snap \<longleftrightarrow> length (ops_lanes snap) = Len reg
     \<and> overloadEntryOk (ops_defaultPolicy snap) \<and> (\<forall>e \<in> set (ops_lanes snap). overloadEntryOk e)"

lemma buildOverloadPolicySnapshot_fields:
  assumes "buildOverloadPolicySnapshot reg policy = Inr snap"
  shows "ops_version snap = 0" "ops_defaultPolicy snap = laneEntryFromInput (opi_Default policy)"
    "ops_lanes snap = laneTable reg (\<lambda>name.
       case overrideMap lop_Lane (opi_Lanes policy) name of
         Some lp \<Rightarrow> laneEntryFromInput lp | None \<Rightarrow> laneEntryFromInput (opi_Default policy))"
  using assms by (auto simp: buildOverloadPolicySnapshot_def Let_def split: option.splits)

lemma buildOverloadPolicySnapshot_ok [inv_intros]:
  assumes "buildOverloadPolicySnapshot reg policy = Inr snap"
  shows "overloadSnap_ok reg snap"
proof -
  have "isOk (buildOverloadPolicySnapshot reg policy)" using assms by simp
  note ok = this [unfolded buildOverloadPolicySnapshot_ok_iff]
  note f = buildOverloadPolicySnapshot_fields [OF assms]
  have "overloadEntryOk e" if "e \<in> set (ops_lanes snap)" for e
    using that ok
    by (auto simp: f(3) laneTable_def laneEntryFromInput_ok dest!: overrideMap_SomeD
        split: option.splits)
  then show ?thesis using ok by (simp add: overloadSnap_ok_def laneEntryFromInput_ok f(2)) (simp add: f(3))
qed

lemma buildOverloadPolicySnapshot_view:
  assumes reg: "reg_wf reg" "Len reg \<le> 65536" and ok: "overloadSnap_ok reg snap"
  shows "buildOverloadPolicySnapshot reg (snd (overloadPolicyView reg snap))
    = Inr (snap\<lparr>ops_version := 0\<rparr>)"
proof -
  let ?v = "snd (overloadPolicyView reg snap)"
  have d: "distinct (reg_names reg)" and ne: "[] \<notin> set (reg_names reg)"
    using reg(1) by (simp_all add: reg_wf_def)
  have len: "length (ops_lanes snap) = Len reg" using ok by (simp add: overloadSnap_ok_def)
  have entry: "overloadEntryOk (ops_lanes snap ! i)" if "i < Len reg" for i
    using ok len that by (simp add: overloadSnap_ok_def)
  have def: "overloadEntryOk (ops_defaultPolicy snap)"
      "opi_Default ?v = laneOverloadPolicyInputFromEntry (ops_defaultPolicy snap) []"
    using ok by (simp_all add: overloadSnap_ok_def overloadPolicyView_def)
  have names: "map lop_Lane (opi_Lanes ?v) = reg_names reg"
    using reg(2) len by (auto intro!: nth_equalityI simp: overloadPolicyView_def Name_nth Len_def
        laneOverloadPolicyInputFromEntry_def)
  have entries: "map laneEntryFromInput (opi_Lanes ?v) = ops_lanes snap"
    using len entry
    by (auto intro!: nth_equalityI simp: overloadPolicyView_def laneEntryFromInput_view)
  have "lop_Lane lp \<noteq> [] \<and> Lookup reg (lop_Lane lp) \<noteq> None \<and> overloadLaneOk lp"
    if "lp \<in> set (opi_Lanes ?v)" for lp
  proof -
    have "lop_Lane lp \<in> set (reg_names reg)" using that names by (metis image_eqI image_set)
    moreover have "overloadLaneOk lp"
      using that len entry by (auto simp: overloadPolicyView_def overloadLaneOk_view)
    ultimately show ?thesis using ne Lookup_None_iff [OF reg(1)] by metis
  qed
  then have "isOk (buildOverloadPolicySnapshot reg ?v)"
    using d names def by (simp add: buildOverloadPolicySnapshot_ok_iff overloadLaneOk_view)
  then obtain s where s: "buildOverloadPolicySnapshot reg ?v = Inr s" by (auto simp: isOk_iff)
  note f = buildOverloadPolicySnapshot_fields [OF s]
  have "ops_lanes s = ops_lanes snap"
    using laneTable_override [OF reg(2) names d, where f = laneEntryFromInput] f(3) entries by simp
  then show ?thesis using s f(1,2) def by (simp add: laneEntryFromInput_view)
qed

interpretation overload: lane_policy buildOverloadPolicySnapshot overloadPolicyView
  overloadSnap_ok "\<lambda>v s. s\<lparr>ops_version := v\<rparr>"
proof (unfold_locales, goal_cases)
  case (1 reg p s)
  then show ?case by (simp add: buildOverloadPolicySnapshot_ok)
next
  case (2 reg p s)
  then show ?case by (simp add: buildOverloadPolicySnapshot_fields)
next
  case (3 reg s)
  then show ?case by (rule buildOverloadPolicySnapshot_view)
qed (simp_all add: overloadPolicyView_def overloadSnap_ok_def)

subsection \<open>The decision\<close>

abbreviation sheddable :: "laneOverloadEntry \<Rightarrow> bool" where
  "sheddable e \<equiv> loe_class e = LaneClassBestEffort \<or> loe_class e = LaneClassBackground"

abbreviation aboveEnabled :: "float64 \<Rightarrow> float64 \<Rightarrow> bool" where
  "aboveEnabled p thr \<equiv> flt thr (FFin 1) \<and> fge p thr"

lemma decision_fields [simp]:
  "oer_Action (overloadDecisionFromEntry snap l sig a r) = a"
  "oer_Reason (overloadDecisionFromEntry snap l sig a r) = r"
  "oer_PolicyVersion (overloadDecisionFromEntry snap l sig a r) = ops_version snap"
  "oer_Action (keepResult snap sig e) = OverloadActionKeep"
  "oer_Reason (keepResult snap sig e) = OverloadReasonNone"
  by (simp_all add: overloadDecisionFromEntry_def keepResult_def Let_def)

lemma overloadEntry_thresholds:
  assumes "overloadEntryOk e" "fge p (loe_rejectAboveRatio e)"
  shows "flt (loe_degradeAboveRatio e) (FFin 1) \<Longrightarrow> fge p (loe_degradeAboveRatio e)"
    "flt (loe_shedAboveRatio e) (FFin 1) \<Longrightarrow> fge p (loe_shedAboveRatio e)"
proof -
  have *: "fge p t" if "thresholdsOrdered t r" "fge p r" "flt t (FFin 1)" for t r
    using that by (cases t; cases r; cases p) (auto simp: thresholdsOrdered_def)
  show "flt (loe_degradeAboveRatio e) (FFin 1) \<Longrightarrow> fge p (loe_degradeAboveRatio e)"
    "flt (loe_shedAboveRatio e) (FFin 1) \<Longrightarrow> fge p (loe_shedAboveRatio e)"
    using assms * overloadEntryOk_ordered by blast+
qed

lemma evaluateOverload_Keep_iff:
  "oer_Action (evaluateOverload snap l sig) = OverloadActionKeep \<longleftrightarrow>
     (let e = ops_lanes snap ! unat l; p = os_GlobalPressure sig in
      \<not> os_QueueClosed sig \<and> \<not> os_QueueFull sig \<and> unat l < length (ops_lanes snap)
      \<and> os_LaneDepth sig < loe_maxQueueDepth e
      \<and> \<not> (sheddable e \<and> aboveEnabled p (loe_shedAboveRatio e))
      \<and> \<not> aboveEnabled p (loe_degradeAboveRatio e) \<and> \<not> fge p (loe_rejectAboveRatio e))"
  by (auto simp: evaluateOverload_def Let_def)

lemma evaluateOverload_ShedD:
  assumes "oer_Action (evaluateOverload snap l sig) = OverloadActionShed"
  defines "e \<equiv> ops_lanes snap ! unat l"
  shows "unat l < length (ops_lanes snap) \<and> sheddable e
    \<and> aboveEnabled (os_GlobalPressure sig) (loe_shedAboveRatio e)"
  using assms by (auto simp: evaluateOverload_def Let_def split: if_splits)

lemma evaluateOverload_DegradeD:
  assumes "oer_Action (evaluateOverload snap l sig) = OverloadActionDegrade"
  defines "e \<equiv> ops_lanes snap ! unat l"
  shows "unat l < length (ops_lanes snap)
    \<and> aboveEnabled (os_GlobalPressure sig) (loe_degradeAboveRatio e)"
  using assms by (auto simp: evaluateOverload_def Let_def split: if_splits)

text \<open>The reasons of a rejection that pressure caused.\<close>

lemma evaluateOverload_pressure_rejectD:
  assumes "oer_Action (evaluateOverload snap l sig) = OverloadActionReject"
    "unat l < length (ops_lanes snap)"
    "oer_Reason (evaluateOverload snap l sig) = OverloadReasonGlobalPressureHigh \<or>
     oer_Reason (evaluateOverload snap l sig) = OverloadReasonLanePressureHigh"
  defines "e \<equiv> ops_lanes snap ! unat l"
  shows "fge (os_GlobalPressure sig) (loe_rejectAboveRatio e)
    \<and> \<not> aboveEnabled (os_GlobalPressure sig) (loe_degradeAboveRatio e)
    \<and> \<not> (sheddable e \<and> aboveEnabled (os_GlobalPressure sig) (loe_shedAboveRatio e))"
  using assms by (auto simp: evaluateOverload_def Let_def split: if_splits)

subsection \<open>Properties\<close>


text \<open>C18: Only background and best-effort lanes are shed, and under a valid policy a lane with degradation enabled
  is degraded and never rejected for pressure.\<close>

theorem overload_priorities:
  assumes "buildOverloadPolicySnapshot reg policy = Inr snap"
  shows "(oer_Action (evaluateOverload snap l sig) = OverloadActionShed \<longrightarrow>
      unat l < length (ops_lanes snap) \<and> sheddable (ops_lanes snap ! unat l))
    \<and> (unat l < length (ops_lanes snap) \<longrightarrow> flt (loe_degradeAboveRatio (ops_lanes snap ! unat l)) (FFin 1) \<longrightarrow>
      oer_Action (evaluateOverload snap l sig) = OverloadActionReject \<longrightarrow>
      oer_Reason (evaluateOverload snap l sig) \<notin> {OverloadReasonGlobalPressureHigh, OverloadReasonLanePressureHigh})"
proof (rule conjI, (rule_tac [2] impI)+)
  show "oer_Action (evaluateOverload snap l sig) = OverloadActionShed \<longrightarrow>
      unat l < length (ops_lanes snap) \<and> sheddable (ops_lanes snap ! unat l)"
    using evaluateOverload_ShedD by blast
  assume l: "unat l < length (ops_lanes snap)" and deg: "flt (loe_degradeAboveRatio (ops_lanes snap ! unat l)) (FFin 1)"
    and rej: "oer_Action (evaluateOverload snap l sig) = OverloadActionReject"
  have ok: "overloadEntryOk (ops_lanes snap ! unat l)"
    using buildOverloadPolicySnapshot_ok [OF assms] l by (simp add: overloadSnap_ok_def)
  show "oer_Reason (evaluateOverload snap l sig) \<notin> {OverloadReasonGlobalPressureHigh, OverloadReasonLanePressureHigh}"
  proof
    assume "oer_Reason (evaluateOverload snap l sig) \<in> {OverloadReasonGlobalPressureHigh, OverloadReasonLanePressureHigh}"
    then have "oer_Reason (evaluateOverload snap l sig) = OverloadReasonGlobalPressureHigh
        \<or> oer_Reason (evaluateOverload snap l sig) = OverloadReasonLanePressureHigh" by simp
    from evaluateOverload_pressure_rejectD [OF rej l this] overloadEntry_thresholds(1) [OF ok _ deg] deg
    show False by blast
  qed
qed

definition demoOverloadLane :: LaneOverloadPolicyInput where
  "demoOverloadLane = (opi_Default (defaultOverloadPolicy 2 4))\<lparr>lop_DegradeAboveRatio := FFin (1/2)\<rparr>"

lemma demoOverloadLane_ok: "isOk (buildOverloadPolicySnapshot demoReg \<lparr>opi_Default = demoOverloadLane, opi_Lanes = []\<rparr>)"
  by code_simp

theorem overload_priorities_witness:
  "\<exists>snap. buildOverloadPolicySnapshot demoReg \<lparr>opi_Default = demoOverloadLane, opi_Lanes = []\<rparr> = Inr snap
     \<and> oer_Action (evaluateOverload snap 0 \<lparr>os_GlobalPressure = FFin 1, os_LanePressure = FFin 1, os_LaneDepth = 0,
          os_QueueFull = False, os_QueueClosed = False\<rparr>) \<noteq> OverloadActionShed"
proof -
  obtain snap where s: "buildOverloadPolicySnapshot demoReg \<lparr>opi_Default = demoOverloadLane, opi_Lanes = []\<rparr> = Inr snap"
    using demoOverloadLane_ok by (auto simp: isOk_iff)
  have "loe_class (ops_lanes snap ! 0) = LaneClassNormal"
    using buildOverloadPolicySnapshot_fields(3) [OF s]
    by (simp add: laneTable_def overrideMap_def demoReg_def Len_def laneEntryFromInput_def demoOverloadLane_def
        defaultOverloadPolicy_def laneClass_defs)
  then show ?thesis using overload_priorities [OF s, of 0] s by (auto simp: laneClass_defs)
qed

text \<open>Republishing the overload policy view changes nothing.\<close>

lemma overload_republish:
  assumes "NewLaneRegistry quotas = Inr reg" "distinct (map fst quotas)" "length quotas \<le> 65536"
    "buildOverloadPolicySnapshot reg policy = Inr snap"
  shows "buildOverloadPolicySnapshot reg (snd (overloadPolicyView reg (snap\<lparr>ops_version := v\<rparr>))) = Inr snap"
  using overload.republish [OF NewLaneRegistry_wf [OF assms(1,2)] _ assms(4)] assms(3)
  by (simp add: Len_def NewLaneRegistry_fields [OF assms(1,2)])

text \<open>C28: Publishing what a policy view shows changes nothing: for the quota, the admission and the overload
  policy, rebuilding from the view of a published snapshot gives that snapshot back, whatever its version.\<close>

theorem policies_republish:
  assumes "NewLaneRegistry quotas = Inr reg" "distinct (map fst quotas)" "length quotas \<le> 65536"
  shows "(buildQuotaPolicySnapshot reg qp = Inr qs \<longrightarrow>
      buildQuotaPolicySnapshot reg (snd (quotaPolicyView reg (qs\<lparr>qps_version := v\<rparr>))) = Inr qs)
    \<and> (buildAdmissionPolicySnapshot reg ap = Inr as \<longrightarrow>
      buildAdmissionPolicySnapshot reg (snd (admissionPolicyView reg (as\<lparr>aps_version := v\<rparr>))) = Inr as)
    \<and> (buildOverloadPolicySnapshot reg op = Inr os \<longrightarrow>
      buildOverloadPolicySnapshot reg (snd (overloadPolicyView reg (os\<lparr>ops_version := v\<rparr>))) = Inr os)"
  by (intro conjI impI quota_republish [OF assms] admission_republish [OF assms] overload_republish [OF assms])

theorem policies_republish_witness:
  "\<exists>os. buildOverloadPolicySnapshot demoReg (defaultOverloadPolicy 2 4) = Inr os
     \<and> buildOverloadPolicySnapshot demoReg (snd (overloadPolicyView demoReg (os\<lparr>ops_version := 9\<rparr>))) = Inr os"
proof -
  obtain os where s: "buildOverloadPolicySnapshot demoReg (defaultOverloadPolicy 2 4) = Inr os"
    using defaultOverloadPolicy_ok by (metis isOk_iff)
  then show ?thesis using policies_republish [OF demoReg_built, where op = "defaultOverloadPolicy 2 4" and os = os and v = 9] by auto
qed

text \<open>Overload rejections are counted twice. Recording one overload rejection raises both the admission-rejected
  and the overload-rejected counter, and the adaptive statistics and the admission sample add the two: one rejected
  request is reported as two.\<close>

lemma overload_reject_double_count:
  "las_RejectTotal (snapshotAdaptiveStats (recordOverload c OverloadActionReject) n)
     = las_RejectTotal (snapshotAdaptiveStats c n) + 2
   \<and> fst (snd (admissionSampleFragment (recordOverload c OverloadActionReject)))
     = fst (snd (admissionSampleFragment c)) + 2"
  by (simp add: recordOverload_def recordPressureAdmissionRejected_def snapshotAdaptiveStats_def
      snapshotGCPressure_def admissionSampleFragment_def Let_def)

end
