(* ===== verification/HotKey_Tracker.thy ===== *)
theory HotKey_Tracker
  imports Go_Float "HOL-Library.AList"
begin

text \<open>
  The bounded per-shard hot-key tracker of \<open>internal/core/hotkey_tracker.go\<close>: a fixed array of
  entries, an index from key hash to slot, window expiry and eviction of the least recently seen
  entry. A hash of 0 marks an empty slot. \<open>now\<close> is \<open>now.UnixNano()\<close>; the
  Go map \<open>index\<close> is an association list with distinct keys. The lemmas show that the index and the
  array agree after every operation, so that the tracker never holds more keys than configured.
\<close>

subsection \<open>Data\<close>

datatype HotKeyStatus = HotKeyStatusNone | HotKeyStatusCandidate | HotKeyStatusDominant

text \<open>\<open>PerKeyMitigationEmpty\<close> and \<open>PerKeyAdmissionReasonEmpty\<close> are the empty strings of a fresh entry.\<close>

datatype PerKeyMitigationAction =
    PerKeyMitigationEmpty | PerKeyMitigationAllow | PerKeyMitigationThrottle
  | PerKeyMitigationReject | PerKeyMitigationShed

datatype PerKeyAdmissionReason =
    PerKeyAdmissionReasonEmpty | PerKeyAdmissionReasonNone | PerKeyAdmissionReasonHotKeyCandidate
  | PerKeyAdmissionReasonDominantHotKey | PerKeyAdmissionReasonMaxQueuedPerKey
  | PerKeyAdmissionReasonMaxInflightPerKey | PerKeyAdmissionReasonCooldownActive
  | PerKeyAdmissionReasonShardOverloaded

record HotKeyConfig =
  hkc_Enabled :: bool
  hkc_MaxTrackedKeysPerShard :: int
  hkc_DetectionWindow :: duration
  hkc_HotKeyDepthRatio :: float64
  hkc_HotKeyWaitRatio :: float64
  hkc_MaxCandidatesPerSnapshot :: int
  hkc_ExposeRawKey :: bool

definition zeroHotKeyConfig :: HotKeyConfig where
  "zeroHotKeyConfig = \<lparr>hkc_Enabled = False, hkc_MaxTrackedKeysPerShard = 0,
     hkc_DetectionWindow = 0, hkc_HotKeyDepthRatio = FFin 0, hkc_HotKeyWaitRatio = FFin 0,
     hkc_MaxCandidatesPerSnapshot = 0, hkc_ExposeRawKey = False\<rparr>"

record hotKeyEntry =
  e_keyHash :: u64
  e_laneID :: LaneID
  e_submittedApprox :: u64
  e_queuedApprox :: int
  e_rejectedApprox :: u64
  e_queueWaitApproxNanos :: u64
  e_lastSeenUnixNano :: int
  e_epoch :: u64
  e_inflightApprox :: int
  e_lastAction :: PerKeyMitigationAction
  e_lastReason :: PerKeyAdmissionReason
  e_lastDecisionUnixNano :: int
  e_cooldownUntilUnixNano :: int
  e_recoveryUntilUnixNano :: int

definition zeroEntry :: hotKeyEntry where
  "zeroEntry = \<lparr>e_keyHash = 0, e_laneID = 0, e_submittedApprox = 0, e_queuedApprox = 0,
     e_rejectedApprox = 0, e_queueWaitApproxNanos = 0, e_lastSeenUnixNano = 0, e_epoch = 0,
     e_inflightApprox = 0, e_lastAction = PerKeyMitigationEmpty,
     e_lastReason = PerKeyAdmissionReasonEmpty, e_lastDecisionUnixNano = 0,
     e_cooldownUntilUnixNano = 0, e_recoveryUntilUnixNano = 0\<rparr>"

text \<open>\<open>None\<close> in \<open>hk_index\<close> and \<open>hk_rawKeys\<close> is a nil map or slice.\<close>

record hotKeyTracker =
  hk_cfg :: HotKeyConfig
  hk_entries :: "hotKeyEntry list"
  hk_index :: "(u64 \<times> nat) list option"
  hk_rawKeys :: "string list option"
  hk_epoch :: u64

definition newHotKeyTracker :: "HotKeyConfig \<Rightarrow> hotKeyTracker" where
  "newHotKeyTracker cfg =
     (if \<not> hkc_Enabled cfg \<or> hkc_MaxTrackedKeysPerShard cfg \<le> 0 then
        \<lparr>hk_cfg = zeroHotKeyConfig, hk_entries = [], hk_index = None, hk_rawKeys = None, hk_epoch = 0\<rparr>
      else
        (let n = nat (hkc_MaxTrackedKeysPerShard cfg)
         in \<lparr>hk_cfg = cfg, hk_entries = replicate n zeroEntry, hk_index = Some [],
             hk_rawKeys = (if hkc_ExposeRawKey cfg then Some (replicate n []) else None),
             hk_epoch = 0\<rparr>))"

definition enabled :: "hotKeyTracker \<Rightarrow> bool" where
  "enabled t \<longleftrightarrow> hkc_Enabled (hk_cfg t) \<and> hkc_MaxTrackedKeysPerShard (hk_cfg t) > 0
     \<and> hk_index t \<noteq> None"

text \<open>Reading a nil map finds nothing.\<close>

definition indexOf :: "hotKeyTracker \<Rightarrow> (u64 \<times> nat) list" where
  "indexOf t = (case hk_index t of None \<Rightarrow> [] | Some m \<Rightarrow> m)"

definition updIndex :: "((u64 \<times> nat) list \<Rightarrow> (u64 \<times> nat) list) \<Rightarrow> hotKeyTracker \<Rightarrow> hotKeyTracker" where
  "updIndex f t = t\<lparr>hk_index := map_option f (hk_index t)\<rparr>"

definition updEntry :: "nat \<Rightarrow> (hotKeyEntry \<Rightarrow> hotKeyEntry) \<Rightarrow> hotKeyTracker \<Rightarrow> hotKeyTracker" where
  "updEntry i f t = t\<lparr>hk_entries := (hk_entries t)[i := f (hk_entries t ! i)]\<rparr>"

subsection \<open>Slots\<close>

definition hotKeyEntryStale :: "hotKeyEntry \<Rightarrow> duration \<Rightarrow> time \<Rightarrow> bool" where
  "hotKeyEntryStale e window now =
     (if e_keyHash e = 0 \<or> window \<le> 0 \<or> e_lastSeenUnixNano e = 0 then False
      else timeSub now (e_lastSeenUnixNano e) > window)"

definition clearEntry :: "nat \<Rightarrow> hotKeyTracker \<Rightarrow> hotKeyTracker" where
  "clearEntry i t =
     (let h = e_keyHash (hk_entries t ! i);
          t1 = (if h \<noteq> 0
                then updIndex (AList.delete h)
                       (t\<lparr>hk_rawKeys := map_option (\<lambda>ks. ks[i := []]) (hk_rawKeys t)\<rparr>)
                else t)
      in updEntry i (\<lambda>_. zeroEntry\<lparr>e_epoch := hk_epoch t1\<rparr>) t1)"

definition maybeResetEntry :: "nat \<Rightarrow> time \<Rightarrow> hotKeyTracker \<Rightarrow> hotKeyTracker" where
  "maybeResetEntry i now t =
     (let e = hk_entries t ! i
      in if e_keyHash e = 0 then t
         else if hotKeyEntryStale e (hkc_DetectionWindow (hk_cfg t)) now
         then updEntry i (\<lambda>e. e\<lparr>e_epoch := hk_epoch t\<rparr>) (clearEntry i t)
         else t)"

definition activeCount :: "hotKeyTracker \<Rightarrow> nat" where
  "activeCount t = length (indexOf t)"

definition removeSlotFromIndex :: "nat \<Rightarrow> hotKeyTracker \<Rightarrow> hotKeyTracker" where
  "removeSlotFromIndex i t =
     (let old = hk_entries t ! i
      in if e_keyHash old \<noteq> 0 then updIndex (AList.delete (e_keyHash old)) t
         else updIndex (filter (\<lambda>(h, idx). idx \<noteq> i)) t)"

definition initSlot :: "nat \<Rightarrow> u64 \<Rightarrow> LaneID \<Rightarrow> string \<Rightarrow> time \<Rightarrow> hotKeyTracker \<Rightarrow> hotKeyTracker" where
  "initSlot i keyHash laneID rawKey now t =
     (let t1 = updIndex (AList.update keyHash i)
            (updEntry i (\<lambda>_. zeroEntry\<lparr>e_keyHash := keyHash, e_laneID := laneID,
               e_lastSeenUnixNano := now, e_epoch := hk_epoch t\<rparr>) t)
      in if hk_rawKeys t \<noteq> None \<and> rawKey \<noteq> []
         then t1\<lparr>hk_rawKeys := map_option (\<lambda>ks. ks[i := rawKey]) (hk_rawKeys t)\<rparr>
         else t1)"

text \<open>The first empty slot.\<close>

fun firstEmpty :: "nat \<Rightarrow> hotKeyEntry list \<Rightarrow> nat option" where
  "firstEmpty i [] = None"
| "firstEmpty i (e # es) = (if e_keyHash e = 0 then Some i else firstEmpty (Suc i) es)"

text \<open>The scan for the least recently seen entry: \<open>i\<close> is the index of the head of the rest.\<close>

fun lruScan :: "nat \<Rightarrow> hotKeyEntry list \<Rightarrow> nat \<Rightarrow> int \<Rightarrow> nat" where
  "lruScan i [] evict evictSeen = evict"
| "lruScan i (e # es) evict evictSeen =
     (if e_lastSeenUnixNano e < evictSeen then lruScan (Suc i) es i (e_lastSeenUnixNano e)
      else lruScan (Suc i) es evict evictSeen)"

definition lruSlot :: "hotKeyEntry list \<Rightarrow> nat" where
  "lruSlot es = lruScan 1 (tl es) 0 (e_lastSeenUnixNano (hd es))"

definition allocateSlot ::
  "u64 \<Rightarrow> LaneID \<Rightarrow> string \<Rightarrow> time \<Rightarrow> hotKeyTracker \<Rightarrow> nat \<times> hotKeyTracker" where
  "allocateSlot keyHash laneID rawKey now t =
     (let i = (case firstEmpty 0 (hk_entries t) of Some i \<Rightarrow> i | None \<Rightarrow> lruSlot (hk_entries t))
      in (i, initSlot i keyHash laneID rawKey now (removeSlotFromIndex i t)))"

definition touch ::
  "u64 \<Rightarrow> LaneID \<Rightarrow> string \<Rightarrow> time \<Rightarrow> hotKeyTracker \<Rightarrow> nat \<times> hotKeyTracker" where
  "touch keyHash laneID rawKey now t =
     (case map_of (indexOf t) keyHash of
        None \<Rightarrow> allocateSlot keyHash laneID rawKey now t
      | Some idx \<Rightarrow>
          (if e_keyHash (hk_entries t ! idx) \<noteq> keyHash
           then allocateSlot keyHash laneID rawKey now (updIndex (AList.delete keyHash) t)
           else
             (let t1 = maybeResetEntry idx now t
              in if e_keyHash (hk_entries t1 ! idx) = 0
                 then (idx, initSlot idx keyHash laneID rawKey now t1)
                 else
                   (let t2 = updEntry idx (\<lambda>e. e\<lparr>e_laneID := laneID, e_lastSeenUnixNano := now\<rparr>) t1
                    in (idx, if hkc_ExposeRawKey (hk_cfg t2) \<and> rawKey \<noteq> []
                             then t2\<lparr>hk_rawKeys := map_option (\<lambda>ks. ks[idx := rawKey]) (hk_rawKeys t2)\<rparr>
                             else t2)))))"

text \<open>\<open>entryIfFresh\<close> may reset the entry it returns; the slot is \<open>None\<close> for a nil pointer.\<close>

definition entryIfFresh :: "u64 \<Rightarrow> time \<Rightarrow> hotKeyTracker \<Rightarrow> nat option \<times> hotKeyTracker" where
  "entryIfFresh keyHash now t =
     (case map_of (indexOf t) keyHash of
        None \<Rightarrow> (None, t)
      | Some idx \<Rightarrow>
          (if e_keyHash (hk_entries t ! idx) \<noteq> keyHash then (None, t)
           else (Some idx, maybeResetEntry idx now t)))"

definition entryForObservationLocked :: "u64 \<Rightarrow> time \<Rightarrow> hotKeyTracker \<Rightarrow> hotKeyEntry option" where
  "entryForObservationLocked keyHash now t =
     (case map_of (indexOf t) keyHash of
        None \<Rightarrow> None
      | Some idx \<Rightarrow>
          (let e = hk_entries t ! idx
           in if e_keyHash e \<noteq> keyHash \<or> hotKeyEntryStale e (hkc_DetectionWindow (hk_cfg t)) now
              then None else Some e))"

fun totalsOver :: "(hotKeyEntry \<Rightarrow> bool) \<Rightarrow> hotKeyEntry list \<Rightarrow> u64 \<Rightarrow> int \<Rightarrow> u64 \<times> int" where
  "totalsOver skip [] totalSubmitted totalQueued = (totalSubmitted, totalQueued)"
| "totalsOver skip (en # rest) totalSubmitted totalQueued =
     (if skip en then totalsOver skip rest totalSubmitted totalQueued
      else totalsOver skip rest (totalSubmitted + e_submittedApprox en)
        (if e_queuedApprox en > 0 then totalQueued + e_queuedApprox en else totalQueued))"

definition trackerTotalsForObservationLocked :: "time \<Rightarrow> hotKeyTracker \<Rightarrow> u64 \<times> int" where
  "trackerTotalsForObservationLocked now t =
     totalsOver (\<lambda>en. e_keyHash en = 0 \<or> hotKeyEntryStale en (hkc_DetectionWindow (hk_cfg t)) now)
       (hk_entries t) 0 0"

definition expireSlot :: "time \<Rightarrow> nat \<Rightarrow> hotKeyTracker \<Rightarrow> hotKeyTracker" where
  "expireSlot now i t =
     (let e = hk_entries t ! i
      in if e_keyHash e = 0 then t
         else if e_lastSeenUnixNano e = 0 then t
         else if timeSub now (e_lastSeenUnixNano e) > hkc_DetectionWindow (hk_cfg t)
         then clearEntry i t else t)"

definition expireStaleEntriesLocked :: "time \<Rightarrow> hotKeyTracker \<Rightarrow> hotKeyTracker" where
  "expireStaleEntriesLocked now t =
     (if hkc_DetectionWindow (hk_cfg t) \<le> 0 then t
      else fold (expireSlot now) [0..<length (hk_entries t)] t)"

subsection \<open>Observations\<close>

definition observeSubmit :: "u64 \<Rightarrow> LaneID \<Rightarrow> string \<Rightarrow> time \<Rightarrow> hotKeyTracker \<Rightarrow> hotKeyTracker" where
  "observeSubmit keyHash laneID rawKey now t =
     (if \<not> enabled t then t
      else let (i, t1) = touch keyHash laneID rawKey now (expireStaleEntriesLocked now t)
           in updEntry i (\<lambda>e. e\<lparr>e_submittedApprox := e_submittedApprox e + 1\<rparr>) t1)"

definition observeEnqueue :: "u64 \<Rightarrow> LaneID \<Rightarrow> string \<Rightarrow> time \<Rightarrow> hotKeyTracker \<Rightarrow> hotKeyTracker" where
  "observeEnqueue keyHash laneID rawKey now t =
     (if \<not> enabled t then t
      else let (i, t1) = touch keyHash laneID rawKey now (expireStaleEntriesLocked now t)
           in updEntry i (\<lambda>e. e\<lparr>e_queuedApprox := e_queuedApprox e + 1\<rparr>) t1)"

text \<open>The observations that only touch a known key: they apply \<open>f\<close> to its entry and refresh it.\<close>

definition observeKnown :: "(hotKeyEntry \<Rightarrow> hotKeyEntry) \<Rightarrow> u64 \<Rightarrow> time \<Rightarrow> hotKeyTracker \<Rightarrow> hotKeyTracker" where
  "observeKnown f keyHash now t =
     (if \<not> enabled t then t
      else case entryIfFresh keyHash now t of
             (None, t1) \<Rightarrow> t1
           | (Some i, t1) \<Rightarrow> updEntry i (\<lambda>e. (f e)\<lparr>e_lastSeenUnixNano := now\<rparr>) t1)"

definition observeDequeue :: "u64 \<Rightarrow> time \<Rightarrow> hotKeyTracker \<Rightarrow> hotKeyTracker" where
  "observeDequeue = observeKnown (\<lambda>e. if e_queuedApprox e > 0
     then e\<lparr>e_queuedApprox := e_queuedApprox e - 1\<rparr> else e)"

definition observeReject :: "u64 \<Rightarrow> time \<Rightarrow> hotKeyTracker \<Rightarrow> hotKeyTracker" where
  "observeReject = observeKnown (\<lambda>e. e\<lparr>e_rejectedApprox := e_rejectedApprox e + 1\<rparr>)"

definition observeQueueWait :: "u64 \<Rightarrow> u64 \<Rightarrow> time \<Rightarrow> hotKeyTracker \<Rightarrow> hotKeyTracker" where
  "observeQueueWait keyHash waitNanos now t =
     (if waitNanos = 0 then t
      else observeKnown (\<lambda>e. e\<lparr>e_queueWaitApproxNanos := e_queueWaitApproxNanos e + waitNanos\<rparr>)
        keyHash now t)"

definition observeInflightStart :: "u64 \<Rightarrow> time \<Rightarrow> hotKeyTracker \<Rightarrow> hotKeyTracker" where
  "observeInflightStart = observeKnown (\<lambda>e. e\<lparr>e_inflightApprox := e_inflightApprox e + 1\<rparr>)"

definition observeInflightEnd :: "u64 \<Rightarrow> time \<Rightarrow> hotKeyTracker \<Rightarrow> hotKeyTracker" where
  "observeInflightEnd = observeKnown (\<lambda>e. if e_inflightApprox e > 0
     then e\<lparr>e_inflightApprox := e_inflightApprox e - 1\<rparr> else e)"

definition trackerLen :: "hotKeyTracker \<Rightarrow> nat" where
  "trackerLen t = (if \<not> enabled t then 0 else activeCount t)"

subsection \<open>Index and array agree\<close>

definition hk_wf :: "hotKeyTracker \<Rightarrow> bool" where
  "hk_wf t \<longleftrightarrow>
     distinct (map fst (indexOf t))
     \<and> (\<forall>h i. map_of (indexOf t) h = Some i \<longrightarrow> i < length (hk_entries t) \<and> e_keyHash (hk_entries t ! i) = h)
     \<and> (\<forall>i < length (hk_entries t). e_keyHash (hk_entries t ! i) \<noteq> 0
           \<longrightarrow> map_of (indexOf t) (e_keyHash (hk_entries t ! i)) = Some i)
     \<and> (\<forall>e \<in> set (hk_entries t). 0 \<le> e_queuedApprox e \<and> 0 \<le> e_inflightApprox e)
     \<and> (enabled t \<longrightarrow> length (hk_entries t) = nat (hkc_MaxTrackedKeysPerShard (hk_cfg t))
                       \<and> hk_entries t \<noteq> [])"

lemma hk_wfI:
  assumes "distinct (map fst (indexOf t))"
    and "\<And>h i. map_of (indexOf t) h = Some i \<Longrightarrow>
           i < length (hk_entries t) \<and> e_keyHash (hk_entries t ! i) = h"
    and "\<And>i. i < length (hk_entries t) \<Longrightarrow> e_keyHash (hk_entries t ! i) \<noteq> 0 \<Longrightarrow>
           map_of (indexOf t) (e_keyHash (hk_entries t ! i)) = Some i"
    and "\<And>e. e \<in> set (hk_entries t) \<Longrightarrow> 0 \<le> e_queuedApprox e \<and> 0 \<le> e_inflightApprox e"
    and "enabled t \<Longrightarrow> length (hk_entries t) = nat (hkc_MaxTrackedKeysPerShard (hk_cfg t))
                       \<and> hk_entries t \<noteq> []"
  shows "hk_wf t"
  unfolding hk_wf_def using assms by blast

lemma hk_wfD:
  assumes "hk_wf t"
  shows "distinct (map fst (indexOf t))"
    "\<And>h i. map_of (indexOf t) h = Some i \<Longrightarrow>
           i < length (hk_entries t) \<and> e_keyHash (hk_entries t ! i) = h"
    "\<And>i. i < length (hk_entries t) \<Longrightarrow> e_keyHash (hk_entries t ! i) \<noteq> 0 \<Longrightarrow>
           map_of (indexOf t) (e_keyHash (hk_entries t ! i)) = Some i"
    "\<And>e. e \<in> set (hk_entries t) \<Longrightarrow> 0 \<le> e_queuedApprox e \<and> 0 \<le> e_inflightApprox e"
    "enabled t \<Longrightarrow> length (hk_entries t) = nat (hkc_MaxTrackedKeysPerShard (hk_cfg t))
                       \<and> hk_entries t \<noteq> []"
  using assms unfolding hk_wf_def by blast+

lemma new_wf [inv_intros]: "hk_wf (newHotKeyTracker cfg)"
  by (auto simp: hk_wf_def newHotKeyTracker_def indexOf_def zeroEntry_def enabled_def Let_def
      zeroHotKeyConfig_def)

text \<open>What the two update functions do to the parts of a tracker.\<close>

lemma upd_simps [simp]:
  "indexOf (updEntry i f t) = indexOf t"
  "hk_entries (updEntry i f t) = (hk_entries t)[i := f (hk_entries t ! i)]"
  "hk_cfg (updEntry i f t) = hk_cfg t" "hk_epoch (updEntry i f t) = hk_epoch t"
  "hk_entries (updIndex g t) = hk_entries t" "hk_cfg (updIndex g t) = hk_cfg t"
  "hk_epoch (updIndex g t) = hk_epoch t" "hk_rawKeys (updIndex g t) = hk_rawKeys t"
  "enabled (updEntry i f t) = enabled t" "enabled (updIndex g t) = enabled t"
  "indexOf (t\<lparr>hk_rawKeys := r\<rparr>) = indexOf t" "enabled (t\<lparr>hk_rawKeys := r\<rparr>) = enabled t"
  by (simp_all add: updEntry_def updIndex_def indexOf_def enabled_def split: option.split)

lemma indexOf_updIndex: "g [] = [] \<or> hk_index t \<noteq> None \<Longrightarrow> indexOf (updIndex g t) = g (indexOf t)"
  by (auto simp: updIndex_def indexOf_def split: option.split)

lemma indexOf_delete [simp]: "indexOf (updIndex (AList.delete h) t) = AList.delete h (indexOf t)"
  by (rule indexOf_updIndex) simp

lemma indexOf_filter [simp]: "indexOf (updIndex (filter P) t) = filter P (indexOf t)"
  by (rule indexOf_updIndex) simp

lemma rawKeys_wf [simp]: "hk_wf (t\<lparr>hk_rawKeys := r\<rparr>) = hk_wf t"
  by (simp add: hk_wf_def)

lemma set_updateD: "e \<in> set (xs[i := x]) \<Longrightarrow> e = x \<or> e \<in> set xs"
  using set_update_subset_insert [of xs i x] by auto

text \<open>Changing the counters of an entry, not its hash.\<close>

lemma updEntry_wf:
  assumes "hk_wf t" and hash: "\<And>e. e_keyHash (f e) = e_keyHash e"
    and nonneg: "\<And>e. 0 \<le> e_queuedApprox e \<Longrightarrow> 0 \<le> e_inflightApprox e \<Longrightarrow>
      0 \<le> e_queuedApprox (f e) \<and> 0 \<le> e_inflightApprox (f e)"
  shows "hk_wf (updEntry i f t)"
proof -
  note wf = hk_wfD [OF assms(1)]
  have h: "e_keyHash ((hk_entries t)[i := f (hk_entries t ! i)] ! j) = e_keyHash (hk_entries t ! j)" for j
    by (cases "i < length (hk_entries t)"; cases "i = j") (simp_all add: hash not_less list_update_beyond)
  show ?thesis
  proof (rule hk_wfI)
    fix e assume "e \<in> set (hk_entries (updEntry i f t))"
    then show "0 \<le> e_queuedApprox e \<and> 0 \<le> e_inflightApprox e"
      using wf(4) nonneg [of "hk_entries t ! i"]
      by (cases "i < length (hk_entries t)") (auto simp: list_update_beyond dest!: set_updateD)
  qed (use wf h in auto)
qed

text \<open>Clearing a slot empties it and forgets its key.\<close>

lemma clearEntry_index:
  "indexOf (clearEntry i t) = (if e_keyHash (hk_entries t ! i) = 0 then indexOf t
     else AList.delete (e_keyHash (hk_entries t ! i)) (indexOf t))"
  by (simp add: clearEntry_def Let_def)

lemma clearEntry_parts [simp]:
  "hk_entries (clearEntry i t) = (hk_entries t)[i := zeroEntry\<lparr>e_epoch := hk_epoch t\<rparr>]"
  "hk_cfg (clearEntry i t) = hk_cfg t" "enabled (clearEntry i t) = enabled t"
  "hk_epoch (clearEntry i t) = hk_epoch t"
  by (simp_all add: clearEntry_def Let_def)

lemma zeroEntry_simps [simp]:
  "e_keyHash zeroEntry = 0" "e_queuedApprox zeroEntry = 0" "e_inflightApprox zeroEntry = 0"
  by (simp_all add: zeroEntry_def)

lemma clearEntry_wf:
  assumes "hk_wf t" "e_keyHash (hk_entries t ! i) \<noteq> 0" "i < length (hk_entries t)"
  shows "hk_wf (clearEntry i t)"
proof -
  note wf = hk_wfD [OF assms(1)]
  let ?h = "e_keyHash (hk_entries t ! i)"
  have del: "map_of (indexOf (clearEntry i t)) h = (if h = ?h then None else map_of (indexOf t) h)" for h
    using assms(2) by (simp add: clearEntry_index delete_conv')
  have other: "j \<noteq> i" if "map_of (indexOf t) h = Some j" "h \<noteq> ?h" for h j
    using wf(2) [OF that(1)] that(2) by auto
  show ?thesis
  proof (rule hk_wfI)
    show "distinct (map fst (indexOf (clearEntry i t)))"
      using wf(1) by (simp add: clearEntry_index distinct_delete)
    fix h j assume *: "map_of (indexOf (clearEntry i t)) h = Some j"
    then have "h \<noteq> ?h" "map_of (indexOf t) h = Some j" by (auto simp: del split: if_splits)
    then show "j < length (hk_entries (clearEntry i t)) \<and> e_keyHash (hk_entries (clearEntry i t) ! j) = h"
      using wf(2) [of h j] other [of h j] by simp
  next
    fix j assume *: "j < length (hk_entries (clearEntry i t))"
      "e_keyHash (hk_entries (clearEntry i t) ! j) \<noteq> 0"
    then have "j \<noteq> i" by (auto simp: assms(3))
    with * have "map_of (indexOf t) (e_keyHash (hk_entries t ! j)) = Some j" using wf(3) by simp
    moreover have "e_keyHash (hk_entries t ! j) \<noteq> ?h"
      using calculation \<open>j \<noteq> i\<close> wf(3) [OF assms(3,2)] by auto
    ultimately show "map_of (indexOf (clearEntry i t)) (e_keyHash (hk_entries (clearEntry i t) ! j)) = Some j"
      using \<open>j \<noteq> i\<close> by (simp add: del)
  next
    fix e assume "e \<in> set (hk_entries (clearEntry i t))"
    then show "0 \<le> e_queuedApprox e \<and> 0 \<le> e_inflightApprox e"
      using wf(4) by (auto dest!: set_updateD)
  qed (use wf(5) in simp)
qed

lemma maybeResetEntry_wf:
  assumes "hk_wf t" "i < length (hk_entries t)"
  shows "hk_wf (maybeResetEntry i now t)"
  using assms by (simp add: maybeResetEntry_def Let_def clearEntry_wf updEntry_wf)

lemma maybeResetEntry_parts [simp]:
  "length (hk_entries (maybeResetEntry i now t)) = length (hk_entries t)"
  "hk_cfg (maybeResetEntry i now t) = hk_cfg t" "enabled (maybeResetEntry i now t) = enabled t"
  by (simp_all add: maybeResetEntry_def Let_def)

lemma expireSlot_wf:
  "hk_wf t \<Longrightarrow> i < length (hk_entries t) \<Longrightarrow> hk_wf (expireSlot now i t)
    \<and> length (hk_entries (expireSlot now i t)) = length (hk_entries t)
    \<and> hk_cfg (expireSlot now i t) = hk_cfg t \<and> enabled (expireSlot now i t) = enabled t"
  by (simp add: expireSlot_def Let_def clearEntry_wf)

lemma expire_fold_wf:
  "hk_wf t \<Longrightarrow> (\<And>i. i \<in> set is \<Longrightarrow> i < length (hk_entries t)) \<Longrightarrow>
    hk_wf (fold (expireSlot now) is t)
    \<and> length (hk_entries (fold (expireSlot now) is t)) = length (hk_entries t)
    \<and> hk_cfg (fold (expireSlot now) is t) = hk_cfg t
    \<and> enabled (fold (expireSlot now) is t) = enabled t"
proof (induction "is" arbitrary: t)
  case (Cons i "is")
  then show ?case using expireSlot_wf [of t i now] by simp
qed simp

lemma expireStaleEntriesLocked_wf:
  assumes "hk_wf t"
  shows "hk_wf (expireStaleEntriesLocked now t)"
    "length (hk_entries (expireStaleEntriesLocked now t)) = length (hk_entries t)"
    "hk_cfg (expireStaleEntriesLocked now t) = hk_cfg t"
    "enabled (expireStaleEntriesLocked now t) = enabled t"
  using assms expire_fold_wf [OF assms, of "[0..<length (hk_entries t)]" now]
  by (simp_all add: expireStaleEntriesLocked_def)

subsection \<open>Filling a slot\<close>

text \<open>Slot \<open>i\<close> may be given to key \<open>k\<close>: nothing else in the index points to it and \<open>k\<close> lives nowhere else.\<close>

definition slotFree :: "nat \<Rightarrow> u64 \<Rightarrow> hotKeyTracker \<Rightarrow> bool" where
  "slotFree i k t \<longleftrightarrow> i < length (hk_entries t) \<and> distinct (map fst (indexOf t))
     \<and> (map_of (indexOf t) k = None \<or> map_of (indexOf t) k = Some i)
     \<and> (\<forall>h j. map_of (indexOf t) h = Some j \<and> h \<noteq> k \<longrightarrow>
           j < length (hk_entries t) \<and> j \<noteq> i \<and> e_keyHash (hk_entries t ! j) = h)
     \<and> (\<forall>j < length (hk_entries t). j \<noteq> i \<and> e_keyHash (hk_entries t ! j) \<noteq> 0
           \<longrightarrow> map_of (indexOf t) (e_keyHash (hk_entries t ! j)) = Some j)
     \<and> (\<forall>e \<in> set (hk_entries t). 0 \<le> e_queuedApprox e \<and> 0 \<le> e_inflightApprox e)
     \<and> length (hk_entries t) = nat (hkc_MaxTrackedKeysPerShard (hk_cfg t))"

lemma slotFree_other:
  "slotFree i k t \<Longrightarrow> map_of (indexOf t) h = Some j \<Longrightarrow> h \<noteq> k \<Longrightarrow>
    j < length (hk_entries t) \<and> j \<noteq> i \<and> e_keyHash (hk_entries t ! j) = h"
  unfolding slotFree_def by blast

lemma initSlot_parts:
  "hk_entries (initSlot i k l r now t) = (hk_entries t)[i := zeroEntry\<lparr>e_keyHash := k, e_laneID := l,
     e_lastSeenUnixNano := now, e_epoch := hk_epoch t\<rparr>]"
  "hk_cfg (initSlot i k l r now t) = hk_cfg t" "enabled (initSlot i k l r now t) = enabled t"
  "enabled t \<Longrightarrow> indexOf (initSlot i k l r now t) = AList.update k i (indexOf t)"
proof -
  show "indexOf (initSlot i k l r now t) = AList.update k i (indexOf t)" if "enabled t"
    using that by (auto simp: initSlot_def Let_def enabled_def updEntry_def updIndex_def indexOf_def)
qed (simp_all add: initSlot_def Let_def)

lemma initSlot_wf:
  assumes free: "slotFree i k t" and "enabled t"
  shows "hk_wf (initSlot i k l r now t)"
proof -
  have f: "i < length (hk_entries t)" "distinct (map fst (indexOf t))"
      "map_of (indexOf t) k = None \<or> map_of (indexOf t) k = Some i"
      "length (hk_entries t) = nat (hkc_MaxTrackedKeysPerShard (hk_cfg t))"
    using free unfolding slotFree_def by blast+
  have bwd: "map_of (indexOf t) (e_keyHash (hk_entries t ! j)) = Some j"
    if "j < length (hk_entries t)" "j \<noteq> i" "e_keyHash (hk_entries t ! j) \<noteq> 0" for j
    using free that unfolding slotFree_def by blast
  have nn: "0 \<le> e_queuedApprox e \<and> 0 \<le> e_inflightApprox e" if "e \<in> set (hk_entries t)" for e
    using free that unfolding slotFree_def by blast
  note parts = initSlot_parts [where i = i and k = k and l = l and r = r and now = now and t = t]
  have upd: "map_of (indexOf (initSlot i k l r now t)) h = (if h = k then Some i else map_of (indexOf t) h)" for h
    using assms(2) by (simp add: parts(4) update_conv')
  show ?thesis
  proof (rule hk_wfI)
    show "distinct (map fst (indexOf (initSlot i k l r now t)))"
      using f(2) assms(2) by (simp add: parts(4) distinct_update)
    fix h j assume *: "map_of (indexOf (initSlot i k l r now t)) h = Some j"
    show "j < length (hk_entries (initSlot i k l r now t))
        \<and> e_keyHash (hk_entries (initSlot i k l r now t) ! j) = h"
    proof (cases "h = k")
      case True
      then have "j = i" using * by (simp add: upd)
      then show ?thesis using f(1) True by (simp add: initSlot_parts(1))
    next
      case False
      then have "map_of (indexOf t) h = Some j" using * by (simp only: upd if_False)
      then have "j < length (hk_entries t) \<and> j \<noteq> i \<and> e_keyHash (hk_entries t ! j) = h"
        using False by (rule slotFree_other [OF free])
      then show ?thesis by (simp add: parts(1))
    qed
  next
    fix j assume *: "j < length (hk_entries (initSlot i k l r now t))"
      "e_keyHash (hk_entries (initSlot i k l r now t) ! j) \<noteq> 0"
    show "map_of (indexOf (initSlot i k l r now t)) (e_keyHash (hk_entries (initSlot i k l r now t) ! j))
      = Some j"
    proof (cases "j = i")
      case True
      then show ?thesis using f(1) by (simp add: upd initSlot_parts(1))
    next
      case False
      then have b: "map_of (indexOf t) (e_keyHash (hk_entries t ! j)) = Some j"
        using bwd [of j] * by (simp add: parts(1))
      then have "e_keyHash (hk_entries t ! j) \<noteq> k" using f(3) False by auto
      then show ?thesis using False b by (simp only: upd parts(1) nth_list_update_neq if_False not_sym)
    qed
  next
    fix e assume "e \<in> set (hk_entries (initSlot i k l r now t))"
    then show "0 \<le> e_queuedApprox e \<and> 0 \<le> e_inflightApprox e"
      using nn by (auto simp: parts(1) dest!: set_updateD)
  next
    show "length (hk_entries (initSlot i k l r now t)) =
        nat (hkc_MaxTrackedKeysPerShard (hk_cfg (initSlot i k l r now t)))
      \<and> hk_entries (initSlot i k l r now t) \<noteq> []"
      using f(1,4) by (auto simp: parts)
  qed
qed

lemma map_of_filter_slot:
  "distinct (map fst m) \<Longrightarrow>
    map_of (filter (\<lambda>(h, j). j \<noteq> i) m) h = (if map_of m h = Some i then None else map_of m h)"
proof (induction m)
  case (Cons p m)
  have "map_of m (fst p) = None" using Cons.prems by (simp add: map_of_eq_None_iff)
  then show ?case using Cons by (cases p) auto
qed simp

lemma removeSlot_free:
  assumes "hk_wf t" "enabled t" "i < length (hk_entries t)" "map_of (indexOf t) k = None"
  shows "slotFree i k (removeSlotFromIndex i t)"
proof -
  note wf = hk_wfD [OF assms(1)]
  let ?t = "removeSlotFromIndex i t" and ?h = "e_keyHash (hk_entries t ! i)"
  have parts: "hk_entries ?t = hk_entries t" "hk_cfg ?t = hk_cfg t"
    by (simp_all add: removeSlotFromIndex_def Let_def)
  have dist: "distinct (map fst (indexOf ?t))"
    using wf(1) by (simp add: removeSlotFromIndex_def Let_def distinct_delete distinct_map_filter)
  have idx: "map_of (indexOf ?t) h = (if map_of (indexOf t) h = Some i then None else map_of (indexOf t) h)" for h
  proof (cases "?h = 0")
    case False
    have "map_of (indexOf t) h = Some i \<longleftrightarrow> h = ?h"
      using wf(2) [of h i] wf(3) [OF assms(3) False] by auto
    then show ?thesis using False by (simp add: removeSlotFromIndex_def delete_conv')
  next
    case True
    then show ?thesis using map_of_filter_slot [OF wf(1)] by (simp add: removeSlotFromIndex_def)
  qed
  have "j \<noteq> i" if "map_of (indexOf ?t) h = Some j" for h j
    using that by (auto simp: idx split: if_splits)
  moreover have "map_of (indexOf ?t) (e_keyHash (hk_entries t ! j)) = Some j"
    if "j < length (hk_entries t)" "j \<noteq> i" "e_keyHash (hk_entries t ! j) \<noteq> 0" for j
    using wf(3) [OF that(1,3)] that(2) by (simp add: idx)
  moreover have "j < length (hk_entries t) \<and> e_keyHash (hk_entries t ! j) = h"
    if "map_of (indexOf ?t) h = Some j" for h j
    using that wf(2) [of h j] by (simp add: idx split: if_splits)
  moreover have "map_of (indexOf ?t) k = None" using assms(4) by (simp add: idx)
  ultimately show ?thesis
    unfolding slotFree_def parts
    by (intro conjI allI impI ballI) (use dist wf(4) wf(5) [OF assms(2)] assms(3) in auto)
qed

lemma removeSlot_enabled [simp]: "enabled (removeSlotFromIndex i t) = enabled t"
  by (simp add: removeSlotFromIndex_def Let_def)

subsection \<open>Choice of the slot\<close>

lemma firstEmpty_Some:
  "firstEmpty k es = Some i \<Longrightarrow> \<exists>j < length es. i = k + j \<and> e_keyHash (es ! j) = 0"
proof (induction k es rule: firstEmpty.induct)
  case (2 k e es)
  then show ?case by (cases "e_keyHash e = 0") (force intro: exI [of _ "Suc j" for j])+
qed simp

lemma firstEmpty_None: "firstEmpty k es = None \<longleftrightarrow> (\<forall>e \<in> set es. e_keyHash e \<noteq> 0)"
  by (induction k es rule: firstEmpty.induct) auto

lemma lruScan_min:
  assumes "length pre = i" "evict < i" "evictSeen = e_lastSeenUnixNano (pre ! evict)"
    "\<And>j. j < i \<Longrightarrow> evictSeen \<le> e_lastSeenUnixNano (pre ! j)"
  shows "lruScan i es evict evictSeen < length (pre @ es) \<and>
    (\<forall>j < length (pre @ es). e_lastSeenUnixNano ((pre @ es) ! lruScan i es evict evictSeen)
      \<le> e_lastSeenUnixNano ((pre @ es) ! j))"
  using assms
proof (induction i es evict evictSeen arbitrary: pre rule: lruScan.induct)
  case (1 i evict evictSeen)
  then show ?case by simp
next
  case (2 i e es evict evictSeen)
  show ?case
  proof (cases "e_lastSeenUnixNano e < evictSeen")
    case True
    have "\<And>j. j < Suc i \<Longrightarrow> e_lastSeenUnixNano e \<le> e_lastSeenUnixNano ((pre @ [e]) ! j)"
      using "2.prems" True by (auto simp: nth_append less_Suc_eq intro: order_trans less_imp_le)
    moreover have "(pre @ [e]) ! i = e" using "2.prems"(1) by auto
    ultimately show ?thesis using "2.IH"(1) [OF True, of "pre @ [e]"] "2.prems"(1) True by simp
  next
    case False
    have "\<And>j. j < Suc i \<Longrightarrow> evictSeen \<le> e_lastSeenUnixNano ((pre @ [e]) ! j)"
      using "2.prems" False by (auto simp: nth_append less_Suc_eq)
    then show ?thesis
      using "2.IH"(2) [OF False, of "pre @ [e]"] "2.prems"(1-3) False by (simp add: nth_append)
  qed
qed

lemma lruSlot_min:
  assumes "es \<noteq> []"
  shows "lruSlot es < length es \<and>
    (\<forall>j < length es. e_lastSeenUnixNano (es ! lruSlot es) \<le> e_lastSeenUnixNano (es ! j))"
proof -
  obtain e es' where es: "es = e # es'" using assms by (cases es) auto
  show ?thesis using lruScan_min [of "[e]" 1 0 "e_lastSeenUnixNano e" es'] by (simp add: es lruSlot_def)
qed

lemma allocateSlot_index:
  assumes "hk_entries t \<noteq> []"
  shows "fst (allocateSlot k l r now t) < length (hk_entries t)"
  using firstEmpty_Some [of 0 "hk_entries t"] lruSlot_min [OF assms]
  by (auto simp: allocateSlot_def Let_def split: option.split)

lemma allocateSlot_wf:
  assumes "hk_wf t" "enabled t" "map_of (indexOf t) k = None"
  shows "hk_wf (snd (allocateSlot k l r now t))"
proof -
  have "hk_entries t \<noteq> []" using hk_wfD(5) assms by blast
  note i = allocateSlot_index [OF this, of k l r now]
  show ?thesis
    using initSlot_wf [OF removeSlot_free [OF assms(1,2) i assms(3)]] assms(2)
    by (simp add: allocateSlot_def Let_def)
qed

lemma touch_wf:
  assumes "hk_wf t" "enabled t"
  shows "hk_wf (snd (touch k l r now t))" "fst (touch k l r now t) < length (hk_entries t)"
proof -
  note wf = hk_wfD [OF assms(1)]
  have ne: "hk_entries t \<noteq> []" using wf(5) assms(2) by blast
  have "hk_wf (snd (touch k l r now t)) \<and> fst (touch k l r now t) < length (hk_entries t)"
  proof (cases "map_of (indexOf t) k")
    case None
    then show ?thesis
      using allocateSlot_wf [OF assms None] allocateSlot_index [OF ne] by (simp add: touch_def)
  next
    case (Some i)
    note i = wf(2) [OF Some]
    define t1 where "t1 = maybeResetEntry i now t"
    have t1: "hk_wf t1" "enabled t1" "i < length (hk_entries t1)"
      using maybeResetEntry_wf [OF assms(1)] i assms(2) by (simp_all add: t1_def)
    have free: "slotFree i k t1" if "e_keyHash (hk_entries t1 ! i) = 0"
    proof -
      note wf1 = hk_wfD [OF t1(1)]
      have k: "map_of (indexOf t1) k = None \<or> map_of (indexOf t1) k = Some i"
        using Some i by (auto simp: t1_def maybeResetEntry_def Let_def clearEntry_index delete_conv')
      have "j \<noteq> i" if "map_of (indexOf t1) h = Some j" "h \<noteq> k" for h j
        using that Some wf(2) [of h j] i
        by (auto simp: t1_def maybeResetEntry_def Let_def clearEntry_index delete_conv' split: if_splits)
      then show ?thesis
        unfolding slotFree_def
        by (intro conjI allI impI ballI) (use t1 wf1 k in auto)
    qed
    show ?thesis
      using Some i t1 initSlot_wf [OF free t1(2)]
      by (simp add: touch_def Let_def t1_def [symmetric] updEntry_wf)
  qed
  then show "hk_wf (snd (touch k l r now t))" "fst (touch k l r now t) < length (hk_entries t)" by auto
qed

lemma observeKnown_wf:
  assumes "hk_wf t" "\<And>e. e_keyHash (f e) = e_keyHash e"
    "\<And>e. 0 \<le> e_queuedApprox e \<Longrightarrow> 0 \<le> e_inflightApprox e \<Longrightarrow>
      0 \<le> e_queuedApprox (f e) \<and> 0 \<le> e_inflightApprox (f e)"
  shows "hk_wf (observeKnown f k now t)"
proof -
  have "hk_wf (maybeResetEntry i now t)" if "map_of (indexOf t) k = Some i" for i
    using maybeResetEntry_wf [OF assms(1)] hk_wfD(2) [OF assms(1) that] by blast
  then show ?thesis
    using assms
    by (auto simp: observeKnown_def entryIfFresh_def intro!: updEntry_wf split: option.split)
qed

text \<open>The operations of a tracker, as one type.\<close>

datatype hkop =
    HkSubmit u64 LaneID string time
  | HkEnqueue u64 LaneID string time
  | HkDequeue u64 time
  | HkReject u64 time
  | HkQueueWait u64 u64 time
  | HkInflightStart u64 time
  | HkInflightEnd u64 time

fun hkStep :: "hkop \<Rightarrow> hotKeyTracker \<Rightarrow> hotKeyTracker" where
  "hkStep (HkSubmit k l r now) t = observeSubmit k l r now t"
| "hkStep (HkEnqueue k l r now) t = observeEnqueue k l r now t"
| "hkStep (HkDequeue k now) t = observeDequeue k now t"
| "hkStep (HkReject k now) t = observeReject k now t"
| "hkStep (HkQueueWait k w now) t = observeQueueWait k w now t"
| "hkStep (HkInflightStart k now) t = observeInflightStart k now t"
| "hkStep (HkInflightEnd k now) t = observeInflightEnd k now t"

lemma touch_upd_wf:
  assumes "hk_wf t" "enabled t" "\<And>e. e_keyHash (f e) = e_keyHash e"
    "\<And>e. 0 \<le> e_queuedApprox e \<Longrightarrow> 0 \<le> e_inflightApprox e \<Longrightarrow>
      0 \<le> e_queuedApprox (f e) \<and> 0 \<le> e_inflightApprox (f e)"
  shows "hk_wf (case touch k l r now (expireStaleEntriesLocked now t) of (i, t1) \<Rightarrow> updEntry i f t1)"
proof -
  note ex = expireStaleEntriesLocked_wf [OF assms(1), of now]
  show ?thesis
    using touch_wf(1) [OF ex(1), of k l r now] ex(4) assms(2-4)
    by (auto simp: split_beta Let_def intro!: updEntry_wf)
qed

lemma hkStep_wf [inv_intros]: "hk_wf t \<Longrightarrow> hk_wf (hkStep op t)"
  by (cases op)
     (auto simp: observeSubmit_def observeEnqueue_def observeDequeue_def observeReject_def
      observeQueueWait_def observeInflightStart_def observeInflightEnd_def
      intro!: touch_upd_wf observeKnown_wf)

interpretation tracker: op_system hkStep hk_wf
  by unfold_locales (rule hkStep_wf)

text \<open>An index that agrees with the array is no larger than the array.\<close>

lemma activeCount_le:
  assumes "hk_wf t"
  shows "activeCount t \<le> length (hk_entries t)"
proof -
  note wf = hk_wfD [OF assms]
  have dist: "distinct (map snd (indexOf t))"
  proof (subst distinct_map, intro conjI inj_onI)
    show "distinct (indexOf t)" using wf(1) by (simp add: distinct_map)
    fix p q assume "p \<in> set (indexOf t)" "q \<in> set (indexOf t)" "snd p = snd q"
    then have "map_of (indexOf t) (fst p) = Some (snd q)" "map_of (indexOf t) (fst q) = Some (snd q)"
      using wf(1) by (metis map_of_eq_Some_iff prod.collapse)+
    then have "fst p = fst q" using wf(2) by metis
    with \<open>snd p = snd q\<close> show "p = q" by (simp add: prod_eq_iff)
  qed
  have "set (map snd (indexOf t)) \<subseteq> {..<length (hk_entries t)}"
    using wf(1,2) map_of_eq_Some_iff [OF wf(1)] by auto
  then have "card (set (map snd (indexOf t))) \<le> length (hk_entries t)"
    using card_mono [of "{..<length (hk_entries t)}"] by simp
  then show ?thesis using distinct_card [OF dist] by (simp add: activeCount_def)
qed

subsection \<open>What expiry does\<close>

abbreviation staleIn :: "hotKeyTracker \<Rightarrow> time \<Rightarrow> hotKeyEntry \<Rightarrow> bool" where
  "staleIn t now e \<equiv> hotKeyEntryStale e (hkc_DetectionWindow (hk_cfg t)) now"

lemma expireSlot_stale:
  "0 < hkc_DetectionWindow (hk_cfg t) \<Longrightarrow>
    expireSlot now i t = (if staleIn t now (hk_entries t ! i) then clearEntry i t else t)"
  by (auto simp: expireSlot_def hotKeyEntryStale_def Let_def)

lemma expire_upto:
  fixes now :: time
  assumes wf: "hk_wf t" and w: "0 < hkc_DetectionWindow (hk_cfg t)" and m: "m \<le> length (hk_entries t)"
  defines "t' \<equiv> fold (expireSlot now) [0..<m] t"
  shows "hk_wf t'" "hk_cfg t' = hk_cfg t" "hk_epoch t' = hk_epoch t"
    "length (hk_entries t') = length (hk_entries t)"
    "\<And>i. i < length (hk_entries t) \<Longrightarrow> hk_entries t' ! i =
       (if i < m \<and> staleIn t now (hk_entries t ! i) then zeroEntry\<lparr>e_epoch := hk_epoch t\<rparr>
        else hk_entries t ! i)"
    "\<And>k. map_of (indexOf t') k = (case map_of (indexOf t) k of None \<Rightarrow> None
       | Some i \<Rightarrow> if i < m \<and> staleIn t now (hk_entries t ! i) then None else Some i)"
proof -
  have "hk_wf t' \<and> hk_cfg t' = hk_cfg t \<and> hk_epoch t' = hk_epoch t
    \<and> length (hk_entries t') = length (hk_entries t)
    \<and> (\<forall>i < length (hk_entries t). hk_entries t' ! i =
       (if i < m \<and> staleIn t now (hk_entries t ! i) then zeroEntry\<lparr>e_epoch := hk_epoch t\<rparr>
        else hk_entries t ! i))
    \<and> (\<forall>k. map_of (indexOf t') k = (case map_of (indexOf t) k of None \<Rightarrow> None
       | Some i \<Rightarrow> if i < m \<and> staleIn t now (hk_entries t ! i) then None else Some i))"
    using m unfolding t'_def
  proof (induction m)
    case 0
    then show ?case using wf by (simp split: option.split)
  next
    case (Suc m)
    define u where "u = fold (expireSlot now) [0..<m] t"
    have IH: "hk_wf u" "hk_cfg u = hk_cfg t" "hk_epoch u = hk_epoch t"
        "length (hk_entries u) = length (hk_entries t)"
        "\<And>i. i < length (hk_entries t) \<Longrightarrow> hk_entries u ! i =
          (if i < m \<and> staleIn t now (hk_entries t ! i) then zeroEntry\<lparr>e_epoch := hk_epoch t\<rparr>
           else hk_entries t ! i)"
        "\<And>k. map_of (indexOf u) k = (case map_of (indexOf t) k of None \<Rightarrow> None
          | Some i \<Rightarrow> if i < m \<and> staleIn t now (hk_entries t ! i) then None else Some i)"
      using Suc by (simp_all add: u_def)
    have m: "m < length (hk_entries t)" using Suc.prems by simp
    have um: "hk_entries u ! m = hk_entries t ! m" using IH(5) [OF m] by simp
    have step: "fold (expireSlot now) [0..<Suc m] t = expireSlot now m u" by (simp add: u_def)
    show ?case
    proof (cases "staleIn t now (hk_entries t ! m)")
      case False
      then have same: "expireSlot now m u = u" using w by (simp add: expireSlot_stale IH(2) um)
      have lt: "i < Suc m \<and> staleIn t now (hk_entries t ! i) \<longleftrightarrow>
          i < m \<and> staleIn t now (hk_entries t ! i)" for i
        using False by (auto simp: less_Suc_eq)
      show ?thesis unfolding step same lt using IH by blast
    next
      case True
      then have eq: "expireSlot now m u = clearEntry m u" using w by (simp add: expireSlot_stale IH(2) um)
      have h: "e_keyHash (hk_entries u ! m) \<noteq> 0" using True um by (auto simp: hotKeyEntryStale_def)
      have wf': "hk_wf (clearEntry m u)" using clearEntry_wf [OF IH(1) h] m IH(4) by simp
      have hm: "map_of (indexOf t) (e_keyHash (hk_entries t ! m)) = Some m"
        using hk_wfD(3) [OF wf m] h um by simp
      have idx: "map_of (indexOf (clearEntry m u)) k = (case map_of (indexOf t) k of None \<Rightarrow> None
          | Some i \<Rightarrow> if i < Suc m \<and> staleIn t now (hk_entries t ! i) then None else Some i)" for k
      proof (cases "k = e_keyHash (hk_entries t ! m)")
        case k: True
        then show ?thesis using h hm True um by (simp add: clearEntry_index delete_conv')
      next
        case k: False
        have "i \<noteq> m" if "map_of (indexOf t) k = Some i" for i
          using hk_wfD(2) [OF wf that] k by auto
        then show ?thesis
          using k h um by (auto simp: clearEntry_index delete_conv' IH(6) less_Suc_eq split: option.split)
      qed
      have ent: "hk_entries (clearEntry m u) ! i =
          (if i < Suc m \<and> staleIn t now (hk_entries t ! i) then zeroEntry\<lparr>e_epoch := hk_epoch t\<rparr>
           else hk_entries t ! i)" if "i < length (hk_entries t)" for i
        using that True IH(3,4) IH(5) [OF that] by (cases "i = m") (auto simp: less_Suc_eq)
      show ?thesis unfolding step eq using wf' idx ent IH(2-4) by simp
    qed
  qed
  then show "hk_wf t'" "hk_cfg t' = hk_cfg t" "hk_epoch t' = hk_epoch t"
    "length (hk_entries t') = length (hk_entries t)"
    "\<And>i. i < length (hk_entries t) \<Longrightarrow> hk_entries t' ! i =
       (if i < m \<and> staleIn t now (hk_entries t ! i) then zeroEntry\<lparr>e_epoch := hk_epoch t\<rparr>
        else hk_entries t ! i)"
    "\<And>k. map_of (indexOf t') k = (case map_of (indexOf t) k of None \<Rightarrow> None
       | Some i \<Rightarrow> if i < m \<and> staleIn t now (hk_entries t ! i) then None else Some i)"
    by blast+
qed

text \<open>Expiry blanks the stale entries and forgets their keys; nothing else changes.\<close>

lemma staleIn_window: "staleIn t now e \<Longrightarrow> 0 < hkc_DetectionWindow (hk_cfg t)"
  by (auto simp: hotKeyEntryStale_def split: if_splits)

lemma expire_entries:
  assumes "hk_wf t"
  shows "hk_entries (expireStaleEntriesLocked now t) =
    map (\<lambda>e. if staleIn t now e then zeroEntry\<lparr>e_epoch := hk_epoch t\<rparr> else e) (hk_entries t)"
proof (cases "0 < hkc_DetectionWindow (hk_cfg t)")
  case True
  then show ?thesis
    using expire_upto(4,5) [OF assms True order_refl, where now = now]
    by (auto intro!: nth_equalityI simp: expireStaleEntriesLocked_def)
next
  case False
  then have "\<not> staleIn t now e" for e using staleIn_window by blast
  then show ?thesis using False by (simp add: expireStaleEntriesLocked_def)
qed

lemma expire_index:
  assumes "hk_wf t"
  shows "map_of (indexOf (expireStaleEntriesLocked now t)) k =
    (case map_of (indexOf t) k of None \<Rightarrow> None
     | Some i \<Rightarrow> if staleIn t now (hk_entries t ! i) then None else Some i)"
proof (cases "0 < hkc_DetectionWindow (hk_cfg t)")
  case True
  then show ?thesis
    using expire_upto(6) [OF assms True order_refl, where now = now and k = k] hk_wfD(2) [OF assms, of k]
    by (auto simp: expireStaleEntriesLocked_def split: option.split)
next
  case False
  then have "\<not> staleIn t now e" for e using staleIn_window by blast
  then show ?thesis using False by (simp add: expireStaleEntriesLocked_def split: option.split)
qed

subsection \<open>Properties\<close>

lemma removeSlot_cfg [simp]: "hk_cfg (removeSlotFromIndex i t) = hk_cfg t"
  by (simp add: removeSlotFromIndex_def Let_def)

lemma allocateSlot_cfg [simp]: "hk_cfg (snd (allocateSlot k l r now t)) = hk_cfg t"
  by (simp add: allocateSlot_def Let_def initSlot_parts)

lemma touch_cfg [simp]: "hk_cfg (snd (touch k l r now t)) = hk_cfg t"
  by (simp add: touch_def Let_def initSlot_parts split: option.split)

lemma entryIfFresh_cfg [simp]: "hk_cfg (snd (entryIfFresh k now t)) = hk_cfg t"
  by (simp add: entryIfFresh_def split: option.split)

lemma observeKnown_cfg [simp]: "hk_cfg (observeKnown f k now t) = hk_cfg t"
proof -
  obtain o' t1 where "entryIfFresh k now t = (o', t1)" by (rule prod.exhaust)
  then show ?thesis using entryIfFresh_cfg [of k now t] by (simp add: observeKnown_def split: option.split)
qed

lemma expireSlot_cfg [simp]: "hk_cfg (expireSlot now i t) = hk_cfg t"
  by (simp add: expireSlot_def Let_def)

lemma expire_cfg [simp]: "hk_cfg (expireStaleEntriesLocked now t) = hk_cfg t"
proof -
  have "hk_cfg (fold (expireSlot now) is t) = hk_cfg t" for "is"
    by (induction "is" arbitrary: t) simp_all
  then show ?thesis by (simp add: expireStaleEntriesLocked_def)
qed

lemma hkStep_cfg: "hk_cfg (hkStep op t) = hk_cfg t"
proof -
  have "hk_cfg (case touch k l r now u of (i, t1) \<Rightarrow> updEntry i f t1) = hk_cfg u" for k l r now u f
    using touch_cfg [of k l r now u] by (simp add: split_beta)
  then show ?thesis
    by (cases op) (simp_all add: observeSubmit_def observeEnqueue_def observeDequeue_def observeReject_def
        observeQueueWait_def observeInflightStart_def observeInflightEnd_def)
qed

lemma hkRun_cfg: "hk_cfg (fold hkStep ops t) = hk_cfg t"
  by (induction ops arbitrary: t) (simp_all add: hkStep_cfg)

text \<open>C19: Hot-key tracking is bounded and consistent. After any sequence of observations a tracker holds at most
  \<open>MaxTrackedKeysPerShard\<close> keys however many distinct keys were seen, its index and its slots point at each other, and
  the approximate queue and in-flight counts are never negative.\<close>

theorem tracker_bounded:
  fixes cfg ops
  defines "t \<equiv> fold hkStep ops (newHotKeyTracker cfg)"
  shows "trackerLen t \<le> nat (hkc_MaxTrackedKeysPerShard cfg)
    \<and> (\<forall>h i. map_of (indexOf t) h = Some i \<longrightarrow> i < length (hk_entries t) \<and> e_keyHash (hk_entries t ! i) = h)
    \<and> (\<forall>e \<in> set (hk_entries t). 0 \<le> e_queuedApprox e \<and> 0 \<le> e_inflightApprox e)"
proof -
  have wf: "hk_wf t" unfolding t_def by (rule tracker.run_inv [OF new_wf])
  have cfg: "hk_cfg t = hk_cfg (newHotKeyTracker cfg)" unfolding t_def by (rule hkRun_cfg)
  have "trackerLen t \<le> nat (hkc_MaxTrackedKeysPerShard cfg)"
  proof (cases "enabled t")
    case True
    then have "hk_cfg t = cfg" using cfg by (auto simp: newHotKeyTracker_def enabled_def zeroHotKeyConfig_def Let_def split: if_splits)
    then show ?thesis using activeCount_le [OF wf] hk_wfD(5) [OF wf True] True by (simp add: trackerLen_def)
  qed (simp add: trackerLen_def)
  then show ?thesis using hk_wfD(2,4) [OF wf] by blast
qed

definition demoHotKeyConfig :: HotKeyConfig where
  "demoHotKeyConfig = zeroHotKeyConfig\<lparr>hkc_Enabled := True, hkc_MaxTrackedKeysPerShard := 2,
     hkc_DetectionWindow := 30 * Second\<rparr>"

definition demoObservations :: "hkop list" where
  "demoObservations = [HkSubmit 11 0 [] 100, HkEnqueue 11 0 [] 110, HkSubmit 12 0 [] 120, HkSubmit 13 1 [] 130]"

theorem tracker_bounded_witness:
  "trackerLen (fold hkStep demoObservations (newHotKeyTracker demoHotKeyConfig)) \<le> 2
   \<and> map_of (indexOf (fold hkStep demoObservations (newHotKeyTracker demoHotKeyConfig))) 13 = Some 0
   \<and> e_keyHash (hk_entries (fold hkStep demoObservations (newHotKeyTracker demoHotKeyConfig)) ! 0) = 13"
proof -
  have i: "map_of (indexOf (fold hkStep demoObservations (newHotKeyTracker demoHotKeyConfig))) 13 = Some 0" by code_simp
  show ?thesis
    using tracker_bounded [where cfg = demoHotKeyConfig and ops = demoObservations] i
    by (auto simp: demoHotKeyConfig_def)
qed

text \<open>C20: A full tracker evicts the least recently seen key. When every slot is taken, allocating a slot for a new key
  reuses one whose last observation is not later than any other's; the old key leaves the index, every other key keeps
  its slot and its counts, and an empty slot is always used before any key is evicted.\<close>

theorem tracker_evicts_lru:
  fixes t k l r now
  assumes "hk_wf t" "enabled t" "map_of (indexOf t) k = None"
  defines "i \<equiv> fst (allocateSlot k l r now t)" and "t' \<equiv> snd (allocateSlot k l r now t)"
  shows "((\<exists>e \<in> set (hk_entries t). e_keyHash e = 0) \<longrightarrow> e_keyHash (hk_entries t ! i) = 0)
    \<and> (\<forall>j. (\<forall>e \<in> set (hk_entries t). e_keyHash e \<noteq> 0) \<longrightarrow> j < length (hk_entries t) \<longrightarrow>
      e_lastSeenUnixNano (hk_entries t ! i) \<le> e_lastSeenUnixNano (hk_entries t ! j))
    \<and> (\<forall>j. j < length (hk_entries t) \<longrightarrow> j \<noteq> i \<longrightarrow> hk_entries t' ! j = hk_entries t ! j)
    \<and> e_keyHash (hk_entries t' ! i) = k \<and> (k \<noteq> 0 \<longrightarrow> map_of (indexOf t') k = Some i)"
proof (intro conjI impI allI)
  have ne: "hk_entries t \<noteq> []" using hk_wfD(5) [OF assms(1,2)] by simp
  have i: "i < length (hk_entries t)" unfolding i_def by (rule allocateSlot_index [OF ne])
  have idef: "i = (case firstEmpty 0 (hk_entries t) of Some i \<Rightarrow> i | None \<Rightarrow> lruSlot (hk_entries t))"
    by (simp add: i_def allocateSlot_def Let_def)
  show "e_keyHash (hk_entries t ! i) = 0" if "\<exists>e \<in> set (hk_entries t). e_keyHash e = 0"
    using that firstEmpty_None [of 0 "hk_entries t"] firstEmpty_Some [of 0 "hk_entries t"]
    by (auto simp: idef split: option.splits)
  show "e_lastSeenUnixNano (hk_entries t ! i) \<le> e_lastSeenUnixNano (hk_entries t ! j)"
    if "\<forall>e \<in> set (hk_entries t). e_keyHash e \<noteq> 0" "j < length (hk_entries t)" for j
    using that lruSlot_min [OF ne] firstEmpty_None [of 0 "hk_entries t"] by (simp add: idef)
  have ent: "hk_entries t' = (hk_entries t)[i := zeroEntry\<lparr>e_keyHash := k, e_laneID := l, e_lastSeenUnixNano := now,
      e_epoch := hk_epoch t\<rparr>]"
    by (simp add: t'_def i_def allocateSlot_def Let_def initSlot_parts removeSlotFromIndex_def)
  show "hk_entries t' ! j = hk_entries t ! j" if "j < length (hk_entries t)" "j \<noteq> i" for j using that by (simp add: ent)
  show h: "e_keyHash (hk_entries t' ! i) = k" using i by (simp add: ent)
  have "hk_wf t'" unfolding t'_def by (rule allocateSlot_wf [OF assms(1-3)])
  from hk_wfD(3) [OF this, of i] show "map_of (indexOf t') k = Some i" if "k \<noteq> 0"
    using that h i by (simp add: ent)
qed

theorem tracker_evicts_lru_witness:
  "let t = fold hkStep [HkSubmit 11 0 [] 100, HkSubmit 12 0 [] 120] (newHotKeyTracker demoHotKeyConfig) in
   e_keyHash (hk_entries (snd (allocateSlot 13 1 [] 130 t)) ! 0) = 13 \<and> e_keyHash (hk_entries t ! 0) = 11"
proof -
  let ?t = "fold hkStep [HkSubmit 11 0 [] 100, HkSubmit 12 0 [] 120] (newHotKeyTracker demoHotKeyConfig)"
  have wf: "hk_wf ?t" by (rule tracker.run_inv [OF new_wf])
  have c: "enabled ?t" "map_of (indexOf ?t) 13 = None" "fst (allocateSlot 13 1 [] 130 ?t) = 0"
    "e_keyHash (hk_entries ?t ! 0) = 11" by code_simp+
  show ?thesis using tracker_evicts_lru [OF wf c(1,2), of 1 "[]" 130] c(3,4) by (simp add: Let_def)
qed

text \<open>Expiry forgets exactly the stale keys. After \<open>expireStaleEntriesLocked\<close> a key is still indexed exactly when it
  was and its last observation is within the detection window; the surviving entries are unchanged.\<close>

lemma tracker_expiry:
  assumes "hk_wf t"
  shows "map_of (indexOf (expireStaleEntriesLocked now t)) k =
      (case map_of (indexOf t) k of None \<Rightarrow> None | Some i \<Rightarrow> if staleIn t now (hk_entries t ! i) then None else Some i)
    \<and> hk_entries (expireStaleEntriesLocked now t) =
      map (\<lambda>e. if staleIn t now e then zeroEntry\<lparr>e_epoch := hk_epoch t\<rparr> else e) (hk_entries t)"
  using expire_index [OF assms] expire_entries [OF assms] by blast

end
