(* ===== verification/Per_Key_Policy.thy ===== *)
theory Per_Key_Policy
  imports HotKey_Tracker
begin

text \<open>
  Hot-key detection (\<open>internal/core/hotkey_detection.go\<close>), the per-key mitigation policy
  (\<open>internal/core/per_key_policy.go\<close>) and its decision counters (\<open>internal/core/v05_metrics.go\<close>).
  The lemmas show that planning a decision agrees with taking it and leaves the tracker alone, that
  caps and cool-downs bind, that the candidate list of a snapshot is bounded and sorted by score,
  and that every mitigation has its own counter.
\<close>

subsection \<open>Status of one key\<close>

definition hotKeyStatusRank :: "HotKeyStatus \<Rightarrow> int" where
  "hotKeyStatusRank s =
     (case s of HotKeyStatusDominant \<Rightarrow> 2 | HotKeyStatusCandidate \<Rightarrow> 1 | HotKeyStatusNone \<Rightarrow> 0)"

definition statusMeetsMin :: "HotKeyStatus \<Rightarrow> HotKeyStatus \<Rightarrow> bool" where
  "statusMeetsMin status minStatus \<longleftrightarrow> hotKeyStatusRank status \<ge> hotKeyStatusRank minStatus"

text \<open>The ratios both the detection loop and \<open>entryHotKeyStatus\<close> compute.\<close>

record keyRatios =
  kr_depth :: float64
  kr_submit :: float64
  kr_wait :: float64

definition depthDenom :: "u64 \<Rightarrow> int \<Rightarrow> float64" where
  "depthDenom shardDepth totalQueued =
     (if fle (float64_of_u64 shardDepth) (FFin 0) \<and> totalQueued > 0
      then float64_of_int totalQueued else float64_of_u64 shardDepth)"

definition submitDenom :: "u64 \<Rightarrow> float64" where
  "submitDenom totalSubmitted =
     (if fle (float64_of_u64 totalSubmitted) (FFin 0) then FFin 1 else float64_of_u64 totalSubmitted)"

definition entryRatios :: "hotKeyEntry \<Rightarrow> u64 \<Rightarrow> u64 \<Rightarrow> u64 \<Rightarrow> int \<Rightarrow> keyRatios" where
  "entryRatios e shardDepth shardWaitNanos totalSubmitted totalQueued =
     (let dd = depthDenom shardDepth totalQueued; wd = float64_of_u64 shardWaitNanos;
          sd = submitDenom totalSubmitted
      in \<lparr>kr_depth = (if fgt dd (FFin 0) \<and> e_queuedApprox e > 0
                      then fdiv (float64_of_int (e_queuedApprox e)) dd else FFin 0),
          kr_submit = (if e_submittedApprox e > 0
                       then fdiv (float64_of_u64 (e_submittedApprox e)) sd else FFin 0),
          kr_wait = (if fgt wd (FFin 0) \<and> e_queueWaitApproxNanos e > 0
                     then fdiv (float64_of_u64 (e_queueWaitApproxNanos e)) wd else FFin 0)\<rparr>)"

definition ratioHits :: "HotKeyConfig \<Rightarrow> keyRatios \<Rightarrow> bool \<times> bool \<times> bool" where
  "ratioHits cfg r = (fge (kr_depth r) (hkc_HotKeyDepthRatio cfg),
     fge (kr_submit r) (hkc_HotKeyDepthRatio cfg), fge (kr_wait r) (hkc_HotKeyWaitRatio cfg))"

definition useRatio :: "keyRatios \<Rightarrow> float64" where
  "useRatio r =
     (let u1 = (if fgt (kr_submit r) (kr_depth r) then kr_submit r else kr_depth r)
      in if fgt (kr_wait r) u1 then kr_wait r else u1)"

definition entryHotKeyStatus ::
  "hotKeyEntry \<Rightarrow> HotKeyConfig \<Rightarrow> u64 \<Rightarrow> u64 \<Rightarrow> u64 \<Rightarrow> int \<Rightarrow> HotKeyStatus \<times> float64" where
  "entryHotKeyStatus e cfg shardDepth shardWaitNanos totalSubmitted totalQueued =
     (if e_keyHash e = 0 then (HotKeyStatusNone, FFin 0)
      else
        (let r = entryRatios e shardDepth shardWaitNanos totalSubmitted totalQueued;
             (depthHit, submitHit, waitHit) = ratioHits cfg r;
             u = useRatio r
         in if \<not> depthHit \<and> \<not> submitHit \<and> \<not> waitHit then (HotKeyStatusNone, FFin 0)
            else if fge u (flit (7 / 10)) then (HotKeyStatusDominant, u)
            else (HotKeyStatusCandidate, u)))"

subsection \<open>Detection\<close>

datatype DetectionReason = ReasonWaitRatio | ReasonDepthAndSubmitRatio | ReasonDepthRatio
  | ReasonSubmitRatio | ReasonUnknown | ReasonDominantKeyConcentration

record HotKeyCandidate =
  hc_ShardID :: int
  hc_LaneID :: LaneID
  hc_KeyHash :: u64
  hc_Key :: string
  hc_SubmittedApprox :: u64
  hc_QueuedApprox :: int
  hc_RejectedApprox :: u64
  hc_DepthRatio :: float64
  hc_WaitRatio :: float64
  hc_Status :: HotKeyStatus
  hc_Reason :: DetectionReason
  hc_LastSeen :: int

record hotKeyScored =
  hs_candidate :: HotKeyCandidate
  hs_score :: float64
  hs_reason :: DetectionReason

definition hotKeyCandidateLimit :: "HotKeyConfig \<Rightarrow> int" where
  "hotKeyCandidateLimit cfg =
     (let limit = (if hkc_MaxCandidatesPerSnapshot cfg \<le> 0 then 5 else hkc_MaxCandidatesPerSnapshot cfg)
      in if hkc_MaxTrackedKeysPerShard cfg > 0 \<and> limit > hkc_MaxTrackedKeysPerShard cfg
         then hkc_MaxTrackedKeysPerShard cfg else limit)"

definition detectionReason :: "bool \<Rightarrow> bool \<Rightarrow> bool \<Rightarrow> DetectionReason" where
  "detectionReason depthHit submitHit waitHit =
     (if waitHit then ReasonWaitRatio
      else if depthHit \<and> submitHit then ReasonDepthAndSubmitRatio
      else if depthHit then ReasonDepthRatio
      else if submitHit then ReasonSubmitRatio
      else ReasonUnknown)"

text \<open>The body of the scoring loop for slot \<open>i\<close>: \<open>[]\<close> where the code continues.\<close>

definition scoreEntry :: "hotKeyTracker \<Rightarrow> int \<Rightarrow> u64 \<Rightarrow> u64 \<Rightarrow> u64 \<Rightarrow> int \<Rightarrow> nat \<Rightarrow> hotKeyScored list" where
  "scoreEntry t shardID shardDepth shardWaitNanos totalSubmitted totalQueued i =
     (let e = hk_entries t ! i;
          r = entryRatios e shardDepth shardWaitNanos totalSubmitted totalQueued;
          (depthHit, submitHit, waitHit) = ratioHits (hk_cfg t) r;
          reason = detectionReason depthHit submitHit waitHit
      in if e_keyHash e = 0 then []
         else if \<not> depthHit \<and> \<not> submitHit \<and> \<not> waitHit then []
         else [\<lparr>hs_candidate =
             \<lparr>hc_ShardID = shardID, hc_LaneID = e_laneID e, hc_KeyHash = e_keyHash e,
              hc_Key = (if hk_rawKeys t \<noteq> None \<and> hkc_ExposeRawKey (hk_cfg t)
                        then the (hk_rawKeys t) ! i else []),
              hc_SubmittedApprox = e_submittedApprox e, hc_QueuedApprox = e_queuedApprox e,
              hc_RejectedApprox = e_rejectedApprox e, hc_DepthRatio = kr_depth r,
              hc_WaitRatio = kr_wait r, hc_Status = HotKeyStatusCandidate, hc_Reason = reason,
              hc_LastSeen = e_lastSeenUnixNano e\<rparr>,
             hs_score = useRatio r, hs_reason = reason\<rparr>])"

text \<open>The selection sort by descending score: \<open>bestFrom\<close> is the inner loop.\<close>

fun bestFrom :: "hotKeyScored list \<Rightarrow> nat \<Rightarrow> nat \<Rightarrow> nat \<Rightarrow> nat" where
  "bestFrom xs best j 0 = best"
| "bestFrom xs best j (Suc m) =
     bestFrom xs (if fgt (hs_score (xs ! j)) (hs_score (xs ! best)) then j else best) (Suc j) m"

definition swapAt :: "'a list \<Rightarrow> nat \<Rightarrow> nat \<Rightarrow> 'a list" where
  "swapAt xs i j = xs[i := xs ! j, j := xs ! i]"

fun selectionSort :: "hotKeyScored list \<Rightarrow> nat \<Rightarrow> nat \<Rightarrow> hotKeyScored list" where
  "selectionSort xs i 0 = xs"
| "selectionSort xs i (Suc m) =
     selectionSort (swapAt xs i (bestFrom xs i (Suc i) m)) (Suc i) m"

text \<open>
  \<open>now\<close> is the clock reading of the call. The result is the top candidate and the list,
  with the tracker after expiry.
\<close>

definition detectHotKeyCandidates ::
  "hotKeyTracker \<Rightarrow> int \<Rightarrow> u64 \<Rightarrow> u64 \<Rightarrow> time \<Rightarrow>
   (HotKeyCandidate \<times> HotKeyCandidate list) option \<times> hotKeyTracker" where
  "detectHotKeyCandidates t0 shardID shardDepth shardWaitNanos now =
     (if \<not> enabled t0 then (None, t0)
      else
        (let t = expireStaleEntriesLocked now t0;
             (totalSubmitted, totalQueued) = totalsOver (\<lambda>e. e_keyHash e = 0) (hk_entries t) 0 0
         in if totalSubmitted = 0 \<and> totalQueued = 0 \<and> shardDepth = 0 then (None, t)
            else
              (let scored0 = concat (map (scoreEntry t shardID shardDepth shardWaitNanos
                     totalSubmitted totalQueued) [0..<length (hk_entries t)])
               in if scored0 = [] then (None, t)
                  else
                    (let scored = selectionSort scored0 0 (length scored0);
                         limit = min (int (length scored)) (hotKeyCandidateLimit (hk_cfg t));
                         all = map hs_candidate (take (nat limit) scored);
                         top = hd all;
                         dominant = fge (hs_score (scored ! 0)) (flit (7 / 10))
                           \<or> (length scored > 1
                              \<and> fge (hs_score (scored ! 0)) (fmul (FFin 2) (hs_score (scored ! 1))));
                         top' = (if dominant
                                 then top\<lparr>hc_Status := HotKeyStatusDominant,
                                          hc_Reason := ReasonDominantKeyConcentration\<rparr>
                                 else top\<lparr>hc_Status := HotKeyStatusCandidate\<rparr>)
                     in (Some (top', top' # tl all), t)))))"

subsection \<open>Per-key mitigation\<close>

record PerKeyAdmissionConfig =
  pk_Enabled :: bool
  pk_MinStatus :: HotKeyStatus
  pk_DefaultAction :: PerKeyMitigationAction
  pk_MaxQueuedPerKey :: int
  pk_MaxInflightPerKey :: int
  pk_PressureRatioThreshold :: float64
  pk_RejectRatioThreshold :: float64
  pk_Cooldown :: duration
  pk_RecoveryWindow :: duration
  pk_MaxSnapshotsPerShard :: int
  pk_MaxSnapshotsTotal :: int

definition perKeyAdmissionEnabled :: "PerKeyAdmissionConfig \<Rightarrow> bool" where
  "perKeyAdmissionEnabled cfg = pk_Enabled cfg"

record PerKeyAdmissionDecision =
  pd_Action :: PerKeyMitigationAction
  pd_Reason :: PerKeyAdmissionReason
  pd_ShardID :: int
  pd_LaneID :: LaneID
  pd_KeyHash :: u64
  pd_HotKeyStatus :: HotKeyStatus
  pd_PressureRatio :: float64
  pd_RetryAfter :: duration
  pd_CooldownRemaining :: duration

definition allowDecision :: "int \<Rightarrow> LaneID \<Rightarrow> u64 \<Rightarrow> PerKeyAdmissionDecision" where
  "allowDecision shardID laneID keyHash =
     \<lparr>pd_Action = PerKeyMitigationAllow, pd_Reason = PerKeyAdmissionReasonNone,
      pd_ShardID = shardID, pd_LaneID = laneID, pd_KeyHash = keyHash,
      pd_HotKeyStatus = HotKeyStatusNone, pd_PressureRatio = FFin 0, pd_RetryAfter = 0,
      pd_CooldownRemaining = 0\<rparr>"

definition plannedPerKeyDecision ::
  "PerKeyAdmissionDecision \<Rightarrow> PerKeyMitigationAction \<Rightarrow> PerKeyAdmissionReason \<Rightarrow>
   PerKeyAdmissionConfig \<Rightarrow> PerKeyAdmissionDecision" where
  "plannedPerKeyDecision dec action reason cfg =
     (let d = dec\<lparr>pd_Action := action, pd_Reason := reason\<rparr>
      in if action = PerKeyMitigationThrottle \<and> pk_Cooldown cfg > 0
         then d\<lparr>pd_RetryAfter := pk_Cooldown cfg\<rparr> else d)"

text \<open>\<open>finishPerKeyDecision\<close> changes the entry it is given: the result is the decision and the entry.\<close>

definition finishPerKeyDecision ::
  "hotKeyEntry \<Rightarrow> PerKeyAdmissionDecision \<Rightarrow> PerKeyMitigationAction \<Rightarrow> PerKeyAdmissionReason \<Rightarrow>
   PerKeyAdmissionConfig \<Rightarrow> time \<Rightarrow> PerKeyAdmissionDecision \<times> hotKeyEntry" where
  "finishPerKeyDecision e dec action reason cfg nowNano =
     (let d0 = dec\<lparr>pd_Action := action, pd_Reason := reason\<rparr>;
          (d1, e1) = (if action \<noteq> PerKeyMitigationAllow \<and> pk_Cooldown cfg > 0
            then (d0\<lparr>pd_CooldownRemaining := pk_Cooldown cfg\<rparr>,
                  e\<lparr>e_cooldownUntilUnixNano := nowNano + pk_Cooldown cfg\<rparr>)
            else (d0, e));
          e2 = (if action \<noteq> PerKeyMitigationAllow \<and> pk_RecoveryWindow cfg > 0
            then e1\<lparr>e_recoveryUntilUnixNano := nowNano + pk_RecoveryWindow cfg\<rparr> else e1);
          d2 = (if action = PerKeyMitigationThrottle \<and> pk_Cooldown cfg > 0
            then d1\<lparr>pd_RetryAfter := pk_Cooldown cfg\<rparr> else d1)
      in (d2, e2\<lparr>e_lastAction := action, e_lastReason := reason, e_lastDecisionUnixNano := nowNano,
                e_lastSeenUnixNano := nowNano\<rparr>))"

definition resolvePerKeyDecision ::
  "hotKeyEntry \<Rightarrow> PerKeyAdmissionDecision \<Rightarrow> PerKeyMitigationAction \<Rightarrow> PerKeyAdmissionReason \<Rightarrow>
   PerKeyAdmissionConfig \<Rightarrow> time \<Rightarrow> bool \<Rightarrow> PerKeyAdmissionDecision \<times> hotKeyEntry" where
  "resolvePerKeyDecision e dec action reason cfg now applyMutations =
     (if applyMutations then finishPerKeyDecision e dec action reason cfg now
      else (plannedPerKeyDecision dec action reason cfg, e))"

text \<open>The decision once the entry and the shard totals are known.\<close>

definition decideForEntry ::
  "hotKeyEntry \<Rightarrow> HotKeyConfig \<Rightarrow> u64 \<Rightarrow> int \<Rightarrow> int \<Rightarrow> u64 \<Rightarrow> LaneID \<Rightarrow> u64 \<Rightarrow> u64 \<Rightarrow> float64 \<Rightarrow>
   PerKeyAdmissionConfig \<Rightarrow> time \<Rightarrow> bool \<Rightarrow> PerKeyAdmissionDecision \<times> hotKeyEntry" where
  "decideForEntry e hkCfg totalSubmitted totalQueued shardID keyHash laneID shardDepth shardWaitNanos
     shardPressure cfg nowNano applyMutations =
     (let allow = allowDecision shardID laneID keyHash;
          (status, pressureRatio) =
            entryHotKeyStatus e hkCfg shardDepth shardWaitNanos totalSubmitted totalQueued;
          cooling = e_cooldownUntilUnixNano e > nowNano;
          dec = allow\<lparr>pd_Action := PerKeyMitigationEmpty, pd_Reason := PerKeyAdmissionReasonEmpty,
            pd_HotKeyStatus := status, pd_PressureRatio := pressureRatio,
            pd_CooldownRemaining := (if cooling then e_cooldownUntilUnixNano e - nowNano else 0)\<rparr>;
          resolve = (\<lambda>action reason. resolvePerKeyDecision e dec action reason cfg nowNano applyMutations);
          hotReason = (if status = HotKeyStatusDominant then PerKeyAdmissionReasonDominantHotKey
                       else PerKeyAdmissionReasonHotKeyCandidate)
      in if e_recoveryUntilUnixNano e > 0 \<and> nowNano \<ge> e_recoveryUntilUnixNano e
           \<and> status = HotKeyStatusNone
         then (allow, if applyMutations
           then e\<lparr>e_lastAction := PerKeyMitigationAllow, e_lastReason := PerKeyAdmissionReasonNone,
                  e_cooldownUntilUnixNano := 0, e_recoveryUntilUnixNano := 0\<rparr> else e)
         else if pk_MaxQueuedPerKey cfg > 0 \<and> e_queuedApprox e \<ge> pk_MaxQueuedPerKey cfg
         then resolve PerKeyMitigationThrottle PerKeyAdmissionReasonMaxQueuedPerKey
         else if pk_MaxInflightPerKey cfg > 0 \<and> e_inflightApprox e \<ge> pk_MaxInflightPerKey cfg
         then resolve PerKeyMitigationThrottle PerKeyAdmissionReasonMaxInflightPerKey
         else if e_submittedApprox e > 0 \<and> fgt (pk_RejectRatioThreshold cfg) (FFin 0)
           \<and> fge (fdiv (float64_of_u64 (e_rejectedApprox e)) (float64_of_u64 (e_submittedApprox e)))
                 (pk_RejectRatioThreshold cfg)
         then resolve (if pk_DefaultAction cfg = PerKeyMitigationAllow
               \<or> pk_DefaultAction cfg = PerKeyMitigationThrottle
             then PerKeyMitigationReject else pk_DefaultAction cfg) hotReason
         else if cooling \<and> e_lastAction e \<noteq> PerKeyMitigationAllow
           \<and> e_lastAction e \<noteq> PerKeyMitigationEmpty
         then resolve (e_lastAction e) PerKeyAdmissionReasonCooldownActive
         else if fge shardPressure (flit (95 / 100)) \<and> statusMeetsMin status (pk_MinStatus cfg)
         then resolve (pk_DefaultAction cfg) PerKeyAdmissionReasonShardOverloaded
         else if \<not> statusMeetsMin status (pk_MinStatus cfg) then (allow, e)
         else if fgt (pk_PressureRatioThreshold cfg) (FFin 0)
           \<and> flt pressureRatio (pk_PressureRatioThreshold cfg) then (allow, e)
         else resolve (if pk_DefaultAction cfg = PerKeyMitigationAllow then PerKeyMitigationThrottle
                       else pk_DefaultAction cfg) hotReason)"

definition evaluatePerKeyAdmissionInner ::
  "hotKeyTracker option \<Rightarrow> int \<Rightarrow> u64 \<Rightarrow> LaneID \<Rightarrow> u64 \<Rightarrow> u64 \<Rightarrow> float64 \<Rightarrow> PerKeyAdmissionConfig \<Rightarrow>
   time \<Rightarrow> bool \<Rightarrow> PerKeyAdmissionDecision \<times> hotKeyTracker option" where
  "evaluatePerKeyAdmissionInner tracker shardID keyHash laneID shardDepth shardWaitNanos shardPressure
     cfg now applyMutations =
     (let allow = allowDecision shardID laneID keyHash
      in case tracker of
           None \<Rightarrow> (allow, None)
         | Some t0 \<Rightarrow>
             (if \<not> enabled t0 \<or> \<not> perKeyAdmissionEnabled cfg then (allow, Some t0)
              else if applyMutations then
                (let t = expireStaleEntriesLocked now t0
                 in case map_of (indexOf t) keyHash of
                      None \<Rightarrow> (allow, Some t)
                    | Some idx \<Rightarrow>
                        (if e_keyHash (hk_entries t ! idx) \<noteq> keyHash then (allow, Some t)
                         else
                           (let (totalSubmitted, totalQueued) =
                                  totalsOver (\<lambda>en. e_keyHash en = 0) (hk_entries t) 0 0;
                                (d, e') = decideForEntry (hk_entries t ! idx) (hk_cfg t) totalSubmitted
                                  totalQueued shardID keyHash laneID shardDepth shardWaitNanos
                                  shardPressure cfg now True
                            in (d, Some (updEntry idx (\<lambda>_. e') t)))))
              else
                (case entryForObservationLocked keyHash now t0 of
                   None \<Rightarrow> (allow, Some t0)
                 | Some e \<Rightarrow>
                     (let (totalSubmitted, totalQueued) = trackerTotalsForObservationLocked now t0;
                          (d, e') = decideForEntry e (hk_cfg t0) totalSubmitted
                            totalQueued shardID keyHash laneID shardDepth shardWaitNanos
                            shardPressure cfg now False
                      in (d, Some t0)))))"

definition planPerKeyAdmission ::
  "hotKeyTracker option \<Rightarrow> int \<Rightarrow> u64 \<Rightarrow> LaneID \<Rightarrow> u64 \<Rightarrow> u64 \<Rightarrow> float64 \<Rightarrow> PerKeyAdmissionConfig \<Rightarrow>
   time \<Rightarrow> PerKeyAdmissionDecision \<times> hotKeyTracker option" where
  "planPerKeyAdmission t shardID keyHash laneID shardDepth shardWaitNanos shardPressure cfg now =
     evaluatePerKeyAdmissionInner t shardID keyHash laneID shardDepth shardWaitNanos shardPressure cfg
       now False"

definition evaluatePerKeyAdmission ::
  "hotKeyTracker option \<Rightarrow> int \<Rightarrow> u64 \<Rightarrow> LaneID \<Rightarrow> u64 \<Rightarrow> u64 \<Rightarrow> float64 \<Rightarrow> PerKeyAdmissionConfig \<Rightarrow>
   time \<Rightarrow> PerKeyAdmissionDecision \<times> hotKeyTracker option" where
  "evaluatePerKeyAdmission t shardID keyHash laneID shardDepth shardWaitNanos shardPressure cfg now =
     evaluatePerKeyAdmissionInner t shardID keyHash laneID shardDepth shardWaitNanos shardPressure cfg
       now True"

definition hotKeyStatusForKey :: "hotKeyTracker option \<Rightarrow> u64 \<Rightarrow> u64 \<Rightarrow> u64 \<Rightarrow> time \<Rightarrow> HotKeyStatus" where
  "hotKeyStatusForKey tracker keyHash shardDepth shardWaitNanos now =
     (case tracker of
        None \<Rightarrow> HotKeyStatusNone
      | Some t \<Rightarrow>
          (if \<not> enabled t then HotKeyStatusNone
           else case entryForObservationLocked keyHash now t of
                  None \<Rightarrow> HotKeyStatusNone
                | Some e \<Rightarrow>
                    (let (totalSubmitted, totalQueued) = trackerTotalsForObservationLocked now t
                     in fst (entryHotKeyStatus e (hk_cfg t) shardDepth shardWaitNanos totalSubmitted
                               totalQueued))))"

record PerKeyAdmissionSnapshot =
  ps_ShardID :: int
  ps_LaneID :: LaneID
  ps_KeyHash :: u64
  ps_Action :: PerKeyMitigationAction
  ps_Reason :: PerKeyAdmissionReason
  ps_QueuedApprox :: int
  ps_InflightApprox :: int
  ps_PressureRatio :: float64
  ps_CooldownRemaining :: duration
  ps_LastDecisionAt :: "time option"
  ps_RejectedApprox :: u64

fun snapshotLoop :: "int \<Rightarrow> int \<Rightarrow> time \<Rightarrow> hotKeyEntry list \<Rightarrow> PerKeyAdmissionSnapshot list \<Rightarrow>
   PerKeyAdmissionSnapshot list" where
  "snapshotLoop shardID limit now [] out = out"
| "snapshotLoop shardID limit now (e # rest) out =
     (if int (length out) \<ge> limit then out
      else if e_keyHash e = 0 \<or> e_lastAction e = PerKeyMitigationAllow
        \<or> e_lastAction e = PerKeyMitigationEmpty
      then snapshotLoop shardID limit now rest out
      else snapshotLoop shardID limit now rest (out @
        [\<lparr>ps_ShardID = shardID, ps_LaneID = e_laneID e, ps_KeyHash = e_keyHash e,
          ps_Action = e_lastAction e, ps_Reason = e_lastReason e, ps_QueuedApprox = e_queuedApprox e,
          ps_InflightApprox = e_inflightApprox e, ps_PressureRatio = FFin 0,
          ps_CooldownRemaining = (if e_cooldownUntilUnixNano e > now
            then e_cooldownUntilUnixNano e - now else 0),
          ps_LastDecisionAt = (if e_lastDecisionUnixNano e > 0
            then Some (e_lastDecisionUnixNano e) else None),
          ps_RejectedApprox = e_rejectedApprox e\<rparr>]))"

definition perKeyAdmissionSnapshots ::
  "hotKeyTracker option \<Rightarrow> int \<Rightarrow> int \<Rightarrow> time \<Rightarrow> PerKeyAdmissionSnapshot list" where
  "perKeyAdmissionSnapshots tracker shardID limit now =
     (case tracker of
        None \<Rightarrow> []
      | Some t \<Rightarrow> if \<not> enabled t \<or> limit \<le> 0 then []
                  else snapshotLoop shardID limit now (hk_entries t) [])"

subsection \<open>Decision counters\<close>

definition perKeyDecisionCounterSlots :: nat where "perKeyDecisionCounterSlots = 24"

definition reasonOffset :: "PerKeyAdmissionReason \<Rightarrow> int" where
  "reasonOffset reason =
     (case reason of
        PerKeyAdmissionReasonHotKeyCandidate \<Rightarrow> 0
      | PerKeyAdmissionReasonDominantHotKey \<Rightarrow> 0
      | PerKeyAdmissionReasonMaxQueuedPerKey \<Rightarrow> 1
      | PerKeyAdmissionReasonMaxInflightPerKey \<Rightarrow> 2
      | PerKeyAdmissionReasonCooldownActive \<Rightarrow> 3
      | PerKeyAdmissionReasonShardOverloaded \<Rightarrow> 4
      | _ \<Rightarrow> 5)"

definition perKeyDecisionCounterIndex :: "PerKeyMitigationAction \<Rightarrow> PerKeyAdmissionReason \<Rightarrow> int" where
  "perKeyDecisionCounterIndex action reason =
     (case action of
        PerKeyMitigationThrottle \<Rightarrow> reasonOffset reason
      | PerKeyMitigationReject \<Rightarrow> 6 + reasonOffset reason
      | PerKeyMitigationShed \<Rightarrow> 12 + reasonOffset reason
      | _ \<Rightarrow> - 1)"

definition reasonLabels :: "string list" where
  "reasonLabels = [''hot_key_candidate'', ''max_queued_per_key'', ''max_inflight_per_key'',
     ''cooldown_active'', ''shard_overloaded'', ''other'']"

text \<open>The slots above 17 have no labels in the source; their labels are empty strings.\<close>

definition perKeyDecisionCounterLabels :: "(string \<times> string) list" where
  "perKeyDecisionCounterLabels =
     map (\<lambda>r. (''throttle'', r)) reasonLabels @ map (\<lambda>r. (''reject'', r)) reasonLabels
     @ map (\<lambda>r. (''shed'', r)) reasonLabels @ replicate 6 ([], [])"

definition recordPerKeyAdmissionDecision ::
  "u64 list \<Rightarrow> PerKeyMitigationAction \<Rightarrow> PerKeyAdmissionReason \<Rightarrow> u64 list" where
  "recordPerKeyAdmissionDecision counts action reason =
     (if action = PerKeyMitigationAllow \<or> action = PerKeyMitigationEmpty then counts
      else let idx = perKeyDecisionCounterIndex action reason
           in if idx < 0 \<or> idx \<ge> int (length counts) then counts
              else counts[nat idx := counts ! nat idx + 1])"

definition PerKeyAdmissionDecisionTotals :: "u64 list \<Rightarrow> (string \<times> string \<times> u64) list" where
  "PerKeyAdmissionDecisionTotals counts =
     concat (map (\<lambda>i. if counts ! i = 0 then []
       else [(fst (perKeyDecisionCounterLabels ! i), snd (perKeyDecisionCounterLabels ! i), counts ! i)])
       [0..<length counts])"

subsection \<open>Planning and deciding agree\<close>

lemma totalsOver_expired:
  "totalsOver (\<lambda>e. e_keyHash e = 0) (map (\<lambda>e. if stale e then zeroEntry\<lparr>e_epoch := ep\<rparr> else e) es) a b
   = totalsOver (\<lambda>e. e_keyHash e = 0 \<or> stale e) es a b"
  by (induction es arbitrary: a b) auto

text \<open>Two decisions are the same but for the remaining cool-down, which a mitigation restarts.\<close>

definition sameDecision :: "PerKeyAdmissionDecision \<Rightarrow> PerKeyAdmissionDecision \<Rightarrow> bool" where
  "sameDecision d d' \<longleftrightarrow> pd_Action d = pd_Action d' \<and> pd_Reason d = pd_Reason d'
     \<and> pd_HotKeyStatus d = pd_HotKeyStatus d' \<and> pd_PressureRatio d = pd_PressureRatio d'
     \<and> pd_RetryAfter d = pd_RetryAfter d'"

lemma sameDecision_refl: "sameDecision d d"
  by (simp add: sameDecision_def)

lemma sameDecision_resolve:
  "sameDecision (fst (resolvePerKeyDecision e dec action reason cfg now True))
     (fst (resolvePerKeyDecision e dec action reason cfg now False))"
  by (simp add: sameDecision_def resolvePerKeyDecision_def finishPerKeyDecision_def
      plannedPerKeyDecision_def Let_def)

lemma sameDecision_if:
  "sameDecision (fst a) (fst a') \<Longrightarrow> sameDecision (fst b) (fst b') \<Longrightarrow>
    sameDecision (fst (if c then a else b)) (fst (if c then a' else b'))"
  by simp

lemma decideForEntry_mode:
  "sameDecision (fst (decideForEntry e hk ts tq sid k l sd sw sp cfg now True))
     (fst (decideForEntry e hk ts tq sid k l sd sw sp cfg now False))"
  unfolding decideForEntry_def Let_def split_beta
  by (intro sameDecision_if) (simp_all only: fst_conv sameDecision_refl sameDecision_resolve)

text \<open>The entry that an evaluation looks at is the one that an observation looks at.\<close>

lemma observation_after_expiry:
  fixes now :: time
  assumes wf: "hk_wf t"
  defines "t' \<equiv> expireStaleEntriesLocked now t"
  shows "entryForObservationLocked k now t =
    (case map_of (indexOf t') k of None \<Rightarrow> None
     | Some i \<Rightarrow> if e_keyHash (hk_entries t' ! i) \<noteq> k then None else Some (hk_entries t' ! i))"
proof (cases "map_of (indexOf t) k")
  case None
  then show ?thesis by (simp add: t'_def expire_index [OF wf] entryForObservationLocked_def)
next
  case (Some i)
  note i = hk_wfD(2) [OF wf Some]
  then show ?thesis
    using Some by (simp add: t'_def expire_index [OF wf] expire_entries [OF wf]
        entryForObservationLocked_def Let_def)
qed

lemma plan_agrees:
  fixes sid k l sd sw sp cfg now
  assumes "hk_wf t"
  defines "P \<equiv> fst (planPerKeyAdmission (Some t) sid k l sd sw sp cfg now)"
    and "E \<equiv> fst (evaluatePerKeyAdmission (Some t) sid k l sd sw sp cfg now)"
  shows "sameDecision E P"
proof -
  let ?t = "expireStaleEntriesLocked now t"
  have tot: "totalsOver (\<lambda>en. e_keyHash en = 0) (hk_entries ?t) 0 0
      = trackerTotalsForObservationLocked now t"
    by (simp add: expire_entries [OF assms(1)] totalsOver_expired trackerTotalsForObservationLocked_def)
  have cfg: "hk_cfg ?t = hk_cfg t" by (rule expireStaleEntriesLocked_wf(3) [OF assms(1)])
  define T where "T = trackerTotalsForObservationLocked now t"
  note obs = observation_after_expiry [OF assms(1), of k now]
  note unf = P_def E_def planPerKeyAdmission_def evaluatePerKeyAdmission_def
    evaluatePerKeyAdmissionInner_def Let_def tot cfg option.case if_True if_False
    T_def [symmetric]
  show ?thesis
  proof (cases "\<not> enabled t \<or> \<not> perKeyAdmissionEnabled cfg")
    case True
    then show ?thesis by (auto simp: unf sameDecision_refl)
  next
    case on: False
    show ?thesis
    proof (cases "entryForObservationLocked k now t")
      case None
      then have "map_of (indexOf ?t) k = None
          \<or> (\<exists>i. map_of (indexOf ?t) k = Some i \<and> e_keyHash (hk_entries ?t ! i) \<noteq> k)"
        using obs by (auto split: option.splits if_splits)
      then show ?thesis unfolding unf using on None by (auto simp: sameDecision_refl)
    next
      case (Some e)
      then obtain i where i: "map_of (indexOf ?t) k = Some i" "e_keyHash (hk_entries ?t ! i) = k"
          "e = hk_entries ?t ! i"
        using obs by (auto split: option.splits if_splits)
      show ?thesis unfolding unf using on Some i
        by (simp add: split_beta decideForEntry_mode)
    qed
  qed
qed

lemma plan_pure: "snd (planPerKeyAdmission t sid k l sd sw sp cfg now) = t"
  by (auto simp: planPerKeyAdmission_def evaluatePerKeyAdmissionInner_def Let_def split_beta
      split: option.split)

subsection \<open>Evaluations keep the tracker well-formed\<close>

lemma resolve_entry:
  "e_keyHash (snd (resolvePerKeyDecision e dec a r cfg now m)) = e_keyHash e"
  "e_queuedApprox (snd (resolvePerKeyDecision e dec a r cfg now m)) = e_queuedApprox e"
  "e_inflightApprox (snd (resolvePerKeyDecision e dec a r cfg now m)) = e_inflightApprox e"
  by (simp_all add: resolvePerKeyDecision_def finishPerKeyDecision_def Let_def)

lemma decideForEntry_entry:
  fixes e hk ts tq sid k l sd sw sp cfg now m
  defines "e' \<equiv> snd (decideForEntry e hk ts tq sid k l sd sw sp cfg now m)"
  shows "e_keyHash e' = e_keyHash e \<and> e_queuedApprox e' = e_queuedApprox e
    \<and> e_inflightApprox e' = e_inflightApprox e"
proof -
  let ?P = "\<lambda>p :: PerKeyAdmissionDecision \<times> hotKeyEntry. e_keyHash (snd p) = e_keyHash e
    \<and> e_queuedApprox (snd p) = e_queuedApprox e \<and> e_inflightApprox (snd p) = e_inflightApprox e"
  have ifI: "?P a \<Longrightarrow> ?P b \<Longrightarrow> ?P (if c then a else b)" for c a b by simp
  show ?thesis
    unfolding e'_def decideForEntry_def Let_def split_beta
    by (intro ifI) (simp_all add: resolve_entry)
qed

lemma updEntry_const: "updEntry i (\<lambda>_. f (hk_entries t ! i)) t = updEntry i f t"
  by (simp add: updEntry_def)

lemma updEntry_replace_wf:
  assumes "hk_wf t" "e_keyHash e' = e_keyHash (hk_entries t ! i)" "i < length (hk_entries t)"
    "e_queuedApprox e' = e_queuedApprox (hk_entries t ! i)"
    "e_inflightApprox e' = e_inflightApprox (hk_entries t ! i)"
  shows "hk_wf (updEntry i (\<lambda>_. e') t)"
proof -
  let ?e = "hk_entries t ! i"
  let ?f = "\<lambda>e. if e = ?e then e' else e"
  have "hk_wf (updEntry i ?f t)" using assms by (intro updEntry_wf) auto
  then show ?thesis using updEntry_const [of i ?f t] by simp
qed

lemma evaluatePerKeyAdmission_wf [inv_intros]:
  assumes "hk_wf t" "evaluatePerKeyAdmission (Some t) sid k l sd sw sp cfg now = (d, Some t')"
  shows "hk_wf t'"
proof -
  let ?t = "expireStaleEntriesLocked now t"
  have wf: "hk_wf ?t" by (rule expireStaleEntriesLocked_wf(1) [OF assms(1)])
  note unf = evaluatePerKeyAdmission_def evaluatePerKeyAdmissionInner_def Let_def option.case if_True
  show ?thesis
  proof (cases "enabled t \<and> perKeyAdmissionEnabled cfg")
    case False
    then show ?thesis using assms by (auto simp: unf)
  next
    case on: True
    show ?thesis
    proof (cases "\<exists>i. map_of (indexOf ?t) k = Some i \<and> e_keyHash (hk_entries ?t ! i) = k")
      case False
      then have "t' = ?t" using assms(2) on by (cases "map_of (indexOf ?t) k") (auto simp: unf)
      then show ?thesis using wf by simp
    next
      case True
      then obtain i where i: "map_of (indexOf ?t) k = Some i" "e_keyHash (hk_entries ?t ! i) = k" by blast
      obtain ts tq where "totalsOver (\<lambda>en. e_keyHash en = 0) (hk_entries ?t) 0 0 = (ts, tq)"
        by (cases "totalsOver (\<lambda>en. e_keyHash en = 0) (hk_entries ?t) 0 0")
      then have "t' = updEntry i (\<lambda>_. snd (decideForEntry (hk_entries ?t ! i) (hk_cfg ?t) ts tq sid k l
          sd sw sp cfg now True)) ?t"
        using assms(2) on i by (simp add: unf split_beta)
      then show ?thesis
        using hk_wfD(2) [OF wf i(1)] wf by (simp add: updEntry_replace_wf decideForEntry_entry)
    qed
  qed
qed

subsection \<open>Caps and cool-downs bind\<close>

definition recovered :: "hotKeyEntry \<Rightarrow> HotKeyStatus \<Rightarrow> time \<Rightarrow> bool" where
  "recovered e status now \<longleftrightarrow> e_recoveryUntilUnixNano e > 0 \<and> now \<ge> e_recoveryUntilUnixNano e
     \<and> status = HotKeyStatusNone"

lemma resolve_action [simp]:
  "pd_Action (fst (resolvePerKeyDecision e dec a r cfg now m)) = a"
  "pd_Reason (fst (resolvePerKeyDecision e dec a r cfg now m)) = r"
  by (simp_all add: resolvePerKeyDecision_def finishPerKeyDecision_def plannedPerKeyDecision_def Let_def)

lemma decide_queued_cap:
  assumes "0 < pk_MaxQueuedPerKey cfg" "pk_MaxQueuedPerKey cfg \<le> e_queuedApprox e"
    "\<not> recovered e (fst (entryHotKeyStatus e hk sd sw ts tq)) now"
  shows "pd_Action (fst (decideForEntry e hk ts tq sid k l sd sw sp cfg now m)) = PerKeyMitigationThrottle"
  using assms by (auto simp: decideForEntry_def Let_def split_beta recovered_def)

lemma decide_cooldown:
  assumes "now < e_cooldownUntilUnixNano e"
    "e_lastAction e \<notin> {PerKeyMitigationAllow, PerKeyMitigationEmpty}"
    "\<not> recovered e (fst (entryHotKeyStatus e hk sd sw ts tq)) now"
  shows "pd_Action (fst (decideForEntry e hk ts tq sid k l sd sw sp cfg now m)) \<noteq> PerKeyMitigationAllow"
proof -
  let ?P = "\<lambda>p :: PerKeyAdmissionDecision \<times> hotKeyEntry. pd_Action (fst p) \<noteq> PerKeyMitigationAllow"
  have ifI: "(c \<Longrightarrow> ?P a) \<Longrightarrow> (\<not> c \<Longrightarrow> ?P b) \<Longrightarrow> ?P (if c then a else b)" for c a b by simp
  show ?thesis
    unfolding decideForEntry_def Let_def split_beta
    by (intro ifI) (use assms in \<open>auto simp: recovered_def\<close>)
qed

text \<open>What a mitigation leaves in the entry.\<close>

lemma finish_entry:
  assumes "a \<noteq> PerKeyMitigationAllow" "0 < pk_Cooldown cfg"
  shows "e_cooldownUntilUnixNano (snd (finishPerKeyDecision e dec a r cfg now)) = now + pk_Cooldown cfg"
    "e_lastAction (snd (finishPerKeyDecision e dec a r cfg now)) = a"
    "e_lastSeenUnixNano (snd (finishPerKeyDecision e dec a r cfg now)) = now"
    "0 < pk_RecoveryWindow cfg \<Longrightarrow>
      e_recoveryUntilUnixNano (snd (finishPerKeyDecision e dec a r cfg now)) = now + pk_RecoveryWindow cfg"
  using assms by (simp_all add: finishPerKeyDecision_def Let_def)

lemma decide_mitigation_entry:
  assumes "pd_Action (fst (decideForEntry e hk ts tq sid k l sd sw sp cfg now True)) = a"
    "a \<noteq> PerKeyMitigationAllow" "0 < pk_Cooldown cfg" "0 < pk_RecoveryWindow cfg"
  shows "e_cooldownUntilUnixNano (snd (decideForEntry e hk ts tq sid k l sd sw sp cfg now True))
      = now + pk_Cooldown cfg
    \<and> e_lastAction (snd (decideForEntry e hk ts tq sid k l sd sw sp cfg now True)) = a
    \<and> e_lastSeenUnixNano (snd (decideForEntry e hk ts tq sid k l sd sw sp cfg now True)) = now
    \<and> e_recoveryUntilUnixNano (snd (decideForEntry e hk ts tq sid k l sd sw sp cfg now True))
      = now + pk_RecoveryWindow cfg"
proof -
  let ?P = "\<lambda>p :: PerKeyAdmissionDecision \<times> hotKeyEntry.
    pd_Action (fst p) = PerKeyMitigationAllow
    \<or> (e_cooldownUntilUnixNano (snd p) = now + pk_Cooldown cfg
      \<and> e_lastAction (snd p) = pd_Action (fst p) \<and> e_lastSeenUnixNano (snd p) = now
      \<and> e_recoveryUntilUnixNano (snd p) = now + pk_RecoveryWindow cfg)"
  have ifI: "?P a \<Longrightarrow> ?P b \<Longrightarrow> ?P (if c then a else b)" for c a b by simp
  have res: "?P (resolvePerKeyDecision e dec act r cfg now True)" for dec act r
    using finish_entry [of act cfg e dec r now] assms(3,4) by (auto simp: resolvePerKeyDecision_def
        finishPerKeyDecision_def Let_def)
  have allow: "?P (allowDecision sid l k, x)" for x by (simp add: allowDecision_def)
  have "?P (decideForEntry e hk ts tq sid k l sd sw sp cfg now True)"
    unfolding decideForEntry_def Let_def split_beta
    by (intro ifI res allow)
  then show ?thesis using assms(1,2) by auto
qed

subsection \<open>The candidate list\<close>

abbreviation scoreAt :: "hotKeyScored list \<Rightarrow> nat \<Rightarrow> float64" where
  "scoreAt xs k \<equiv> hs_score (xs ! k)"

lemma bestFrom_max:
  assumes "lo \<le> best" "best < j" "j + m = length xs" "\<And>k. k < length xs \<Longrightarrow> \<not> isNaN (scoreAt xs k)"
    "\<And>k. lo \<le> k \<Longrightarrow> k < j \<Longrightarrow> fge (scoreAt xs best) (scoreAt xs k)"
  shows "lo \<le> bestFrom xs best j m \<and> bestFrom xs best j m < length xs
    \<and> (\<forall>k. lo \<le> k \<and> k < length xs \<longrightarrow> fge (scoreAt xs (bestFrom xs best j m)) (scoreAt xs k))"
  using assms
proof (induction xs best j m rule: bestFrom.induct)
  case (1 xs best j)
  then show ?case by auto
next
  case (2 xs best j m)
  let ?b = "if fgt (scoreAt xs j) (scoreAt xs best) then j else best"
  have "fge (scoreAt xs ?b) (scoreAt xs k)" if k: "lo \<le> k" "k < Suc j" for k
  proof (cases "fgt (scoreAt xs j) (scoreAt xs best)")
    case True
    then show ?thesis
      using k "2.prems"(3,4) "2.prems"(5) [of k] fle_refl_iff flt_imp_fle fle_trans
      by (cases "k = j") (auto intro: fle_trans [OF _ flt_imp_fle])
  next
    case False
    have "\<not> isNaN (scoreAt xs j)" "\<not> isNaN (scoreAt xs best)" using "2.prems" by auto
    then have "fge (scoreAt xs best) (scoreAt xs j)" using False flt_or_fge by blast
    then show ?thesis using False k "2.prems"(5) [of k] by (cases "k = j") auto
  qed
  moreover have "lo \<le> ?b" "?b < Suc j" using "2.prems" by auto
  ultimately show ?case using "2.IH" "2.prems"(3,4) by simp
qed

lemma swapAt_nth:
  "i < length xs \<Longrightarrow> j < length xs \<Longrightarrow> swapAt xs i j ! k =
    (if k = j then xs ! i else if k = i then xs ! j else xs ! k)"
  by (auto simp: swapAt_def nth_list_update)

lemma length_swapAt [simp, len_simps]: "length (swapAt xs i j) = length xs"
  by (simp add: swapAt_def)

lemma mset_swapAt: "i < length xs \<Longrightarrow> j < length xs \<Longrightarrow> mset (swapAt xs i j) = mset xs"
  using mset_swap [of j xs i] by (simp add: swapAt_def)

definition descendingUpto :: "hotKeyScored list \<Rightarrow> nat \<Rightarrow> bool" where
  "descendingUpto xs i \<longleftrightarrow> (\<forall>a b. a < i \<and> a < b \<and> b < length xs \<longrightarrow> fge (scoreAt xs a) (scoreAt xs b))"

lemma selectionSort_correct:
  assumes "i + m = length xs" "\<forall>x \<in> set xs. \<not> isNaN (hs_score x)" "descendingUpto xs i"
  shows "mset (selectionSort xs i m) = mset xs
    \<and> descendingUpto (selectionSort xs i m) (length xs)"
  using assms
proof (induction xs i m rule: selectionSort.induct)
  case (1 xs i)
  then show ?case by simp
next
  case (2 xs i m)
  define b where "b = bestFrom xs i (Suc i) m"
  have nan: "\<not> isNaN (scoreAt xs k)" if "k < length xs" for k using "2.prems"(2) that by simp
  have i: "i < length xs" using "2.prems"(1) by simp
  have "i \<le> k \<Longrightarrow> k < Suc i \<Longrightarrow> fge (scoreAt xs i) (scoreAt xs k)" for k
    using nan [OF i] fle_refl_iff by (cases "k = i") auto
  then have b: "i \<le> b" "b < length xs"
      "\<And>k. i \<le> k \<Longrightarrow> k < length xs \<Longrightarrow> fge (scoreAt xs b) (scoreAt xs k)"
    using bestFrom_max [of i i "Suc i" m xs] "2.prems"(1) nan by (auto simp: b_def)
  let ?ys = "swapAt xs i b"
  have ms: "mset ?ys = mset xs" using i b by (simp add: mset_swapAt)
  have "descendingUpto ?ys (Suc i)"
    unfolding descendingUpto_def
  proof (intro allI impI)
    fix a c assume ac: "a < Suc i \<and> a < c \<and> c < length ?ys"
    show "fge (scoreAt ?ys a) (scoreAt ?ys c)"
    proof (cases "a = i")
      case True
      then show ?thesis using ac b i by (auto simp: swapAt_nth)
    next
      case False
      then have "a < i" using ac by simp
      then show ?thesis
        using ac b i "2.prems"(3) unfolding descendingUpto_def by (auto simp: swapAt_nth)
    qed
  qed
  moreover have "set ?ys = set xs" using ms by (rule mset_eq_setD)
  ultimately show ?case using "2.IH" "2.prems"(1,2) ms by (simp add: b_def)
qed

subsection \<open>Counters\<close>

lemma reasonOffset_bounds: "0 \<le> reasonOffset r" "reasonOffset r < 6"
  by (cases r; simp add: reasonOffset_def)+

abbreviation mitigating :: "PerKeyMitigationAction \<Rightarrow> bool" where
  "mitigating a \<equiv> a \<noteq> PerKeyMitigationAllow \<and> a \<noteq> PerKeyMitigationEmpty"

lemma counterIndex_bounds:
  "mitigating a \<Longrightarrow> 0 \<le> perKeyDecisionCounterIndex a r \<and> perKeyDecisionCounterIndex a r < 18"
  using reasonOffset_bounds [of r] by (cases a) (auto simp: perKeyDecisionCounterIndex_def)

lemma counterIndex_inj:
  assumes "mitigating a" "mitigating a'"
    "perKeyDecisionCounterIndex a r = perKeyDecisionCounterIndex a' r'"
  shows "a = a' \<and> reasonOffset r = reasonOffset r'"
  using assms reasonOffset_bounds [of r] reasonOffset_bounds [of r']
  by (cases a; cases a') (auto simp: perKeyDecisionCounterIndex_def)

lemma sum_list_incr_u64:
  "i < length xs \<Longrightarrow> sum_list (xs[i := xs ! i + 1]) = sum_list xs + (1 :: u64)"
proof (induction xs arbitrary: i)
  case (Cons x xs)
  then show ?case by (cases i) (simp_all add: algebra_simps)
qed simp

subsection \<open>Properties\<close>

text \<open>C21: The retry path's dry run predicts the real decision. On a consistent tracker \<open>planPerKeyAdmission\<close> returns
  the action, reason, status, pressure ratio and retry-after that \<open>evaluatePerKeyAdmission\<close> returns for the same
  arguments, and changes nothing.\<close>

theorem plan_predicts_evaluate:
  assumes "hk_wf t"
  shows "sameDecision (fst (evaluatePerKeyAdmission (Some t) sid k l sd sw sp cfg now))
      (fst (planPerKeyAdmission (Some t) sid k l sd sw sp cfg now))
    \<and> snd (planPerKeyAdmission (Some t) sid k l sd sw sp cfg now) = Some t"
  by (rule conjI, rule plan_agrees [OF assms], rule plan_pure)

definition demoPerKeyConfig :: PerKeyAdmissionConfig where
  "demoPerKeyConfig = \<lparr>pk_Enabled = True, pk_MinStatus = HotKeyStatusCandidate,
     pk_DefaultAction = PerKeyMitigationThrottle, pk_MaxQueuedPerKey = 1, pk_MaxInflightPerKey = 8,
     pk_PressureRatioThreshold = FFin 0, pk_RejectRatioThreshold = FFin 0, pk_Cooldown = Second,
     pk_RecoveryWindow = 5 * Second, pk_MaxSnapshotsPerShard = 5, pk_MaxSnapshotsTotal = 25\<rparr>"

definition demoTracker :: hotKeyTracker where
  "demoTracker = fold hkStep demoObservations (newHotKeyTracker (demoHotKeyConfig\<lparr>hkc_MaxTrackedKeysPerShard := 4\<rparr>))"

lemma demoTracker_wf: "hk_wf demoTracker"
  unfolding demoTracker_def by (rule tracker.run_inv [OF new_wf])

theorem plan_predicts_evaluate_witness:
  "pd_Action (fst (planPerKeyAdmission (Some demoTracker) 0 11 0 4 0 (FFin 0) demoPerKeyConfig 200)) = PerKeyMitigationThrottle
   \<and> pd_Action (fst (evaluatePerKeyAdmission (Some demoTracker) 0 11 0 4 0 (FFin 0) demoPerKeyConfig 200)) = PerKeyMitigationThrottle"
proof -
  have "pd_Action (fst (planPerKeyAdmission (Some demoTracker) 0 11 0 4 0 (FFin 0) demoPerKeyConfig 200)) = PerKeyMitigationThrottle"
    by code_simp
  then show ?thesis
    using plan_predicts_evaluate [OF demoTracker_wf, of 0 11 0 4 0 "FFin 0" demoPerKeyConfig 200]
    by (simp add: sameDecision_def)
qed


definition demoHotEntry :: hotKeyEntry where
  "demoHotEntry = zeroEntry\<lparr>e_keyHash := 11, e_queuedApprox := 3, e_lastSeenUnixNano := 100\<rparr>"


text \<open>The per-key queue cap is enforced: a key whose approximate queue depth has reached \<open>MaxQueuedPerKey\<close> is
  throttled, unless its recovery window has passed and it is no longer hot.\<close>

lemma queued_cap_throttles:
  assumes "0 < pk_MaxQueuedPerKey cfg" "pk_MaxQueuedPerKey cfg \<le> e_queuedApprox e"
    "\<not> recovered e (fst (entryHotKeyStatus e hk sd sw ts tq)) now"
  shows "pd_Action (fst (decideForEntry e hk ts tq sid k l sd sw sp cfg now m)) = PerKeyMitigationThrottle"
  using assms by (rule decide_queued_cap)

text \<open>The candidate sort is a sort: the selection sort of the hot-key candidates permutes them and leaves the
  scores in descending order, for scores that are numbers.\<close>

lemma candidates_sorted:
  assumes "\<forall>x \<in> set xs. \<not> isNaN (hs_score x)"
  shows "mset (selectionSort xs 0 (length xs)) = mset xs
    \<and> (\<forall>a b. a < b \<longrightarrow> b < length xs \<longrightarrow>
      fge (hs_score (selectionSort xs 0 (length xs) ! a)) (hs_score (selectionSort xs 0 (length xs) ! b)))"
proof (intro conjI allI impI)
  have s: "mset (selectionSort xs 0 (length xs)) = mset xs
      \<and> descendingUpto (selectionSort xs 0 (length xs)) (length xs)"
    by (rule selectionSort_correct) (simp_all add: assms descendingUpto_def)
  then show m: "mset (selectionSort xs 0 (length xs)) = mset xs" by blast
  fix a b :: nat assume ab: "a < b" "b < length xs"
  have "length (selectionSort xs 0 (length xs)) = length xs" using mset_eq_length [OF m] .
  then show "fge (hs_score (selectionSort xs 0 (length xs) ! a)) (hs_score (selectionSort xs 0 (length xs) ! b))"
    using s ab by (simp add: descendingUpto_def)
qed

text \<open>Every mitigating decision is counted once, in the slot of its action and reason class; allowed requests are
  not counted; different action and reason classes never share a slot.\<close>

lemma per_key_decisions_counted:
  assumes "length counts = perKeyDecisionCounterSlots"
  shows "(mitigating a \<longrightarrow> sum_list (recordPerKeyAdmissionDecision counts a r) = sum_list counts + 1)
    \<and> (\<not> mitigating a \<longrightarrow> recordPerKeyAdmissionDecision counts a r = counts)
    \<and> (\<forall>a' r'. mitigating a \<longrightarrow> mitigating a' \<longrightarrow>
      perKeyDecisionCounterIndex a r = perKeyDecisionCounterIndex a' r' \<longrightarrow> a = a' \<and> reasonOffset r = reasonOffset r')"
proof -
  have "mitigating a \<Longrightarrow> sum_list (recordPerKeyAdmissionDecision counts a r) = sum_list counts + 1"
    using counterIndex_bounds [of a r] sum_list_incr_u64 [of "nat (perKeyDecisionCounterIndex a r)" counts] assms
    by (auto simp: recordPerKeyAdmissionDecision_def perKeyDecisionCounterSlots_def Let_def)
  moreover have "\<not> mitigating a \<Longrightarrow> recordPerKeyAdmissionDecision counts a r = counts"
    by (simp add: recordPerKeyAdmissionDecision_def)
  ultimately show ?thesis using counterIndex_inj by blast
qed

end
