(* ===== verification/Scheduler.thy ===== *)
theory Scheduler
  imports Shard Overload_Policy Per_Key_Policy
begin

text \<open>
  The scheduler of \<open>internal/core/scheduler.go\<close> with the files around it: construction, the
  admission of jobs (\<open>Enqueue\<close>, \<open>TryEnqueue\<close>), the worker pass over a shard (\<open>process_shard.go\<close>), the policy
  updates, pressure and statistics. State is one record; every operation is a function on it.
  Clock readings, the outcome of a job's \<open>Run\<close> and the state of the worker context are arguments.
  A \<open>Some\<close> result is a return, \<open>None\<close> a run-time panic. Locks do not appear: each
  definition is a sequential piece of code, and \<open>Scheduler_Steps\<close> interleaves them.
\<close>

subsection \<open>State\<close>

datatype lifecycleState = stateNew | stateRunning | stateStopping | stateStopped

text \<open>The hook fields say whether the function pointer is non-nil.\<close>

record ObservabilityConfig =
  obs_EnableStats :: bool
  obs_EnableCounters :: bool
  obs_EnableQueueWaitTiming :: bool
  obs_EnableRunTiming :: bool
  obs_EnableHooks :: bool
  obs_EnableDebugSnapshot :: bool
  obs_TrackQueueWait :: bool
  obs_SlowJobThreshold :: duration
  obs_OnJobTiming :: bool
  obs_OnSlowJob :: bool
  obs_OnOverloadDecision :: bool
  obs_DisablePooling :: bool

definition defaultObservabilityConfig :: ObservabilityConfig where
  "defaultObservabilityConfig =
     \<lparr>obs_EnableStats = True, obs_EnableCounters = True, obs_EnableQueueWaitTiming = True,
      obs_EnableRunTiming = True, obs_EnableHooks = True, obs_EnableDebugSnapshot = True,
      obs_TrackQueueWait = False, obs_SlowJobThreshold = 0, obs_OnJobTiming = False,
      obs_OnSlowJob = False, obs_OnOverloadDecision = False, obs_DisablePooling = False\<rparr>"

definition zeroPerKeyConfig :: PerKeyAdmissionConfig where
  "zeroPerKeyConfig = \<lparr>pk_Enabled = False, pk_MinStatus = HotKeyStatusNone,
     pk_DefaultAction = PerKeyMitigationEmpty, pk_MaxQueuedPerKey = 0, pk_MaxInflightPerKey = 0,
     pk_PressureRatioThreshold = FFin 0, pk_RejectRatioThreshold = FFin 0, pk_Cooldown = 0,
     pk_RecoveryWindow = 0, pk_MaxSnapshotsPerShard = 0, pk_MaxSnapshotsTotal = 0\<rparr>"

record Scheduler =
  s_shards :: "shard list"
  s_ReadyCh :: "nat list"
  s_workerCount :: int
  s_quotaPolicy :: quotaPolicySnapshot
  s_quotaVersion :: u64
  s_admissionPolicy :: admissionPolicySnapshot
  s_admissionVersion :: u64
  s_overloadPolicy :: overloadPolicySnapshot
  s_overloadVersion :: u64
  s_laneReg :: LaneRegistry
  s_queueSizePerLane :: nat
  s_state :: lifecycleState
  s_inflight :: int
  s_shardInflight :: "int list"
  s_laneInflight :: "int list"
  s_Obs :: ObservabilityConfig
  s_laneCounters :: "laneCounters list"
  s_queueWaitGlobal :: durationAccum
  s_shardQueueWait :: "durationAccum list"
  s_runDurationGlobal :: durationAccum
  s_shardRunDuration :: "durationAccum list"
  s_hotKeyCfg :: HotKeyConfig
  s_hotKeyTrackers :: "hotKeyTracker list option"
  s_perKeyAdmissionCfg :: PerKeyAdmissionConfig
  s_perKeyThrottledTotal :: u64
  s_hotKeyRejectedTotal :: u64
  s_perKeyDecisionCounts :: "u64 list"

text \<open>The capacity of the \<open>ReadyCh\<close> channel is the number of shards.\<close>

definition readyCap :: "Scheduler \<Rightarrow> nat" where
  "readyCap s = length (s_shards s)"

subsection \<open>Construction\<close>

text \<open>\<open>initAdmissionPolicy\<close> and \<open>initOverloadPolicy\<close> panic when the default policy is invalid.\<close>

definition initAdmissionPolicy :: "LaneRegistry \<Rightarrow> nat \<Rightarrow> nat \<Rightarrow> admissionPolicySnapshot option" where
  "initAdmissionPolicy reg shardCount queueSizePerLane =
     (case buildAdmissionPolicySnapshot reg (defaultAdmissionPolicy shardCount queueSizePerLane) of
        Inl e \<Rightarrow> None | Inr snap \<Rightarrow> Some snap)"

definition initOverloadPolicy :: "LaneRegistry \<Rightarrow> nat \<Rightarrow> nat \<Rightarrow> overloadPolicySnapshot option" where
  "initOverloadPolicy reg shardCount queueSizePerLane =
     (case buildOverloadPolicySnapshot reg (defaultOverloadPolicy shardCount queueSizePerLane) of
        Inl e \<Rightarrow> None | Inr snap \<Rightarrow> Some snap)"

definition NewScheduler :: "nat \<Rightarrow> int \<Rightarrow> nat \<Rightarrow> LaneRegistry \<Rightarrow> Scheduler option" where
  "NewScheduler shardCount workerCount queueSizePerLane reg =
     (let laneCount = Len reg
      in case (initAdmissionPolicy reg shardCount queueSizePerLane,
               initOverloadPolicy reg shardCount queueSizePerLane) of
           (Some ap, Some op) \<Rightarrow> Some
             \<lparr>s_shards = map (\<lambda>i. newShard laneCount queueSizePerLane) [0..<shardCount],
              s_ReadyCh = [], s_workerCount = workerCount,
              s_quotaPolicy = snapshotFromRegistry reg, s_quotaVersion = 0,
              s_admissionPolicy = ap, s_admissionVersion = 0,
              s_overloadPolicy = op, s_overloadVersion = 0,
              s_laneReg = reg, s_queueSizePerLane = queueSizePerLane, s_state = stateNew,
              s_inflight = 0, s_shardInflight = replicate shardCount 0,
              s_laneInflight = replicate laneCount 0, s_Obs = defaultObservabilityConfig,
              s_laneCounters = replicate laneCount zeroCounters, s_queueWaitGlobal = zeroAccum,
              s_shardQueueWait = replicate shardCount zeroAccum, s_runDurationGlobal = zeroAccum,
              s_shardRunDuration = replicate shardCount zeroAccum, s_hotKeyCfg = zeroHotKeyConfig,
              s_hotKeyTrackers = None, s_perKeyAdmissionCfg = zeroPerKeyConfig,
              s_perKeyThrottledTotal = 0, s_hotKeyRejectedTotal = 0,
              s_perKeyDecisionCounts = replicate perKeyDecisionCounterSlots 0\<rparr>
         | _ \<Rightarrow> None)"

definition ConfigureHotKey :: "HotKeyConfig \<Rightarrow> Scheduler \<Rightarrow> Scheduler" where
  "ConfigureHotKey cfg s =
     (let s1 = s\<lparr>s_hotKeyCfg := cfg\<rparr>
      in if \<not> hkc_Enabled cfg \<or> hkc_MaxTrackedKeysPerShard cfg \<le> 0
         then s1\<lparr>s_hotKeyTrackers := None\<rparr>
         else s1\<lparr>s_hotKeyTrackers := Some (map (\<lambda>_. newHotKeyTracker cfg) (s_shards s1))\<rparr>)"

definition ConfigurePerKeyAdmission ::
  "PerKeyAdmissionConfig \<Rightarrow> Scheduler \<Rightarrow> core_error option \<times> Scheduler" where
  "ConfigurePerKeyAdmission cfg s =
     (if pk_Enabled cfg \<and> (\<not> hkc_Enabled (s_hotKeyCfg s)
          \<or> hkc_MaxTrackedKeysPerShard (s_hotKeyCfg s) \<le> 0)
      then (Some ErrInvalidPerKeyAdmissionConfig, s)
      else (None, s\<lparr>s_perKeyAdmissionCfg := cfg\<rparr>))"

definition hotKeyTrackerForShard :: "Scheduler \<Rightarrow> nat \<Rightarrow> hotKeyTracker option" where
  "hotKeyTrackerForShard s shardID =
     (case s_hotKeyTrackers s of
        None \<Rightarrow> None
      | Some ts \<Rightarrow> if shardID \<ge> length ts then None else Some (ts ! shardID))"

text \<open>\<open>hk.f(...)\<close> on the tracker of a shard, nothing when there is none.\<close>

definition withTracker :: "nat \<Rightarrow> (hotKeyTracker \<Rightarrow> hotKeyTracker) \<Rightarrow> Scheduler \<Rightarrow> Scheduler" where
  "withTracker shardID f s =
     (case hotKeyTrackerForShard s shardID of
        None \<Rightarrow> s
      | Some t \<Rightarrow> s\<lparr>s_hotKeyTrackers := map_option (\<lambda>ts. ts[shardID := f t]) (s_hotKeyTrackers s)\<rparr>)"

definition HotKeyTrackerLen :: "Scheduler \<Rightarrow> nat \<Rightarrow> nat" where
  "HotKeyTrackerLen s shardID =
     (case hotKeyTrackerForShard s shardID of None \<Rightarrow> 0 | Some t \<Rightarrow> trackerLen t)"

subsection \<open>Pressure and lane depth\<close>

definition shardTotals :: "shard \<Rightarrow> u64 \<times> u64" where
  "shardTotals sh =
     (sum_list (map (\<lambda>q. of_nat (depth q)) (sh_Lanes sh)),
      sum_list (map (\<lambda>q. of_nat (capacity q)) (sh_Lanes sh)))"

definition collectPressureTotals :: "Scheduler \<Rightarrow> u64 \<times> u64 \<times> u64" where
  "collectPressureTotals s =
     (sum_list (map (\<lambda>sh. fst (shardTotals sh)) (s_shards s)),
      sum_list (map (\<lambda>sh. snd (shardTotals sh)) (s_shards s)),
      sum_list (map word_of_int (s_shardInflight s)))"

definition schedPressure :: "Scheduler \<Rightarrow> Pressure" where
  "schedPressure s =
     (let (totalDepth, totalCapacity, inFlight) = collectPressureTotals s
      in classifyPressure totalDepth totalCapacity inFlight)"

definition laneQueueDepth :: "Scheduler \<Rightarrow> LaneID \<Rightarrow> u32" where
  "laneQueueDepth s laneID = of_nat (sum_list (map (\<lambda>sh. laneDepthLocked sh laneID) (s_shards s)))"

subsection \<open>Policies\<close>

abbreviation stoppingOrStopped :: "Scheduler \<Rightarrow> bool" where
  "stoppingOrStopped s \<equiv> s_state s = stateStopping \<or> s_state s = stateStopped"

definition publishQuotaPolicyLocked :: "quotaPolicySnapshot \<Rightarrow> Scheduler \<Rightarrow> u64 \<times> Scheduler" where
  "publishQuotaPolicyLocked snap s =
     (let v = s_quotaVersion s + 1
      in (v, s\<lparr>s_quotaVersion := v, s_quotaPolicy := snap\<lparr>qps_version := v\<rparr>\<rparr>))"

definition UpdateQuotaPolicy :: "QuotaPolicyInput \<Rightarrow> Scheduler \<Rightarrow> (core_error + u64) \<times> Scheduler" where
  "UpdateQuotaPolicy policy s =
     (case buildQuotaPolicySnapshot (s_laneReg s) policy of
        Inl e \<Rightarrow> (Inl e, s)
      | Inr snap \<Rightarrow>
          if stoppingOrStopped s then (Inl ErrStopped, s)
          else let (v, s') = publishQuotaPolicyLocked snap s in (Inr v, s'))"

definition UpdateQuotaPolicyIfVersion ::
  "QuotaPolicyInput \<Rightarrow> u64 \<Rightarrow> Scheduler \<Rightarrow> (core_error + u64) \<times> Scheduler" where
  "UpdateQuotaPolicyIfVersion policy expectedVersion s =
     (case buildQuotaPolicySnapshot (s_laneReg s) policy of
        Inl e \<Rightarrow> (Inl e, s)
      | Inr snap \<Rightarrow>
          if stoppingOrStopped s then (Inl ErrStopped, s)
          else if qps_version (s_quotaPolicy s) \<noteq> expectedVersion
          then (Inl ErrQuotaPolicyVersionConflict, s)
          else let (v, s') = publishQuotaPolicyLocked snap s in (Inr v, s'))"

definition CurrentQuotaPolicyView :: "Scheduler \<Rightarrow> u64 \<times> QuotaPolicyInput" where
  "CurrentQuotaPolicyView s = quotaPolicyView (s_laneReg s) (s_quotaPolicy s)"

definition publishAdmissionPolicy :: "admissionPolicySnapshot \<Rightarrow> Scheduler \<Rightarrow> u64 \<times> Scheduler" where
  "publishAdmissionPolicy snap s =
     (let v = s_admissionVersion s + 1
      in (v, s\<lparr>s_admissionVersion := v, s_admissionPolicy := snap\<lparr>aps_version := v\<rparr>\<rparr>))"

definition UpdateAdmissionPolicy ::
  "AdmissionPolicyInput \<Rightarrow> Scheduler \<Rightarrow> (core_error + u64) \<times> Scheduler" where
  "UpdateAdmissionPolicy policy s =
     (case buildAdmissionPolicySnapshot (s_laneReg s) policy of
        Inl e \<Rightarrow> (Inl e, s)
      | Inr snap \<Rightarrow>
          if stoppingOrStopped s then (Inl ErrStopped, s)
          else let (v, s') = publishAdmissionPolicy snap s in (Inr v, s'))"

definition CurrentAdmissionPolicyView :: "Scheduler \<Rightarrow> u64 \<times> AdmissionPolicyInput" where
  "CurrentAdmissionPolicyView s = admissionPolicyView (s_laneReg s) (s_admissionPolicy s)"

definition EvaluateAdmissionForLane :: "Scheduler \<Rightarrow> LaneID \<Rightarrow> float64 \<Rightarrow> u32 \<Rightarrow> AdmissionEvalResult" where
  "EvaluateAdmissionForLane s laneID pressure laneDepth =
     evaluateAdmission (s_admissionPolicy s) laneID pressure laneDepth"

definition publishOverloadPolicy :: "overloadPolicySnapshot \<Rightarrow> Scheduler \<Rightarrow> u64 \<times> Scheduler" where
  "publishOverloadPolicy snap s =
     (let v = s_overloadVersion s + 1
      in (v, s\<lparr>s_overloadVersion := v, s_overloadPolicy := snap\<lparr>ops_version := v\<rparr>\<rparr>))"

definition UpdateOverloadPolicy ::
  "OverloadPolicyInput \<Rightarrow> Scheduler \<Rightarrow> (core_error + u64) \<times> Scheduler" where
  "UpdateOverloadPolicy policy s =
     (case buildOverloadPolicySnapshot (s_laneReg s) policy of
        Inl e \<Rightarrow> (Inl e, s)
      | Inr snap \<Rightarrow>
          if stoppingOrStopped s then (Inl ErrStopped, s)
          else let (v, s') = publishOverloadPolicy snap s in (Inr v, s'))"

definition CurrentOverloadPolicyView :: "Scheduler \<Rightarrow> u64 \<times> OverloadPolicyInput" where
  "CurrentOverloadPolicyView s = overloadPolicyView (s_laneReg s) (s_overloadPolicy s)"

definition isQueueClosedForOverload :: "Scheduler \<Rightarrow> bool" where
  "isQueueClosedForOverload s \<longleftrightarrow> stoppingOrStopped s"

definition wouldQueueFull :: "Scheduler \<Rightarrow> u64 \<Rightarrow> LaneID \<Rightarrow> bool" where
  "wouldQueueFull s keyHash laneID =
     (let sh = s_shards s ! routeShardID keyHash (length (s_shards s))
      in if unat laneID \<ge> length (sh_Lanes sh) then False
         else depth (sh_Lanes sh ! unat laneID) \<ge> capacity (sh_Lanes sh ! unat laneID))"

definition OverloadSignalsForLane :: "Scheduler \<Rightarrow> LaneID \<Rightarrow> u64 \<Rightarrow> OverloadSignals" where
  "OverloadSignalsForLane s laneID keyHash =
     (let p = schedPressure s
      in \<lparr>os_GlobalPressure = p_TotalDepthRatio p, os_LanePressure = p_TotalDepthRatio p,
          os_LaneDepth = laneQueueDepth s laneID, os_QueueFull = wouldQueueFull s keyHash laneID,
          os_QueueClosed = isQueueClosedForOverload s\<rparr>)"

definition EvaluateOverloadForLane :: "Scheduler \<Rightarrow> LaneID \<Rightarrow> OverloadSignals \<Rightarrow> OverloadEvalResult" where
  "EvaluateOverloadForLane s laneID signals = evaluateOverload (s_overloadPolicy s) laneID signals"

subsection \<open>Per-key admission\<close>

definition shardDepthAndWaitForHotKey :: "Scheduler \<Rightarrow> nat \<Rightarrow> u64 \<times> u64" where
  "shardDepthAndWaitForHotKey s shardID =
     (if shardID < length (s_shards s) then of_nat (totalDepthLocked (s_shards s ! shardID)) else 0,
      if shardID < length (s_shardQueueWait s) then acc_totalNanos (s_shardQueueWait s ! shardID) else 0)"

definition EvaluatePerKeyAdmissionWithConfig ::
  "nat \<Rightarrow> u64 \<Rightarrow> LaneID \<Rightarrow> PerKeyAdmissionConfig \<Rightarrow> time \<Rightarrow> Scheduler \<Rightarrow>
   PerKeyAdmissionDecision \<times> Scheduler" where
  "EvaluatePerKeyAdmissionWithConfig shardID keyHash laneID cfg now s =
     (let allow = allowDecision (int shardID) laneID keyHash
      in if \<not> perKeyAdmissionEnabled cfg then (allow, s)
         else case hotKeyTrackerForShard s shardID of
                None \<Rightarrow> (allow, s)
              | Some hk \<Rightarrow>
                  (let (shardDepth, waitNanos) = shardDepthAndWaitForHotKey s shardID;
                       pressure = p_TotalDepthRatio (schedPressure s);
                       (dec, hk') = evaluatePerKeyAdmission (Some hk) (int shardID) keyHash laneID
                         shardDepth waitNanos pressure cfg now;
                       s1 = withTracker shardID (\<lambda>t. case hk' of Some t' \<Rightarrow> t' | None \<Rightarrow> t) s;
                       s2 = (if pd_Action dec = PerKeyMitigationThrottle
                             then s1\<lparr>s_perKeyThrottledTotal := s_perKeyThrottledTotal s1 + 1\<rparr> else s1);
                       s3 = (if pd_Action dec \<noteq> PerKeyMitigationAllow
                             then s2\<lparr>s_perKeyDecisionCounts := recordPerKeyAdmissionDecision
                                       (s_perKeyDecisionCounts s2) (pd_Action dec) (pd_Reason dec)\<rparr>
                             else s2)
                   in (dec, s3)))"

definition EvaluatePerKeyAdmission ::
  "nat \<Rightarrow> u64 \<Rightarrow> LaneID \<Rightarrow> time \<Rightarrow> Scheduler \<Rightarrow> PerKeyAdmissionDecision \<times> Scheduler" where
  "EvaluatePerKeyAdmission shardID keyHash laneID now s =
     EvaluatePerKeyAdmissionWithConfig shardID keyHash laneID (s_perKeyAdmissionCfg s) now s"

definition ObservePerKeyAdmissionForSuppression ::
  "nat \<Rightarrow> u64 \<Rightarrow> LaneID \<Rightarrow> PerKeyAdmissionConfig \<Rightarrow> time \<Rightarrow> Scheduler \<Rightarrow> PerKeyAdmissionDecision" where
  "ObservePerKeyAdmissionForSuppression shardID keyHash laneID cfg now s =
     (let allow = allowDecision (int shardID) laneID keyHash
      in if \<not> perKeyAdmissionEnabled cfg then allow
         else case hotKeyTrackerForShard s shardID of
                None \<Rightarrow> allow
              | Some hk \<Rightarrow>
                  (let (shardDepth, waitNanos) = shardDepthAndWaitForHotKey s shardID;
                       pressure = p_TotalDepthRatio (schedPressure s)
                   in fst (planPerKeyAdmission (Some hk) (int shardID) keyHash laneID shardDepth
                             waitNanos pressure cfg now)))"

definition HotKeyStatusForKey :: "Scheduler \<Rightarrow> nat \<Rightarrow> u64 \<Rightarrow> time \<Rightarrow> HotKeyStatus" where
  "HotKeyStatusForKey s shardID keyHash now =
     (let (shardDepth, waitNanos) = shardDepthAndWaitForHotKey s shardID
      in hotKeyStatusForKey (hotKeyTrackerForShard s shardID) keyHash shardDepth waitNanos now)"

fun snapshotsFrom :: "nat \<Rightarrow> hotKeyTracker list \<Rightarrow> int \<Rightarrow> int \<Rightarrow> time \<Rightarrow>
   PerKeyAdmissionSnapshot list \<Rightarrow> PerKeyAdmissionSnapshot list" where
  "snapshotsFrom i [] perShard totalLimit now out = out"
| "snapshotsFrom i (hk # rest) perShard totalLimit now out =
     (let remaining = totalLimit - int (length out)
      in if remaining \<le> 0 then out
         else snapshotsFrom (Suc i) rest perShard totalLimit now
                (out @ perKeyAdmissionSnapshots (Some hk) (int i) (min perShard remaining) now))"

definition PerKeyAdmissionSnapshots :: "Scheduler \<Rightarrow> time \<Rightarrow> PerKeyAdmissionSnapshot list" where
  "PerKeyAdmissionSnapshots s now =
     (let cfg = s_perKeyAdmissionCfg s;
          perShard = (if pk_MaxSnapshotsPerShard cfg \<le> 0 then 5 else pk_MaxSnapshotsPerShard cfg);
          totalLimit = (if pk_MaxSnapshotsTotal cfg \<le> 0 then 25 else pk_MaxSnapshotsTotal cfg)
      in if \<not> perKeyAdmissionEnabled cfg then []
         else case s_hotKeyTrackers s of
                None \<Rightarrow> []
              | Some ts \<Rightarrow> snapshotsFrom 0 ts perShard totalLimit now [])"

subsection \<open>Admission of jobs\<close>

definition updCounters :: "nat \<Rightarrow> (laneCounters \<Rightarrow> laneCounters) \<Rightarrow> Scheduler \<Rightarrow> Scheduler" where
  "updCounters l f s = s\<lparr>s_laneCounters := (s_laneCounters s)[l := f (s_laneCounters s ! l)]\<rparr>"

definition whenCounters :: "nat \<Rightarrow> (laneCounters \<Rightarrow> laneCounters) \<Rightarrow> Scheduler \<Rightarrow> Scheduler" where
  "whenCounters l f s = (if obs_EnableCounters (s_Obs s) then updCounters l f s else s)"

text \<open>
  The common tail of \<open>Enqueue\<close> and \<open>TryEnqueue\<close>: route, observe, push. The three clock readings are
  those of \<open>observeSubmit\<close>, of the stamp and of \<open>observeEnqueue\<close>.
\<close>

definition enqueueRouted ::
  "InternalJob \<Rightarrow> time \<Rightarrow> time \<Rightarrow> time \<Rightarrow> Scheduler \<Rightarrow> (core_error + nat \<times> bool) \<times> Scheduler" where
  "enqueueRouted job t1 t2 t3 s =
     (let shardID = routeShardID (job_KeyHash job) (length (s_shards s));
          l = unat (job_LaneID job);
          s1 = withTracker shardID (observeSubmit (job_KeyHash job) (job_LaneID job) (job_RawKey job) t1) s
      in case enqueueIntoShard (s_shards s1 ! shardID) job (obs_EnableQueueWaitTiming (s_Obs s1))
                (obs_TrackQueueWait (s_Obs s1)) t2 of
           Inl e \<Rightarrow> (Inl e, whenCounters l (\<lambda>c. recordLaneAdmissionResult c (Some e)) s1)
         | Inr (becameReady, sh) \<Rightarrow>
             (let s2 = s1\<lparr>s_shards := (s_shards s1)[shardID := sh]\<rparr>;
                  s3 = withTracker shardID
                         (observeEnqueue (job_KeyHash job) (job_LaneID job) (job_RawKey job) t3) s2
              in (Inr (shardID, becameReady), whenCounters l (\<lambda>c. recordLaneAdmissionResult c None) s3)))"

definition Enqueue ::
  "InternalJob \<Rightarrow> time \<Rightarrow> time \<Rightarrow> time \<Rightarrow> Scheduler \<Rightarrow> ((core_error + nat \<times> bool) \<times> Scheduler) option" where
  "Enqueue job t1 t2 t3 s =
     (let l = unat (job_LaneID job)
      in if l \<ge> length (s_laneCounters s) then None
         else let s1 = whenCounters l recordLaneAdmissionAttempt s
              in Some (if stoppingOrStopped s1
                       then (Inl ErrStopped, whenCounters l recordLaneAdmissionRejected s1)
                       else enqueueRouted job t1 t2 t3 s1))"

definition TryEnqueue ::
  "InternalJob \<Rightarrow> time \<Rightarrow> time \<Rightarrow> time \<Rightarrow> Scheduler \<Rightarrow> ((core_error + nat \<times> bool) \<times> Scheduler) option" where
  "TryEnqueue job t1 t2 t3 s =
     (let l = unat (job_LaneID job)
      in if l \<ge> length (s_laneCounters s) then None
         else let s1 = whenCounters l recordLaneAdmissionAttempt s
              in Some (if s_state s1 = stateNew
                       then (Inl ErrNotStarted, whenCounters l recordLaneAdmissionRejected s1)
                       else if s_state s1 \<noteq> stateRunning
                       then (Inl ErrStopped, whenCounters l recordLaneAdmissionRejected s1)
                       else enqueueRouted job t1 t2 t3 s1))"

definition RecordHotKeyReject :: "u64 \<Rightarrow> nat \<Rightarrow> time \<Rightarrow> Scheduler \<Rightarrow> Scheduler" where
  "RecordHotKeyReject keyHash shardID now s =
     withTracker shardID (observeReject keyHash now)
       (s\<lparr>s_hotKeyRejectedTotal := s_hotKeyRejectedTotal s + 1\<rparr>)"

definition RecordPressureAdmissionRejected :: "LaneID \<Rightarrow> Scheduler \<Rightarrow> Scheduler" where
  "RecordPressureAdmissionRejected laneID s =
     (if \<not> obs_EnableCounters (s_Obs s) then s
      else if unat laneID \<ge> length (s_laneCounters s) then s
      else updCounters (unat laneID) recordPressureAdmissionRejected s)"

subsection \<open>The worker pass\<close>

definition recordGCPressureQueueWait :: "nat \<Rightarrow> LaneID \<Rightarrow> u64 \<Rightarrow> Scheduler \<Rightarrow> Scheduler" where
  "recordGCPressureQueueWait shardID laneID waitNanos s =
     (let s1 = s\<lparr>s_queueWaitGlobal := accumRecord (s_queueWaitGlobal s) waitNanos\<rparr>;
          s2 = (if shardID < length (s_shardQueueWait s1)
                then s1\<lparr>s_shardQueueWait := (s_shardQueueWait s1)[shardID :=
                       accumRecord (s_shardQueueWait s1 ! shardID) waitNanos]\<rparr> else s1)
      in if unat laneID < length (s_laneCounters s2)
         then updCounters (unat laneID)
                (\<lambda>c. c\<lparr>lc_gcQueueWait := accumRecord (lc_gcQueueWait c) waitNanos\<rparr>) s2
         else s2)"

definition recordGCPressureRunDuration :: "nat \<Rightarrow> LaneID \<Rightarrow> u64 \<Rightarrow> Scheduler \<Rightarrow> Scheduler" where
  "recordGCPressureRunDuration shardID laneID runNanos s =
     (let s1 = s\<lparr>s_runDurationGlobal := accumRecord (s_runDurationGlobal s) runNanos\<rparr>;
          s2 = (if shardID < length (s_shardRunDuration s1)
                then s1\<lparr>s_shardRunDuration := (s_shardRunDuration s1)[shardID :=
                       accumRecord (s_shardRunDuration s1 ! shardID) runNanos]\<rparr> else s1)
      in if unat laneID < length (s_laneCounters s2)
         then updCounters (unat laneID)
                (\<lambda>c. c\<lparr>lc_gcRun := accumRecord (lc_gcRun c) runNanos\<rparr>) s2
         else s2)"

text \<open>The error a job returned, as far as the scheduler looks at it: nil, one for which
  \<open>errors.Is(err, context.Canceled)\<close> holds, or another.\<close>

datatype jobError = JobNil | JobCanceled | JobError

datatype JobOutcome = JobOutcomeCompleted | JobOutcomeFailed | JobOutcomeCanceled | JobOutcomePanicked

definition jobOutcomeFromError :: "jobError \<Rightarrow> JobOutcome" where
  "jobOutcomeFromError err =
     (case err of JobNil \<Rightarrow> JobOutcomeCompleted | JobCanceled \<Rightarrow> JobOutcomeCanceled
      | JobError \<Rightarrow> JobOutcomeFailed)"

definition obsHooksNeedRunDuration :: "ObservabilityConfig \<Rightarrow> bool" where
  "obsHooksNeedRunDuration obs =
     (if \<not> obs_EnableHooks obs then False
      else if obs_OnJobTiming obs then True
      else obs_OnSlowJob obs \<and> obs_SlowJobThreshold obs > 0)"

definition jobNeedsWorkerTimestamps :: "ObservabilityConfig \<Rightarrow> InternalJob \<Rightarrow> bool \<times> bool" where
  "jobNeedsWorkerTimestamps obs job =
     ((obs_EnableQueueWaitTiming obs \<and> job_AcceptedAt job \<noteq> None)
        \<or> (obs_TrackQueueWait obs \<and> job_EnqueuedAt job \<noteq> None),
      obs_EnableRunTiming obs \<or> obsHooksNeedRunDuration obs)"

datatype hookEvent =
    OnJobTiming nat LaneID string duration duration JobOutcome
  | OnSlowJob nat LaneID string duration duration duration JobOutcome

definition emitObservabilityHooks ::
  "Scheduler \<Rightarrow> nat \<Rightarrow> LaneID \<Rightarrow> duration \<Rightarrow> duration \<Rightarrow> jobError \<Rightarrow> hookEvent list" where
  "emitObservabilityHooks s shardID laneID queueWait runDuration err =
     (let obs = s_Obs s; outcome = jobOutcomeFromError err; laneName = Name (s_laneReg s) laneID;
          needTiming = obs_OnJobTiming obs;
          needSlow = obs_SlowJobThreshold obs > 0 \<and> obs_OnSlowJob obs
            \<and> runDuration \<ge> obs_SlowJobThreshold obs
      in if \<not> obs_EnableHooks obs then []
         else (if needTiming then [OnJobTiming shardID laneID laneName queueWait runDuration outcome] else [])
            @ (if needSlow then [OnSlowJob shardID laneID laneName queueWait runDuration
                 (obs_SlowJobThreshold obs) outcome] else []))"

text \<open>
  The part of \<open>processShard\<close> under the shard lock: collect the batch under the current quotas, clear
  \<open>Ready\<close> if nothing is left, count the batch as in flight. The result carries \<open>hasMore\<close>.
\<close>

definition addInflight :: "nat \<Rightarrow> InternalJob list \<Rightarrow> Scheduler \<Rightarrow> Scheduler" where
  "addInflight shardID batch s =
     s\<lparr>s_inflight := s_inflight s + int (length batch),
       s_shardInflight := (s_shardInflight s)[shardID :=
         s_shardInflight s ! shardID + int (length batch)],
       s_laneInflight := fold (\<lambda>job li. li[unat (job_LaneID job) := li ! unat (job_LaneID job) + 1])
         batch (s_laneInflight s)\<rparr>"

definition collectPhase :: "nat \<Rightarrow> nat \<Rightarrow> Scheduler \<Rightarrow> Scheduler \<times> InternalJob list \<times> bool" where
  "collectPhase poolCap shardID s =
     (let (sh, batch) = collectBatch (obs_DisablePooling (s_Obs s)) poolCap
            (qps_laneQuotas (s_quotaPolicy s)) (s_shards s ! shardID);
          hasMore = hasWorkLocked sh;
          sh' = (if \<not> hasMore then sh\<lparr>sh_Ready := False\<rparr> else sh);
          s1 = s\<lparr>s_shards := (s_shards s)[shardID := sh']\<rparr>
      in (if batch \<noteq> [] then addInflight shardID batch s1 else s1, batch, hasMore))"

text \<open>The hot-key bookkeeping between the lock and the first job.\<close>

definition observeBatch :: "nat \<Rightarrow> InternalJob list \<Rightarrow> time \<Rightarrow> Scheduler \<Rightarrow> Scheduler" where
  "observeBatch shardID batch now s =
     withTracker shardID (fold (\<lambda>job t. observeInflightStart (job_KeyHash job) now
       (observeDequeue (job_KeyHash job) now t)) batch) s"

definition decInflight :: "nat \<Rightarrow> LaneID \<Rightarrow> Scheduler \<Rightarrow> Scheduler" where
  "decInflight shardID laneID s =
     s\<lparr>s_inflight := s_inflight s - 1,
       s_shardInflight := (s_shardInflight s)[shardID := s_shardInflight s ! shardID - 1],
       s_laneInflight := (s_laneInflight s)[unat laneID := s_laneInflight s ! unat laneID - 1]\<rparr>"

text \<open>The worker context is done before a job: the rest of the batch is dropped.\<close>

definition cancelRest :: "nat \<Rightarrow> InternalJob list \<Rightarrow> Scheduler \<Rightarrow> Scheduler" where
  "cancelRest shardID rest s =
     fold (\<lambda>job s. whenCounters (unat (job_LaneID job))
             (\<lambda>c. c\<lparr>lc_canceled := lc_canceled c + 1\<rparr>)
             (decInflight shardID (job_LaneID job) s)) rest s"

text \<open>
  One job. \<open>startedAt\<close> and \<open>endedAt\<close> are the clock before and after \<open>Run\<close>, \<open>err\<close> what \<open>Run\<close> returned,
  \<open>finishedAt\<close> the clock of the deferred bookkeeping.
\<close>

definition recordOutcome :: "jobError \<Rightarrow> laneCounters \<Rightarrow> laneCounters" where
  "recordOutcome err c =
     (case err of
        JobNil \<Rightarrow> c\<lparr>lc_completedTotal := lc_completedTotal c + 1\<rparr>
      | JobCanceled \<Rightarrow> c\<lparr>lc_canceled := lc_canceled c + 1\<rparr>
      | JobError \<Rightarrow> c\<lparr>lc_failedTotal := lc_failedTotal c + 1\<rparr>)"

definition runJob ::
  "nat \<Rightarrow> InternalJob \<Rightarrow> time \<Rightarrow> time \<Rightarrow> jobError \<Rightarrow> time \<Rightarrow> Scheduler \<Rightarrow> hookEvent list \<times> Scheduler" where
  "runJob shardID job startedAt endedAt err finishedAt s =
     (let obs = s_Obs s; l = unat (job_LaneID job);
          (needQueueWait, needRunDuration) = jobNeedsWorkerTimestamps obs job;
          timed = needQueueWait \<or> needRunDuration;
          (queueWait, s1) =
            (case job_AcceptedAt job of
               Some acceptedAt \<Rightarrow>
                 if timed \<and> obs_EnableQueueWaitTiming obs then
                   (let qw = timeSub startedAt acceptedAt; waitNanos = word_of_int qw
                    in (qw, withTracker shardID (observeQueueWait (job_KeyHash job) waitNanos startedAt)
                              (recordGCPressureQueueWait shardID (job_LaneID job) waitNanos s)))
                 else (0, s)
             | None \<Rightarrow> (0, s));
          s2 = (case job_EnqueuedAt job of
                  Some enqueuedAt \<Rightarrow>
                    if timed \<and> obs_TrackQueueWait obs then
                      updCounters l (\<lambda>c. c\<lparr>lc_queueWaitTotalNanos := lc_queueWaitTotalNanos c
                          + timeSub startedAt enqueuedAt, lc_queueWaitCount := lc_queueWaitCount c + 1\<rparr>) s1
                    else s1
                | None \<Rightarrow> s1);
          runDuration = (if needRunDuration then timeSub endedAt startedAt else 0);
          s3 = whenCounters l (recordOutcome err) s2;
          s4 = (if needRunDuration \<and> obs_EnableRunTiming obs
                then recordGCPressureRunDuration shardID (job_LaneID job) (word_of_int runDuration) s3
                else s3);
          events = emitObservabilityHooks s4 shardID (job_LaneID job) queueWait runDuration err;
          s5 = withTracker shardID (observeInflightEnd (job_KeyHash job) finishedAt)
                 (decInflight shardID (job_LaneID job) s4)
      in (events, s5))"

text \<open>What the environment does to one job of a batch: whether the worker context is done when the
  loop reaches it, the clock readings around it and what its \<open>Run\<close> returns.\<close>

record jobEnv =
  je_ctxDone :: bool
  je_startedAt :: time
  je_endedAt :: time
  je_err :: jobError
  je_finishedAt :: time

fun runBatch :: "nat \<Rightarrow> InternalJob list \<Rightarrow> jobEnv list \<Rightarrow> Scheduler \<Rightarrow>
   InternalJob list \<times> hookEvent list \<times> Scheduler" where
  "runBatch shardID (job # rest) (env # envs) s =
     (if je_ctxDone env then ([], [], cancelRest shardID (job # rest) s)
      else
        (let (ev, s1) = runJob shardID job (je_startedAt env) (je_endedAt env) (je_err env)
               (je_finishedAt env) s;
             (ranJobs, evs, s2) = runBatch shardID rest envs s1
         in (job # ranJobs, ev @ evs, s2)))"
| "runBatch shardID _ _ s = ([], [], s)"

text \<open>
  The whole pass. \<open>env i\<close> is what happens to the \<open>i\<close>-th job of the batch and \<open>requeueDone\<close> says
  that the final \<open>select\<close> takes the \<open>ctx.Done()\<close> branch; the other branch can be taken only when the
  channel has room. The result lists the jobs that were run.
\<close>

definition requeue :: "bool \<Rightarrow> nat \<Rightarrow> Scheduler \<Rightarrow> Scheduler" where
  "requeue requeueDone shardID s =
     (if requeueDone \<or> length (s_ReadyCh s) \<ge> readyCap s then s
      else s\<lparr>s_ReadyCh := s_ReadyCh s @ [shardID]\<rparr>)"

definition processShard ::
  "nat \<Rightarrow> time \<Rightarrow> (nat \<Rightarrow> jobEnv) \<Rightarrow> bool \<Rightarrow> nat \<Rightarrow> Scheduler \<Rightarrow>
   InternalJob list \<times> hookEvent list \<times> Scheduler" where
  "processShard poolCap now env requeueDone shardID s =
     (let (s1, batch, hasMore) = collectPhase poolCap shardID s;
          s2 = (if batch \<noteq> [] then observeBatch shardID batch now s1 else s1);
          (ranJobs, evs, s3) = runBatch shardID batch (map env [0..<length batch]) s2
      in (ranJobs, evs, if hasMore then requeue requeueDone shardID s3 else s3))"

subsection \<open>Lifecycle\<close>

text \<open>\<open>Start\<close> launches \<open>workerCount\<close> workers when it succeeds; the workers are in \<open>Scheduler_Steps\<close>.\<close>

definition Start :: "Scheduler \<Rightarrow> core_error option \<times> Scheduler" where
  "Start s =
     (if s_state s = stateRunning then (Some ErrQueueAlreadyStarted, s)
      else if s_state s \<noteq> stateNew then (Some ErrStopped, s)
      else (None, s\<lparr>s_state := stateRunning\<rparr>))"

datatype stopEntry = StopAlready | StopWaitOther | StopBegin

definition beginStop :: "Scheduler \<Rightarrow> stopEntry \<times> Scheduler" where
  "beginStop s =
     (if s_state s = stateStopped then (StopAlready, s)
      else if s_state s = stateStopping then (StopWaitOther, s)
      else (StopBegin, s\<lparr>s_state := stateStopping\<rparr>))"

definition finishStop :: "Scheduler \<Rightarrow> Scheduler" where
  "finishStop s = s\<lparr>s_state := stateStopped\<rparr>"

definition isDrained :: "Scheduler \<Rightarrow> bool" where
  "isDrained s \<longleftrightarrow> s_inflight s = 0 \<and> \<not> list_ex hasWorkLocked (s_shards s) \<and> s_inflight s = 0"

subsection \<open>Statistics\<close>

record LaneStats =
  lst_LaneName :: string
  lst_Depth :: nat
  lst_Capacity :: nat
  lst_Quota :: int
  lst_SubmittedTotal :: int
  lst_CompletedTotal :: int
  lst_FailedTotal :: int
  lst_QueueFullTotal :: int
  lst_QueueWaitTotalNanos :: int
  lst_QueueWaitCount :: int

record ShardStats =
  sst_ShardID :: nat
  sst_Ready :: bool
  sst_TotalDepth :: nat
  sst_Lanes :: "LaneStats list"

definition laneStatsOf :: "Scheduler \<Rightarrow> shard \<Rightarrow> nat \<Rightarrow> LaneStats" where
  "laneStatsOf s sh j =
     (let c = s_laneCounters s ! j
      in \<lparr>lst_LaneName = Name (s_laneReg s) (of_nat j), lst_Depth = depth (sh_Lanes sh ! j),
          lst_Capacity = capacity (sh_Lanes sh ! j),
          lst_Quota = qps_laneQuotas (s_quotaPolicy s) ! j, lst_SubmittedTotal = lc_submittedTotal c,
          lst_CompletedTotal = lc_completedTotal c, lst_FailedTotal = lc_failedTotal c,
          lst_QueueFullTotal = lc_queueFullTotal c, lst_QueueWaitTotalNanos = lc_queueWaitTotalNanos c,
          lst_QueueWaitCount = lc_queueWaitCount c\<rparr>)"

definition shardStatsOf :: "Scheduler \<Rightarrow> nat \<Rightarrow> ShardStats" where
  "shardStatsOf s i =
     (let sh = s_shards s ! i; lanes = map (laneStatsOf s sh) [0..<length (sh_Lanes sh)]
      in \<lparr>sst_ShardID = i, sst_Ready = sh_Ready sh, sst_TotalDepth = sum_list (map lst_Depth lanes),
          sst_Lanes = lanes\<rparr>)"

definition Stats :: "Scheduler \<Rightarrow> ShardStats list \<times> nat" where
  "Stats s =
     (let shards = map (shardStatsOf s) [0..<length (s_shards s)]
      in (shards, sum_list (map sst_TotalDepth shards)))"

end
