(* ===== verification/Scheduler_Facts.thy ===== *)
theory Scheduler_Facts
  imports Scheduler
begin

text \<open>
  The well-formedness invariant of the scheduler and what its operations do on it: construction
  never panics, an accepted job is appended to its lane on its shard, a pass takes a prefix of each lane
  within the quota, and the in-flight counters follow the batches. Properties of single
  operations are stated here; those of interleavings are in \<open>Scheduler_Steps\<close>.
\<close>

subsection \<open>Frames\<close>

lemma withTracker_frame [simp]:
  "s_shards (withTracker i f s) = s_shards s" "s_ReadyCh (withTracker i f s) = s_ReadyCh s"
  "s_quotaPolicy (withTracker i f s) = s_quotaPolicy s" "s_laneReg (withTracker i f s) = s_laneReg s"
  "s_state (withTracker i f s) = s_state s" "s_inflight (withTracker i f s) = s_inflight s"
  "s_shardInflight (withTracker i f s) = s_shardInflight s"
  "s_laneInflight (withTracker i f s) = s_laneInflight s" "s_Obs (withTracker i f s) = s_Obs s"
  "s_laneCounters (withTracker i f s) = s_laneCounters s"
  "s_shardQueueWait (withTracker i f s) = s_shardQueueWait s"
  "s_shardRunDuration (withTracker i f s) = s_shardRunDuration s"
  "s_perKeyDecisionCounts (withTracker i f s) = s_perKeyDecisionCounts s"
  by (simp_all add: withTracker_def split: option.split)

lemma whenCounters_frame [simp]:
  "s_shards (whenCounters l g s) = s_shards s" "s_ReadyCh (whenCounters l g s) = s_ReadyCh s"
  "s_quotaPolicy (whenCounters l g s) = s_quotaPolicy s" "s_laneReg (whenCounters l g s) = s_laneReg s"
  "s_state (whenCounters l g s) = s_state s" "s_inflight (whenCounters l g s) = s_inflight s"
  "s_shardInflight (whenCounters l g s) = s_shardInflight s"
  "s_laneInflight (whenCounters l g s) = s_laneInflight s" "s_Obs (whenCounters l g s) = s_Obs s"
  "s_hotKeyTrackers (whenCounters l g s) = s_hotKeyTrackers s"
  "length (s_laneCounters (whenCounters l g s)) = length (s_laneCounters s)"
  by (simp_all add: whenCounters_def updCounters_def)

lemma updCounters_frame [simp]:
  "s_shards (updCounters l g s) = s_shards s" "s_ReadyCh (updCounters l g s) = s_ReadyCh s"
  "s_quotaPolicy (updCounters l g s) = s_quotaPolicy s" "s_laneReg (updCounters l g s) = s_laneReg s"
  "s_state (updCounters l g s) = s_state s" "s_inflight (updCounters l g s) = s_inflight s"
  "s_shardInflight (updCounters l g s) = s_shardInflight s"
  "s_laneInflight (updCounters l g s) = s_laneInflight s" "s_Obs (updCounters l g s) = s_Obs s"
  "s_hotKeyTrackers (updCounters l g s) = s_hotKeyTrackers s"
  "length (s_laneCounters (updCounters l g s)) = length (s_laneCounters s)"
  by (simp_all add: updCounters_def)

lemma readyCap_simps [simp]:
  "readyCap (withTracker i f s) = readyCap s" "readyCap (whenCounters l g s) = readyCap s"
  "readyCap (updCounters l g s) = readyCap s"
  by (simp_all add: readyCap_def)

subsection \<open>The invariant\<close>

text \<open>Every queued job sits in the lane and on the shard its fields name.\<close>

definition placedIn :: "nat \<Rightarrow> nat \<Rightarrow> InternalJob list list \<Rightarrow> bool" where
  "placedIn n i cs \<longleftrightarrow> (\<forall>l < length cs. \<forall>j \<in> set (cs ! l).
     unat (job_LaneID j) = l \<and> routeShardID (job_KeyHash j) n = i)"

definition shards_ok :: "nat \<Rightarrow> shard list \<Rightarrow> bool" where
  "shards_ok laneCount shs \<longleftrightarrow> (\<forall>i < length shs. shard_wf (shs ! i)
     \<and> length (sh_Lanes (shs ! i)) = laneCount \<and> placedIn (length shs) i (laneContents (shs ! i))
     \<and> (hasWorkLocked (shs ! i) \<longrightarrow> sh_Ready (shs ! i)))"

definition trackers_ok :: "Scheduler \<Rightarrow> bool" where
  "trackers_ok s \<longleftrightarrow> (\<forall>ts. s_hotKeyTrackers s = Some ts \<longrightarrow> (\<forall>t \<in> set ts. hk_wf t))"

definition sched_wf :: "Scheduler \<Rightarrow> bool" where
  "sched_wf s \<longleftrightarrow>
     0 < length (s_shards s) \<and> length (s_shards s) < 2 ^ 64
     \<and> length (s_shardInflight s) = length (s_shards s)
     \<and> length (s_laneInflight s) = Len (s_laneReg s)
     \<and> length (s_laneCounters s) = Len (s_laneReg s)
     \<and> length (qps_laneQuotas (s_quotaPolicy s)) = Len (s_laneReg s)
     \<and> (\<forall>q \<in> set (qps_laneQuotas (s_quotaPolicy s)). 1 \<le> q)
     \<and> shards_ok (Len (s_laneReg s)) (s_shards s) \<and> trackers_ok s"

lemma sched_wfD:
  assumes "sched_wf s"
  shows "0 < length (s_shards s)" "length (s_shards s) < 2 ^ 64"
    "length (s_shardInflight s) = length (s_shards s)"
    "length (s_laneInflight s) = Len (s_laneReg s)"
    "length (s_laneCounters s) = Len (s_laneReg s)"
    "length (qps_laneQuotas (s_quotaPolicy s)) = Len (s_laneReg s)"
    "\<And>q. q \<in> set (qps_laneQuotas (s_quotaPolicy s)) \<Longrightarrow> 1 \<le> q"
    "shards_ok (Len (s_laneReg s)) (s_shards s)" "trackers_ok s"
  using assms by (simp_all add: sched_wf_def)

text \<open>Only these parts of a scheduler matter to the invariant.\<close>

lemma sched_wf_cong:
  assumes "s_shards s' = s_shards s" "length (s_shardInflight s') = length (s_shardInflight s)"
    "length (s_laneInflight s') = length (s_laneInflight s)"
    "length (s_laneCounters s') = length (s_laneCounters s)"
    "qps_laneQuotas (s_quotaPolicy s') = qps_laneQuotas (s_quotaPolicy s)"
    "s_laneReg s' = s_laneReg s" "trackers_ok s'" "sched_wf s"
  shows "sched_wf s'"
  using assms by (simp add: sched_wf_def)

lemma trackers_ok_with:
  assumes "trackers_ok s" "\<And>t. hk_wf t \<Longrightarrow> hk_wf (f t)"
  shows "trackers_ok (withTracker i f s)"
proof (cases "hotKeyTrackerForShard s i")
  case None
  then show ?thesis using assms(1) by (simp add: withTracker_def)
next
  case (Some t)
  then obtain ts where ts: "s_hotKeyTrackers s = Some ts" "i < length ts" "t = ts ! i"
    by (auto simp: hotKeyTrackerForShard_def not_le split: option.splits if_splits)
  then have "hk_wf (f t)" using assms by (simp add: trackers_ok_def)
  then show ?thesis
    using Some ts assms(1) by (auto simp: withTracker_def trackers_ok_def dest!: set_updateD)
qed

lemma trackers_ok_frame:
  "s_hotKeyTrackers s' = s_hotKeyTrackers s \<Longrightarrow> trackers_ok s' = trackers_ok s"
  by (simp add: trackers_ok_def)

lemma observe_wf:
  "hk_wf t \<Longrightarrow> hk_wf (observeSubmit k l r now t)" "hk_wf t \<Longrightarrow> hk_wf (observeEnqueue k l r now t)"
  "hk_wf t \<Longrightarrow> hk_wf (observeDequeue k now t)" "hk_wf t \<Longrightarrow> hk_wf (observeReject k now t)"
  "hk_wf t \<Longrightarrow> hk_wf (observeQueueWait k w now t)"
  "hk_wf t \<Longrightarrow> hk_wf (observeInflightStart k now t)" "hk_wf t \<Longrightarrow> hk_wf (observeInflightEnd k now t)"
  using hkStep_wf [of t "HkSubmit k l r now"] hkStep_wf [of t "HkEnqueue k l r now"]
    hkStep_wf [of t "HkDequeue k now"] hkStep_wf [of t "HkReject k now"]
    hkStep_wf [of t "HkQueueWait k w now"] hkStep_wf [of t "HkInflightStart k now"]
    hkStep_wf [of t "HkInflightEnd k now"] by simp_all

lemma withTracker_wf:
  "sched_wf s \<Longrightarrow> (\<And>t. hk_wf t \<Longrightarrow> hk_wf (f t)) \<Longrightarrow> sched_wf (withTracker i f s)"
  by (rule sched_wf_cong [of _ s]) (simp_all add: trackers_ok_with sched_wf_def)

lemma whenCounters_wf [simp]: "sched_wf (whenCounters l g s) = sched_wf s"
  by (simp add: sched_wf_def trackers_ok_def)

lemma updCounters_wf [simp]: "sched_wf (updCounters l g s) = sched_wf s"
  by (simp add: sched_wf_def trackers_ok_def)

subsection \<open>Construction\<close>

lemma NewScheduler_returns: "\<exists>s. NewScheduler shardCount workerCount queueSize reg = Some s"
  using defaultAdmissionPolicy_ok [of reg shardCount queueSize]
    defaultOverloadPolicy_ok [of reg shardCount queueSize]
  by (auto simp: NewScheduler_def initAdmissionPolicy_def initOverloadPolicy_def isOk_iff Let_def)

lemma NewScheduler_wf [inv_intros]:
  assumes "NewScheduler shardCount workerCount queueSize reg = Some s" "reg_wf reg"
    "Len reg \<le> 65536" "0 < shardCount" "shardCount < 2 ^ 64"
  shows "sched_wf s"
proof -
  have parts: "s_shards s = map (\<lambda>i. newShard (Len reg) queueSize) [0..<shardCount]"
      "s_shardInflight s = replicate shardCount 0" "s_laneInflight s = replicate (Len reg) 0"
      "s_laneCounters s = replicate (Len reg) zeroCounters" "s_laneReg s = reg"
      "s_quotaPolicy s = snapshotFromRegistry reg" "s_hotKeyTrackers s = None"
    using assms(1) by (auto simp: NewScheduler_def Let_def split: option.splits)
  have q: "qps_laneQuotas (snapshotFromRegistry reg) = reg_quotas reg"
    using assms(2,3)
    by (auto intro!: nth_equalityI simp: snapshotFromRegistry_def Quota_nth reg_wf_def Len_def)
  have new: "laneContents (newShard (Len reg) queueSize) = replicate (Len reg) []"
    by (auto intro!: nth_equalityI simp: laneContents_def newShard_def)
  have "shards_ok (Len reg) (s_shards s)"
    unfolding shards_ok_def parts
    by (auto simp: shard_wf_new new placedIn_def hasWorkLocked_contents [OF shard_wf_new])
       (simp add: newShard_def)
  then show ?thesis
    using assms(2,4,5) by (simp add: sched_wf_def parts q trackers_ok_def reg_wf_def Len_def)
qed

lemma ConfigureHotKey_wf [inv_intros]: "sched_wf s \<Longrightarrow> sched_wf (ConfigureHotKey cfg s)"
  by (auto simp: ConfigureHotKey_def Let_def sched_wf_def trackers_ok_def new_wf)

subsection \<open>Enqueue\<close>

lemma stampJob_fields [simp]:
  "job_LaneID (stampJob now a w job) = job_LaneID job"
  "job_KeyHash (stampJob now a w job) = job_KeyHash job"
  "job_Run (stampJob now a w job) = job_Run job"
  by (simp_all add: stampJob_def)

lemma laneContents_length [simp]: "length (laneContents sh) = length (sh_Lanes sh)"
  by (simp add: laneContents_def)

text \<open>The state after an accepted job, with \<open>job'\<close> its stamped copy.\<close>

definition appended :: "Scheduler \<Rightarrow> Scheduler \<Rightarrow> nat \<Rightarrow> InternalJob \<Rightarrow> bool" where
  "appended s s' i job' \<longleftrightarrow> i < length (s_shards s) \<and> length (s_shards s') = length (s_shards s)
     \<and> (\<forall>k < length (s_shards s). k \<noteq> i \<longrightarrow> s_shards s' ! k = s_shards s ! k)
     \<and> (let l = unat (job_LaneID job') in
         l < length (laneContents (s_shards s ! i))
         \<and> laneContents (s_shards s' ! i)
           = (laneContents (s_shards s ! i))[l := laneContents (s_shards s ! i) ! l @ [job']])
     \<and> s_ReadyCh s' = s_ReadyCh s \<and> s_inflight s' = s_inflight s
     \<and> s_state s' = s_state s \<and> s_quotaPolicy s' = s_quotaPolicy s \<and> s_laneReg s' = s_laneReg s"

lemma shards_ok_enqueue:
  assumes ok: "shards_ok L shs" and i: "i < length shs" "i = routeShardID (job_KeyHash job) (length shs)"
    and e: "enqueueIntoShard (shs ! i) job a w now = Inr (b, sh)"
  shows "shards_ok L (shs[i := sh])"
proof -
  have wf: "shard_wf (shs ! i)" "length (sh_Lanes (shs ! i)) = L"
      "placedIn (length shs) i (laneContents (shs ! i))"
    using ok i(1) by (simp_all add: shards_ok_def)
  note r = enqueueIntoShard_ok [OF wf(1) e]
  have len: "length (sh_Lanes sh) = L" using r(6) wf(2) by (metis length_map)
  have "placedIn (length shs) i (laneContents sh)"
    unfolding placedIn_def
  proof (intro allI impI ballI)
    fix l j assume l: "l < length (laneContents sh)" and j: "j \<in> set (laneContents sh ! l)"
    show "unat (job_LaneID j) = l \<and> routeShardID (job_KeyHash j) (length shs) = i"
    proof (cases "l = unat (job_LaneID job) \<and> j = stampJob now a w job")
      case True
      then show ?thesis using i(2) by simp
    next
      case False
      then have "j \<in> set (laneContents (shs ! i) ! l)"
        using j l r(1) len by (auto simp: r(3) nth_list_update split: if_splits)
      then show ?thesis using wf(2,3) l len by (simp add: placedIn_def)
    qed
  qed
  then have new: "shard_wf sh \<and> length (sh_Lanes sh) = L \<and> placedIn (length shs) i (laneContents sh)
      \<and> (hasWorkLocked sh \<longrightarrow> sh_Ready sh)"
    using r(2,4) len by simp
  show ?thesis
    unfolding shards_ok_def
  proof (intro allI impI)
    fix k assume k: "k < length (shs[i := sh])"
    show "shard_wf (shs[i := sh] ! k) \<and> length (sh_Lanes (shs[i := sh] ! k)) = L
        \<and> placedIn (length (shs[i := sh])) k (laneContents (shs[i := sh] ! k))
        \<and> (hasWorkLocked (shs[i := sh] ! k) \<longrightarrow> sh_Ready (shs[i := sh] ! k))"
      using new ok k i(1) by (cases "k = i") (simp_all add: shards_ok_def)
  qed
qed

lemma enqueueRouted_ok:
  assumes wf: "sched_wf s" and res: "enqueueRouted job t1 t2 t3 s = (Inr (i, b), s')"
  shows "sched_wf s'" "i = routeShardID (job_KeyHash job) (length (s_shards s))"
    "appended s s' i (stampJob t2 (obs_EnableQueueWaitTiming (s_Obs s)) (obs_TrackQueueWait (s_Obs s)) job)"
    "sh_Ready (s_shards s' ! i)" "b \<longleftrightarrow> \<not> sh_Ready (s_shards s ! i)"
    "s_hotKeyTrackers s = None \<Longrightarrow> s_hotKeyTrackers s' = None"
proof -
  let ?i = "routeShardID (job_KeyHash job) (length (s_shards s))"
  let ?s1 = "withTracker ?i (observeSubmit (job_KeyHash job) (job_LaneID job) (job_RawKey job) t1) s"
  have i: "?i < length (s_shards s)" using routeShardID_less sched_wfD(1,2) [OF wf] by blast
  obtain sh where e: "enqueueIntoShard (s_shards s ! ?i) job (obs_EnableQueueWaitTiming (s_Obs s))
      (obs_TrackQueueWait (s_Obs s)) t2 = Inr (b, sh)" and ii: "i = ?i"
    and s': "s' = whenCounters (unat (job_LaneID job)) (\<lambda>c. recordLaneAdmissionResult c None)
      (withTracker ?i (observeEnqueue (job_KeyHash job) (job_LaneID job) (job_RawKey job) t3)
        (?s1\<lparr>s_shards := (s_shards s)[?i := sh]\<rparr>))"
    using res by (auto simp: enqueueRouted_def Let_def split: sum.splits prod.splits)
  have wfi: "shard_wf (s_shards s ! ?i)"
    using sched_wfD(8) [OF wf] i by (simp add: shards_ok_def)
  note r = enqueueIntoShard_ok [OF wfi e]
  have "shards_ok (Len (s_laneReg s)) ((s_shards s)[?i := sh])"
    using shards_ok_enqueue [OF sched_wfD(8) [OF wf] i refl e] .
  moreover have "sched_wf ?s1" using wf by (rule withTracker_wf) (rule observe_wf)
  ultimately have "sched_wf (?s1\<lparr>s_shards := (s_shards s)[?i := sh]\<rparr>)"
    by (simp add: sched_wf_def trackers_ok_def)
  then show "sched_wf s'" unfolding s' by (simp add: withTracker_wf observe_wf)
  show "i = ?i" by (rule ii)
  show "appended s s' i (stampJob t2 (obs_EnableQueueWaitTiming (s_Obs s))
      (obs_TrackQueueWait (s_Obs s)) job)"
    using i r(1,3) by (simp add: appended_def Let_def s' ii)
  show "sh_Ready (s_shards s' ! i)" "b \<longleftrightarrow> \<not> sh_Ready (s_shards s ! i)"
    using i r(4,5) by (simp_all add: s' ii)
  show "s_hotKeyTrackers s' = None" if "s_hotKeyTrackers s = None"
    using that by (simp add: s' withTracker_def hotKeyTrackerForShard_def)
qed

lemma enqueueRouted_err:
  assumes wf: "sched_wf s" and res: "enqueueRouted job t1 t2 t3 s = (Inl e, s')"
  shows "sched_wf s'" "s_shards s' = s_shards s" "s_ReadyCh s' = s_ReadyCh s"
    "s_inflight s' = s_inflight s" "s_state s' = s_state s" "s_quotaPolicy s' = s_quotaPolicy s"
    "s_laneReg s' = s_laneReg s" "s_shardInflight s' = s_shardInflight s"
proof -
  let ?i = "routeShardID (job_KeyHash job) (length (s_shards s))"
  let ?s1 = "withTracker ?i (observeSubmit (job_KeyHash job) (job_LaneID job) (job_RawKey job) t1) s"
  have s': "s' = whenCounters (unat (job_LaneID job)) (\<lambda>c. recordLaneAdmissionResult c (Some e)) ?s1"
    using res by (auto simp: enqueueRouted_def Let_def split: sum.splits prod.splits)
  show "sched_wf s'" using wf by (simp add: s' withTracker_wf observe_wf)
qed (use res in \<open>auto simp: enqueueRouted_def Let_def split: sum.splits prod.splits\<close>)

text \<open>Admission in general: either nothing is queued or one job is appended.\<close>

lemma Enqueue_cases:
  assumes wf: "sched_wf s" and res: "Enqueue job t1 t2 t3 s = Some (r, s')"
  obtains e where "r = Inl e" "sched_wf s'" "s_shards s' = s_shards s" "s_ReadyCh s' = s_ReadyCh s"
      "s_inflight s' = s_inflight s" "s_state s' = s_state s" "s_shardInflight s' = s_shardInflight s"
      "s_quotaPolicy s' = s_quotaPolicy s"
  | i b where "r = Inr (i, b)" "sched_wf s'"
      "appended s s' i (stampJob t2 (obs_EnableQueueWaitTiming (s_Obs s)) (obs_TrackQueueWait (s_Obs s)) job)"
      "i = routeShardID (job_KeyHash job) (length (s_shards s))"
      "sh_Ready (s_shards s' ! i)" "b \<longleftrightarrow> \<not> sh_Ready (s_shards s ! i)"
      "\<not> stoppingOrStopped s"
proof -
  let ?l = "unat (job_LaneID job)"
  let ?s1 = "whenCounters ?l recordLaneAdmissionAttempt s"
  have wf1: "sched_wf ?s1" using wf by simp
  show thesis
  proof (cases "stoppingOrStopped s")
    case True
    then have "r = Inl ErrStopped" "s' = whenCounters ?l recordLaneAdmissionRejected ?s1"
      using res by (auto simp: Enqueue_def Let_def split: if_splits)
    then show ?thesis using that(1) wf by simp
  next
    case False
    then have e: "enqueueRouted job t1 t2 t3 ?s1 = (r, s')"
      using res by (auto simp: Enqueue_def Let_def split: if_splits)
    show ?thesis
    proof (cases r)
      case (Inl err)
      note f = enqueueRouted_err [OF wf1 e [unfolded Inl]]
      show ?thesis using that(1) [OF Inl] f by simp
    next
      case (Inr p)
      obtain i b where p: "p = (i, b)" by (cases p)
      note f = enqueueRouted_ok [OF wf1 e [unfolded Inr p]]
      have app: "appended s s' i (stampJob t2 (obs_EnableQueueWaitTiming (s_Obs s))
          (obs_TrackQueueWait (s_Obs s)) job)"
        using f(3) by (simp add: appended_def)
      show ?thesis using that(2) [OF Inr [unfolded p] f(1) app] f(2,4,5) False by simp
    qed
  qed
qed

text \<open>The answer of \<open>Enqueue\<close>, branch by branch.\<close>

lemma enqueueRouted_result:
  assumes "enqueueRouted job t1 t2 t3 s = (r, s')"
  defines "i \<equiv> routeShardID (job_KeyHash job) (length (s_shards s))"
  assumes "unat (job_LaneID job) < length (sh_Lanes (s_shards s ! i))"
  shows "if isFull (sh_Lanes (s_shards s ! i) ! unat (job_LaneID job)) then r = Inl ErrQueueFull
    else \<exists>b. r = Inr (i, b)"
proof (cases "enqueueIntoShard (s_shards s ! i) job (obs_EnableQueueWaitTiming (s_Obs s)) (obs_TrackQueueWait (s_Obs s)) t2")
  case (Inl e)
  then have "isFull (sh_Lanes (s_shards s ! i) ! unat (job_LaneID job)) \<and> e = ErrQueueFull"
    using assms(3) enqueueIntoShard_err_iff [of "s_shards s ! i" job] by auto
  moreover have "r = Inl e" using assms(1) Inl by (simp add: enqueueRouted_def Let_def i_def)
  ultimately show ?thesis by simp
next
  case (Inr p)
  then have "\<not> isFull (sh_Lanes (s_shards s ! i) ! unat (job_LaneID job))"
    using assms(3) enqueueIntoShard_err_iff [of "s_shards s ! i" job] by (metis sum.distinct(1))
  moreover have "\<exists>b. r = Inr (i, b)"
    using assms(1) Inr by (auto simp: enqueueRouted_def Let_def i_def split: prod.splits)
  ultimately show ?thesis by simp
qed

lemma Enqueue_result:
  assumes "Enqueue job t1 t2 t3 s = Some (r, s')"
    "unat (job_LaneID job) < length (sh_Lanes (s_shards s ! routeShardID (job_KeyHash job) (length (s_shards s))))"
  shows "if stoppingOrStopped s then r = Inl ErrStopped
    else if isFull (sh_Lanes (s_shards s ! routeShardID (job_KeyHash job) (length (s_shards s))) ! unat (job_LaneID job))
    then r = Inl ErrQueueFull else \<exists>b. r = Inr (routeShardID (job_KeyHash job) (length (s_shards s)), b)"
proof (cases "stoppingOrStopped s")
  case True
  then show ?thesis using assms(1) by (auto simp: Enqueue_def Let_def split: if_splits)
next
  case False
  let ?s1 = "whenCounters (unat (job_LaneID job)) recordLaneAdmissionAttempt s"
  have e: "enqueueRouted job t1 t2 t3 ?s1 = (r, s')"
    using assms(1) False by (auto simp: Enqueue_def Let_def split: if_splits)
  have sh: "s_shards ?s1 = s_shards s" by simp
  from enqueueRouted_result [OF e, unfolded sh, OF assms(2)] show ?thesis using False by presburger
qed

lemma TryEnqueue_Enqueue:
  "s_state s = stateRunning \<Longrightarrow> TryEnqueue job t1 t2 t3 s = Enqueue job t1 t2 t3 s"
  by (simp add: TryEnqueue_def Enqueue_def Let_def)

subsection \<open>The locked part of a pass\<close>

lemma laneInflight_fold_length [simp, len_simps]:
  "length (fold (\<lambda>job li. li[unat (job_LaneID job) := f job li]) batch li) = length li"
  by (induction batch arbitrary: li) simp_all

lemma addInflight_frame [simp]:
  "s_shards (addInflight i b s) = s_shards s" "s_ReadyCh (addInflight i b s) = s_ReadyCh s"
  "s_quotaPolicy (addInflight i b s) = s_quotaPolicy s" "s_laneReg (addInflight i b s) = s_laneReg s"
  "s_state (addInflight i b s) = s_state s" "s_Obs (addInflight i b s) = s_Obs s"
  "s_inflight (addInflight i b s) = s_inflight s + int (length b)"
  "s_hotKeyTrackers (addInflight i b s) = s_hotKeyTrackers s"
  "s_laneCounters (addInflight i b s) = s_laneCounters s"
  "length (s_shardInflight (addInflight i b s)) = length (s_shardInflight s)"
  "length (s_laneInflight (addInflight i b s)) = length (s_laneInflight s)"
  by (simp_all add: addInflight_def)

lemma restOf_nth:
  "length qs = length cs \<Longrightarrow> l < length cs \<Longrightarrow> restOf qs cs ! l = drop (nat (qs ! l)) (cs ! l)"
  by (simp add: restOf_def)

lemma placedIn_rest:
  "placedIn n i cs \<Longrightarrow> length qs = length cs \<Longrightarrow> placedIn n i (restOf qs cs)"
  by (auto simp: placedIn_def restOf_nth dest: in_set_dropD)

lemma batchOf_placed:
  assumes "placedIn n i cs" "length qs = length cs" "j \<in> set (batchOf qs cs)"
  shows "unat (job_LaneID j) < length cs \<and> routeShardID (job_KeyHash j) n = i"
proof -
  obtain l where l: "l < length cs" "j \<in> set (take (nat (qs ! l)) (cs ! l))"
    using assms(2,3) by (auto simp: batchOf_def set_zip)
  then have "j \<in> set (cs ! l)" by (auto dest: in_set_takeD)
  then show ?thesis using assms(1) l(1) by (auto simp: placedIn_def)
qed

lemma collectPhase_ok:
  assumes wf: "sched_wf s" and i: "i < length (s_shards s)"
    and res: "collectPhase pc i s = (s', batch, hm)"
  defines "cs \<equiv> laneContents (s_shards s ! i)" and "qs \<equiv> qps_laneQuotas (s_quotaPolicy s)"
  shows "sched_wf s'" "batch = batchOf qs cs"
    "laneContents (s_shards s' ! i) = restOf qs cs" "hm \<longleftrightarrow> concat (restOf qs cs) \<noteq> []"
    "sh_Ready (s_shards s' ! i) \<longleftrightarrow> hm \<and> sh_Ready (s_shards s ! i)"
    "\<And>k. k \<noteq> i \<Longrightarrow> s_shards s' ! k = s_shards s ! k"
    "length (s_shards s') = length (s_shards s)" "s_ReadyCh s' = s_ReadyCh s"
    "s_inflight s' = s_inflight s + int (length batch)" "s_state s' = s_state s"
    "s_quotaPolicy s' = s_quotaPolicy s" "s_laneReg s' = s_laneReg s"
    "\<And>j. j \<in> set batch \<Longrightarrow> unat (job_LaneID j) < Len (s_laneReg s)
      \<and> routeShardID (job_KeyHash j) (length (s_shards s)) = i"
proof -
  obtain sh where c: "collectBatch (obs_DisablePooling (s_Obs s)) pc qs (s_shards s ! i) = (sh, batch)"
      and hm: "hm = hasWorkLocked sh"
      and s': "s' = (let s1 = s\<lparr>s_shards := (s_shards s)[i :=
          (if \<not> hm then sh\<lparr>sh_Ready := False\<rparr> else sh)]\<rparr>
        in if batch \<noteq> [] then addInflight i batch s1 else s1)"
    using res by (auto simp: collectPhase_def Let_def qs_def split: prod.splits)
  have ok: "shard_wf (s_shards s ! i)" "length (sh_Lanes (s_shards s ! i)) = Len (s_laneReg s)"
      "placedIn (length (s_shards s)) i cs"
      "hasWorkLocked (s_shards s ! i) \<Longrightarrow> sh_Ready (s_shards s ! i)"
    using sched_wfD(8) [OF wf] i by (auto simp: shards_ok_def cs_def)
  have lq: "length qs = Len (s_laneReg s)" "\<forall>q \<in> set qs. 0 \<le> q"
    using sched_wfD(6,7) [OF wf] by (force simp: qs_def)+
  have lc: "length qs = length cs" using lq ok(2) by (simp add: cs_def)
  have "shard_wf sh \<and> batch = batchOf qs (laneContents (s_shards s ! i))
      \<and> laneContents sh = restOf qs (laneContents (s_shards s ! i)) \<and> sh_Ready sh = sh_Ready (s_shards s ! i)
      \<and> map capacity (sh_Lanes sh) = map capacity (sh_Lanes (s_shards s ! i))"
    by (rule collectBatch_refines [OF ok(1) _ lq(2) c]) (simp add: lq(1) ok(2))
  then have r: "shard_wf sh" "batch = batchOf qs cs" "laneContents sh = restOf qs cs"
      "sh_Ready sh = sh_Ready (s_shards s ! i)" "length (sh_Lanes sh) = Len (s_laneReg s)"
    using ok(2) by (auto simp: cs_def dest: map_eq_imp_length_eq)
  have hmi: "hm \<longleftrightarrow> concat (restOf qs cs) \<noteq> []"
    using hm hasWorkLocked_contents [OF r(1)] r(3) by simp
  have work: "hm \<Longrightarrow> sh_Ready (s_shards s ! i)"
  proof -
    assume hm
    then have "mset (concat (restOf qs cs)) \<noteq> {#}" using hmi by simp
    then have "mset (concat cs) \<noteq> {#}"
      unfolding mset_batch_rest [of qs cs, symmetric, OF eq_imp_le [OF lc]] by simp
    then have "concat cs \<noteq> []" by auto
    then show ?thesis using ok(1,4) by (simp add: hasWorkLocked_contents cs_def)
  qed
  let ?sh = "if \<not> hm then sh\<lparr>sh_Ready := False\<rparr> else sh"
  have sh': "s_shards s' = (s_shards s)[i := ?sh]" by (simp add: s' Let_def)
  have lcs: "laneContents ?sh = restOf qs cs" using r(3) by (simp add: laneContents_def)
  have new: "shard_wf ?sh \<and> length (sh_Lanes ?sh) = Len (s_laneReg s)
      \<and> placedIn (length (s_shards s)) i (laneContents ?sh) \<and> (hasWorkLocked ?sh \<longrightarrow> sh_Ready ?sh)"
    unfolding lcs using r placedIn_rest [OF ok(3) lc] work hm
    by (auto simp: shard_wf_def hasWorkLocked_def)
  have "shards_ok (Len (s_laneReg s)) (s_shards s')"
    unfolding shards_ok_def sh'
  proof (intro allI impI)
    fix k assume k: "k < length ((s_shards s)[i := ?sh])"
    show "shard_wf ((s_shards s)[i := ?sh] ! k) \<and> length (sh_Lanes ((s_shards s)[i := ?sh] ! k)) = Len (s_laneReg s)
        \<and> placedIn (length ((s_shards s)[i := ?sh])) k (laneContents ((s_shards s)[i := ?sh] ! k))
        \<and> (hasWorkLocked ((s_shards s)[i := ?sh] ! k) \<longrightarrow> sh_Ready ((s_shards s)[i := ?sh] ! k))"
      using new sched_wfD(8) [OF wf] k i by (cases "k = i") (simp_all add: shards_ok_def)
  qed
  then show "sched_wf s'" using wf by (auto simp: s' Let_def sched_wf_def trackers_ok_def)
  show "batch = batchOf qs cs" by (rule r(2))
  show "laneContents (s_shards s' ! i) = restOf qs cs" using lcs i by (simp only: sh' nth_list_update_eq)
  show "hm \<longleftrightarrow> concat (restOf qs cs) \<noteq> []" by (rule hmi)
  show "sh_Ready (s_shards s' ! i) \<longleftrightarrow> hm \<and> sh_Ready (s_shards s ! i)"
    using i r(4) by (simp add: sh')
  show "unat (job_LaneID j) < Len (s_laneReg s) \<and> routeShardID (job_KeyHash j) (length (s_shards s)) = i"
    if "j \<in> set batch" for j
    using batchOf_placed [OF ok(3) lc] that r(2) lc lq(1) by simp
  show "s_shards s' ! k = s_shards s ! k" if "k \<noteq> i" for k using that by (simp add: sh')
  show "length (s_shards s') = length (s_shards s)" "s_ReadyCh s' = s_ReadyCh s"
    "s_inflight s' = s_inflight s + int (length batch)" "s_state s' = s_state s"
    "s_quotaPolicy s' = s_quotaPolicy s" "s_laneReg s' = s_laneReg s"
    by (simp_all add: s' Let_def)
qed

subsection \<open>Running a batch\<close>

text \<open>\<open>keeps s s'\<close>: only counters, accumulators and trackers differ.\<close>

definition keeps :: "Scheduler \<Rightarrow> Scheduler \<Rightarrow> bool" where
  "keeps s s' \<longleftrightarrow> s_shards s' = s_shards s \<and> s_ReadyCh s' = s_ReadyCh s \<and> s_state s' = s_state s
     \<and> s_quotaPolicy s' = s_quotaPolicy s \<and> s_laneReg s' = s_laneReg s \<and> s_Obs s' = s_Obs s
     \<and> s_inflight s' = s_inflight s \<and> s_shardInflight s' = s_shardInflight s
     \<and> s_laneInflight s' = s_laneInflight s
     \<and> length (s_laneCounters s') = length (s_laneCounters s) \<and> (trackers_ok s \<longrightarrow> trackers_ok s')"

lemma keeps_refl: "keeps s s"
  by (simp add: keeps_def)

lemma keeps_trans: "keeps a b \<Longrightarrow> keeps b c \<Longrightarrow> keeps a c"
  by (simp add: keeps_def)

lemma keeps_wf: "keeps s s' \<Longrightarrow> sched_wf s \<Longrightarrow> sched_wf s'"
  by (simp add: keeps_def sched_wf_def)

lemma keeps_counters: "keeps s (whenCounters l g s)" "keeps s (updCounters l g s)"
  by (simp_all add: keeps_def trackers_ok_def)

lemma keeps_tracker: "(\<And>t. hk_wf t \<Longrightarrow> hk_wf (f t)) \<Longrightarrow> keeps s (withTracker i f s)"
  by (simp add: keeps_def trackers_ok_with)

lemma keeps_gc:
  "keeps s (recordGCPressureQueueWait i l w s)" "keeps s (recordGCPressureRunDuration i l w s)"
  by (simp_all add: keeps_def recordGCPressureQueueWait_def recordGCPressureRunDuration_def Let_def
      trackers_ok_def)

lemma keeps_observeBatch: "keeps s (observeBatch i batch now s)"
proof -
  have "hk_wf t \<Longrightarrow> hk_wf (fold (\<lambda>job t. observeInflightStart (job_KeyHash job) now
      (observeDequeue (job_KeyHash job) now t)) batch t)" for t
    by (induction batch arbitrary: t) (simp_all add: observe_wf)
  then show ?thesis unfolding observeBatch_def by (rule keeps_tracker)
qed

text \<open>Everything \<open>runJob\<close> does before the deferred bookkeeping keeps the scheduler.\<close>

lemma runJob_decomp:
  obtains s4 where "keeps s s4"
    "snd (runJob i job st en err fin s) =
       withTracker i (observeInflightEnd (job_KeyHash job) fin) (decInflight i (job_LaneID job) s4)"
proof -
  let ?obs = "s_Obs s" and ?l = "unat (job_LaneID job)"
  obtain nq nr where need: "jobNeedsWorkerTimestamps ?obs job = (nq, nr)"
    by (cases "jobNeedsWorkerTimestamps ?obs job")
  define s1 where "s1 = (case job_AcceptedAt job of
      Some acceptedAt \<Rightarrow> if (nq \<or> nr) \<and> obs_EnableQueueWaitTiming ?obs then
          withTracker i (observeQueueWait (job_KeyHash job) (word_of_int (timeSub st acceptedAt)) st)
            (recordGCPressureQueueWait i (job_LaneID job) (word_of_int (timeSub st acceptedAt)) s) else s
    | None \<Rightarrow> s)"
  define s2 where "s2 = (case job_EnqueuedAt job of
      Some enqueuedAt \<Rightarrow> if (nq \<or> nr) \<and> obs_TrackQueueWait ?obs then
          updCounters ?l (\<lambda>c. c\<lparr>lc_queueWaitTotalNanos := lc_queueWaitTotalNanos c
            + timeSub st enqueuedAt, lc_queueWaitCount := lc_queueWaitCount c + 1\<rparr>) s1 else s1
    | None \<Rightarrow> s1)"
  define s3 where "s3 = whenCounters ?l (recordOutcome err) s2"
  define s4 where "s4 = (if nr \<and> obs_EnableRunTiming ?obs
      then recordGCPressureRunDuration i (job_LaneID job)
        (word_of_int (if nr then timeSub en st else 0)) s3 else s3)"
  have "keeps s s1"
    unfolding s1_def
    by (auto intro: keeps_refl keeps_trans [OF keeps_gc(1) keeps_tracker] observe_wf split: option.split)
  moreover have "keeps s1 s2" by (auto simp: s2_def keeps_refl keeps_counters split: option.split)
  moreover have "keeps s2 s3" by (simp add: s3_def keeps_counters)
  moreover have "keeps s3 s4" by (simp add: s4_def keeps_refl keeps_gc)
  ultimately have k: "keeps s s4" by (blast intro: keeps_trans)
  have "snd (runJob i job st en err fin s) =
       withTracker i (observeInflightEnd (job_KeyHash job) fin) (decInflight i (job_LaneID job) s4)"
    unfolding runJob_def need s4_def s3_def s2_def s1_def Let_def
    by (simp add: split_beta split: option.split)
  with k show ?thesis by (rule that)
qed

lemma decInflight_frame [simp]:
  "s_shards (decInflight i l s) = s_shards s" "s_ReadyCh (decInflight i l s) = s_ReadyCh s"
  "s_quotaPolicy (decInflight i l s) = s_quotaPolicy s" "s_laneReg (decInflight i l s) = s_laneReg s"
  "s_state (decInflight i l s) = s_state s" "s_Obs (decInflight i l s) = s_Obs s"
  "s_inflight (decInflight i l s) = s_inflight s - 1"
  "s_shardInflight (decInflight i l s) = (s_shardInflight s)[i := s_shardInflight s ! i - 1]"
  "s_hotKeyTrackers (decInflight i l s) = s_hotKeyTrackers s"
  "s_laneCounters (decInflight i l s) = s_laneCounters s"
  "length (s_laneInflight (decInflight i l s)) = length (s_laneInflight s)"
  by (simp_all add: decInflight_def)

text \<open>What a finished or dropped batch does to the shared state.\<close>

definition drained :: "nat \<Rightarrow> nat \<Rightarrow> Scheduler \<Rightarrow> Scheduler \<Rightarrow> bool" where
  "drained i n s s' \<longleftrightarrow> s_shards s' = s_shards s \<and> s_ReadyCh s' = s_ReadyCh s \<and> s_state s' = s_state s
     \<and> s_quotaPolicy s' = s_quotaPolicy s \<and> s_laneReg s' = s_laneReg s \<and> s_Obs s' = s_Obs s
     \<and> s_inflight s' = s_inflight s - int n
     \<and> s_shardInflight s' = (s_shardInflight s)[i := s_shardInflight s ! i - int n]
     \<and> (sched_wf s \<longrightarrow> sched_wf s')"

lemma drained_0: "keeps s s' \<Longrightarrow> drained i 0 s s'"
  by (simp add: drained_def keeps_wf) (simp add: keeps_def)

lemma drained_trans:
  assumes "drained i m a b" "drained i n b c"
  shows "drained i (m + n) a c"
  using assms by (cases "i < length (s_shardInflight a)")
    (simp_all add: drained_def algebra_simps list_update_beyond)

lemma decInflight_drained: "drained i 1 s (decInflight i l s)"
  by (simp add: drained_def sched_wf_def trackers_ok_def)

lemma drained_keeps: "drained i n a b \<Longrightarrow> keeps b c \<Longrightarrow> drained i n a c"
  using drained_trans [of i n a b 0 c] drained_0 by simp

lemma runJob_drained: "drained i 1 s (snd (runJob i job st en err fin s))"
proof -
  obtain s4 where k: "keeps s s4" and eq: "snd (runJob i job st en err fin s) =
      withTracker i (observeInflightEnd (job_KeyHash job) fin) (decInflight i (job_LaneID job) s4)"
    by (rule runJob_decomp)
  have "drained i (0 + 1) s (decInflight i (job_LaneID job) s4)"
    by (rule drained_trans [OF drained_0 [OF k] decInflight_drained])
  then show ?thesis unfolding eq by (auto intro: drained_keeps keeps_tracker observe_wf)
qed

lemma cancelRest_drained: "drained i (length rest) s (cancelRest i rest s)"
  unfolding cancelRest_def
proof (induction rest arbitrary: s)
  case Nil
  then show ?case by (simp add: drained_0 keeps_refl)
next
  case (Cons job rest)
  let ?s1 = "whenCounters (unat (job_LaneID job)) (\<lambda>c. c\<lparr>lc_canceled := lc_canceled c + 1\<rparr>)
    (decInflight i (job_LaneID job) s)"
  have "drained i 1 s ?s1" by (rule drained_keeps [OF decInflight_drained keeps_counters(1)])
  from drained_trans [OF this Cons.IH [of ?s1]] show ?case by simp
qed

lemma runBatch_drained:
  "length envs = length batch \<Longrightarrow> runBatch i batch envs s = (ranJobs, evs, s') \<Longrightarrow>
    drained i (length batch) s s'"
proof (induction i batch envs s arbitrary: ranJobs evs s' rule: runBatch.induct)
  case (1 i job rest env envs s)
  show ?case
  proof (cases "je_ctxDone env")
    case True
    then show ?thesis using "1.prems"(2) cancelRest_drained [of i "job # rest" s] by auto
  next
    case False
    obtain ev s1 where j: "runJob i job (je_startedAt env) (je_endedAt env) (je_err env)
        (je_finishedAt env) s = (ev, s1)" by fastforce
    obtain ranJobs' evs' where r: "runBatch i rest envs s1 = (ranJobs', evs', s')"
      using "1.prems"(2) False j by (auto split: prod.splits)
    have "drained i 1 s s1" using runJob_drained [of i s job] j by (metis snd_conv)
    moreover have "drained i (length rest) s1 s'"
      using "1.IH" [OF False j [symmetric] refl _ r] "1.prems"(1) by simp
    ultimately show ?thesis using drained_trans by fastforce
  qed
qed (auto simp: drained_0 keeps_refl)

lemma runBatch_ran:
  assumes "length envs = length batch" "\<forall>env \<in> set envs. \<not> je_ctxDone env"
    "runBatch i batch envs s = (ranJobs, evs, s')"
  shows "ranJobs = batch"
  using assms
proof (induction i batch envs s arbitrary: ranJobs evs s' rule: runBatch.induct)
  case (1 i job rest env envs s)
  then show ?case by (auto split: prod.splits)
qed auto

subsection \<open>Versioned policies\<close>

text \<open>
  The three policy updates have one contract: a rejected update changes nothing, an accepted one
  returns the next version and makes it the active one.
\<close>

fun updateRun :: "('p \<Rightarrow> Scheduler \<Rightarrow> (core_error + u64) \<times> Scheduler) \<Rightarrow> 'p list \<Rightarrow> Scheduler \<Rightarrow>
   nat \<times> Scheduler" where
  "updateRun update [] s = (0, s)"
| "updateRun update (p # ps) s =
     (case update p s of
        (Inl e, s') \<Rightarrow> updateRun update ps s'
      | (Inr v, s') \<Rightarrow> (let (n, s'') = updateRun update ps s' in (Suc n, s'')))"

locale versioned_update =
  fixes update :: "'p \<Rightarrow> Scheduler \<Rightarrow> (core_error + u64) \<times> Scheduler"
    and counter :: "Scheduler \<Rightarrow> u64" and version :: "Scheduler \<Rightarrow> u64"
  assumes reject: "update p s = (Inl e, s') \<Longrightarrow> s' = s"
    and accept: "update p s = (Inr v, s') \<Longrightarrow> v = counter s + 1 \<and> counter s' = v \<and> version s' = v"
begin

lemma run_counts:
  "updateRun update ps s = (n, s') \<Longrightarrow> counter s' = counter s + of_nat n
    \<and> (n = 0 \<longrightarrow> s' = s) \<and> (0 < n \<longrightarrow> version s' = counter s')"
proof (induction ps arbitrary: s n)
  case Nil
  then show ?case by simp
next
  case (Cons p ps)
  obtain r s1 where u: "update p s = (r, s1)" by (cases "update p s")
  show ?case
  proof (cases r)
    case (Inl e)
    then have "s1 = s" using u reject by blast
    then show ?thesis using Cons.IH [of s n] Cons.prems u Inl by simp
  next
    case (Inr v)
    note a = accept [OF u [unfolded Inr]]
    obtain m where m: "updateRun update ps s1 = (m, s')" "n = Suc m"
      using Cons.prems u Inr by (auto split: prod.splits)
    from Cons.IH [OF m(1)] a show ?thesis
      by (cases "m = 0") (simp_all add: m(2) algebra_simps)
  qed
qed

end

lemmas update_defs = UpdateQuotaPolicy_def UpdateAdmissionPolicy_def UpdateOverloadPolicy_def
  publishQuotaPolicyLocked_def publishAdmissionPolicy_def publishOverloadPolicy_def Let_def

interpretation quotaUpdate: versioned_update UpdateQuotaPolicy s_quotaVersion
  "\<lambda>s. qps_version (s_quotaPolicy s)"
  by unfold_locales (auto simp: update_defs split: sum.splits if_splits)

interpretation admissionUpdate: versioned_update UpdateAdmissionPolicy s_admissionVersion
  "\<lambda>s. aps_version (s_admissionPolicy s)"
  by unfold_locales (auto simp: update_defs split: sum.splits if_splits)

interpretation overloadUpdate: versioned_update UpdateOverloadPolicy s_overloadVersion
  "\<lambda>s. ops_version (s_overloadPolicy s)"
  by unfold_locales (auto simp: update_defs split: sum.splits if_splits)

subsection \<open>Properties\<close>


definition demoSched :: Scheduler where
  "demoSched = the (NewScheduler 2 1 4 demoReg)"

lemma demoSched_built: "NewScheduler 2 1 4 demoReg = Some demoSched"
  using NewScheduler_returns [of 2 1 4 demoReg] by (auto simp: demoSched_def)

lemma demoSched_wf: "sched_wf demoSched"
  using NewScheduler_wf [OF demoSched_built demoReg_wf] by simp


text \<open>What \<open>Enqueue\<close> does on every branch. On a well-formed scheduler it panics only for a lane id out of range; a stopping
  scheduler answers \<open>ErrStopped\<close>; a full lane of the routed shard answers \<open>ErrQueueFull\<close>; otherwise the stamped job is
  appended to its lane on the shard its key hash routes to, nothing else is queued or removed, and the caller is told to
  wake the shard exactly when it was not ready before.\<close>

lemma enqueue_effect:
  assumes wf: "sched_wf s" and lane: "unat (job_LaneID job) < Len (s_laneReg s)"
  defines "i \<equiv> routeShardID (job_KeyHash job) (length (s_shards s))"
  shows "\<exists>r s'. Enqueue job t1 t2 t3 s = Some (r, s') \<and> sched_wf s' \<and>
    (if stoppingOrStopped s then r = Inl ErrStopped \<and> s_shards s' = s_shards s
     else if isFull (sh_Lanes (s_shards s ! i) ! unat (job_LaneID job)) then r = Inl ErrQueueFull \<and> s_shards s' = s_shards s
     else r = Inr (i, \<not> sh_Ready (s_shards s ! i)) \<and> sh_Ready (s_shards s' ! i)
       \<and> appended s s' i (stampJob t2 (obs_EnableQueueWaitTiming (s_Obs s)) (obs_TrackQueueWait (s_Obs s)) job))"
proof -
  have "Enqueue job t1 t2 t3 s \<noteq> None" using lane sched_wfD(5) [OF wf] by (simp add: Enqueue_def Let_def)
  then obtain r s' where res: "Enqueue job t1 t2 t3 s = Some (r, s')" by fastforce
  have i: "i < length (s_shards s)"
    unfolding i_def using sched_wfD(1,2) [OF wf] by (intro routeShardID_less)
  have lanes: "length (sh_Lanes (s_shards s ! i)) = Len (s_laneReg s)"
    using sched_wfD(8) [OF wf] i by (simp add: shards_ok_def)
  note branch = Enqueue_result [OF res, folded i_def, OF lane [folded lanes]]
  from wf res show ?thesis
  proof (cases rule: Enqueue_cases)
    case (1 e)
    then show ?thesis using branch res by (auto split: if_splits)
  next
    case (2 k b)
    then show ?thesis using branch res by (auto simp: i_def split: if_splits)
  qed
qed



text \<open>C14: Policy versions count accepted updates. For the quota, admission and overload policies alike, after any
  sequence of updates the version counter has grown by the number of accepted ones, rejected ones leave the scheduler
  untouched, and the active snapshot carries the latest version.\<close>

theorem policy_versions:
  "(updateRun UpdateQuotaPolicy qs s = (n, s') \<longrightarrow> s_quotaVersion s' = s_quotaVersion s + of_nat n
     \<and> (n = 0 \<longrightarrow> s' = s) \<and> (0 < n \<longrightarrow> qps_version (s_quotaPolicy s') = s_quotaVersion s'))
   \<and> (updateRun UpdateAdmissionPolicy aps s = (n, s') \<longrightarrow> s_admissionVersion s' = s_admissionVersion s + of_nat n
     \<and> (n = 0 \<longrightarrow> s' = s) \<and> (0 < n \<longrightarrow> aps_version (s_admissionPolicy s') = s_admissionVersion s'))
   \<and> (updateRun UpdateOverloadPolicy ops s = (n, s') \<longrightarrow> s_overloadVersion s' = s_overloadVersion s + of_nat n
     \<and> (n = 0 \<longrightarrow> s' = s) \<and> (0 < n \<longrightarrow> ops_version (s_overloadPolicy s') = s_overloadVersion s'))"
  by (intro conjI impI quotaUpdate.run_counts admissionUpdate.run_counts overloadUpdate.run_counts)

theorem policy_versions_witness:
  "s_quotaVersion (snd (updateRun UpdateQuotaPolicy [\<lparr>qpi_DefaultQuota = 3, qpi_LaneQuotas = []\<rparr>,
     \<lparr>qpi_DefaultQuota = 0, qpi_LaneQuotas = []\<rparr>] demoSched)) = 1"
proof -
  let ?u = "updateRun UpdateQuotaPolicy [\<lparr>qpi_DefaultQuota = 3, qpi_LaneQuotas = []\<rparr>,
     \<lparr>qpi_DefaultQuota = 0, qpi_LaneQuotas = []\<rparr>] demoSched"
  have c: "fst ?u = 1" "s_quotaVersion demoSched = 0" by code_simp+
  show ?thesis using policy_versions [of _ demoSched "fst ?u" "snd ?u"] c by (metis add_0 of_nat_1 prod.collapse)
qed



end
