(* ===== verification/Scheduler_Steps.thy ===== *)
theory Scheduler_Steps
  imports Scheduler_Facts
begin

text \<open>
  The interleavings of submitters and workers as a step relation. A step is one piece of code that runs
  under a lock or touches one channel: an \<open>Enqueue\<close>, a send or a receive on \<open>ReadyCh\<close>, the locked part of
  \<open>processShard\<close>, one job, the requeue. The flag of a step says that it gives a wake-up token up:
  a \<open>select\<close> that takes \<open>ctx.Done()\<close>, or the \<open>default\<close> branch of \<open>TrySubmit\<close>.

  The invariant counts tokens. A shard that is \<open>Ready\<close> is owed exactly one token: in the channel, with
  a submitter about to send it, or with a worker. Hence the channel never overflows, no sender ever
  blocks, and a shard with work is always going to be visited, as long as no token was given up.
\<close>

subsection \<open>States\<close>

text \<open>
  A submitter that made a shard ready and has not sent its id yet, by the function it is in.
  \<open>WGot\<close> holds a received id, \<open>WCollected\<close> and \<open>WBatch\<close> a batch before and after the hot-key
  bookkeeping with \<open>hasMore\<close>, \<open>WRequeue\<close> is at the final \<open>select\<close>.
\<close>

datatype sender = FromSubmit nat | FromTrySubmit nat

fun senderShard :: "sender \<Rightarrow> nat" where
  "senderShard (FromSubmit i) = i"
| "senderShard (FromTrySubmit i) = i"

datatype worker =
    WIdle | WGot nat | WCollected nat "InternalJob list" bool | WBatch nat "InternalJob list" bool
  | WRequeue nat | WExited

text \<open>\<open>sy_accepted\<close>, \<open>sy_ran\<close> and \<open>sy_dropped\<close> are the history: jobs accepted, run, and
  dropped because the worker context was done.\<close>

record sysState =
  sy_sched :: Scheduler
  sy_pending :: "sender list"
  sy_workers :: "worker list"
  sy_ctxDone :: bool
  sy_accepted :: "InternalJob list"
  sy_ran :: "InternalJob list"
  sy_dropped :: "InternalJob list"

definition initSys :: "Scheduler \<Rightarrow> sysState" where
  "initSys s = \<lparr>sy_sched = s, sy_pending = [], sy_workers = [], sy_ctxDone = False,
     sy_accepted = [], sy_ran = [], sy_dropped = []\<rparr>"

definition removeAt :: "nat \<Rightarrow> 'a list \<Rightarrow> 'a list" where
  "removeAt k xs = take k xs @ drop (Suc k) xs"

definition sendReady :: "nat \<Rightarrow> Scheduler \<Rightarrow> Scheduler" where
  "sendReady i s = s\<lparr>s_ReadyCh := s_ReadyCh s @ [i]\<rparr>"

abbreviation stamped :: "Scheduler \<Rightarrow> time \<Rightarrow> InternalJob \<Rightarrow> InternalJob" where
  "stamped s t2 job \<equiv>
     stampJob t2 (obs_EnableQueueWaitTiming (s_Obs s)) (obs_TrackQueueWait (s_Obs s)) job"

subsection \<open>Steps\<close>

text \<open>Submitters up to the return of \<open>Enqueue\<close> or \<open>TryEnqueue\<close>.\<close>

inductive submitStep :: "sysState \<Rightarrow> sysState \<Rightarrow> bool" where
  enqueue_error:
    "Enqueue job t1 t2 t3 (sy_sched \<sigma>) = Some (Inl e, s') \<Longrightarrow>
     submitStep \<sigma> (\<sigma>\<lparr>sy_sched := s'\<rparr>)"
| enqueue_quiet:
    "Enqueue job t1 t2 t3 (sy_sched \<sigma>) = Some (Inr (i, False), s') \<Longrightarrow>
     submitStep \<sigma> (\<sigma>\<lparr>sy_sched := s', sy_accepted := sy_accepted \<sigma> @ [stamped (sy_sched \<sigma>) t2 job]\<rparr>)"
| enqueue_wakes:
    "Enqueue job t1 t2 t3 (sy_sched \<sigma>) = Some (Inr (i, True), s') \<Longrightarrow>
     submitStep \<sigma> (\<sigma>\<lparr>sy_sched := s', sy_accepted := sy_accepted \<sigma> @ [stamped (sy_sched \<sigma>) t2 job],
       sy_pending := sy_pending \<sigma> @ [FromSubmit i]\<rparr>)"
| try_enqueue_error:
    "TryEnqueue job t1 t2 t3 (sy_sched \<sigma>) = Some (Inl e, s') \<Longrightarrow>
     submitStep \<sigma> (\<sigma>\<lparr>sy_sched := s'\<rparr>)"
| try_enqueue_quiet:
    "TryEnqueue job t1 t2 t3 (sy_sched \<sigma>) = Some (Inr (i, False), s') \<Longrightarrow>
     submitStep \<sigma> (\<sigma>\<lparr>sy_sched := s', sy_accepted := sy_accepted \<sigma> @ [stamped (sy_sched \<sigma>) t2 job]\<rparr>)"
| try_enqueue_wakes:
    "TryEnqueue job t1 t2 t3 (sy_sched \<sigma>) = Some (Inr (i, True), s') \<Longrightarrow>
     submitStep \<sigma> (\<sigma>\<lparr>sy_sched := s', sy_accepted := sy_accepted \<sigma> @ [stamped (sy_sched \<sigma>) t2 job],
       sy_pending := sy_pending \<sigma> @ [FromTrySubmit i]\<rparr>)"

text \<open>What submitters and workers do by themselves to move accepted jobs forward.\<close>

inductive workStep :: "sysState \<Rightarrow> sysState \<Rightarrow> bool" where
  send:
    "k < length (sy_pending \<sigma>) \<Longrightarrow> length (s_ReadyCh (sy_sched \<sigma>)) < readyCap (sy_sched \<sigma>) \<Longrightarrow>
     workStep \<sigma> (\<sigma>\<lparr>sy_sched := sendReady (senderShard (sy_pending \<sigma> ! k)) (sy_sched \<sigma>),
       sy_pending := removeAt k (sy_pending \<sigma>)\<rparr>)"
| receive:
    "w < length (sy_workers \<sigma>) \<Longrightarrow> sy_workers \<sigma> ! w = WIdle \<Longrightarrow>
     s_ReadyCh (sy_sched \<sigma>) = i # rest \<Longrightarrow>
     workStep \<sigma> (\<sigma>\<lparr>sy_sched := (sy_sched \<sigma>)\<lparr>s_ReadyCh := rest\<rparr>,
       sy_workers := (sy_workers \<sigma>)[w := WGot i]\<rparr>)"
| collect:
    "w < length (sy_workers \<sigma>) \<Longrightarrow> sy_workers \<sigma> ! w = WGot i \<Longrightarrow>
     i < length (s_shards (sy_sched \<sigma>)) \<Longrightarrow>
     collectPhase pc i (sy_sched \<sigma>) = (s', batch, hm) \<Longrightarrow>
     workStep \<sigma> (\<sigma>\<lparr>sy_sched := s', sy_workers := (sy_workers \<sigma>)[w := WCollected i batch hm]\<rparr>)"
| observe:
    "w < length (sy_workers \<sigma>) \<Longrightarrow> sy_workers \<sigma> ! w = WCollected i batch hm \<Longrightarrow>
     workStep \<sigma> (\<sigma>\<lparr>sy_sched := observeBatch i batch now (sy_sched \<sigma>),
       sy_workers := (sy_workers \<sigma>)[w := WBatch i batch hm]\<rparr>)"
| run_job:
    "w < length (sy_workers \<sigma>) \<Longrightarrow> sy_workers \<sigma> ! w = WBatch i (job # rest) hm \<Longrightarrow>
     workStep \<sigma> (\<sigma>\<lparr>sy_sched := snd (runJob i job st en err fin (sy_sched \<sigma>)),
       sy_workers := (sy_workers \<sigma>)[w := WBatch i rest hm], sy_ran := sy_ran \<sigma> @ [job]\<rparr>)"
| end_batch:
    "w < length (sy_workers \<sigma>) \<Longrightarrow> sy_workers \<sigma> ! w = WBatch i [] hm \<Longrightarrow>
     workStep \<sigma> (\<sigma>\<lparr>sy_workers := (sy_workers \<sigma>)[w := if hm then WRequeue i else WIdle]\<rparr>)"
| requeue_send:
    "w < length (sy_workers \<sigma>) \<Longrightarrow> sy_workers \<sigma> ! w = WRequeue i \<Longrightarrow>
     length (s_ReadyCh (sy_sched \<sigma>)) < readyCap (sy_sched \<sigma>) \<Longrightarrow>
     workStep \<sigma> (\<sigma>\<lparr>sy_sched := sendReady i (sy_sched \<sigma>),
       sy_workers := (sy_workers \<sigma>)[w := WIdle]\<rparr>)"

text \<open>The life cycle, quota updates, and the branches taken when a context is done or a channel is full.
  The flag says that a token is given up.\<close>

inductive controlStep :: "bool \<Rightarrow> sysState \<Rightarrow> sysState \<Rightarrow> bool" where
  try_send_default:
    "k < length (sy_pending \<sigma>) \<Longrightarrow> sy_pending \<sigma> ! k = FromTrySubmit i \<Longrightarrow>
     \<not> length (s_ReadyCh (sy_sched \<sigma>)) < readyCap (sy_sched \<sigma>) \<Longrightarrow>
     controlStep True \<sigma> (\<sigma>\<lparr>sy_pending := removeAt k (sy_pending \<sigma>)\<rparr>)"
| submit_ctx_done:
    "k < length (sy_pending \<sigma>) \<Longrightarrow> sy_pending \<sigma> ! k = FromSubmit i \<Longrightarrow>
     controlStep True \<sigma> (\<sigma>\<lparr>sy_pending := removeAt k (sy_pending \<sigma>)\<rparr>)"
| exit_worker:
    "w < length (sy_workers \<sigma>) \<Longrightarrow> sy_workers \<sigma> ! w = WIdle \<Longrightarrow> sy_ctxDone \<sigma> \<Longrightarrow>
     controlStep False \<sigma> (\<sigma>\<lparr>sy_workers := (sy_workers \<sigma>)[w := WExited]\<rparr>)"
| skip_bad_id:
    "w < length (sy_workers \<sigma>) \<Longrightarrow> sy_workers \<sigma> ! w = WGot i \<Longrightarrow>
     \<not> i < length (s_shards (sy_sched \<sigma>)) \<Longrightarrow>
     controlStep False \<sigma> (\<sigma>\<lparr>sy_workers := (sy_workers \<sigma>)[w := WIdle]\<rparr>)"
| drop_batch:
    "w < length (sy_workers \<sigma>) \<Longrightarrow> sy_workers \<sigma> ! w = WBatch i rest hm \<Longrightarrow> rest \<noteq> [] \<Longrightarrow>
     sy_ctxDone \<sigma> \<Longrightarrow>
     controlStep False \<sigma> (\<sigma>\<lparr>sy_sched := cancelRest i rest (sy_sched \<sigma>),
       sy_workers := (sy_workers \<sigma>)[w := WBatch i [] hm], sy_dropped := sy_dropped \<sigma> @ rest\<rparr>)"
| requeue_ctx_done:
    "w < length (sy_workers \<sigma>) \<Longrightarrow> sy_workers \<sigma> ! w = WRequeue i \<Longrightarrow> sy_ctxDone \<sigma> \<Longrightarrow>
     controlStep True \<sigma> (\<sigma>\<lparr>sy_workers := (sy_workers \<sigma>)[w := WIdle]\<rparr>)"
| start:
    "Start (sy_sched \<sigma>) = (None, s') \<Longrightarrow> sy_workers \<sigma> = [] \<Longrightarrow>
     controlStep False \<sigma> (\<sigma>\<lparr>sy_sched := s', sy_workers := replicate (nat (s_workerCount s')) WIdle\<rparr>)"
| begin_stop:
    "beginStop (sy_sched \<sigma>) = (StopBegin, s') \<Longrightarrow> controlStep False \<sigma> (\<sigma>\<lparr>sy_sched := s'\<rparr>)"
| cancel_workers:
    "controlStep False \<sigma> (\<sigma>\<lparr>sy_ctxDone := True\<rparr>)"
| finish_stop:
    "s_state (sy_sched \<sigma>) = stateStopping \<Longrightarrow> \<forall>wk \<in> set (sy_workers \<sigma>). wk = WExited \<Longrightarrow>
     controlStep False \<sigma> (\<sigma>\<lparr>sy_sched := finishStop (sy_sched \<sigma>)\<rparr>)"
| update_quota:
    "UpdateQuotaPolicy policy (sy_sched \<sigma>) = (r, s') \<Longrightarrow> controlStep False \<sigma> (\<sigma>\<lparr>sy_sched := s'\<rparr>)"

text \<open>The calls of the checks before a submission and of the other policy updates.\<close>

inductive sideCall :: "Scheduler \<Rightarrow> Scheduler \<Rightarrow> bool" where
  update_admission: "UpdateAdmissionPolicy ap s = (r, s') \<Longrightarrow> sideCall s s'"
| update_overload: "UpdateOverloadPolicy op s = (r, s') \<Longrightarrow> sideCall s s'"
| per_key: "EvaluatePerKeyAdmissionWithConfig i k l cfg now s = (dec, s') \<Longrightarrow> sideCall s s'"
| hot_key_reject: "sideCall s (RecordHotKeyReject k i now s)"
| pressure_reject: "sideCall s (RecordPressureAdmissionRejected l s)"
| overload_decision:
    "sideCall s (s\<lparr>s_laneCounters := RecordOverloadDecision (obs_EnableCounters (s_Obs s)) (s_laneCounters s) l a\<rparr>)"

inductive step :: "bool \<Rightarrow> sysState \<Rightarrow> sysState \<Rightarrow> bool" where
  submit: "submitStep \<sigma> \<sigma>' \<Longrightarrow> step False \<sigma> \<sigma>'"
| work: "workStep \<sigma> \<sigma>' \<Longrightarrow> step False \<sigma> \<sigma>'"
| control: "controlStep d \<sigma> \<sigma>' \<Longrightarrow> step d \<sigma> \<sigma>'"
| side: "sideCall (sy_sched \<sigma>) s' \<Longrightarrow> step False \<sigma> (\<sigma>\<lparr>sy_sched := s'\<rparr>)"

inductive_cases sideE: "sideCall s s'"

text \<open>Reachability: with any steps, and with steps that give no token up.\<close>

inductive reaches :: "bool \<Rightarrow> sysState \<Rightarrow> sysState \<Rightarrow> bool" where
  reaches_refl: "reaches drops \<sigma> \<sigma>"
| reaches_step: "reaches drops \<sigma> \<sigma>' \<Longrightarrow> step d \<sigma>' \<sigma>'' \<Longrightarrow> (d \<longrightarrow> drops) \<Longrightarrow> reaches drops \<sigma> \<sigma>''"

subsection \<open>Tokens\<close>

fun workerToken :: "nat \<Rightarrow> worker \<Rightarrow> nat" where
  "workerToken i (WGot j) = (if j = i then 1 else 0)"
| "workerToken i (WCollected j batch hm) = (if j = i \<and> hm then 1 else 0)"
| "workerToken i (WBatch j batch hm) = (if j = i \<and> hm then 1 else 0)"
| "workerToken i (WRequeue j) = (if j = i then 1 else 0)"
| "workerToken i _ = 0"

definition tokens :: "sysState \<Rightarrow> nat \<Rightarrow> nat" where
  "tokens \<sigma> i = count_list (s_ReadyCh (sy_sched \<sigma>)) i
     + count_list (map senderShard (sy_pending \<sigma>)) i
     + sum_list (map (workerToken i) (sy_workers \<sigma>))"

definition readyOf :: "Scheduler \<Rightarrow> nat \<Rightarrow> nat" where
  "readyOf s i = (if i < length (s_shards s) \<and> sh_Ready (s_shards s ! i) then 1 else 0)"

fun remaining :: "worker \<Rightarrow> InternalJob list" where
  "remaining (WCollected i batch hm) = batch"
| "remaining (WBatch i batch hm) = batch"
| "remaining _ = []"

definition queued :: "Scheduler \<Rightarrow> InternalJob list" where
  "queued s = concat (map (\<lambda>sh. concat (laneContents sh)) (s_shards s))"

subsection \<open>Counting\<close>

definition tok :: "nat list \<Rightarrow> sender list \<Rightarrow> worker list \<Rightarrow> nat \<Rightarrow> nat" where
  "tok R P W i = count_list R i + count_list (map senderShard P) i + sum_list (map (workerToken i) W)"

lemma tokens_tok: "tokens \<sigma> = tok (s_ReadyCh (sy_sched \<sigma>)) (sy_pending \<sigma>) (sy_workers \<sigma>)"
  by (rule ext) (simp add: tokens_def tok_def)

lemma count_removeAt:
  "k < length xs \<Longrightarrow>
    count_list (map f (removeAt k xs)) i + (if f (xs ! k) = i then 1 else 0) = count_list (map f xs) i"
proof (induction xs arbitrary: k)
  case (Cons x xs)
  then show ?case by (cases k) (auto simp: removeAt_def)
qed simp

lemma tok_worker:
  assumes "w < length W"
  shows "tok R P (W[w := x]) i + workerToken i (W ! w) = tok R P W i + workerToken i x"
  using sum_list_update_nat [OF assms, of "workerToken i" x] by (simp add: tok_def)

lemma tok_send:
  assumes "k < length P"
  shows "tok (R @ [senderShard (P ! k)]) (removeAt k P) W i = tok R P W i"
  using count_removeAt [OF assms, of senderShard i] by (auto simp: tok_def)

lemma tok_drop:
  assumes "k < length P"
  shows "tok R (removeAt k P) W i + (if senderShard (P ! k) = i then 1 else 0) = tok R P W i"
  using count_removeAt [OF assms, of senderShard i] by (simp add: tok_def)

lemma tok_pending: "tok R (P @ [p]) W i = tok R P W i + (if senderShard p = i then 1 else 0)"
  by (simp add: tok_def)

lemma tok_channel: "tok (i # R) P W j = tok R P W j + (if i = j then 1 else 0)"
  "tok (R @ [i]) P W j = tok R P W j + (if i = j then 1 else 0)"
  by (simp_all add: tok_def)

lemma length_count_list:
  fixes xs :: "nat list"
  shows "(\<And>x. x \<in> set xs \<Longrightarrow> x < n) \<Longrightarrow> length xs = (\<Sum>i < n. count_list xs i)"
proof (induction xs)
  case (Cons x xs)
  have "(\<Sum>i < n. count_list (x # xs) i) = (\<Sum>i < n. count_list xs i + (if x = i then 1 else 0))"
    by (rule sum.cong) auto
  also have "\<dots> = (\<Sum>i < n. count_list xs i) + (\<Sum>i < n. if x = i then 1 else 0)"
    by (rule sum.distrib)
  also have "(\<Sum>i < n. if x = i then 1 else 0 :: nat) = 1"
    using Cons.prems [of x] by (simp add: sum.delta')
  finally show ?case using Cons by simp
qed simp

subsection \<open>The invariant\<close>

text \<open>\<open>tokens_le\<close> bounds the tokens by the ready flags; \<open>tokens_eq\<close> says that none is missing.\<close>

definition tokens_le :: "sysState \<Rightarrow> bool" where
  "tokens_le \<sigma> \<longleftrightarrow> (\<forall>i. tokens \<sigma> i \<le> readyOf (sy_sched \<sigma>) i)"

definition tokens_eq :: "sysState \<Rightarrow> bool" where
  "tokens_eq \<sigma> \<longleftrightarrow> (\<forall>i. tokens \<sigma> i = readyOf (sy_sched \<sigma>) i)"

definition jobs_ok :: "sysState \<Rightarrow> bool" where
  "jobs_ok \<sigma> \<longleftrightarrow> mset (sy_accepted \<sigma>) = mset (queued (sy_sched \<sigma>))
     + mset (concat (map remaining (sy_workers \<sigma>))) + mset (sy_ran \<sigma>) + mset (sy_dropped \<sigma>)
     \<and> s_inflight (sy_sched \<sigma>) = int (length (concat (map remaining (sy_workers \<sigma>))))"

definition sys_inv :: "sysState \<Rightarrow> bool" where
  "sys_inv \<sigma> \<longleftrightarrow> sched_wf (sy_sched \<sigma>) \<and> tokens_le \<sigma> \<and> jobs_ok \<sigma>"

text \<open>The channel has room whenever somebody holds a token outside it.\<close>

lemma readyCh_room:
  assumes le: "tokens_le \<sigma>" and out: "count_list (s_ReadyCh (sy_sched \<sigma>)) i < tokens \<sigma> i"
  shows "length (s_ReadyCh (sy_sched \<sigma>)) < readyCap (sy_sched \<sigma>)"
proof -
  let ?R = "s_ReadyCh (sy_sched \<sigma>)" and ?n = "length (s_shards (sy_sched \<sigma>))"
  have t: "tokens \<sigma> j \<le> (if j < ?n then 1 else 0)" for j
    using le [unfolded tokens_le_def, rule_format, of j] by (simp add: readyOf_def split: if_splits)
  have c: "count_list ?R j \<le> tokens \<sigma> j" for j by (simp add: tokens_def)
  have i: "i < ?n" using t [of i] out by (simp split: if_splits)
  have "x < ?n" if "x \<in> set ?R" for x
    using that t [of x] c [of x] count_list_0_iff [of ?R x] by (cases "x < ?n") simp_all
  then have "length ?R = (\<Sum>j < ?n. count_list ?R j)" by (rule length_count_list)
  also have "\<dots> < (\<Sum>j < ?n. 1)"
  proof (rule sum_strict_mono_ex1)
    show "\<forall>j \<in> {..<?n}. count_list ?R j \<le> 1"
    proof
      fix j assume "j \<in> {..<?n}"
      then show "count_list ?R j \<le> 1" using t [of j] c [of j] by simp
    qed
    show "\<exists>j \<in> {..<?n}. count_list ?R j < 1"
      using t [of i] out i by (intro bexI [of _ i]) (simp_all del: less_Suc0)
  qed simp
  finally show ?thesis by (simp add: readyCap_def)
qed

subsection \<open>What admission does\<close>

definition admitted :: "Scheduler \<Rightarrow> InternalJob \<Rightarrow> (core_error + nat \<times> bool) \<Rightarrow> Scheduler \<Rightarrow> bool" where
  "admitted s job r s' \<longleftrightarrow> sched_wf s' \<and>
     (case r of
        Inl e \<Rightarrow> s_shards s' = s_shards s \<and> s_ReadyCh s' = s_ReadyCh s \<and> s_inflight s' = s_inflight s
      | Inr (i, b) \<Rightarrow> appended s s' i job \<and> sh_Ready (s_shards s' ! i)
          \<and> (b \<longleftrightarrow> \<not> sh_Ready (s_shards s ! i)) \<and> \<not> stoppingOrStopped s)"

lemma Enqueue_admitted:
  assumes "sched_wf s" "Enqueue job t1 t2 t3 s = Some (r, s')"
  shows "admitted s (stamped s t2 job) r s'"
  using assms by (rule Enqueue_cases) (auto simp: admitted_def)

lemma TryEnqueue_admitted:
  assumes wf: "sched_wf s" and res: "TryEnqueue job t1 t2 t3 s = Some (r, s')"
  shows "admitted s (stamped s t2 job) r s'"
proof (cases "s_state s = stateRunning")
  case True
  then show ?thesis using Enqueue_admitted [OF wf] res TryEnqueue_Enqueue by metis
next
  case False
  then obtain e where "r = Inl e" "s' = whenCounters (unat (job_LaneID job)) recordLaneAdmissionRejected
      (whenCounters (unat (job_LaneID job)) recordLaneAdmissionAttempt s)"
    using res by (auto simp: TryEnqueue_def Let_def split: if_splits)
  then show ?thesis using wf by (simp add: admitted_def)
qed

lemma appended_ready:
  assumes "appended s s' i job" "sh_Ready (s_shards s' ! i)"
  shows "readyOf s' j = (if j = i then 1 else readyOf s j)"
  using assms by (auto simp: appended_def readyOf_def)

lemma appended_frame:
  "appended s s' i job \<Longrightarrow> s_ReadyCh s' = s_ReadyCh s \<and> s_inflight s' = s_inflight s
    \<and> i < length (s_shards s)"
  by (simp add: appended_def)

lemma mset_concat_update:
  "i < length xs \<Longrightarrow> mset (concat (map f (xs[i := y]))) + mset (f (xs ! i))
    = mset (concat (map f xs)) + mset (f y)"
proof (induction xs arbitrary: i)
  case (Cons x xs)
  then show ?case by (cases i) (simp_all add: ac_simps)
qed simp

lemma queued_update:
  assumes "i < length (s_shards s)" "length (s_shards s') = length (s_shards s)"
    "\<And>k. k < length (s_shards s) \<Longrightarrow> k \<noteq> i \<Longrightarrow> s_shards s' ! k = s_shards s ! k"
  shows "mset (queued s') + mset (concat (laneContents (s_shards s ! i)))
    = mset (queued s) + mset (concat (laneContents (s_shards s' ! i)))"
proof -
  have "s_shards s' = (s_shards s)[i := s_shards s' ! i]"
    using assms by (intro nth_equalityI) (auto simp: nth_list_update)
  then show ?thesis
    using mset_concat_update [OF assms(1), of "\<lambda>sh. concat (laneContents sh)" "s_shards s' ! i"]
    by (simp add: queued_def)
qed

lemma appended_queued:
  assumes "appended s s' i job"
  shows "mset (queued s') = add_mset job (mset (queued s))"
proof -
  let ?l = "unat (job_LaneID job)" and ?c = "laneContents (s_shards s ! i)"
  have a: "i < length (s_shards s)" "length (s_shards s') = length (s_shards s)"
      "\<And>k. k < length (s_shards s) \<Longrightarrow> k \<noteq> i \<Longrightarrow> s_shards s' ! k = s_shards s ! k"
      "?l < length ?c" "laneContents (s_shards s' ! i) = ?c[?l := ?c ! ?l @ [job]]"
    using assms by (simp_all add: appended_def Let_def)
  have "mset (concat (?c[?l := ?c ! ?l @ [job]])) = add_mset job (mset (concat ?c))"
    using a(4) by (rule concat_update_append)
  then show ?thesis using queued_update [OF a(1-3)] a(5) by simp
qed

subsection \<open>Every step keeps the scheduler well-formed\<close>

lemma sendReady_wf [simp]: "sched_wf (sendReady i s) = sched_wf s"
  by (simp add: sendReady_def sched_wf_def trackers_ok_def)

lemma sched_wf_upd [simp]:
  "sched_wf (s\<lparr>s_ReadyCh := R\<rparr>) = sched_wf s" "sched_wf (s\<lparr>s_state := st\<rparr>) = sched_wf s"
  by (simp_all add: sched_wf_def trackers_ok_def)

lemma drained_wf: "drained i n s s' \<Longrightarrow> sched_wf s \<Longrightarrow> sched_wf s'"
  by (simp add: drained_def)

lemma UpdateQuotaPolicy_cases:
  assumes "UpdateQuotaPolicy policy s = (r, s')"
  obtains e where "r = Inl e" "s' = s"
  | snap where "buildQuotaPolicySnapshot (s_laneReg s) policy = Inr snap"
    "r = Inr (s_quotaVersion s + 1)" "\<not> stoppingOrStopped s"
    "s' = s\<lparr>s_quotaVersion := s_quotaVersion s + 1,
           s_quotaPolicy := snap\<lparr>qps_version := s_quotaVersion s + 1\<rparr>\<rparr>"
proof (cases "buildQuotaPolicySnapshot (s_laneReg s) policy")
  case (Inl e)
  then show ?thesis using assms by (intro that(1) [of e]) (auto simp: UpdateQuotaPolicy_def)
next
  case (Inr snap)
  show ?thesis
  proof (cases "stoppingOrStopped s")
    case True
    then show ?thesis
      using assms Inr by (intro that(1) [of ErrStopped]) (auto simp: UpdateQuotaPolicy_def)
  next
    case False
    then show ?thesis
      using assms that(2) Inr by (simp add: UpdateQuotaPolicy_def publishQuotaPolicyLocked_def Let_def)
  qed
qed

lemma UpdateQuotaPolicy_wf:
  assumes "sched_wf s" "UpdateQuotaPolicy policy s = (r, s')"
  shows "sched_wf s'"
  using assms(2)
proof (cases rule: UpdateQuotaPolicy_cases)
  case 1
  then show ?thesis using assms(1) by simp
next
  case (2 snap)
  have "quotaSnap_ok (s_laneReg s) snap" by (rule buildQuotaPolicySnapshot_ok [OF 2(1)])
  then show ?thesis using assms(1) by (simp add: 2 sched_wf_def quotaSnap_ok_def trackers_ok_def)
qed

subsection \<open>What a submission does\<close>

lemma submitStep_admitted:
  assumes "submitStep \<sigma> \<sigma>'" "sched_wf (sy_sched \<sigma>)"
  obtains (rejected) job e s' where "admitted (sy_sched \<sigma>) job (Inl e) s'" "\<sigma>' = \<sigma>\<lparr>sy_sched := s'\<rparr>"
  | (quiet) job i s' where "admitted (sy_sched \<sigma>) job (Inr (i, False)) s'"
      "\<sigma>' = \<sigma>\<lparr>sy_sched := s', sy_accepted := sy_accepted \<sigma> @ [job]\<rparr>"
  | (wakes) job p s' where "admitted (sy_sched \<sigma>) job (Inr (senderShard p, True)) s'"
      "\<sigma>' = \<sigma>\<lparr>sy_sched := s', sy_accepted := sy_accepted \<sigma> @ [job], sy_pending := sy_pending \<sigma> @ [p]\<rparr>"
  using assms(1)
proof cases
  case (enqueue_wakes job t1 t2 t3 i s')
  then show thesis using Enqueue_admitted [OF assms(2)] by (intro wakes [of _ "FromSubmit i"]) simp_all
next
  case (try_enqueue_wakes job t1 t2 t3 i s')
  then show thesis using TryEnqueue_admitted [OF assms(2)] by (intro wakes [of _ "FromTrySubmit i"]) simp_all
next
  case (enqueue_error job t1 t2 t3 e s')
  then show thesis using Enqueue_admitted [OF assms(2)] by (intro rejected) simp_all
next
  case (try_enqueue_error job t1 t2 t3 e s')
  then show thesis using TryEnqueue_admitted [OF assms(2)] by (intro rejected) simp_all
next
  case (enqueue_quiet job t1 t2 t3 i s')
  then show thesis using Enqueue_admitted [OF assms(2)] by (intro quiet) simp_all
next
  case (try_enqueue_quiet job t1 t2 t3 i s')
  then show thesis using TryEnqueue_admitted [OF assms(2)] by (intro quiet) simp_all
qed

lemma keeps_perKey: "keeps s (snd (EvaluatePerKeyAdmissionWithConfig i k l cfg now s))"
proof (cases "perKeyAdmissionEnabled cfg \<and> hotKeyTrackerForShard s i \<noteq> None")
  case True
  then obtain hk where hk: "perKeyAdmissionEnabled cfg" "hotKeyTrackerForShard s i = Some hk" by auto
  obtain sd sw where sd: "shardDepthAndWaitForHotKey s i = (sd, sw)" by (rule prod.exhaust)
  obtain dec t' where e: "evaluatePerKeyAdmission (Some hk) (int i) k l sd sw
      (p_TotalDepthRatio (schedPressure s)) cfg now = (dec, t')" by (rule prod.exhaust)
  have "keeps s (withTracker i (\<lambda>t. case t' of Some t' \<Rightarrow> t' | None \<Rightarrow> t) s)"
  proof (cases t')
    case (Some u)
    have "trackers_ok s \<Longrightarrow> hk_wf hk"
      using hk(2) by (auto simp: trackers_ok_def hotKeyTrackerForShard_def split: option.splits if_splits)
    then have "trackers_ok s \<Longrightarrow> hk_wf u" using evaluatePerKeyAdmission_wf e Some by blast
    then have "trackers_ok s \<longrightarrow> trackers_ok (withTracker i (\<lambda>t. u) s)"
      using trackers_ok_with [of s "\<lambda>t. u" i] by blast
    then show ?thesis using Some by (simp add: keeps_def)
  qed (simp add: keeps_tracker)
  then show ?thesis
    by (auto simp: EvaluatePerKeyAdmissionWithConfig_def hk sd e Let_def keeps_def trackers_ok_def)
qed (auto simp: EvaluatePerKeyAdmissionWithConfig_def Let_def keeps_refl)

lemma sideCall_keeps:
  assumes "sideCall s s'"
  shows "keeps s s'"
  using assms
proof cases
  case (per_key i k l cfg now dec)
  then show ?thesis by (metis keeps_perKey snd_conv)
next
  case (hot_key_reject k i now)
  show ?thesis unfolding hot_key_reject RecordHotKeyReject_def
    by (rule keeps_trans [OF _ keeps_tracker]) (simp_all add: keeps_def trackers_ok_def observe_wf)
next
  case (pressure_reject l)
  then show ?thesis by (simp add: RecordPressureAdmissionRejected_def keeps_counters keeps_refl)
qed (auto simp: keeps_def trackers_ok_def UpdateAdmissionPolicy_def UpdateOverloadPolicy_def
    publishAdmissionPolicy_def publishOverloadPolicy_def RecordOverloadDecision_def Let_def
    split: sum.splits if_splits)

lemma submitStep_wf:
  assumes st: "submitStep \<sigma> \<sigma>'" and wf: "sched_wf (sy_sched \<sigma>)"
  shows "sched_wf (sy_sched \<sigma>')"
  using st wf by (rule submitStep_admitted) (simp_all add: admitted_def)

lemma workStep_wf:
  assumes st: "workStep \<sigma> \<sigma>'" and wf: "sched_wf (sy_sched \<sigma>)"
  shows "sched_wf (sy_sched \<sigma>')"
  using st
proof cases
  case (collect w i pc s' batch hm)
  then show ?thesis using collectPhase_ok(1) wf by auto
next
  case (observe w i batch hm now)
  then show ?thesis using keeps_wf [OF keeps_observeBatch wf] by simp
next
  case (run_job w i job rest hm st en err fin)
  then show ?thesis using drained_wf [OF runJob_drained wf] by simp
qed (use wf in simp_all)

lemma controlStep_wf:
  assumes st: "controlStep d \<sigma> \<sigma>'" and wf: "sched_wf (sy_sched \<sigma>)"
  shows "sched_wf (sy_sched \<sigma>')"
  using st
proof cases
  case (drop_batch w i rest hm)
  then show ?thesis using drained_wf [OF cancelRest_drained wf] by simp
next
  case (update_quota policy r s')
  then show ?thesis using UpdateQuotaPolicy_wf [OF wf] by simp
qed (use wf in \<open>auto simp: Start_def beginStop_def finishStop_def split: if_splits\<close>)

lemma step_wf:
  assumes st: "step d \<sigma> \<sigma>'" and wf: "sched_wf (sy_sched \<sigma>)"
  shows "sched_wf (sy_sched \<sigma>')"
  using st
proof cases
  case (side s')
  then show ?thesis using keeps_wf [OF sideCall_keeps wf] by simp
qed (use wf submitStep_wf workStep_wf controlStep_wf in blast)+



subsection \<open>Tokens along a step\<close>

text \<open>A step leaves tokens and ready flags alone, wakes a shard, puts one to rest, or gives a token up.\<close>

definition effect :: "bool \<Rightarrow> (nat \<Rightarrow> nat) \<Rightarrow> (nat \<Rightarrow> nat) \<Rightarrow> (nat \<Rightarrow> nat) \<Rightarrow> (nat \<Rightarrow> nat) \<Rightarrow> bool" where
  "effect d T R T' R' \<longleftrightarrow>
     (\<forall>j. T' j = T j \<and> R' j = R j)
     \<or> (\<exists>i. \<forall>j. T' j = T j + (if i = j then 1 else 0) \<and> R' j = R j + (if i = j then 1 else 0))
     \<or> (\<exists>i. \<forall>j. T j = T' j + (if i = j then 1 else 0) \<and> R j = R' j + (if i = j then 1 else 0))
     \<or> (d \<and> (\<exists>i. \<forall>j. T j = T' j + (if i = j then 1 else 0) \<and> R' j = R j))"

lemma effect_same: "T' = T \<Longrightarrow> R' = R \<Longrightarrow> effect d T R T' R'"
  by (simp add: effect_def)

lemma effect_wake:
  "(\<And>j. T' j = T j + (if i = j then 1 else 0)) \<Longrightarrow> (\<And>j. R' j = R j + (if i = j then 1 else 0)) \<Longrightarrow>
    effect d T R T' R'"
  by (auto simp: effect_def)

lemma effect_rest:
  assumes "\<And>j. T j = T' j + (if i = j then 1 else 0)" "\<And>j. R j = R' j + (if i = j then 1 else 0)"
  shows "effect d T R T' R'"
  unfolding effect_def using assms by blast

lemma effect_drop:
  assumes "\<And>j. T j = T' j + (if i = j then 1 else 0)" "R' = R"
  shows "effect True T R T' R'"
  unfolding effect_def using assms by blast

lemma effect_le:
  assumes "effect d T R T' R'" "\<And>j. T j \<le> R j"
  shows "T' j \<le> R' j"
  using assms(1) unfolding effect_def
proof (elim disjE exE conjE)
  fix i assume *: "\<forall>j. T j = T' j + (if i = j then 1 else 0) \<and> R j = R' j + (if i = j then 1 else 0)"
  show ?thesis using *[rule_format, of j] assms(2) [of j] by simp
next
  fix i assume *: "\<forall>j. T' j = T j + (if i = j then 1 else 0) \<and> R' j = R j + (if i = j then 1 else 0)"
  show ?thesis using *[rule_format, of j] assms(2) [of j] by simp
next
  fix i assume *: "\<forall>j. T j = T' j + (if i = j then 1 else 0) \<and> R' j = R j"
  show ?thesis using *[rule_format, of j] assms(2) [of j] by simp
qed (simp add: assms(2))

lemma effect_eq:
  assumes "effect False T R T' R'" "\<And>j. T j = R j"
  shows "T' j = R' j"
  using assms(1) unfolding effect_def
proof (elim disjE exE conjE)
  fix i assume *: "\<forall>j. T j = T' j + (if i = j then 1 else 0) \<and> R j = R' j + (if i = j then 1 else 0)"
  show ?thesis using *[rule_format, of j] assms(2) [of j] by simp
next
  fix i assume *: "\<forall>j. T' j = T j + (if i = j then 1 else 0) \<and> R' j = R j + (if i = j then 1 else 0)"
  show ?thesis using *[rule_format, of j] assms(2) [of j] by simp
qed (simp_all add: assms(2))

lemma readyOf_cong: "s_shards s' = s_shards s \<Longrightarrow> readyOf s' = readyOf s"
  by (rule ext) (simp add: readyOf_def)

lemma effect_admitted:
  assumes "admitted s job r s'"
  shows "(\<exists>e. r = Inl e) \<or> (\<exists>i. r = Inr (i, False)) \<Longrightarrow> readyOf s' = readyOf s \<and> s_ReadyCh s' = s_ReadyCh s"
    and "r = Inr (i, True) \<Longrightarrow> (\<forall>j. readyOf s' j = readyOf s j + (if i = j then 1 else 0))
      \<and> s_ReadyCh s' = s_ReadyCh s"
proof -
  assume "(\<exists>e. r = Inl e) \<or> (\<exists>i. r = Inr (i, False))"
  then show "readyOf s' = readyOf s \<and> s_ReadyCh s' = s_ReadyCh s"
  proof
    assume "\<exists>e. r = Inl e"
    then show ?thesis using assms readyOf_cong [of s' s] by (auto simp: admitted_def)
  next
    assume "\<exists>i. r = Inr (i, False)"
    then obtain i where i: "appended s s' i job" "sh_Ready (s_shards s' ! i)" "sh_Ready (s_shards s ! i)"
      using assms by (auto simp: admitted_def)
    then have "readyOf s i = 1" using appended_frame [OF i(1)] by (simp add: readyOf_def)
    then have "readyOf s' = readyOf s" using appended_ready [OF i(1,2)] by (intro ext) simp
    then show ?thesis using appended_frame [OF i(1)] by simp
  qed
next
  assume "r = Inr (i, True)"
  then have i: "appended s s' i job" "sh_Ready (s_shards s' ! i)" "\<not> sh_Ready (s_shards s ! i)"
    using assms by (auto simp: admitted_def)
  then have "readyOf s i = 0" by (simp add: readyOf_def)
  then show "(\<forall>j. readyOf s' j = readyOf s j + (if i = j then 1 else 0)) \<and> s_ReadyCh s' = s_ReadyCh s"
    using appended_ready [OF i(1,2)] appended_frame [OF i(1)] by simp
qed

lemma tok_tokens_sched:
  "s_ReadyCh s' = s_ReadyCh (sy_sched \<sigma>) \<Longrightarrow> tokens (\<sigma>\<lparr>sy_sched := s'\<rparr>) = tokens \<sigma>"
  by (simp add: tokens_tok)

text \<open>A worker that moves on while holding the same token, or none.\<close>

lemma tok_worker_same:
  assumes "w < length W" "\<And>i. workerToken i x = workerToken i (W ! w)"
  shows "tok R P (W[w := x]) = tok R P W"
  using tok_worker [OF assms(1), of R P x] assms(2) by (intro ext) simp

lemma submitStep_effect:
  assumes st: "submitStep \<sigma> \<sigma>'" and wf: "sched_wf (sy_sched \<sigma>)" and le: "tokens_le \<sigma>"
  shows "effect False (tokens \<sigma>) (readyOf (sy_sched \<sigma>)) (tokens \<sigma>') (readyOf (sy_sched \<sigma>'))"
  using st wf
proof (cases rule: submitStep_admitted)
  case (rejected job e s')
  then show ?thesis using effect_admitted(1) [OF rejected(1)] by (intro effect_same) (simp_all add: tokens_tok)
next
  case (quiet job i s')
  then show ?thesis using effect_admitted(1) [OF quiet(1)] by (intro effect_same) (simp_all add: tokens_tok)
next
  case (wakes job p s')
  then show ?thesis using effect_admitted(2) [OF wakes(1) refl]
    by (intro effect_wake [of _ _ "senderShard p"]) (simp_all add: tokens_tok tok_pending)
qed

lemma workStep_effect:
  assumes st: "workStep \<sigma> \<sigma>'" and wf: "sched_wf (sy_sched \<sigma>)" and le: "tokens_le \<sigma>"
  shows "effect False (tokens \<sigma>) (readyOf (sy_sched \<sigma>)) (tokens \<sigma>') (readyOf (sy_sched \<sigma>'))"
  using st
proof cases
  case (send k)
  then show ?thesis
    by (intro effect_same) (auto simp: tokens_tok sendReady_def tok_send readyOf_def fun_eq_iff)
next
  case (receive w i rest)
  have "tok rest P (W[w := WGot i]) j = tok (i # rest) P W j"
    if "w < length W" "W ! w = WIdle" for P W j
    using tok_worker [OF that(1), of rest P "WGot i" j] that(2) by (simp add: tok_channel)
  then show ?thesis
    using receive by (intro effect_same) (auto simp: tokens_tok readyOf_def fun_eq_iff)
next
  case (collect w i pc s' batch hm)
  note c = collectPhase_ok [OF wf collect(4,5)]
  have one: "1 \<le> tokens \<sigma> i"
    using elem_le_sum_list_nat [of "WGot i" "sy_workers \<sigma>" "workerToken i"] collect(2,3)
    by (simp add: tokens_def) (metis One_nat_def le_add2 nth_mem order_trans workerToken.simps(1))
  then have rdy: "sh_Ready (s_shards (sy_sched \<sigma>) ! i)"
    using le [unfolded tokens_le_def, rule_format, of i] by (simp add: readyOf_def split: if_splits)
  have R: "readyOf s' j = (if j = i then (if hm then 1 else 0) else readyOf (sy_sched \<sigma>) j)" for j
    using c(5-7) rdy collect(4) by (simp add: readyOf_def)
  have Ri: "readyOf (sy_sched \<sigma>) i = 1" using rdy collect(4) by (simp add: readyOf_def)
  note t = tok_worker [OF collect(2), of "s_ReadyCh (sy_sched \<sigma>)" "sy_pending \<sigma>" "WCollected i batch hm"]
  show ?thesis
  proof (cases hm)
    case True
    then show ?thesis
      using collect(1,3) c(8) t R Ri by (intro effect_same) (auto simp: tokens_tok fun_eq_iff)
  next
    case False
    then show ?thesis
      using collect(1,3) c(8) t R Ri by (intro effect_rest [of _ _ i]) (auto simp: tokens_tok)
  qed
next
  case (observe w i batch hm now)
  have "keeps (sy_sched \<sigma>) (observeBatch i batch now (sy_sched \<sigma>))" by (rule keeps_observeBatch)
  then show ?thesis
    using observe readyOf_cong [of "sy_sched \<sigma>'" "sy_sched \<sigma>"]
    by (intro effect_same) (simp_all add: tokens_tok tok_worker_same keeps_def)
next
  case (run_job w i job rest hm st en err fin)
  have "drained i 1 (sy_sched \<sigma>) (snd (runJob i job st en err fin (sy_sched \<sigma>)))" by (rule runJob_drained)
  then show ?thesis
    using run_job readyOf_cong [of "sy_sched \<sigma>'" "sy_sched \<sigma>"]
    by (intro effect_same) (simp_all add: tokens_tok tok_worker_same drained_def)
next
  case (end_batch w i hm)
  then show ?thesis by (intro effect_same) (simp_all add: tokens_tok tok_worker_same)
next
  case (requeue_send w i)
  have "tok (R @ [i]) P (W[w := WIdle]) j = tok R P W j"
    if "w < length W" "W ! w = WRequeue i" for R P W j
    using tok_worker [OF that(1), of R P WIdle j] that(2) by (simp add: tok_channel)
  then show ?thesis
    using requeue_send by (intro effect_same) (auto simp: tokens_tok readyOf_def sendReady_def fun_eq_iff)
qed

lemma controlStep_effect:
  assumes st: "controlStep d \<sigma> \<sigma>'" and wf: "sched_wf (sy_sched \<sigma>)" and le: "tokens_le \<sigma>"
  shows "effect d (tokens \<sigma>) (readyOf (sy_sched \<sigma>)) (tokens \<sigma>') (readyOf (sy_sched \<sigma>'))"
  using st
proof cases
  case (try_send_default k i)
  then show ?thesis
    using tok_drop [OF try_send_default(3)]
    by (simp only:) (intro effect_drop [of _ _ i], simp_all add: tokens_tok)
next
  case (submit_ctx_done k i)
  then show ?thesis
    using tok_drop [OF submit_ctx_done(3)]
    by (simp only:) (intro effect_drop [of _ _ i], simp_all add: tokens_tok)
next
  case (exit_worker w)
  then show ?thesis by (intro effect_same) (simp_all add: tokens_tok tok_worker_same)
next
  case (skip_bad_id w i)
  have "workerToken i (WGot i) \<le> tokens \<sigma> i"
    using elem_le_sum_list_nat [of "WGot i" "sy_workers \<sigma>" "workerToken i"] skip_bad_id(3,4)
    by (simp add: tokens_def) (metis One_nat_def le_add2 nth_mem order_trans workerToken.simps(1))
  then have False using le [unfolded tokens_le_def, rule_format, of i] skip_bad_id(5)
    by (simp add: readyOf_def)
  then show ?thesis ..
next
  case (drop_batch w i rest hm)
  have "drained i (length rest) (sy_sched \<sigma>) (cancelRest i rest (sy_sched \<sigma>))" by (rule cancelRest_drained)
  then show ?thesis
    using drop_batch readyOf_cong [of "sy_sched \<sigma>'" "sy_sched \<sigma>"]
    by (intro effect_same) (simp_all add: tokens_tok tok_worker_same drained_def)
next
  case (requeue_ctx_done w i)
  note t = tok_worker [OF requeue_ctx_done(3), of "s_ReadyCh (sy_sched \<sigma>)" "sy_pending \<sigma>" WIdle]
  show ?thesis
    using requeue_ctx_done(1,2,4) t
    by (simp only:) (intro effect_drop [of _ _ i], auto simp: tokens_tok)
next
  case (start s')
  have "tok R P (replicate n WIdle) = tok R P []" for R P n
    by (rule ext) (simp add: tok_def sum_list_replicate)
  then show ?thesis
    using start by (intro effect_same) (auto simp: tokens_tok Start_def readyOf_def fun_eq_iff split: if_splits)
next
  case (begin_stop s')
  then show ?thesis
    by (intro effect_same) (auto simp: tokens_tok beginStop_def readyOf_def fun_eq_iff split: if_splits)
next
  case cancel_workers
  then show ?thesis by (intro effect_same) (simp_all add: tokens_tok)
next
  case finish_stop
  then show ?thesis
    by (intro effect_same) (simp_all add: tokens_tok finishStop_def readyOf_def fun_eq_iff)
next
  case (update_quota policy r s')
  from update_quota(3) show ?thesis
  proof (cases rule: UpdateQuotaPolicy_cases)
    case (1 e)
    then show ?thesis using update_quota by (intro effect_same) simp_all
  next
    case (2 snap)
    then show ?thesis
      using update_quota by (intro effect_same) (simp_all add: tokens_tok readyOf_def fun_eq_iff)
  qed
qed

lemma step_effect:
  assumes st: "step d \<sigma> \<sigma>'" and wf: "sched_wf (sy_sched \<sigma>)" and le: "tokens_le \<sigma>"
  shows "effect d (tokens \<sigma>) (readyOf (sy_sched \<sigma>)) (tokens \<sigma>') (readyOf (sy_sched \<sigma>'))"
  using st
proof cases
  case submit
  then show ?thesis using submitStep_effect [OF _ wf le] by simp
next
  case work
  then show ?thesis using workStep_effect [OF _ wf le] by simp
next
  case control
  then show ?thesis using controlStep_effect [OF _ wf le] by simp
next
  case (side s')
  then have "keeps (sy_sched \<sigma>) s'" using sideCall_keeps by simp
  then show ?thesis using side readyOf_cong [of s' "sy_sched \<sigma>"]
    by (intro effect_same) (simp_all add: tokens_tok keeps_def)
qed



subsection \<open>Jobs along a step\<close>

abbreviation held :: "worker list \<Rightarrow> InternalJob list" where
  "held W \<equiv> concat (map remaining W)"

lemma held_update:
  assumes "w < length W"
  shows "mset (held (W[w := x])) + mset (remaining (W ! w)) = mset (held W) + mset (remaining x)"
    "length (held (W[w := x])) + length (remaining (W ! w)) = length (held W) + length (remaining x)"
proof -
  show m: "mset (held (W[w := x])) + mset (remaining (W ! w)) = mset (held W) + mset (remaining x)"
    using assms by (rule mset_concat_update)
  show "length (held (W[w := x])) + length (remaining (W ! w)) = length (held W) + length (remaining x)"
    using arg_cong [OF m, of size] by simp
qed

lemma held_same:
  assumes "w < length W" "remaining x = remaining (W ! w)"
  shows "mset (held (W[w := x])) = mset (held W) \<and> length (held (W[w := x])) = length (held W)"
  using held_update [OF assms(1), of x] assms(2) by simp

text \<open>The equation of \<open>jobs_ok\<close>, over the parts of the state it looks at.\<close>

definition jobsBal :: "InternalJob list \<Rightarrow> Scheduler \<Rightarrow> worker list \<Rightarrow> InternalJob list \<Rightarrow> InternalJob list \<Rightarrow> bool" where
  "jobsBal acc s W rn dr \<longleftrightarrow> mset acc = mset (queued s) + mset (held W) + mset rn + mset dr
     \<and> s_inflight s = int (length (held W))"

lemma jobs_ok_bal:
  "jobs_ok \<sigma> \<longleftrightarrow> jobsBal (sy_accepted \<sigma>) (sy_sched \<sigma>) (sy_workers \<sigma>) (sy_ran \<sigma>) (sy_dropped \<sigma>)"
  by (simp add: jobs_ok_def jobsBal_def)

lemma jobsBal_sched:
  "jobsBal acc s W rn dr \<Longrightarrow> s_shards s' = s_shards s \<Longrightarrow> s_inflight s' = s_inflight s \<Longrightarrow>
    jobsBal acc s' W rn dr"
  by (simp add: jobsBal_def queued_def)

lemma jobsBal_worker:
  "jobsBal acc s W rn dr \<Longrightarrow> w < length W \<Longrightarrow> remaining x = remaining (W ! w) \<Longrightarrow>
    jobsBal acc s (W[w := x]) rn dr"
  using held_same [of w W x] by (simp add: jobsBal_def)

lemma jobsBal_admitted:
  assumes "jobsBal acc s W rn dr" "admitted s job r s'"
  shows "r = Inl e \<Longrightarrow> jobsBal acc s' W rn dr" "r = Inr (i, b) \<Longrightarrow> jobsBal (acc @ [job]) s' W rn dr"
proof -
  show "r = Inl e \<Longrightarrow> jobsBal acc s' W rn dr" using assms by (auto simp: admitted_def intro: jobsBal_sched)
  assume "r = Inr (i, b)"
  then have a: "appended s s' i job" using assms(2) by (simp add: admitted_def)
  show "jobsBal (acc @ [job]) s' W rn dr"
    using assms(1) appended_queued [OF a] appended_frame [OF a] by (simp add: jobsBal_def)
qed

lemma submitStep_jobs:
  assumes st: "submitStep \<sigma> \<sigma>'" and wf: "sched_wf (sy_sched \<sigma>)" and ok: "jobs_ok \<sigma>"
  shows "jobs_ok \<sigma>'"
  using st wf
proof (cases rule: submitStep_admitted)
  case (rejected job e s')
  then show ?thesis using jobsBal_admitted(1) [OF ok [unfolded jobs_ok_bal] rejected(1)] by (simp add: jobs_ok_bal)
next
  case (quiet job i s')
  then show ?thesis using jobsBal_admitted(2) [OF ok [unfolded jobs_ok_bal] quiet(1) refl] by (simp add: jobs_ok_bal)
next
  case (wakes job p s')
  then show ?thesis using jobsBal_admitted(2) [OF ok [unfolded jobs_ok_bal] wakes(1) refl] by (simp add: jobs_ok_bal)
qed

lemma workStep_jobs:
  assumes st: "workStep \<sigma> \<sigma>'" and wf: "sched_wf (sy_sched \<sigma>)" and ok: "jobs_ok \<sigma>"
  shows "jobs_ok \<sigma>'"
  using st
proof cases
  case (receive w i rest)
  have "jobsBal (sy_accepted \<sigma>) (sy_sched \<sigma>) ((sy_workers \<sigma>)[w := WGot i]) (sy_ran \<sigma>) (sy_dropped \<sigma>)"
    using jobsBal_worker [OF ok [unfolded jobs_ok_bal] receive(2)] receive(3) by simp
  then show ?thesis using receive(1) by (simp add: jobs_ok_bal jobsBal_def queued_def)
next
  case (collect w i pc s' batch hm)
  note c = collectPhase_ok [OF wf collect(4,5)]
  let ?s = "sy_sched \<sigma>"
  let ?cs = "laneContents (s_shards ?s ! i)" and ?qs = "qps_laneQuotas (s_quotaPolicy ?s)"
  have "length ?qs \<le> length ?cs"
    using sched_wfD(6,8) [OF wf] collect(4) by (simp add: shards_ok_def)
  then have b: "mset batch + mset (concat (laneContents (s_shards s' ! i))) = mset (concat ?cs)"
    unfolding c(2,3) by (rule mset_batch_rest)
  have "mset (queued s') + mset (concat ?cs)
      = mset (queued ?s) + mset (concat (laneContents (s_shards s' ! i)))"
    by (rule queued_update) (use collect(4) c(6,7) in auto)
  then have "mset (queued s') + mset batch + mset (concat (laneContents (s_shards s' ! i)))
      = mset (queued ?s) + mset (concat (laneContents (s_shards s' ! i)))"
    unfolding b [symmetric] by (simp only: add.assoc)
  then have q: "mset (queued ?s) = mset (queued s') + mset batch" by simp
  have h: "mset (held ((sy_workers \<sigma>)[w := WCollected i batch hm])) = mset (held (sy_workers \<sigma>)) + mset batch"
      "length (held ((sy_workers \<sigma>)[w := WCollected i batch hm])) = length (held (sy_workers \<sigma>)) + length batch"
    using held_update [OF collect(2), of "WCollected i batch hm"] collect(3) by simp_all
  show ?thesis
    using ok collect(1) q h c(9) by (simp add: jobs_ok_bal jobsBal_def ac_simps)
next
  case (observe w i batch hm now)
  have "keeps (sy_sched \<sigma>) (observeBatch i batch now (sy_sched \<sigma>))" by (rule keeps_observeBatch)
  then have "jobsBal (sy_accepted \<sigma>) (observeBatch i batch now (sy_sched \<sigma>)) (sy_workers \<sigma>) (sy_ran \<sigma>)
      (sy_dropped \<sigma>)"
    using jobsBal_sched [OF ok [unfolded jobs_ok_bal]] by (simp add: keeps_def)
  then show ?thesis using jobsBal_worker [OF _ observe(2)] observe(1,3) by (simp add: jobs_ok_bal)
next
  case (run_job w i job rest hm st en err fin)
  have dr: "drained i 1 (sy_sched \<sigma>) (snd (runJob i job st en err fin (sy_sched \<sigma>)))" by (rule runJob_drained)
  have h: "mset (held (sy_workers \<sigma>)) = mset (held ((sy_workers \<sigma>)[w := WBatch i rest hm])) + {#job#}"
      "length (held (sy_workers \<sigma>)) = length (held ((sy_workers \<sigma>)[w := WBatch i rest hm])) + 1"
    using held_update [OF run_job(2), of "WBatch i rest hm"] run_job(3) by simp_all
  show ?thesis
    using ok run_job(1) h dr by (simp add: jobs_ok_bal jobsBal_def drained_def queued_def)
next
  case (end_batch w i hm)
  then show ?thesis using ok jobsBal_worker [OF _ end_batch(2)] by (simp add: jobs_ok_bal)
next
  case (requeue_send w i)
  have "jobsBal (sy_accepted \<sigma>) (sy_sched \<sigma>) ((sy_workers \<sigma>)[w := WIdle]) (sy_ran \<sigma>) (sy_dropped \<sigma>)"
    using jobsBal_worker [OF ok [unfolded jobs_ok_bal] requeue_send(2)] requeue_send(3) by simp
  then show ?thesis using requeue_send(1) by (simp add: jobs_ok_bal jobsBal_def queued_def sendReady_def)
qed (use ok in \<open>simp_all add: jobs_ok_def queued_def sendReady_def\<close>)

lemma controlStep_jobs:
  assumes st: "controlStep d \<sigma> \<sigma>'" and wf: "sched_wf (sy_sched \<sigma>)" and ok: "jobs_ok \<sigma>"
  shows "jobs_ok \<sigma>'"
  using st
proof cases
  case (exit_worker w)
  then show ?thesis using ok jobsBal_worker [OF _ exit_worker(3)] by (simp add: jobs_ok_bal)
next
  case (skip_bad_id w i)
  then show ?thesis using ok jobsBal_worker [OF _ skip_bad_id(3)] by (simp add: jobs_ok_bal)
next
  case (drop_batch w i rest hm)
  have dr: "drained i (length rest) (sy_sched \<sigma>) (cancelRest i rest (sy_sched \<sigma>))" by (rule cancelRest_drained)
  have h: "mset (held (sy_workers \<sigma>)) = mset (held ((sy_workers \<sigma>)[w := WBatch i [] hm])) + mset rest"
      "length (held (sy_workers \<sigma>)) = length (held ((sy_workers \<sigma>)[w := WBatch i [] hm])) + length rest"
    using held_update [OF drop_batch(3), of "WBatch i [] hm"] drop_batch(4) by simp_all
  show ?thesis
    using ok drop_batch(2) h dr by (simp add: jobs_ok_bal jobsBal_def drained_def queued_def ac_simps)
next
  case (requeue_ctx_done w i)
  then show ?thesis using ok jobsBal_worker [OF _ requeue_ctx_done(3)] by (simp add: jobs_ok_bal)
next
  case (start s')
  have "held (replicate n WIdle) = []" for n by (induction n) simp_all
  then show ?thesis
    using ok start by (auto simp: jobs_ok_bal jobsBal_def queued_def Start_def split: if_splits)
next
  case (begin_stop s')
  then show ?thesis using ok by (auto simp: jobs_ok_def queued_def beginStop_def split: if_splits)
next
  case (update_quota policy r s')
  from update_quota(3) show ?thesis
  proof (cases rule: UpdateQuotaPolicy_cases)
    case (1 e)
    then show ?thesis using ok update_quota(2) by simp
  next
    case (2 snap)
    then show ?thesis using ok update_quota(2) by (simp add: jobs_ok_bal jobsBal_def queued_def)
  qed
qed (use ok in \<open>simp_all add: jobs_ok_def queued_def sendReady_def finishStop_def\<close>)

lemma step_jobs:
  assumes st: "step d \<sigma> \<sigma>'" and wf: "sched_wf (sy_sched \<sigma>)" and ok: "jobs_ok \<sigma>"
  shows "jobs_ok \<sigma>'"
  using st
proof cases
  case (side s')
  then have "keeps (sy_sched \<sigma>) s'" using sideCall_keeps by simp
  then show ?thesis using side jobsBal_sched [OF ok [unfolded jobs_ok_bal]] by (simp add: jobs_ok_bal keeps_def)
qed (use wf ok submitStep_jobs workStep_jobs controlStep_jobs in blast)+



subsection \<open>Reachable states\<close>

lemma step_inv [inv_intros]:
  assumes "step d \<sigma> \<sigma>'" "sys_inv \<sigma>"
  shows "sys_inv \<sigma>'"
proof -
  have i: "sched_wf (sy_sched \<sigma>)" "tokens_le \<sigma>" "jobs_ok \<sigma>" using assms(2) by (simp_all add: sys_inv_def)
  have "tokens_le \<sigma>'"
    unfolding tokens_le_def using effect_le [OF step_effect [OF assms(1) i(1,2)]] i(2)
    by (simp add: tokens_le_def)
  then show ?thesis using step_wf [OF assms(1) i(1)] step_jobs [OF assms(1) i(1,3)] by (simp add: sys_inv_def)
qed

lemma step_tokens_eq:
  assumes "step False \<sigma> \<sigma>'" "sys_inv \<sigma>" "tokens_eq \<sigma>"
  shows "tokens_eq \<sigma>'"
proof -
  have i: "sched_wf (sy_sched \<sigma>)" "tokens_le \<sigma>" using assms(2) by (simp_all add: sys_inv_def)
  show ?thesis
    unfolding tokens_eq_def using effect_eq [OF step_effect [OF assms(1) i]] assms(3)
    by (simp add: tokens_eq_def)
qed

lemma reaches_inv:
  assumes "reaches drops \<sigma> \<sigma>'" "sys_inv \<sigma>"
  shows "sys_inv \<sigma>'"
  using assms by (induction rule: reaches.induct) (auto intro: step_inv)

lemma reaches_tokens_eq:
  assumes "reaches False \<sigma> \<sigma>'" "sys_inv \<sigma>" "tokens_eq \<sigma>"
  shows "tokens_eq \<sigma>'"
  using assms
proof (induction "False" \<sigma> \<sigma>' rule: reaches.induct)
  case (reaches_step \<sigma> \<sigma>' d \<sigma>'')
  then show ?case using step_tokens_eq reaches_inv by (metis (full_types))
qed simp

text \<open>A new scheduler satisfies the invariant.\<close>

lemma init_inv:
  assumes "NewScheduler shardCount workerCount queueSize reg = Some s" "reg_wf reg"
    "Len reg \<le> 65536" "0 < shardCount" "shardCount < 2 ^ 64"
  shows "sys_inv (initSys s)" "tokens_eq (initSys s)"
proof -
  have parts: "s_shards s = map (\<lambda>i. newShard (Len reg) queueSize) [0..<shardCount]"
      "s_ReadyCh s = []" "s_inflight s = 0"
    using assms(1) by (auto simp: NewScheduler_def Let_def split: option.splits)
  have ready: "readyOf s = (\<lambda>_. 0)"
    by (rule ext) (simp add: readyOf_def parts newShard_def)
  have tk: "tokens (initSys s) = (\<lambda>_. 0)" by (rule ext) (simp add: tokens_def initSys_def parts)
  have "laneContents (newShard (Len reg) queueSize) = replicate (Len reg) []"
    by (auto intro!: nth_equalityI simp: laneContents_def newShard_def)
  then have "queued s = []" by (simp add: queued_def parts)
  then show "sys_inv (initSys s)"
    using NewScheduler_wf [OF assms] tk ready parts(3)
    by (simp add: sys_inv_def tokens_le_def jobs_ok_def initSys_def)
  show "tokens_eq (initSys s)" using tk ready by (simp add: tokens_eq_def initSys_def)
qed

text \<open>The state \<open>New\<close> hands out: registry, scheduler, observability and hot-key configuration.\<close>

definition builtSys ::
  "nat \<Rightarrow> int \<Rightarrow> nat \<Rightarrow> int go_map \<Rightarrow> ObservabilityConfig \<Rightarrow> HotKeyConfig \<Rightarrow> sysState option" where
  "builtSys shardCount workerCount queueSize quotas obs hk =
     (case NewLaneRegistry quotas of
        Inl e \<Rightarrow> None
      | Inr reg \<Rightarrow> map_option (\<lambda>s. initSys (ConfigureHotKey hk (s\<lparr>s_Obs := obs\<rparr>)))
                    (NewScheduler shardCount workerCount queueSize reg))"

lemma built_inv:
  assumes "builtSys shardCount workerCount queueSize quotas obs hk = Some \<sigma>"
    "distinct (map fst quotas)" "length quotas \<le> 65536" "0 < shardCount" "shardCount < 2 ^ 63"
  shows "sys_inv \<sigma>" "tokens_eq \<sigma>"
proof -
  obtain reg s where r: "NewLaneRegistry quotas = Inr reg"
      "NewScheduler shardCount workerCount queueSize reg = Some s"
      and \<sigma>: "\<sigma> = initSys (ConfigureHotKey hk (s\<lparr>s_Obs := obs\<rparr>))"
    using assms(1) by (auto simp: builtSys_def split: sum.splits)
  have "Len reg = length quotas" using NewLaneRegistry_fields(1) [OF r(1) assms(2)] by (simp add: Len_def)
  then have i: "sys_inv (initSys s)" "tokens_eq (initSys s)"
    using init_inv [OF r(2) NewLaneRegistry_wf [OF r(1) assms(2)]] assms(3-5) by simp_all
  have wf: "sched_wf (ConfigureHotKey hk (s\<lparr>s_Obs := obs\<rparr>))"
    using i(1) by (intro ConfigureHotKey_wf) (simp add: sys_inv_def initSys_def sched_wf_def trackers_ok_def)
  have same: "s_shards (ConfigureHotKey hk (s\<lparr>s_Obs := obs\<rparr>)) = s_shards s"
      "s_ReadyCh (ConfigureHotKey hk (s\<lparr>s_Obs := obs\<rparr>)) = s_ReadyCh s"
      "s_inflight (ConfigureHotKey hk (s\<lparr>s_Obs := obs\<rparr>)) = s_inflight s"
    by (simp_all add: ConfigureHotKey_def Let_def)
  show "sys_inv \<sigma>" "tokens_eq \<sigma>"
    using i wf same
    by (simp_all add: \<sigma> sys_inv_def tokens_le_def tokens_eq_def jobs_ok_def initSys_def tokens_def
        readyOf_def queued_def)
qed

end
