(* ===== verification/Scheduler_Runs.thy ===== *)
theory Scheduler_Runs
  imports Scheduler_Steps
begin

text \<open>
  Consequences of the step relation over whole runs: a shard without a token stays asleep, queues only shrink
  once the scheduler is stopping, and the workers finish every accepted job when nothing is given up.
\<close>

subsection \<open>One shard along a step\<close>

abbreviation shardQueue :: "sysState \<Rightarrow> nat \<Rightarrow> InternalJob list" where
  "shardQueue \<sigma> i \<equiv> concat (laneContents (s_shards (sy_sched \<sigma>) ! i))"

lemma admitted_shard:
  assumes "admitted s job r s'" "i < length (s_shards s)"
  shows "mset (concat (laneContents (s_shards s ! i))) \<subseteq># mset (concat (laneContents (s_shards s' ! i)))"
    and "stoppingOrStopped s \<Longrightarrow> s_shards s' = s_shards s"
proof -
  show "mset (concat (laneContents (s_shards s ! i))) \<subseteq># mset (concat (laneContents (s_shards s' ! i)))"
  proof (cases r)
    case (Inl e)
    then show ?thesis using assms by (simp add: admitted_def)
  next
    case (Inr p)
    then obtain k b where a: "appended s s' k job" using assms by (auto simp: admitted_def split: prod.splits)
    show ?thesis
    proof (cases "k = i")
      case True
      then show ?thesis
        using a concat_update_append [of "unat (job_LaneID job)" "laneContents (s_shards s ! i)" job]
        by (simp add: appended_def Let_def)
    next
      case False
      then show ?thesis using a assms(2) by (simp add: appended_def)
    qed
  qed
  show "s_shards s' = s_shards s" if "stoppingOrStopped s"
    using assms(1) that by (cases r) (auto simp: admitted_def)
qed

lemma submitStep_shard:
  assumes st: "submitStep \<sigma> \<sigma>'" and wf: "sched_wf (sy_sched \<sigma>)" and i: "i < length (s_shards (sy_sched \<sigma>))"
    and no: "WGot i \<notin> set (sy_workers \<sigma>)"
  shows "mset (shardQueue \<sigma> i) \<subseteq># mset (shardQueue \<sigma>' i)"
  using st wf by (rule submitStep_admitted) (use admitted_shard(1) [OF _ i] in auto)

lemma workStep_shard:
  assumes st: "workStep \<sigma> \<sigma>'" and wf: "sched_wf (sy_sched \<sigma>)" and i: "i < length (s_shards (sy_sched \<sigma>))"
    and no: "WGot i \<notin> set (sy_workers \<sigma>)"
  shows "mset (shardQueue \<sigma> i) \<subseteq># mset (shardQueue \<sigma>' i)"
  using st
proof cases
  case (collect w k pc s' batch hm)
  then have "k \<noteq> i" using no nth_mem by metis
  then show ?thesis using collectPhase_ok(6) [OF wf collect(4,5), of i] collect(1) by simp
next
  case (observe w k batch hm now)
  have "keeps (sy_sched \<sigma>) (observeBatch k batch now (sy_sched \<sigma>))" by (rule keeps_observeBatch)
  then show ?thesis using observe(1) by (simp add: keeps_def)
next
  case (run_job w k job rest hm st en err fin)
  have "drained k 1 (sy_sched \<sigma>) (snd (runJob k job st en err fin (sy_sched \<sigma>)))" by (rule runJob_drained)
  then show ?thesis using run_job(1) by (simp add: drained_def)
qed (simp_all add: sendReady_def)

lemma controlStep_shard:
  assumes st: "controlStep d \<sigma> \<sigma>'" and wf: "sched_wf (sy_sched \<sigma>)" and i: "i < length (s_shards (sy_sched \<sigma>))"
    and no: "WGot i \<notin> set (sy_workers \<sigma>)"
  shows "mset (shardQueue \<sigma> i) \<subseteq># mset (shardQueue \<sigma>' i)"
  using st
proof cases
  case (drop_batch w k rest hm)
  have "drained k (length rest) (sy_sched \<sigma>) (cancelRest k rest (sy_sched \<sigma>))" by (rule cancelRest_drained)
  then show ?thesis using drop_batch(2) by (simp add: drained_def)
next
  case (start s')
  then show ?thesis by (auto simp: Start_def split: if_splits)
next
  case (begin_stop s')
  then show ?thesis by (auto simp: beginStop_def split: if_splits)
next
  case (update_quota policy r s')
  from update_quota(3) show ?thesis
    by (cases rule: UpdateQuotaPolicy_cases) (simp_all add: update_quota(2))
qed (simp_all add: sendReady_def finishStop_def)

lemma step_shard:
  assumes st: "step d \<sigma> \<sigma>'" and wf: "sched_wf (sy_sched \<sigma>)" and i: "i < length (s_shards (sy_sched \<sigma>))"
    and no: "WGot i \<notin> set (sy_workers \<sigma>)"
  shows "mset (shardQueue \<sigma> i) \<subseteq># mset (shardQueue \<sigma>' i)"
  using st
proof cases
  case (side s')
  then have "keeps (sy_sched \<sigma>) s'" using sideCall_keeps by simp
  then show ?thesis using side by (simp add: keeps_def)
qed (use wf i no submitStep_shard workStep_shard controlStep_shard in blast)+



subsection \<open>A shard without a token stays asleep\<close>

definition asleep :: "sysState \<Rightarrow> nat \<Rightarrow> bool" where
  "asleep \<sigma> i \<longleftrightarrow> i < length (s_shards (sy_sched \<sigma>)) \<and> sh_Ready (s_shards (sy_sched \<sigma>) ! i) \<and> tokens \<sigma> i = 0"

lemma effect_asleep:
  assumes "effect d T R T' R'" "T i = 0" "R i = 1" "R' i \<le> 1"
  shows "T' i = 0 \<and> R' i = 1"
  using assms(1) unfolding effect_def
proof (elim disjE exE conjE)
  fix k assume *: "\<forall>j. T j = T' j + (if k = j then 1 else 0) \<and> R j = R' j + (if k = j then 1 else 0)"
  show ?thesis using *[rule_format, of i] assms(2-4) by (cases "k = i") simp_all
next
  fix k assume *: "\<forall>j. T' j = T j + (if k = j then 1 else 0) \<and> R' j = R j + (if k = j then 1 else 0)"
  show ?thesis using *[rule_format, of i] assms(2-4) by (cases "k = i") simp_all
next
  fix k assume *: "\<forall>j. T j = T' j + (if k = j then 1 else 0) \<and> R' j = R j"
  show ?thesis using *[rule_format, of i] assms(2-4) by (cases "k = i") simp_all
qed (use assms in auto)

lemma readyOf_le: "readyOf s i \<le> 1"
  by (simp add: readyOf_def)

lemma asleep_no_worker:
  assumes "asleep \<sigma> i"
  shows "WGot i \<notin> set (sy_workers \<sigma>)"
proof
  assume "WGot i \<in> set (sy_workers \<sigma>)"
  moreover have "\<forall>wk \<in> set (sy_workers \<sigma>). workerToken i wk = 0"
    using assms by (simp add: asleep_def tokens_def)
  ultimately have "workerToken i (WGot i) = 0" by (rule bspec [rotated])
  then show False by simp
qed

lemma step_asleep:
  assumes "step d \<sigma> \<sigma>'" "sys_inv \<sigma>" "asleep \<sigma> i"
  shows "asleep \<sigma>' i \<and> mset (shardQueue \<sigma> i) \<subseteq># mset (shardQueue \<sigma>' i)"
proof -
  have inv: "sched_wf (sy_sched \<sigma>)" "tokens_le \<sigma>" using assms(2) by (simp_all add: sys_inv_def)
  note e = step_effect [OF assms(1) inv]
  have "tokens \<sigma> i = 0" "readyOf (sy_sched \<sigma>) i = 1"
    using assms(3) by (simp_all add: asleep_def readyOf_def)
  then have "tokens \<sigma>' i = 0 \<and> readyOf (sy_sched \<sigma>') i = 1"
    by (rule effect_asleep [OF e _ _ readyOf_le])
  moreover have "mset (shardQueue \<sigma> i) \<subseteq># mset (shardQueue \<sigma>' i)"
    using step_shard [OF assms(1) inv(1) _ asleep_no_worker [OF assms(3)]] assms(3)
    by (simp add: asleep_def)
  ultimately show ?thesis by (simp add: asleep_def readyOf_def split: if_splits)
qed

lemma reaches_asleep:
  assumes "reaches drops \<sigma> \<sigma>'" "sys_inv \<sigma>" "asleep \<sigma> i"
  shows "asleep \<sigma>' i \<and> mset (shardQueue \<sigma> i) \<subseteq># mset (shardQueue \<sigma>' i)"
  using assms
proof (induction rule: reaches.induct)
  case (reaches_step drops \<sigma> \<sigma>' d \<sigma>'')
  then have "sys_inv \<sigma>'" using reaches_inv by blast
  then show ?case
    using step_asleep [OF reaches_step.hyps(2)] reaches_step by (meson subset_mset.order_trans)
qed simp

subsection \<open>Draining\<close>

lemma hasWork_queue:
  assumes "sched_wf (sy_sched \<sigma>)" "i < length (s_shards (sy_sched \<sigma>))"
  shows "hasWorkLocked (s_shards (sy_sched \<sigma>) ! i) \<longleftrightarrow> shardQueue \<sigma> i \<noteq> []"
  using sched_wfD(8) [OF assms(1)] assms(2) by (simp add: shards_ok_def hasWorkLocked_contents)

text \<open>Once the scheduler is stopping nothing is queued any more: queues only shrink.\<close>

definition shrunk :: "sysState \<Rightarrow> sysState \<Rightarrow> bool" where
  "shrunk \<sigma> \<sigma>' \<longleftrightarrow> stoppingOrStopped (sy_sched \<sigma>') \<and>
     length (s_shards (sy_sched \<sigma>')) = length (s_shards (sy_sched \<sigma>)) \<and>
     (\<forall>i < length (s_shards (sy_sched \<sigma>)). mset (shardQueue \<sigma>' i) \<subseteq># mset (shardQueue \<sigma> i))"

lemma submitStep_stopping:
  assumes st: "submitStep \<sigma> \<sigma>'" and wf: "sched_wf (sy_sched \<sigma>)" and stp: "stoppingOrStopped (sy_sched \<sigma>)"
  shows "shrunk \<sigma> \<sigma>'"
  using st
  by cases (use stp in \<open>auto simp: shrunk_def Enqueue_def TryEnqueue_def Let_def split: if_splits\<close>)

lemma workStep_stopping:
  assumes st: "workStep \<sigma> \<sigma>'" and wf: "sched_wf (sy_sched \<sigma>)" and stp: "stoppingOrStopped (sy_sched \<sigma>)"
  shows "shrunk \<sigma> \<sigma>'"
  using st
proof cases
  case (collect w k pc s' batch hm)
  note c = collectPhase_ok [OF wf collect(4,5)]
  let ?s = "sy_sched \<sigma>"
  have len: "length (qps_laneQuotas (s_quotaPolicy ?s)) \<le> length (laneContents (s_shards ?s ! k))"
    using sched_wfD(6,8) [OF wf] collect(4) by (simp add: shards_ok_def)
  have "mset (concat (laneContents (s_shards s' ! k))) \<subseteq># mset (shardQueue \<sigma> k)"
    unfolding c(3) mset_batch_rest [OF len, symmetric] by simp
  then have "mset (shardQueue \<sigma>' i) \<subseteq># mset (shardQueue \<sigma> i)" for i
    using c(6) [of i] collect(1) by (cases "i = k") simp_all
  then show ?thesis unfolding shrunk_def using collect(1) c(7,10) stp by simp
next
  case (observe w k batch hm now)
  have "keeps (sy_sched \<sigma>) (observeBatch k batch now (sy_sched \<sigma>))" by (rule keeps_observeBatch)
  then show ?thesis unfolding shrunk_def using observe(1) stp by (simp add: keeps_def)
next
  case (run_job w k job rest hm st en err fin)
  have "drained k 1 (sy_sched \<sigma>) (snd (runJob k job st en err fin (sy_sched \<sigma>)))" by (rule runJob_drained)
  then show ?thesis unfolding shrunk_def using run_job(1) stp by (simp add: drained_def)
qed (use stp in \<open>simp_all add: shrunk_def sendReady_def\<close>)

lemma controlStep_stopping:
  assumes st: "controlStep d \<sigma> \<sigma>'" and wf: "sched_wf (sy_sched \<sigma>)" and stp: "stoppingOrStopped (sy_sched \<sigma>)"
  shows "shrunk \<sigma> \<sigma>'"
  using st
proof cases
  case (drop_batch w k rest hm)
  have "drained k (length rest) (sy_sched \<sigma>) (cancelRest k rest (sy_sched \<sigma>))" by (rule cancelRest_drained)
  then show ?thesis unfolding shrunk_def using drop_batch(2) stp by (simp add: drained_def)
next
  case (start s')
  then show ?thesis unfolding shrunk_def using stp by (auto simp: Start_def split: if_splits)
next
  case (begin_stop s')
  then show ?thesis unfolding shrunk_def using stp by (auto simp: beginStop_def split: if_splits)
next
  case (update_quota policy r s')
  from update_quota(3) show ?thesis
    by (cases rule: UpdateQuotaPolicy_cases) (use stp in \<open>auto simp: shrunk_def update_quota(2)\<close>)
qed (use stp in \<open>auto simp: shrunk_def finishStop_def\<close>)

lemma step_stopping:
  assumes st: "step d \<sigma> \<sigma>'" and wf: "sched_wf (sy_sched \<sigma>)" and stp: "stoppingOrStopped (sy_sched \<sigma>)"
  shows "shrunk \<sigma> \<sigma>'"
  using st
proof cases
  case (side s')
  then have "keeps (sy_sched \<sigma>) s'" using sideCall_keeps by simp
  then show ?thesis unfolding shrunk_def using side stp by (simp add: shrunk_def keeps_def)
qed (use wf stp submitStep_stopping workStep_stopping controlStep_stopping in blast)+

lemma shrunk_trans:
  assumes "shrunk a b" "shrunk b c"
  shows "shrunk a c"
proof -
  note ab = assms(1) [unfolded shrunk_def] and bc = assms(2) [unfolded shrunk_def]
  have len: "length (s_shards (sy_sched b)) = length (s_shards (sy_sched a))" using ab by blast
  have "mset (shardQueue c i) \<subseteq># mset (shardQueue a i)" if "i < length (s_shards (sy_sched a))" for i
  proof (rule subset_mset.order_trans)
    show "mset (shardQueue c i) \<subseteq># mset (shardQueue b i)" using bc that unfolding len by blast
    show "mset (shardQueue b i) \<subseteq># mset (shardQueue a i)" using ab that by blast
  qed
  then show ?thesis unfolding shrunk_def using bc len by metis
qed

lemma reaches_stopping:
  assumes "reaches drops \<sigma> \<sigma>'" "sys_inv \<sigma>" "stoppingOrStopped (sy_sched \<sigma>)"
  shows "shrunk \<sigma> \<sigma>'"
  using assms
proof (induction rule: reaches.induct)
  case (reaches_step drops \<sigma> \<sigma>' d \<sigma>'')
  then have i: "sched_wf (sy_sched \<sigma>')" using reaches_inv by (simp add: sys_inv_def)
  have IH: "shrunk \<sigma> \<sigma>'" using reaches_step by blast
  then have "stoppingOrStopped (sy_sched \<sigma>')" by (simp add: shrunk_def)
  then show ?case using shrunk_trans [OF IH] step_stopping [OF reaches_step.hyps(2) i] by blast
qed (simp add: shrunk_def)

lemma queued_empty_iff:
  "queued s = [] \<longleftrightarrow> (\<forall>i < length (s_shards s). concat (laneContents (s_shards s ! i)) = [])"
  by (auto simp: queued_def all_set_conv_all_nth)

text \<open>Nothing is dropped unless the worker context is done.\<close>

lemma step_dropped:
  assumes "step d \<sigma> \<sigma>'"
  shows "(sy_ctxDone \<sigma> \<longrightarrow> sy_ctxDone \<sigma>') \<and> (\<not> sy_ctxDone \<sigma> \<longrightarrow> sy_dropped \<sigma>' = sy_dropped \<sigma>)"
  using assms
proof cases
  case submit
  from submit(2) show ?thesis by cases simp_all
next
  case work
  from work(2) show ?thesis by cases simp_all
next
  case control
  from control show ?thesis by cases simp_all
qed simp

lemma reaches_dropped:
  assumes "reaches drops \<sigma> \<sigma>'" "\<not> sy_ctxDone \<sigma>'"
  shows "\<not> sy_ctxDone \<sigma> \<and> sy_dropped \<sigma>' = sy_dropped \<sigma>"
  using assms
proof (induction rule: reaches.induct)
  case (reaches_step drops \<sigma> \<sigma>' d \<sigma>'')
  then show ?case using step_dropped [OF reaches_step.hyps(2)] by auto
qed simp

subsection \<open>Where a token is\<close>

lemma token_place:
  assumes "tokens \<sigma> i = 1"
  shows "i \<in> set (s_ReadyCh (sy_sched \<sigma>)) \<or> (\<exists>p \<in> set (sy_pending \<sigma>). senderShard p = i)
    \<or> (\<exists>wk \<in> set (sy_workers \<sigma>). workerToken i wk = 1)"
proof (rule ccontr)
  assume n: "\<not> ?thesis"
  have le: "workerToken i wk \<le> 1" for wk by (cases wk) simp_all
  then have "workerToken i wk = 0" if "wk \<in> set (sy_workers \<sigma>)" for wk
    using n that le [of wk] by (metis le_neq_implies_less less_one)
  then have "sum_list (map (workerToken i) (sy_workers \<sigma>)) = 0" by simp
  moreover have "count_list (s_ReadyCh (sy_sched \<sigma>)) i = 0" "count_list (map senderShard (sy_pending \<sigma>)) i = 0"
    using n by (auto simp: count_list_0_iff)
  ultimately show False using assms by (simp only: tokens_def)
qed

lemma tokens_le_channel:
  assumes "tokens_le \<sigma>"
  shows "distinct (s_ReadyCh (sy_sched \<sigma>))
    \<and> (\<forall>i \<in> set (s_ReadyCh (sy_sched \<sigma>)). i < length (s_shards (sy_sched \<sigma>)))"
proof -
  let ?R = "s_ReadyCh (sy_sched \<sigma>)"
  have c: "count_list ?R i \<le> readyOf (sy_sched \<sigma>) i" for i
    using assms [unfolded tokens_le_def, rule_format, of i] by (simp add: tokens_def)
  have "i < length (s_shards (sy_sched \<sigma>))" if "i \<in> set ?R" for i
    using c [of i] that count_list_0_iff [of ?R i] by (simp add: readyOf_def split: if_splits)
  moreover have "count_list ?R i \<le> 1" for i using c [of i] readyOf_le [of "sy_sched \<sigma>" i] by simp
  then have "distinct ?R" by (intro distinct_countI)
  ultimately show ?thesis by blast
qed

lemma tokens_outside:
  assumes "sy_pending \<sigma> \<noteq> [] \<or> (\<exists>i. WRequeue i \<in> set (sy_workers \<sigma>))"
  shows "\<exists>i. count_list (s_ReadyCh (sy_sched \<sigma>)) i < tokens \<sigma> i"
  using assms
proof
  assume "sy_pending \<sigma> \<noteq> []"
  then obtain p ps where "sy_pending \<sigma> = p # ps" by (cases "sy_pending \<sigma>") auto
  then show ?thesis by (intro exI [of _ "senderShard p"]) (simp add: tokens_def)
next
  assume "\<exists>i. WRequeue i \<in> set (sy_workers \<sigma>)"
  then obtain i where "WRequeue i \<in> set (sy_workers \<sigma>)" by blast
  from elem_le_sum_list_nat [OF this, of "workerToken i"] show ?thesis
    by (intro exI [of _ i]) (simp add: tokens_def)
qed

lemma dropped_sender_asleep:
  assumes "tokens_le \<sigma>" "k < length (sy_pending \<sigma>)" "senderShard (sy_pending \<sigma> ! k) = i"
  shows "asleep (\<sigma>\<lparr>sy_pending := removeAt k (sy_pending \<sigma>)\<rparr>) i"
proof -
  let ?d = "\<sigma>\<lparr>sy_pending := removeAt k (sy_pending \<sigma>)\<rparr>"
  have "tokens ?d i + 1 = tokens \<sigma> i"
    using tok_drop [OF assms(2), of "s_ReadyCh (sy_sched \<sigma>)" "sy_workers \<sigma>" i] assms(3) by (simp add: tokens_tok)
  moreover have "tokens \<sigma> i \<le> readyOf (sy_sched \<sigma>) i" using assms(1) by (simp add: tokens_le_def)
  ultimately show ?thesis by (simp add: asleep_def readyOf_def split: if_splits)
qed

subsection \<open>The drain scan\<close>

text \<open>
  \<open>isDrained\<close> is not atomic: it reads the in-flight counter, then one shard after the other under its
  lock, then the counter again, while workers go on. \<open>scanned k \<sigma> \<sigma>'\<close>: a scan begun in \<open>\<sigma>\<close> has found the
  first \<open>k\<close> shards empty, and the system is now in \<open>\<sigma>'\<close>.
\<close>

inductive scanned :: "nat \<Rightarrow> sysState \<Rightarrow> sysState \<Rightarrow> bool" where
  scan_start: "s_inflight (sy_sched \<sigma>) = 0 \<Longrightarrow> scanned 0 \<sigma> \<sigma>"
| scan_wait: "scanned k \<sigma> \<sigma>' \<Longrightarrow> step d \<sigma>' \<sigma>'' \<Longrightarrow> scanned k \<sigma> \<sigma>''"
| scan_shard: "scanned k \<sigma> \<sigma>' \<Longrightarrow> k < length (s_shards (sy_sched \<sigma>')) \<Longrightarrow>
    \<not> hasWorkLocked (s_shards (sy_sched \<sigma>') ! k) \<Longrightarrow> scanned (Suc k) \<sigma> \<sigma>'"

definition scanDrained :: "sysState \<Rightarrow> sysState \<Rightarrow> bool" where
  "scanDrained \<sigma> \<sigma>' \<longleftrightarrow> scanned (length (s_shards (sy_sched \<sigma>'))) \<sigma> \<sigma>' \<and> s_inflight (sy_sched \<sigma>') = 0"

lemma scanned_reaches: "scanned k \<sigma> \<sigma>' \<Longrightarrow> reaches True \<sigma> \<sigma>'"
  by (induction rule: scanned.induct) (auto intro: reaches.intros)

lemma scanned_empty:
  assumes "scanned k \<sigma> \<sigma>'" "sys_inv \<sigma>" "stoppingOrStopped (sy_sched \<sigma>)" "i < k"
  shows "i < length (s_shards (sy_sched \<sigma>')) \<and> shardQueue \<sigma>' i = []"
  using assms
proof (induction arbitrary: i rule: scanned.induct)
  case (scan_wait k \<sigma> \<sigma>' d \<sigma>'')
  have r: "reaches True \<sigma> \<sigma>'" by (rule scanned_reaches [OF scan_wait.hyps(1)])
  have wf: "sched_wf (sy_sched \<sigma>')" using reaches_inv [OF r scan_wait.prems(1)] by (simp add: sys_inv_def)
  have "stoppingOrStopped (sy_sched \<sigma>')"
    using reaches_stopping [OF r scan_wait.prems(1,2)] by (simp add: shrunk_def)
  then have sh: "shrunk \<sigma>' \<sigma>''" by (rule step_stopping [OF scan_wait.hyps(2) wf])
  have IH: "i < length (s_shards (sy_sched \<sigma>'))" "shardQueue \<sigma>' i = []"
    using scan_wait.IH [OF scan_wait.prems] by blast+
  then have "mset (shardQueue \<sigma>'' i) \<subseteq># mset []" using sh by (metis shrunk_def)
  then have "shardQueue \<sigma>'' i = []" by (metis mset_zero_iff subset_mset.le_zero_eq mset.simps(1))
  then show ?case using IH(1) sh by (metis shrunk_def)
next
  case (scan_shard k \<sigma> \<sigma>')
  have r: "reaches True \<sigma> \<sigma>'" by (rule scanned_reaches [OF scan_shard.hyps(1)])
  have wf: "sched_wf (sy_sched \<sigma>')" using reaches_inv [OF r scan_shard.prems(1)] by (simp add: sys_inv_def)
  have "shardQueue \<sigma>' k = []" using hasWork_queue [OF wf scan_shard.hyps(2)] scan_shard.hyps(3) by blast
  then show ?case
    using scan_shard.IH [OF scan_shard.prems(1,2), of i] scan_shard.hyps(2) scan_shard.prems(3) less_Suc_eq
    by (cases "i = k") blast+
qed simp

lemma scanDrained_empty:
  assumes "scanDrained \<sigma> \<sigma>'" "sys_inv \<sigma>" "stoppingOrStopped (sy_sched \<sigma>)"
  shows "queued (sy_sched \<sigma>') = []" "concat (map remaining (sy_workers \<sigma>')) = []"
    "mset (sy_accepted \<sigma>') = mset (sy_ran \<sigma>') + mset (sy_dropped \<sigma>')"
proof -
  have sc: "scanned (length (s_shards (sy_sched \<sigma>'))) \<sigma> \<sigma>'" and z: "s_inflight (sy_sched \<sigma>') = 0"
    using assms(1) by (simp_all add: scanDrained_def)
  show q: "queued (sy_sched \<sigma>') = []"
    unfolding queued_empty_iff using scanned_empty [OF sc assms(2,3)] by blast
  have "sys_inv \<sigma>'" by (rule reaches_inv [OF scanned_reaches [OF sc] assms(2)])
  then have j: "jobs_ok \<sigma>'" by (simp add: sys_inv_def)
  then show h: "concat (map remaining (sy_workers \<sigma>')) = []" using z by (simp only: jobs_ok_def) simp
  show "mset (sy_accepted \<sigma>') = mset (sy_ran \<sigma>') + mset (sy_dropped \<sigma>')"
    using j q h by (simp only: jobs_ok_def) simp
qed

subsection \<open>Progress\<close>

text \<open>
  A weight that every \<open>workStep\<close> lowers. A queued job weighs 6, a job held by a worker 1, and a token
  weighs by how far it is from being spent; a pass that puts its token back has taken at least one job.
\<close>

fun workerWeight :: "worker \<Rightarrow> nat" where
  "workerWeight (WGot i) = 4"
| "workerWeight (WCollected i batch hm) = (if hm then 8 else 3) + length batch"
| "workerWeight (WBatch i batch hm) = (if hm then 7 else 2) + length batch"
| "workerWeight (WRequeue i) = 6"
| "workerWeight _ = 0"

definition weight :: "sysState \<Rightarrow> nat" where
  "weight \<sigma> = 6 * length (queued (sy_sched \<sigma>)) + 6 * length (sy_pending \<sigma>)
     + 5 * length (s_ReadyCh (sy_sched \<sigma>)) + sum_list (map workerWeight (sy_workers \<sigma>))"

lemma weight_worker:
  assumes "w < length W"
  shows "sum_list (map workerWeight (W[w := x])) + workerWeight (W ! w)
    = sum_list (map workerWeight W) + workerWeight x"
  by (rule sum_list_update_nat [OF assms])

lemma length_removeAt: "k < length xs \<Longrightarrow> Suc (length (removeAt k xs)) = length xs"
  by (simp add: removeAt_def)

text \<open>A pass over a shard with work takes at least one job: every quota is positive.\<close>

lemma batchOf_nonempty:
  assumes "length quotas = length cs" "\<And>q. q \<in> set quotas \<Longrightarrow> 1 \<le> q" "batchOf quotas cs = []"
  shows "concat cs = []"
  using assms
proof (induction quotas cs rule: list_induct2)
  case (Cons q qs c cs)
  then have "take (nat q) c = []" "1 \<le> q" by simp_all
  then have "c = []" by (cases c) (auto simp: take_Cons split: nat.splits)
  then show ?case using Cons by simp
qed simp

lemma collect_queued:
  assumes wf: "sched_wf s" and i: "i < length (s_shards s)"
    and res: "collectPhase pc i s = (s', batch, hm)"
  shows "mset (queued s) = mset (queued s') + mset batch" "hm \<Longrightarrow> batch \<noteq> []"
proof -
  note c = collectPhase_ok [OF wf i res]
  let ?cs = "laneContents (s_shards s ! i)" and ?qs = "qps_laneQuotas (s_quotaPolicy s)"
  have len: "length ?qs = length ?cs"
    using sched_wfD(6,8) [OF wf] i by (simp add: shards_ok_def)
  have b: "mset batch + mset (concat (laneContents (s_shards s' ! i))) = mset (concat ?cs)"
    unfolding c(2,3) using len by (intro mset_batch_rest) simp
  have "mset (queued s') + mset (concat ?cs) = mset (queued s) + mset (concat (laneContents (s_shards s' ! i)))"
    by (rule queued_update) (use i c(6,7) in auto)
  then show "mset (queued s) = mset (queued s') + mset batch"
    unfolding b [symmetric] by (simp add: ac_simps)
  show "batch \<noteq> []" if hm
  proof
    assume "batch = []"
    then have "concat ?cs = []"
      using batchOf_nonempty [OF len] sched_wfD(7) [OF wf] c(2) by simp
    then have "mset (concat (laneContents (s_shards s' ! i))) = {#}" using b by (metis mset_zero_iff add_is_0 union_eq_empty)
    then have "concat (laneContents (s_shards s' ! i)) = []" by (simp only: mset_zero_iff)
    then show False using c(3,4) that by simp
  qed
qed

lemma workStep_weight:
  assumes "workStep \<sigma> \<sigma>'" "sched_wf (sy_sched \<sigma>)"
  shows "weight \<sigma>' < weight \<sigma>"
  using assms(1)
proof cases
  case (send k)
  then show ?thesis
    using length_removeAt [OF send(2)] by (simp add: weight_def sendReady_def queued_def)
next
  case (receive w i rest)
  then show ?thesis using weight_worker [OF receive(2), of "WGot i"] by (simp add: weight_def queued_def)
next
  case (collect w i pc s' batch hm)
  note q = collect_queued [OF assms(2) collect(4,5)]
  have "length (queued (sy_sched \<sigma>)) = length (queued s') + length batch"
    using arg_cong [OF q(1), of size] by simp
  moreover have "hm \<Longrightarrow> 1 \<le> length batch" using q(2) by (simp add: Suc_leI)
  moreover have "s_ReadyCh s' = s_ReadyCh (sy_sched \<sigma>)"
    by (rule collectPhase_ok(8) [OF assms(2) collect(4,5)])
  ultimately show ?thesis
    using weight_worker [OF collect(2), of "WCollected i batch hm"] collect(1,3)
    by (cases hm) (simp_all add: weight_def)
next
  case (observe w i batch hm now)
  have "keeps (sy_sched \<sigma>) (observeBatch i batch now (sy_sched \<sigma>))" by (rule keeps_observeBatch)
  then show ?thesis
    using weight_worker [OF observe(2), of "WBatch i batch hm"] observe(1,3)
    by (simp add: weight_def queued_def keeps_def split: if_splits)
next
  case (run_job w i job rest hm st en err fin)
  have "drained i 1 (sy_sched \<sigma>) (snd (runJob i job st en err fin (sy_sched \<sigma>)))" by (rule runJob_drained)
  then show ?thesis
    using weight_worker [OF run_job(2), of "WBatch i rest hm"] run_job(1,3)
    by (simp add: weight_def queued_def drained_def)
next
  case (end_batch w i hm)
  then show ?thesis
    using weight_worker [OF end_batch(2), of "if hm then WRequeue i else WIdle"]
    by (cases hm) (simp_all add: weight_def)
next
  case (requeue_send w i)
  then show ?thesis
    using weight_worker [OF requeue_send(2), of WIdle] by (simp add: weight_def queued_def sendReady_def)
qed

text \<open>Workers that have not left and have nothing to do: there is nothing left to do.\<close>

definition manned :: "sysState \<Rightarrow> bool" where
  "manned \<sigma> \<longleftrightarrow> sy_workers \<sigma> \<noteq> [] \<and> WExited \<notin> set (sy_workers \<sigma>)"

definition quiescent :: "sysState \<Rightarrow> bool" where
  "quiescent \<sigma> \<longleftrightarrow> (\<forall>\<sigma>'. \<not> workStep \<sigma> \<sigma>')"

lemma workerToken_le:
  assumes "tokens_le \<sigma>" "w < length (sy_workers \<sigma>)" "workerToken i (sy_workers \<sigma> ! w) = 1"
  shows "i < length (s_shards (sy_sched \<sigma>))" "count_list (s_ReadyCh (sy_sched \<sigma>)) i < tokens \<sigma> i"
proof -
  have "1 \<le> sum_list (map (workerToken i) (sy_workers \<sigma>))"
    using elem_le_sum_list_nat [of "sy_workers \<sigma> ! w" "sy_workers \<sigma>" "workerToken i"] assms(2,3) by simp
  then show c: "count_list (s_ReadyCh (sy_sched \<sigma>)) i < tokens \<sigma> i" by (simp add: tokens_def)
  then show "i < length (s_shards (sy_sched \<sigma>))"
    using assms(1) [unfolded tokens_le_def, rule_format, of i] by (simp add: readyOf_def split: if_splits)
qed

lemma quiescent_no_pending:
  assumes "sys_inv \<sigma>" "quiescent \<sigma>"
  shows "sy_pending \<sigma> = []"
proof (rule ccontr)
  assume "sy_pending \<sigma> \<noteq> []"
  then have k: "0 < length (sy_pending \<sigma>)" by simp
  let ?i = "senderShard (sy_pending \<sigma> ! 0)"
  have "?i \<in> set (map senderShard (sy_pending \<sigma>))" using k by simp
  then have "0 < count_list (map senderShard (sy_pending \<sigma>)) ?i"
    using count_list_0_iff by (metis gr0I)
  then have "count_list (s_ReadyCh (sy_sched \<sigma>)) ?i < tokens \<sigma> ?i" by (simp add: tokens_def)
  then have "length (s_ReadyCh (sy_sched \<sigma>)) < readyCap (sy_sched \<sigma>)"
    using assms(1) by (intro readyCh_room) (simp_all add: sys_inv_def)
  then show False using workStep.send [OF k] assms(2) by (auto simp: quiescent_def)
qed

lemma quiescent_idle:
  assumes inv: "sys_inv \<sigma>" and q: "quiescent \<sigma>" and w: "w < length (sy_workers \<sigma>)"
  shows "sy_workers \<sigma> ! w = WIdle \<or> sy_workers \<sigma> ! w = WExited"
proof (cases "sy_workers \<sigma> ! w")
  case (WGot i)
  have "i < length (s_shards (sy_sched \<sigma>))"
    using workerToken_le(1) [OF _ w] inv WGot by (simp add: sys_inv_def)
  then have "\<exists>\<sigma>'. workStep \<sigma> \<sigma>'"
    using workStep.collect [OF w WGot] by (metis prod_cases3)
  then show ?thesis using q by (simp add: quiescent_def)
next
  case (WCollected i batch hm)
  then show ?thesis using workStep.observe [OF w] q by (auto simp: quiescent_def)
next
  case (WBatch i batch hm)
  then show ?thesis
    using workStep.run_job [OF w] workStep.end_batch [OF w] q by (cases batch) (auto simp: quiescent_def)
next
  case (WRequeue i)
  have "length (s_ReadyCh (sy_sched \<sigma>)) < readyCap (sy_sched \<sigma>)"
    using workerToken_le(2) [OF _ w, of i] inv WRequeue by (intro readyCh_room [of _ i]) (simp_all add: sys_inv_def)
  then show ?thesis using workStep.requeue_send [OF w WRequeue] q by (auto simp: quiescent_def)
qed simp_all

lemma quiescent_done:
  assumes inv: "sys_inv \<sigma>" and eq: "tokens_eq \<sigma>" and man: "manned \<sigma>" and q: "quiescent \<sigma>"
  shows "queued (sy_sched \<sigma>) = []" "concat (map remaining (sy_workers \<sigma>)) = []"
proof -
  have idle: "wk = WIdle" if wk: "wk \<in> set (sy_workers \<sigma>)" for wk
    using quiescent_idle [OF inv q] man wk by (auto simp: in_set_conv_nth manned_def)
  then have "remaining wk = []" if "wk \<in> set (sy_workers \<sigma>)" for wk using that by fastforce
  then show "concat (map remaining (sy_workers \<sigma>)) = []" by simp
  have w0: "0 < length (sy_workers \<sigma>)" "sy_workers \<sigma> ! 0 = WIdle"
    using man idle by (simp_all add: manned_def)
  then have "s_ReadyCh (sy_sched \<sigma>) = []"
    using workStep.receive [OF w0] q by (cases "s_ReadyCh (sy_sched \<sigma>)") (auto simp: quiescent_def)
  moreover have "workerToken i wk = 0" if "wk \<in> set (sy_workers \<sigma>)" for wk i using idle [OF that] by simp
  then have "sum_list (map (workerToken i) (sy_workers \<sigma>)) = 0" for i by simp
  ultimately have "tokens \<sigma> i = 0" for i using quiescent_no_pending [OF inv q] by (simp add: tokens_def)
  then have nr: "readyOf (sy_sched \<sigma>) i = 0" for i using eq by (simp add: tokens_eq_def)
  have wf: "sched_wf (sy_sched \<sigma>)" using inv by (simp add: sys_inv_def)
  have "shardQueue \<sigma> i = []" if i: "i < length (s_shards (sy_sched \<sigma>))" for i
  proof (rule ccontr)
    assume "shardQueue \<sigma> i \<noteq> []"
    then have "hasWorkLocked (s_shards (sy_sched \<sigma>) ! i)" using hasWork_queue [OF wf i] by blast
    then have "sh_Ready (s_shards (sy_sched \<sigma>) ! i)" using sched_wfD(8) [OF wf] i by (simp add: shards_ok_def)
    then show False using nr [of i] i by (simp add: readyOf_def)
  qed
  then show "queued (sy_sched \<sigma>) = []" unfolding queued_empty_iff by blast
qed

lemma manned_update:
  "manned \<sigma> \<Longrightarrow> x \<noteq> WExited \<Longrightarrow> sy_workers \<sigma>' = (sy_workers \<sigma>)[w := x] \<Longrightarrow> manned \<sigma>'"
  by (auto simp: manned_def dest: set_update_subset_insert [THEN subsetD])

lemma workStep_frame:
  assumes "workStep \<sigma> \<sigma>'"
  shows "manned \<sigma> \<Longrightarrow> manned \<sigma>'" "sy_accepted \<sigma>' = sy_accepted \<sigma>" "sy_dropped \<sigma>' = sy_dropped \<sigma>"
proof -
  have "manned \<sigma>'" if m: "manned \<sigma>"
    using assms
  proof cases
    case (send k)
    then show ?thesis using m by (simp add: manned_def)
  next
    case (end_batch w i hm)
    then show ?thesis by (intro manned_update [OF m, where x = "if hm then WRequeue i else WIdle"]) simp_all
  qed (rule manned_update [OF m]; simp)+
  then show "manned \<sigma> \<Longrightarrow> manned \<sigma>'" .
  show "sy_accepted \<sigma>' = sy_accepted \<sigma>" "sy_dropped \<sigma>' = sy_dropped \<sigma>"
    using assms by (cases; simp)+
qed

lemma work_run:
  assumes "workStep\<^sup>*\<^sup>* \<sigma> \<sigma>'" "sys_inv \<sigma>" "tokens_eq \<sigma>" "manned \<sigma>"
  shows "sys_inv \<sigma>' \<and> tokens_eq \<sigma>' \<and> manned \<sigma>' \<and> sy_accepted \<sigma>' = sy_accepted \<sigma> \<and> sy_dropped \<sigma>' = sy_dropped \<sigma>"
  using assms
proof (induction rule: rtranclp_induct)
  case (step \<sigma>1 \<sigma>2)
  then show ?case
    using step_inv [OF step.work] step_tokens_eq [OF step.work] workStep_frame [OF step.hyps(2)] by simp
qed simp

lemma work_bounded:
  assumes "(workStep ^^ n) \<sigma> \<sigma>'" "sys_inv \<sigma>"
  shows "n + weight \<sigma>' \<le> weight \<sigma> \<and> sys_inv \<sigma>'"
  using assms(1)
proof (induction n arbitrary: \<sigma>')
  case (Suc n)
  then obtain \<sigma>1 where s: "(workStep ^^ n) \<sigma> \<sigma>1" "workStep \<sigma>1 \<sigma>'" by auto
  have "weight \<sigma>' < weight \<sigma>1"
    using workStep_weight [OF s(2)] Suc.IH [OF s(1)] by (simp add: sys_inv_def)
  then show ?case using Suc.IH [OF s(1)] step_inv [OF step.work [OF s(2)]] by simp
qed (use assms(2) in simp)

lemma work_completes:
  assumes "sys_inv \<sigma>"
  shows "\<exists>\<sigma>'. workStep\<^sup>*\<^sup>* \<sigma> \<sigma>' \<and> quiescent \<sigma>'"
  using assms
proof (induction "weight \<sigma>" arbitrary: \<sigma> rule: less_induct)
  case less
  show ?case
  proof (cases "quiescent \<sigma>")
    case True
    then show ?thesis by blast
  next
    case False
    then obtain \<sigma>1 where s: "workStep \<sigma> \<sigma>1" by (auto simp: quiescent_def)
    have "sys_inv \<sigma>1" by (rule step_inv [OF step.work [OF s] less.prems])
    moreover have "weight \<sigma>1 < weight \<sigma>" using workStep_weight [OF s] less.prems by (simp add: sys_inv_def)
    ultimately show ?thesis using less.hyps s by (meson converse_rtranclp_into_rtranclp)
  qed
qed

end
