(* ===== verification/Stats_GCPressure.thy ===== *)
theory Stats_GCPressure
  imports Scheduler_Facts
begin

text \<open>
  The snapshot of \<open>internal/core/stats_gc_pressure.go\<close>: one pass over the shards that fills the per-shard
  rows, the per-lane sums and the totals, and one pass over the lanes. The sums wrap at 64 bits as in the code;
  the lane index is the sixteen-bit \<open>LaneID\<close>.
\<close>

subsection \<open>Snapshot types\<close>

record LaneDepthGCPressure =
  ld_LaneID :: u16
  ld_Queued :: u64

record ShardStatsGCPressure =
  ssg_ShardID :: u32
  ssg_Queued :: u64
  ssg_InFlight :: u64
  ssg_Capacity :: u64
  ssg_QueueWait :: DurationStats
  ssg_Run :: DurationStats
  ssg_PerLane :: "LaneDepthGCPressure list"

record LaneStatsGCPressure =
  lsg_LaneID :: u16
  lsg_Name :: string
  lsg_Queued :: u64
  lsg_InFlight :: u64
  lsg_Capacity :: u64
  lsg_Counters :: LaneCountersGCPressure
  lsg_QueueWait :: DurationStats
  lsg_Run :: DurationStats

record StatsGCPressureSnapshot =
  gcs_Version :: string
  gcs_ShardCount :: nat
  gcs_LaneCount :: nat
  gcs_WorkerCount :: int
  gcs_TotalQueued :: u64
  gcs_TotalInFlight :: u64
  gcs_QueueWait :: DurationStats
  gcs_Run :: DurationStats
  gcs_Shards :: "ShardStatsGCPressure list"
  gcs_Lanes :: "LaneStatsGCPressure list"

definition StatsGCPressureVersion :: string where
  "StatsGCPressureVersion = ''5''"

definition zeroStats :: DurationStats where
  "zeroStats = \<lparr>ds_Count = 0, ds_TotalNanos = 0, ds_MaxNanos = 0\<rparr>"

definition emptyStatsGCPressureSnapshot :: "Scheduler \<Rightarrow> StatsGCPressureSnapshot" where
  "emptyStatsGCPressureSnapshot s =
     \<lparr>gcs_Version = StatsGCPressureVersion, gcs_ShardCount = length (s_shards s),
      gcs_LaneCount = Len (s_laneReg s), gcs_WorkerCount = s_workerCount s, gcs_TotalQueued = 0,
      gcs_TotalInFlight = 0, gcs_QueueWait = zeroStats, gcs_Run = zeroStats, gcs_Shards = [], gcs_Lanes = []\<rparr>"

subsection \<open>The passes\<close>

text \<open>The sums of the outer loop: \<open>laneQueued\<close>, \<open>laneCapacity\<close>, \<open>totalQueued\<close>, \<open>totalInFlight\<close>.\<close>

record gcSums =
  sum_laneQueued :: "u64 list"
  sum_laneCapacity :: "u64 list"
  sum_totalQueued :: u64
  sum_totalInFlight :: u64

text \<open>The inner loop over the lanes of one shard from lane \<open>j\<close> on.\<close>

fun shardLanesPass :: "nat \<Rightarrow> nat \<Rightarrow> laneQueue list \<Rightarrow> LaneDepthGCPressure list \<times> u64 \<times> u64 \<Rightarrow> gcSums \<Rightarrow>
   (LaneDepthGCPressure list \<times> u64 \<times> u64) \<times> gcSums" where
  "shardLanesPass laneCount j [] row acc = (row, acc)"
| "shardLanesPass laneCount j (q # qs) row acc =
     (let (perLane, shardQueued, shardCapacity) = row;
          laneID = (of_nat j :: LaneID); d = of_nat (depth q); c = of_nat (capacity q); l = unat laneID;
          row' = (perLane @ [\<lparr>ld_LaneID = laneID, ld_Queued = d\<rparr>], shardQueued + d, shardCapacity + c);
          acc' = (if l < laneCount
                   then acc\<lparr>sum_laneQueued := (sum_laneQueued acc)[l := sum_laneQueued acc ! l + d],
                             sum_laneCapacity := (sum_laneCapacity acc)[l := sum_laneCapacity acc ! l + c]\<rparr>
                   else acc)
      in shardLanesPass laneCount (Suc j) qs row' acc')"

definition shardPass :: "Scheduler \<Rightarrow> nat \<Rightarrow> gcSums \<Rightarrow> ShardStatsGCPressure \<times> gcSums" where
  "shardPass s i acc =
     (let ((perLane, shardQueued, shardCapacity), acc1) =
            shardLanesPass (Len (s_laneReg s)) 0 (sh_Lanes (s_shards s ! i)) ([], 0, 0) acc;
          shardInflight = word_of_int (s_shardInflight s ! i)
      in (\<lparr>ssg_ShardID = of_nat i, ssg_Queued = shardQueued, ssg_InFlight = shardInflight,
           ssg_Capacity = shardCapacity, ssg_QueueWait = accumSnapshot (s_shardQueueWait s ! i),
           ssg_Run = accumSnapshot (s_shardRunDuration s ! i), ssg_PerLane = perLane\<rparr>,
          acc1\<lparr>sum_totalQueued := sum_totalQueued acc1 + shardQueued,
                sum_totalInFlight := sum_totalInFlight acc1 + shardInflight\<rparr>))"

fun shardsPass :: "Scheduler \<Rightarrow> nat list \<Rightarrow> gcSums \<Rightarrow> ShardStatsGCPressure list \<times> gcSums" where
  "shardsPass s [] acc = ([], acc)"
| "shardsPass s (i # is) acc =
     (let (row, acc1) = shardPass s i acc; (rows, acc2) = shardsPass s is acc1 in (row # rows, acc2))"

definition laneRow :: "Scheduler \<Rightarrow> gcSums \<Rightarrow> nat \<Rightarrow> LaneStatsGCPressure" where
  "laneRow s acc i =
     \<lparr>lsg_LaneID = of_nat i, lsg_Name = Name (s_laneReg s) (of_nat i), lsg_Queued = sum_laneQueued acc ! i,
      lsg_InFlight = word_of_int (s_laneInflight s ! i), lsg_Capacity = sum_laneCapacity acc ! i,
      lsg_Counters = snapshotGCPressure (s_laneCounters s ! i),
      lsg_QueueWait = snapshotGCPressureQueueWait (s_laneCounters s ! i),
      lsg_Run = snapshotGCPressureRun (s_laneCounters s ! i)\<rparr>"

definition StatsGCPressure :: "Scheduler \<Rightarrow> StatsGCPressureSnapshot" where
  "StatsGCPressure s =
     (if \<not> obs_EnableStats (s_Obs s) then emptyStatsGCPressureSnapshot s
      else let laneCount = Len (s_laneReg s);
               (shards, acc) = shardsPass s [0..<length (s_shards s)]
                 \<lparr>sum_laneQueued = replicate laneCount 0, sum_laneCapacity = replicate laneCount 0,
                  sum_totalQueued = 0, sum_totalInFlight = 0\<rparr>
           in \<lparr>gcs_Version = StatsGCPressureVersion, gcs_ShardCount = length (s_shards s),
               gcs_LaneCount = laneCount, gcs_WorkerCount = s_workerCount s,
               gcs_TotalQueued = sum_totalQueued acc, gcs_TotalInFlight = sum_totalInFlight acc,
               gcs_QueueWait = accumSnapshot (s_queueWaitGlobal s),
               gcs_Run = accumSnapshot (s_runDurationGlobal s), gcs_Shards = shards,
               gcs_Lanes = map (laneRow s acc) [0..<laneCount]\<rparr>)"

subsection \<open>What the passes compute\<close>

text \<open>\<open>addAt\<close> is the effect of the inner loop on a lane table: entry by entry addition.\<close>

abbreviation addTables :: "u64 list \<Rightarrow> u64 list \<Rightarrow> u64 list" where
  "addTables xs ys \<equiv> map2 (+) xs ys"

lemma addTables_step:
  assumes "j < length xs" "length ys = length xs - Suc j"
  shows "take (Suc j) (xs[j := xs ! j + d]) @ addTables (drop (Suc j) (xs[j := xs ! j + d])) ys
    = take j xs @ addTables (drop j xs) (d # ys)"
  using assms by (simp add: take_Suc_conv_app_nth Cons_nth_drop_Suc [symmetric] nth_append)

lemma shardLanesPass_eq:
  assumes "shardLanesPass n j qs (pl, a, b) acc = ((pl', a', b'), acc')"
    "j + length qs = n" "n \<le> 65536" "length (sum_laneQueued acc) = n" "length (sum_laneCapacity acc) = n"
  shows "a' = a + sum_list (map (\<lambda>q. of_nat (depth q)) qs) \<and> b' = b + sum_list (map (\<lambda>q. of_nat (capacity q)) qs)
    \<and> pl' = pl @ map (\<lambda>(k, q). \<lparr>ld_LaneID = of_nat k, ld_Queued = of_nat (depth q)\<rparr>) (zip [j..<n] qs)
    \<and> acc' = acc\<lparr>sum_laneQueued := take j (sum_laneQueued acc)
          @ addTables (drop j (sum_laneQueued acc)) (map (\<lambda>q. of_nat (depth q)) qs),
        sum_laneCapacity := take j (sum_laneCapacity acc)
          @ addTables (drop j (sum_laneCapacity acc)) (map (\<lambda>q. of_nat (capacity q)) qs)\<rparr>"
  using assms
proof (induction qs arbitrary: j pl a b acc)
  case Nil
  then show ?case by simp
next
  case (Cons q qs)
  have j: "unat (of_nat j :: LaneID) = j" "j < n" using Cons.prems(2,3) by (simp_all add: unat_of_nat)
  let ?s = "acc\<lparr>sum_laneQueued := (sum_laneQueued acc)[j := sum_laneQueued acc ! j + of_nat (depth q)],
     sum_laneCapacity := (sum_laneCapacity acc)[j := sum_laneCapacity acc ! j + of_nat (capacity q)]\<rparr>"
  have step: "shardLanesPass n (Suc j) qs (pl @ [\<lparr>ld_LaneID = of_nat j, ld_Queued = of_nat (depth q)\<rparr>],
      a + of_nat (depth q), b + of_nat (capacity q)) ?s = ((pl', a', b'), acc')"
    using Cons.prems(1) j by (simp add: Let_def)
  have up: "[j..<n] = j # [Suc j..<n]" using j(2) by (rule upt_conv_Cons)
  note ih = Cons.IH [OF step]
  have len: "length (map (\<lambda>q. of_nat (depth q) :: u64) qs) = n - Suc j" using Cons.prems(2) by simp
  show ?case
    using ih Cons.prems(2-5) addTables_step [of j "sum_laneQueued acc" "map (\<lambda>q. of_nat (depth q)) qs"]
      addTables_step [of j "sum_laneCapacity acc" "map (\<lambda>q. of_nat (capacity q)) qs"] len
    by (simp add: up add.assoc)
qed

lemma sum_addTables:
  fixes xs ys :: "u64 list"
  shows "length xs = length ys \<Longrightarrow> sum_list (addTables xs ys) = sum_list xs + sum_list ys"
  by (induction xs ys rule: list_induct2) (simp_all add: algebra_simps)

abbreviation depthRow :: "shard \<Rightarrow> u64 list" where
  "depthRow sh \<equiv> map (\<lambda>q. of_nat (depth q)) (sh_Lanes sh)"

lemma shardPass_eq:
  assumes "shardPass s i acc = (row, acc')" "length (sh_Lanes (s_shards s ! i)) = Len (s_laneReg s)"
    "Len (s_laneReg s) \<le> 65536" "length (sum_laneQueued acc) = Len (s_laneReg s)"
    "length (sum_laneCapacity acc) = Len (s_laneReg s)"
  shows "ssg_Queued row = sum_list (depthRow (s_shards s ! i)) \<and> ssg_InFlight row = word_of_int (s_shardInflight s ! i)
    \<and> map ld_Queued (ssg_PerLane row) = depthRow (s_shards s ! i)
    \<and> sum_laneQueued acc' = addTables (sum_laneQueued acc) (depthRow (s_shards s ! i))
    \<and> length (sum_laneCapacity acc') = Len (s_laneReg s)
    \<and> sum_totalQueued acc' = sum_totalQueued acc + ssg_Queued row
    \<and> sum_totalInFlight acc' = sum_totalInFlight acc + ssg_InFlight row"
proof -
  obtain pl a b acc1 where p: "shardLanesPass (Len (s_laneReg s)) 0 (sh_Lanes (s_shards s ! i)) ([], 0, 0) acc = ((pl, a, b), acc1)"
    by (metis prod.collapse)
  have z: "map (ld_Queued \<circ> (\<lambda>(k, q). \<lparr>ld_LaneID = of_nat k, ld_Queued = of_nat (depth q)\<rparr>))
      (zip [0..<Len (s_laneReg s)] (sh_Lanes (s_shards s ! i))) = depthRow (s_shards s ! i)"
    using assms(2) by (intro nth_equalityI) simp_all
  show ?thesis
    using shardLanesPass_eq [OF p] assms z by (auto simp: shardPass_def p Let_def)
qed

lemma shardsPass_eq:
  assumes "shardsPass s is acc = (rows, acc')" "\<forall>i \<in> set is. length (sh_Lanes (s_shards s ! i)) = Len (s_laneReg s)"
    "Len (s_laneReg s) \<le> 65536" "length (sum_laneQueued acc) = Len (s_laneReg s)"
    "length (sum_laneCapacity acc) = Len (s_laneReg s)"
  shows "map ssg_Queued rows = map (\<lambda>i. sum_list (depthRow (s_shards s ! i))) is
    \<and> map ssg_InFlight rows = map (\<lambda>i. word_of_int (s_shardInflight s ! i)) is
    \<and> length (sum_laneQueued acc') = Len (s_laneReg s)
    \<and> sum_list (sum_laneQueued acc') = sum_list (sum_laneQueued acc) + sum_list (map ssg_Queued rows)
    \<and> sum_totalQueued acc' = sum_totalQueued acc + sum_list (map ssg_Queued rows)
    \<and> sum_totalInFlight acc' = sum_totalInFlight acc + sum_list (map ssg_InFlight rows)
    \<and> (\<forall>l < Len (s_laneReg s). sum_laneQueued acc' ! l
        = sum_laneQueued acc ! l + sum_list (map (\<lambda>i. depthRow (s_shards s ! i) ! l) is))"
  using assms
proof (induction "is" arbitrary: acc rows acc')
  case Nil
  then show ?case by simp
next
  case (Cons i "is")
  obtain row acc1 where p: "shardPass s i acc = (row, acc1)" by (metis prod.collapse)
  obtain rs acc2 where r: "shardsPass s is acc1 = (rs, acc2)" by (metis prod.collapse)
  have e: "rows = row # rs" "acc' = acc2" using Cons.prems(1) by (simp_all add: p r)
  have li: "length (sh_Lanes (s_shards s ! i)) = Len (s_laneReg s)" using Cons.prems(2) by simp
  note f = shardPass_eq [OF p li Cons.prems(3-5)]
  have l1: "length (sum_laneQueued acc1) = Len (s_laneReg s)" using f Cons.prems(4) li by simp
  note ih = Cons.IH [OF r _ Cons.prems(3) l1]
  show ?case
    using ih f Cons.prems(2,4) li by (simp add: e sum_addTables algebra_simps)
qed

lemma depthRow_contents: "list_all lq_wf (sh_Lanes sh) \<Longrightarrow> depthRow sh = map (\<lambda>c. of_nat (length c)) (laneContents sh)"
  by (auto simp: laneContents_def depth_def lq_list_length list_all_iff)

lemma sum_list_of_nat: "sum_list (map (\<lambda>x. of_nat (f x)) xs) = (of_nat (sum_list (map f xs)) :: 'a :: semiring_1)"
  by (induction xs) simp_all

lemma map_upt_nth: "map (\<lambda>i. g (xs ! i)) [0..<length xs] = map g xs"
  by (intro nth_equalityI) simp_all

lemma StatsGCPressure_fields:
  assumes "sched_wf s" "Len (s_laneReg s) \<le> 65536" "obs_EnableStats (s_Obs s)"
  shows "map ssg_Queued (gcs_Shards (StatsGCPressure s)) = map (\<lambda>sh. sum_list (depthRow sh)) (s_shards s)
    \<and> gcs_TotalQueued (StatsGCPressure s) = sum_list (map ssg_Queued (gcs_Shards (StatsGCPressure s)))
    \<and> gcs_TotalQueued (StatsGCPressure s) = sum_list (map lsg_Queued (gcs_Lanes (StatsGCPressure s)))
    \<and> gcs_TotalInFlight (StatsGCPressure s) = sum_list (map ssg_InFlight (gcs_Shards (StatsGCPressure s)))
    \<and> map ssg_InFlight (gcs_Shards (StatsGCPressure s)) = map word_of_int (s_shardInflight s)
    \<and> map lsg_Queued (gcs_Lanes (StatsGCPressure s))
      = map (\<lambda>l. sum_list (map (\<lambda>sh. depthRow sh ! l) (s_shards s))) [0..<Len (s_laneReg s)]"
proof -
  let ?n = "Len (s_laneReg s)" and ?is = "[0..<length (s_shards s)]"
  let ?z = "\<lparr>sum_laneQueued = replicate ?n 0, sum_laneCapacity = replicate ?n 0, sum_totalQueued = 0, sum_totalInFlight = 0\<rparr>"
  obtain rows acc where r: "shardsPass s ?is ?z = (rows, acc)" by (metis prod.collapse)
  have lanes: "\<forall>i \<in> set ?is. length (sh_Lanes (s_shards s ! i)) = ?n"
    using sched_wfD(8) [OF assms(1)] by (simp add: shards_ok_def)
  note f = shardsPass_eq [OF r lanes assms(2)]
  have st: "gcs_Shards (StatsGCPressure s) = rows" "gcs_TotalQueued (StatsGCPressure s) = sum_totalQueued acc"
    "gcs_TotalInFlight (StatsGCPressure s) = sum_totalInFlight acc"
    "gcs_Lanes (StatsGCPressure s) = map (laneRow s acc) [0..<?n]"
    using assms(3) r by (simp_all add: StatsGCPressure_def Let_def)
  have z: "sum_list (replicate ?n 0 :: u64 list) = 0" by (simp add: sum_list_replicate)
  have l: "length (sum_laneQueued acc) = ?n" using f by simp
  have "map lsg_Queued (gcs_Lanes (StatsGCPressure s)) = map ((!) (sum_laneQueued acc)) [0..<?n]"
    by (simp add: st laneRow_def comp_def)
  then have q: "map lsg_Queued (gcs_Lanes (StatsGCPressure s)) = sum_laneQueued acc"
    using map_nth [of "sum_laneQueued acc"] l by simp
  have e: "sum_laneQueued acc = map (\<lambda>l. sum_list (map (\<lambda>sh. depthRow sh ! l) (s_shards s))) [0..<?n]"
    using f map_upt_nth [of "\<lambda>sh. depthRow sh ! l" "s_shards s" for l] l by (intro nth_equalityI) simp_all
  have i: "map ssg_InFlight rows = map word_of_int (s_shardInflight s)"
    using f map_upt_nth [of "word_of_int :: int \<Rightarrow> u64" "s_shardInflight s"] sched_wfD(3) [OF assms(1)] by simp
  have a: "map ssg_Queued rows = map (\<lambda>sh. sum_list (depthRow sh)) (s_shards s)"
    using f map_upt_nth [of "\<lambda>sh. sum_list (depthRow sh)" "s_shards s"] by simp
  have t: "sum_totalQueued acc = sum_list (map ssg_Queued rows)" "sum_totalInFlight acc = sum_list (map ssg_InFlight rows)"
    "sum_list (sum_laneQueued acc) = sum_list (map ssg_Queued rows)"
    using f z by simp_all
  show ?thesis
    unfolding q st(1-3) by (intro conjI a t i e) (simp only: t)
qed

lemma TotalQueued_eq:
  assumes "sched_wf s" "Len (s_laneReg s) \<le> 65536" "obs_EnableStats (s_Obs s)"
  shows "gcs_TotalQueued (StatsGCPressure s)
    = of_nat (length (concat (map (\<lambda>sh. concat (laneContents sh)) (s_shards s))))"
proof -
  have d: "sum_list (depthRow sh) = of_nat (length (concat (laneContents sh)))" if "sh \<in> set (s_shards s)" for sh
  proof -
    have "list_all lq_wf (sh_Lanes sh)"
      using that sched_wfD(8) [OF assms(1)] by (auto simp: in_set_conv_nth shards_ok_def shard_wf_def)
    from depthRow_contents [OF this] show ?thesis
      by (simp add: sum_list_of_nat length_concat comp_def)
  qed
  have "gcs_TotalQueued (StatsGCPressure s) = sum_list (map (\<lambda>sh. sum_list (depthRow sh)) (s_shards s))"
    using StatsGCPressure_fields [OF assms] by metis
  also have "\<dots> = sum_list (map (\<lambda>sh. of_nat (length (concat (laneContents sh)))) (s_shards s))"
    using d by (simp cong: map_cong)
  also have "\<dots> = of_nat (length (concat (map (\<lambda>sh. concat (laneContents sh)) (s_shards s))))"
    by (simp only: sum_list_of_nat length_concat map_map comp_def)
  finally show ?thesis .
qed

end
