(* ===== verification/Adaptive_Quota.thy ===== *)
theory Adaptive_Quota
  imports Stats_GCPressure
begin

text \<open>
  The adaptive quota controller: the policy of each lane (\<open>internal/core/adaptive_quota_policy.go\<close>), the signals
  it reads (\<open>adaptive_quota_signals.go\<close>), the evaluation of one tick (\<open>adaptive_quota_eval.go\<close>), the tick itself
  (\<open>adaptive_quota_controller.go\<close>) with the single-lane update it applies (\<open>quota_policy.go\<close> of the root package),
  and the configuration of \<open>adaptive_quota.go\<close>. Go's \<open>sort.Slice\<close> promises a sorted permutation and nothing about
  equal elements, so the sort is an argument of the evaluation.
\<close>

subsection \<open>Types\<close>

record AdaptiveQuotaConfig =
  aqc_Enabled :: bool
  aqc_EvaluationInterval :: duration
  aqc_WarmupDuration :: duration
  aqc_CooldownDuration :: duration
  aqc_PressureHigh :: float64
  aqc_PressureLow :: float64
  aqc_QueueWaitHigh :: duration
  aqc_RunTimeHigh :: duration
  aqc_IncreaseStep :: int
  aqc_DecreaseStep :: int
  aqc_MaxAdjustmentsPerTick :: int
  aqc_EnableIncrease :: bool
  aqc_EnableDecrease :: bool
  aqc_EmitHoldDecisions :: bool

record LaneAdaptivePolicy =
  lap_Lane :: string
  lap_Class :: string
  lap_Enabled :: bool
  lap_MinQuota :: int
  lap_MaxQuota :: int
  lap_AllowIncrease :: bool
  lap_AllowDecrease :: bool
  lap_TargetQueueWait :: duration
  lap_TargetRunTime :: duration

record resolvedLaneAdaptivePolicy =
  rp_LaneID :: LaneID
  rp_Lane :: string
  rp_Class :: string
  rp_Enabled :: bool
  rp_MinQuota :: int
  rp_MaxQuota :: int
  rp_AllowIncrease :: bool
  rp_AllowDecrease :: bool
  rp_TargetQueueWait :: duration
  rp_TargetRunTime :: duration

record LaneAdaptiveSignal =
  sig_LaneID :: LaneID
  sig_Lane :: string
  sig_Class :: string
  sig_CurrentQuota :: int
  sig_MinQuota :: int
  sig_MaxQuota :: int
  sig_QueueDepth :: u32
  sig_InFlight :: u32
  sig_QueueWaitAvg :: duration
  sig_QueueWaitMax :: duration
  sig_QueueWaitSamples :: u64
  sig_RunAvg :: duration
  sig_RunMax :: duration
  sig_RunSamples :: u64
  sig_OverloadRejectCount :: u64
  sig_OverloadShedCount :: u64
  sig_OverloadDegradeCount :: u64
  sig_QueueFullCount :: u64

record AdaptiveSignalSnapshot =
  ass_Time :: time
  ass_GlobalPressure :: float64
  ass_Lanes :: "LaneAdaptiveSignal list"
  ass_PolicyVersion :: u64
  ass_QuotaVersion :: u64

record QuotaAdjustmentDecision =
  qd_Lane :: string
  qd_Class :: string
  qd_Action :: QuotaAdjustmentAction
  qd_Reason :: QuotaAdjustmentReason
  qd_OldQuota :: int
  qd_NewQuota :: int
  qd_GlobalPressure :: float64
  qd_QueueDepth :: u32
  qd_InFlight :: u32
  qd_QueueWaitP50 :: duration
  qd_QueueWaitP95 :: duration
  qd_QueueWaitP99 :: duration
  qd_RunP50 :: duration
  qd_RunP95 :: duration
  qd_RunP99 :: duration
  qd_PolicyVersion :: u64
  qd_QuotaVersion :: u64

record AdaptiveControllerState =
  acs_StartedAt :: time
  acs_LastAdjusted :: "LaneID \<rightharpoonup> time"
  acs_LastDecisions :: "QuotaAdjustmentDecision list"
  acs_TickCount :: u64

definition maxLastDecisions :: nat where
  "maxLastDecisions = 16"

definition newAdaptiveControllerState :: "time \<Rightarrow> AdaptiveControllerState" where
  "newAdaptiveControllerState startedAt =
     \<lparr>acs_StartedAt = startedAt, acs_LastAdjusted = Map.empty, acs_LastDecisions = [], acs_TickCount = 0\<rparr>"

definition recordApplied :: "LaneID \<Rightarrow> time \<Rightarrow> AdaptiveControllerState \<Rightarrow> AdaptiveControllerState" where
  "recordApplied laneID now st = st\<lparr>acs_LastAdjusted := (acs_LastAdjusted st)(laneID \<mapsto> now)\<rparr>"

definition appendDecision :: "QuotaAdjustmentDecision \<Rightarrow> AdaptiveControllerState \<Rightarrow> AdaptiveControllerState" where
  "appendDecision d st =
     (let trimmed = (if length (acs_LastDecisions st) \<ge> maxLastDecisions then tl (acs_LastDecisions st)
                     else acs_LastDecisions st)
      in st\<lparr>acs_LastDecisions := trimmed @ [d]\<rparr>)"

subsection \<open>Lane policies\<close>

definition defaultResolvedPolicy :: "string \<Rightarrow> string \<Rightarrow> int \<Rightarrow> resolvedLaneAdaptivePolicy" where
  "defaultResolvedPolicy lane class initialQuota =
     (let mx1 = (if initialQuota < 1 then 1 else initialQuota);
          mx = (if mx1 > uint MaxLaneQuota then uint MaxLaneQuota else mx1);
          (inc, dec) = (if class = LaneClassCritical then (True, False)
                        else if class = LaneClassNormal then (True, True)
                        else if class = LaneClassBackground \<or> class = LaneClassBestEffort then (False, True)
                        else (True, True));
          wait = (if class = LaneClassCritical then 20 * Millisecond
                  else if class = LaneClassBackground then 100 * Millisecond
                  else 50 * Millisecond)
      in \<lparr>rp_LaneID = 0, rp_Lane = lane, rp_Class = class, rp_Enabled = True, rp_MinQuota = 1, rp_MaxQuota = mx,
          rp_AllowIncrease = inc, rp_AllowDecrease = dec, rp_TargetQueueWait = wait, rp_TargetRunTime = 0\<rparr>)"

text \<open>The map \<open>byName\<close> keeps the last policy of a lane.\<close>

definition policyByName :: "LaneAdaptivePolicy list \<Rightarrow> string \<Rightarrow> LaneAdaptivePolicy option" where
  "policyByName explicit name = map_of (rev (map (\<lambda>lp. (lap_Lane lp, lp)) explicit)) name"

definition applyExplicit ::
  "LaneAdaptivePolicy \<Rightarrow> string \<Rightarrow> int \<Rightarrow> resolvedLaneAdaptivePolicy \<Rightarrow> resolvedLaneAdaptivePolicy" where
  "applyExplicit lp name initial r0 =
     (let r1 = (if lap_Class lp \<noteq> [] then defaultResolvedPolicy name (lap_Class lp) initial else r0);
          r2 = r1\<lparr>rp_Enabled := lap_Enabled lp\<rparr>;
          r3 = (if \<not> rp_Enabled r2 then r2\<lparr>rp_AllowIncrease := False, rp_AllowDecrease := False\<rparr> else r2);
          r4 = (if lap_MinQuota lp \<ge> 1 then r3\<lparr>rp_MinQuota := lap_MinQuota lp\<rparr> else r3);
          r5 = (if lap_MaxQuota lp \<ge> rp_MinQuota r4 then r4\<lparr>rp_MaxQuota := lap_MaxQuota lp\<rparr> else r4);
          r6 = (if lap_TargetQueueWait lp > 0 then r5\<lparr>rp_TargetQueueWait := lap_TargetQueueWait lp\<rparr> else r5);
          r7 = (if lap_TargetRunTime lp > 0 then r6\<lparr>rp_TargetRunTime := lap_TargetRunTime lp\<rparr> else r6)
      in if \<not> lap_AllowIncrease lp \<and> \<not> lap_AllowDecrease lp
         then r7\<lparr>rp_AllowIncrease := False, rp_AllowDecrease := False\<rparr>
         else r7\<lparr>rp_AllowIncrease := lap_AllowIncrease lp, rp_AllowDecrease := lap_AllowDecrease lp\<rparr>)"

definition resolveAdaptiveLane ::
  "LaneRegistry \<Rightarrow> admissionPolicySnapshot \<Rightarrow> LaneAdaptivePolicy list \<Rightarrow> int go_map \<Rightarrow> nat \<Rightarrow>
   resolvedLaneAdaptivePolicy" where
  "resolveAdaptiveLane reg adm explicit initialQuotas i =
     (let laneId = (of_nat i :: LaneID); name = Name reg laneId; initial0 = mapGet 0 initialQuotas name;
          initial = (if initial0 < 1 then Quota reg laneId else initial0);
          class0 = (if i < length (aps_lanes adm) \<and> lae_class (aps_lanes adm ! i) \<noteq> []
                    then lae_class (aps_lanes adm ! i) else aps_defaultClass adm);
          class = (case policyByName explicit name of
                     Some lp \<Rightarrow> (if lap_Class lp \<noteq> [] then lap_Class lp else class0) | None \<Rightarrow> class0);
          r1 = defaultResolvedPolicy name class initial;
          r2 = (case policyByName explicit name of Some lp \<Rightarrow> applyExplicit lp name initial r1 | None \<Rightarrow> r1);
          r3 = (if rp_MaxQuota r2 < rp_MinQuota r2 then r2\<lparr>rp_MaxQuota := rp_MinQuota r2\<rparr> else r2);
          r4 = (if rp_MaxQuota r3 > uint MaxLaneQuota then r3\<lparr>rp_MaxQuota := uint MaxLaneQuota\<rparr> else r3)
      in r4\<lparr>rp_LaneID := laneId\<rparr>)"

definition resolveAdaptiveLanePolicies ::
  "LaneRegistry \<Rightarrow> Scheduler \<Rightarrow> LaneAdaptivePolicy list \<Rightarrow> int go_map \<Rightarrow> resolvedLaneAdaptivePolicy list" where
  "resolveAdaptiveLanePolicies reg s explicit initialQuotas =
     map (resolveAdaptiveLane reg (s_admissionPolicy s) explicit initialQuotas) [0..<Len reg]"

subsection \<open>Signals\<close>

definition zeroLaneStats :: LaneStatsGCPressure where
  "zeroLaneStats =
     \<lparr>lsg_LaneID = 0, lsg_Name = [], lsg_Queued = 0, lsg_InFlight = 0, lsg_Capacity = 0,
      lsg_Counters = \<lparr>gc_Submitted = 0, gc_Accepted = 0, gc_Rejected = 0, gc_AdmissionRejected = 0,
        gc_OverloadRejected = 0, gc_OverloadShed = 0, gc_OverloadDegrade = 0, gc_Completed = 0, gc_Failed = 0,
        gc_QueueFull = 0, gc_Canceled = 0, gc_Panicked = 0\<rparr>,
      lsg_QueueWait = zeroStats, lsg_Run = zeroStats\<rparr>"

definition laneSignal ::
  "StatsGCPressureSnapshot \<Rightarrow> int list \<Rightarrow> resolvedLaneAdaptivePolicy list \<Rightarrow> nat \<Rightarrow> LaneAdaptiveSignal" where
  "laneSignal gc laneQuotas policies i =
     (let pol = policies ! i;
          ls = (if i < length (gcs_Lanes gc) then gcs_Lanes gc ! i else zeroLaneStats);
          qw = lsg_QueueWait ls; run = lsg_Run ls
      in \<lparr>sig_LaneID = of_nat i, sig_Lane = rp_Lane pol, sig_Class = rp_Class pol,
          sig_CurrentQuota = (if i < length laneQuotas then laneQuotas ! i else sint (gc_Submitted (lsg_Counters ls))),
          sig_MinQuota = rp_MinQuota pol, sig_MaxQuota = rp_MaxQuota pol,
          sig_QueueDepth = ucast (lsg_Queued ls), sig_InFlight = ucast (lsg_InFlight ls),
          sig_QueueWaitAvg = sint (AverageNanos qw), sig_QueueWaitMax = sint (ds_MaxNanos qw),
          sig_QueueWaitSamples = ds_Count qw, sig_RunAvg = sint (AverageNanos run),
          sig_RunMax = sint (ds_MaxNanos run), sig_RunSamples = ds_Count run,
          sig_OverloadRejectCount = gc_OverloadRejected (lsg_Counters ls),
          sig_OverloadShedCount = gc_OverloadShed (lsg_Counters ls),
          sig_OverloadDegradeCount = gc_OverloadDegrade (lsg_Counters ls),
          sig_QueueFullCount = gc_QueueFull (lsg_Counters ls)\<rparr>)"

text \<open>\<open>now\<close> is the clock at the end. The policies have one entry per lane, as \<open>NewAdaptiveQuotaController\<close> makes them.\<close>

definition buildAdaptiveSignalSnapshot ::
  "Scheduler \<Rightarrow> LaneRegistry \<Rightarrow> resolvedLaneAdaptivePolicy list \<Rightarrow> u64 \<Rightarrow> time \<Rightarrow> AdaptiveSignalSnapshot" where
  "buildAdaptiveSignalSnapshot s reg policies policyVersion now =
     \<lparr>ass_Time = now, ass_GlobalPressure = p_TotalDepthRatio (schedPressure s),
      ass_Lanes = map (laneSignal (StatsGCPressure s) (qps_laneQuotas (s_quotaPolicy s)) policies) [0..<Len reg],
      ass_PolicyVersion = policyVersion, ass_QuotaVersion = fst (CurrentQuotaPolicyView s)\<rparr>"

subsection \<open>Evaluation of one tick\<close>

definition minQueueWaitSamples :: u64 where
  "minQueueWaitSamples = 1"

record laneCandidate =
  cand_laneIdx :: nat
  cand_action :: QuotaAdjustmentAction
  cand_reason :: QuotaAdjustmentReason
  cand_priority :: int

definition fillDecisionSignals :: "LaneAdaptiveSignal \<Rightarrow> QuotaAdjustmentDecision \<Rightarrow> QuotaAdjustmentDecision" where
  "fillDecisionSignals sig d =
     d\<lparr>qd_QueueDepth := sig_QueueDepth sig, qd_InFlight := sig_InFlight sig,
       qd_QueueWaitP50 := sig_QueueWaitAvg sig, qd_QueueWaitP95 := sig_QueueWaitMax sig,
       qd_QueueWaitP99 := sig_QueueWaitMax sig, qd_RunP50 := sig_RunAvg sig, qd_RunP95 := sig_RunMax sig,
       qd_RunP99 := sig_RunMax sig\<rparr>"

definition queueWaitHigh :: "LaneAdaptiveSignal \<Rightarrow> resolvedLaneAdaptivePolicy \<Rightarrow> AdaptiveQuotaConfig \<Rightarrow> bool" where
  "queueWaitHigh sig pol cfg =
     (let wait = (if sig_QueueWaitMax sig = 0 then sig_QueueWaitAvg sig else sig_QueueWaitMax sig)
      in if rp_TargetQueueWait pol > 0 \<and> wait \<ge> rp_TargetQueueWait pol then True
         else aqc_QueueWaitHigh cfg > 0 \<and> wait \<ge> aqc_QueueWaitHigh cfg)"

definition increaseReasonForClass :: "string \<Rightarrow> QuotaAdjustmentReason" where
  "increaseReasonForClass class =
     (if class = LaneClassCritical then QuotaReasonCriticalQueueWaitHigh
      else if class = LaneClassNormal then QuotaReasonNormalQueueWaitHigh
      else if class = LaneClassBackground then QuotaReasonBackgroundQueueWaitHigh
      else QuotaReasonEmpty)"

definition laneOverloadElevated :: "LaneAdaptiveSignal \<Rightarrow> bool" where
  "laneOverloadElevated sig \<longleftrightarrow>
     sig_OverloadShedCount sig > 0 \<or> sig_OverloadRejectCount sig > 0 \<or> sig_OverloadDegradeCount sig > 0"

definition localizedOverloadDecreaseEligible :: "string \<Rightarrow> LaneAdaptiveSignal \<Rightarrow> bool" where
  "localizedOverloadDecreaseEligible class sig =
     (if \<not> laneOverloadElevated sig then False
      else class = LaneClassBackground \<or> class = LaneClassBestEffort)"

definition decreaseReasonForClass ::
  "string \<Rightarrow> LaneAdaptiveSignal \<Rightarrow> float64 \<Rightarrow> AdaptiveQuotaConfig \<Rightarrow> QuotaAdjustmentReason" where
  "decreaseReasonForClass class sig pressure cfg =
     (if class = LaneClassBestEffort then
        (if fge pressure (aqc_PressureHigh cfg) \<or> laneOverloadElevated sig
         then QuotaReasonBestEffortPressureHigh else QuotaReasonEmpty)
      else if class = LaneClassBackground then
        (if fge pressure (aqc_PressureHigh cfg) \<or> laneOverloadElevated sig
         then QuotaReasonBackgroundPressureHigh else QuotaReasonEmpty)
      else if class = LaneClassNormal then
        (if fge pressure (aqc_PressureHigh cfg) then QuotaReasonGlobalPressureHigh
         else if sig_OverloadShedCount sig > 0 \<or> sig_OverloadRejectCount sig > 0
         then QuotaReasonGlobalPressureHigh else QuotaReasonEmpty)
      else QuotaReasonEmpty)"

definition increasePriority :: "string \<Rightarrow> int" where
  "increasePriority class =
     (if class = LaneClassCritical then 0 else if class = LaneClassNormal then 1
      else if class = LaneClassBackground then 2 else 99)"

definition decreasePriority :: "string \<Rightarrow> int" where
  "decreasePriority class =
     (if class = LaneClassBestEffort then 0 else if class = LaneClassBackground then 1
      else if class = LaneClassNormal then 2 else 99)"

definition applyCandidate ::
  "AdaptiveQuotaConfig \<Rightarrow> resolvedLaneAdaptivePolicy list \<Rightarrow> AdaptiveSignalSnapshot \<Rightarrow> laneCandidate \<Rightarrow> float64 \<Rightarrow>
   QuotaAdjustmentDecision" where
  "applyCandidate cfg policies snap c pressure =
     (let pol = policies ! cand_laneIdx c; sig = ass_Lanes snap ! cand_laneIdx c; oldQ = sig_CurrentQuota sig;
          newQ1 = (case cand_action c of
             QuotaAdjustmentIncrease \<Rightarrow>
               (let n = wrapInt (oldQ + aqc_IncreaseStep cfg)
                in if n > rp_MaxQuota pol then rp_MaxQuota pol else n)
           | QuotaAdjustmentDecrease \<Rightarrow>
               (let n = wrapInt (oldQ - aqc_DecreaseStep cfg)
                in if n < rp_MinQuota pol then rp_MinQuota pol else n)
           | QuotaAdjustmentHold \<Rightarrow> oldQ);
          newQ2 = (if newQ1 < 1 then 1 else newQ1);
          newQ = (if newQ2 > uint MaxLaneQuota then uint MaxLaneQuota else newQ2)
      in fillDecisionSignals sig
           \<lparr>qd_Lane = rp_Lane pol, qd_Class = rp_Class pol, qd_Action = cand_action c, qd_Reason = cand_reason c,
            qd_OldQuota = oldQ, qd_NewQuota = newQ, qd_GlobalPressure = pressure, qd_QueueDepth = 0,
            qd_InFlight = 0, qd_QueueWaitP50 = 0, qd_QueueWaitP95 = 0, qd_QueueWaitP99 = 0, qd_RunP50 = 0,
            qd_RunP95 = 0, qd_RunP99 = 0, qd_PolicyVersion = ass_PolicyVersion snap,
            qd_QuotaVersion = ass_QuotaVersion snap\<rparr>)"

text \<open>The decision a lane starts with: hold, for no reason.\<close>

definition initialDecision ::
  "resolvedLaneAdaptivePolicy \<Rightarrow> AdaptiveSignalSnapshot \<Rightarrow> LaneAdaptiveSignal \<Rightarrow> QuotaAdjustmentDecision" where
  "initialDecision pol snap sig =
     fillDecisionSignals sig
       \<lparr>qd_Lane = rp_Lane pol, qd_Class = rp_Class pol, qd_Action = QuotaAdjustmentHold, qd_Reason = QuotaReasonNone,
        qd_OldQuota = sig_CurrentQuota sig, qd_NewQuota = sig_CurrentQuota sig,
        qd_GlobalPressure = ass_GlobalPressure snap, qd_QueueDepth = 0, qd_InFlight = 0, qd_QueueWaitP50 = 0,
        qd_QueueWaitP95 = 0, qd_QueueWaitP99 = 0, qd_RunP50 = 0, qd_RunP95 = 0, qd_RunP99 = 0,
        qd_PolicyVersion = ass_PolicyVersion snap, qd_QuotaVersion = ass_QuotaVersion snap\<rparr>"

text \<open>
  One iteration of the loop over the lanes ends with a reason to hold or with a candidate. \<open>None\<close> in the two
  blocks below is falling through to the next block.
\<close>

datatype laneOutcome = LaneHold QuotaAdjustmentReason | LaneCandidate laneCandidate

definition decreaseBlock ::
  "AdaptiveQuotaConfig \<Rightarrow> resolvedLaneAdaptivePolicy \<Rightarrow> nat \<Rightarrow> LaneAdaptiveSignal \<Rightarrow> float64 \<Rightarrow> laneOutcome option" where
  "decreaseBlock cfg pol i sig pressure =
     (let shouldDecrease = fge pressure (aqc_PressureHigh cfg) \<or> localizedOverloadDecreaseEligible (rp_Class pol) sig;
          reason = decreaseReasonForClass (rp_Class pol) sig pressure cfg
      in if aqc_EnableDecrease cfg \<and> rp_AllowDecrease pol \<and> shouldDecrease then
           (if sig_CurrentQuota sig \<le> rp_MinQuota pol then Some (LaneHold QuotaReasonAtMinBound)
            else if reason \<noteq> QuotaReasonEmpty
            then Some (LaneCandidate \<lparr>cand_laneIdx = i, cand_action = QuotaAdjustmentDecrease, cand_reason = reason,
                   cand_priority = decreasePriority (rp_Class pol)\<rparr>)
            else None)
         else None)"

definition increaseBlock ::
  "AdaptiveQuotaConfig \<Rightarrow> resolvedLaneAdaptivePolicy \<Rightarrow> nat \<Rightarrow> LaneAdaptiveSignal \<Rightarrow> float64 \<Rightarrow> laneOutcome option" where
  "increaseBlock cfg pol i sig pressure =
     (let reason = increaseReasonForClass (rp_Class pol)
      in if aqc_EnableIncrease cfg \<and> rp_AllowIncrease pol \<and> fle pressure (aqc_PressureLow cfg) then
           (if sig_QueueFullCount sig > 0 then Some (LaneHold QuotaReasonQueueFull)
            else if sig_CurrentQuota sig \<ge> rp_MaxQuota pol then Some (LaneHold QuotaReasonAtMaxBound)
            else if sig_RunMax sig > aqc_RunTimeHigh cfg \<and> aqc_RunTimeHigh cfg > 0
            then Some (LaneHold QuotaReasonRunTimeTooHigh)
            else if \<not> queueWaitHigh sig pol cfg then Some (LaneHold QuotaReasonNeutralPressure)
            else if reason \<noteq> QuotaReasonEmpty
            then Some (LaneCandidate \<lparr>cand_laneIdx = i, cand_action = QuotaAdjustmentIncrease, cand_reason = reason,
                   cand_priority = increasePriority (rp_Class pol)\<rparr>)
            else None)
         else None)"

definition finalReason :: "AdaptiveQuotaConfig \<Rightarrow> resolvedLaneAdaptivePolicy \<Rightarrow> float64 \<Rightarrow> QuotaAdjustmentReason" where
  "finalReason cfg pol pressure =
     (if fgt pressure (aqc_PressureLow cfg) \<and> flt pressure (aqc_PressureHigh cfg) then QuotaReasonNeutralPressure
      else if fge pressure (aqc_PressureHigh cfg) then
        (if \<not> rp_AllowDecrease pol then QuotaReasonDecreaseDisabled else QuotaReasonGlobalPressureHigh)
      else if fle pressure (aqc_PressureLow cfg) \<and> \<not> rp_AllowIncrease pol then QuotaReasonIncreaseDisabled
      else QuotaReasonNone)"

definition evaluateLane ::
  "AdaptiveQuotaConfig \<Rightarrow> bool \<Rightarrow> AdaptiveControllerState \<Rightarrow> time \<Rightarrow> float64 \<Rightarrow>
   nat \<Rightarrow> resolvedLaneAdaptivePolicy \<Rightarrow> LaneAdaptiveSignal \<Rightarrow> laneOutcome" where
  "evaluateLane cfg warmupActive st now pressure i pol sig =
     (let cooling = (case acs_LastAdjusted st (rp_LaneID pol) of
                       Some adjusted \<Rightarrow> timeSub now adjusted < aqc_CooldownDuration cfg | None \<Rightarrow> False);
          localizedOverload = localizedOverloadDecreaseEligible (rp_Class pol) sig
      in if \<not> rp_Enabled pol then LaneHold QuotaReasonIncreaseDisabled
         else if warmupActive then LaneHold QuotaReasonWarmupActive
         else if cooling then LaneHold QuotaReasonCooldownActive
         else if sig_QueueWaitSamples sig < minQueueWaitSamples \<and> flt pressure (aqc_PressureHigh cfg)
           \<and> \<not> localizedOverload then LaneHold QuotaReasonInsufficientSamples
         else case decreaseBlock cfg pol i sig pressure of
           Some r \<Rightarrow> r
         | None \<Rightarrow>
             (case increaseBlock cfg pol i sig pressure of
                Some r \<Rightarrow> r
              | None \<Rightarrow> LaneHold (finalReason cfg pol pressure)))"

definition laneOutcomes ::
  "AdaptiveQuotaConfig \<Rightarrow> resolvedLaneAdaptivePolicy list \<Rightarrow> AdaptiveSignalSnapshot \<Rightarrow> AdaptiveControllerState \<Rightarrow>
   time \<Rightarrow> laneOutcome list" where
  "laneOutcomes cfg policies snap st now =
     (let warmupActive = aqc_WarmupDuration cfg > 0 \<and> timeSub now (acs_StartedAt st) < aqc_WarmupDuration cfg
      in map (\<lambda>i. evaluateLane cfg warmupActive st now (ass_GlobalPressure snap) i (policies ! i) (ass_Lanes snap ! i))
           [0..<length (ass_Lanes snap)])"

definition decidedReason :: "laneOutcome \<Rightarrow> QuotaAdjustmentDecision \<Rightarrow> QuotaAdjustmentDecision" where
  "decidedReason out d = (case out of LaneHold r \<Rightarrow> d\<lparr>qd_Reason := r\<rparr> | LaneCandidate _ \<Rightarrow> d)"

definition candidatesOf :: "QuotaAdjustmentAction \<Rightarrow> laneOutcome list \<Rightarrow> laneCandidate list" where
  "candidatesOf a outs =
     concat (map (\<lambda>out. case out of LaneCandidate c \<Rightarrow> (if cand_action c = a then [c] else []) | _ \<Rightarrow> []) outs)"

text \<open>The loop over sorted candidates stops at \<open>maxAdj\<close> adjustments.\<close>

fun applyCandidates ::
  "(laneCandidate \<Rightarrow> QuotaAdjustmentDecision) \<Rightarrow> int \<Rightarrow> laneCandidate list \<Rightarrow>
   int \<times> QuotaAdjustmentDecision list \<Rightarrow> int \<times> QuotaAdjustmentDecision list" where
  "applyCandidates app maxAdj [] acc = acc"
| "applyCandidates app maxAdj (c # cs) (applied, ds) =
     (if applied \<ge> maxAdj then (applied, ds)
      else applyCandidates app maxAdj cs (applied + 1, ds[cand_laneIdx c := app c]))"

text \<open>\<open>srt\<close> is \<open>sort.Slice\<close> by priority; \<open>None\<close> is the panic of \<open>policies[i]\<close>.\<close>

definition EvaluateAdaptiveQuota ::
  "(laneCandidate list \<Rightarrow> laneCandidate list) \<Rightarrow> AdaptiveQuotaConfig \<Rightarrow> resolvedLaneAdaptivePolicy list \<Rightarrow>
   AdaptiveSignalSnapshot \<Rightarrow> AdaptiveControllerState option \<Rightarrow> time \<Rightarrow> QuotaAdjustmentDecision list option" where
  "EvaluateAdaptiveQuota srt cfg policies snap state now =
     (let n = length (ass_Lanes snap)
      in if \<not> aqc_Enabled cfg \<or> Option.is_none state \<or> n = 0 then Some []
         else if length policies < n then None
         else let st = the state; pressure = ass_GlobalPressure snap;
                  outs = laneOutcomes cfg policies snap st now;
                  ds0 = map (\<lambda>i. decidedReason (outs ! i) (initialDecision (policies ! i) snap (ass_Lanes snap ! i)))
                          [0..<n];
                  maxAdj = (if aqc_MaxAdjustmentsPerTick cfg < 1 then 1 else aqc_MaxAdjustmentsPerTick cfg);
                  app = (\<lambda>c. applyCandidate cfg policies snap c pressure);
                  (applied, ds1) = applyCandidates app maxAdj (srt (candidatesOf QuotaAdjustmentDecrease outs)) (0, ds0)
              in Some (if applied < maxAdj
                       then snd (applyCandidates app maxAdj (srt (candidatesOf QuotaAdjustmentIncrease outs)) (applied, ds1))
                       else ds1))"

subsection \<open>Counters and the single-lane update\<close>

definition RecordAdaptiveQuotaDecision ::
  "LaneID \<Rightarrow> QuotaAdjustmentAction \<Rightarrow> QuotaAdjustmentReason \<Rightarrow> int \<Rightarrow> Scheduler \<Rightarrow> Scheduler" where
  "RecordAdaptiveQuotaDecision laneID action reason nowUnix s =
     (if unat laneID \<ge> length (s_laneCounters s) then s
      else updCounters (unat laneID)
             (\<lambda>c. recordAdaptiveDecision c action reason nowUnix (action = QuotaAdjustmentHold)) s)"

definition RecordAdaptiveQuotaLastReason :: "LaneID \<Rightarrow> QuotaAdjustmentReason \<Rightarrow> Scheduler \<Rightarrow> Scheduler" where
  "RecordAdaptiveQuotaLastReason laneID reason s =
     (if unat laneID \<ge> length (s_laneCounters s) then s
      else updCounters (unat laneID) (\<lambda>c. recordLastAdaptiveReason c reason) s)"

definition RecordManualQuotaChange :: "LaneID \<Rightarrow> int \<Rightarrow> Scheduler \<Rightarrow> Scheduler" where
  "RecordManualQuotaChange laneID nowUnix s =
     (if unat laneID \<ge> length (s_laneCounters s) then s
      else updCounters (unat laneID) (\<lambda>c. recordManualQuotaChange c nowUnix) s)"

definition LaneAdaptiveStatsSnapshots :: "LaneRegistry \<Rightarrow> Scheduler \<Rightarrow> LaneAdaptiveStatsSnapshot list" where
  "LaneAdaptiveStatsSnapshots reg s =
     map (\<lambda>i. snapshotAdaptiveStats (s_laneCounters s ! i) (Name reg (of_nat i))) [0..<Len reg]"

datatype QuotaChangeSource = QuotaChangeManual | QuotaChangeAdaptive

record QuotaChangeEvent =
  qce_Time :: time
  qce_Lane :: string
  qce_OldQuota :: int
  qce_NewQuota :: int
  qce_Source :: QuotaChangeSource
  qce_Reason :: QuotaAdjustmentReason
  qce_PolicyVersion :: u64
  qce_QuotaVersion :: u64

definition recordManualChange :: "string \<Rightarrow> time \<Rightarrow> Scheduler \<Rightarrow> Scheduler" where
  "recordManualChange lane now s =
     (case Lookup (s_laneReg s) lane of Some laneId \<Rightarrow> RecordManualQuotaChange laneId now s | None \<Rightarrow> s)"

text \<open>The events are those handed to \<open>emitQuotaChange\<close>; the registry of the queue is that of its scheduler.\<close>

definition updateLaneQuotaIfVersionInternal ::
  "string \<Rightarrow> u32 \<Rightarrow> u64 \<Rightarrow> bool \<Rightarrow> time \<Rightarrow> Scheduler \<Rightarrow> (core_error + u64) \<times> QuotaChangeEvent list \<times> Scheduler" where
  "updateLaneQuotaIfVersionInternal lane quota expectedVersion emitManualEvent now s =
     (if lane = [] then (Inl ErrInvalidLane, [], s)
      else let current = snd (CurrentQuotaPolicyView s);
               oldQ0 = mapGet 0 (qpi_LaneQuotas current) lane;
               oldQ = (if oldQ0 = 0 then qpi_DefaultQuota current else oldQ0);
               policy = \<lparr>qpi_DefaultQuota = qpi_DefaultQuota current,
                         qpi_LaneQuotas = AList.update lane quota (qpi_LaneQuotas current)\<rparr>
           in case UpdateQuotaPolicyIfVersion policy expectedVersion s of
                (Inl e, s') \<Rightarrow> (Inl e, [], s')
              | (Inr ver, s') \<Rightarrow>
                  if emitManualEvent \<and> oldQ \<noteq> quota
                  then (Inr ver,
                        [\<lparr>qce_Time = now, qce_Lane = lane, qce_OldQuota = uint oldQ, qce_NewQuota = uint quota,
                          qce_Source = QuotaChangeManual, qce_Reason = QuotaReasonEmpty, qce_PolicyVersion = 0, qce_QuotaVersion = ver\<rparr>],
                        recordManualChange lane now s')
                  else (Inr ver, [], s'))"

definition UpdateLaneQuota ::
  "string \<Rightarrow> u32 \<Rightarrow> time \<Rightarrow> Scheduler \<Rightarrow> (core_error + u64) \<times> QuotaChangeEvent list \<times> Scheduler" where
  "UpdateLaneQuota lane quota now s =
     updateLaneQuotaIfVersionInternal lane quota (fst (CurrentQuotaPolicyView s)) True now s"

text \<open>The applier that \<open>initAdaptiveController\<close> installs.\<close>

type_synonym laneQuotaApplier = "string \<Rightarrow> u32 \<Rightarrow> u64 \<Rightarrow> Scheduler \<Rightarrow> (core_error + u64) \<times> Scheduler"

definition queueApplier :: laneQuotaApplier where
  "queueApplier lane quota expectedVer s =
     (case updateLaneQuotaIfVersionInternal lane quota expectedVer False 0 s of (r, _, s') \<Rightarrow> (r, s'))"

subsection \<open>The controller\<close>

text \<open>
  \<open>aq_apply\<close> is \<open>None\<close> for a nil applier, \<open>aq_onDecision\<close> says whether there is a hook, \<open>aq_cancel\<close> whether
  \<open>cancel\<close> is set, and \<open>aq_loops\<close> counts the running loops (the wait group).
\<close>

record AdaptiveQuotaController =
  aq_cfg :: AdaptiveQuotaConfig
  aq_policies :: "resolvedLaneAdaptivePolicy list"
  aq_policyVersion :: u64
  aq_apply :: "laneQuotaApplier option"
  aq_onDecision :: bool
  aq_state :: "AdaptiveControllerState option"
  aq_running :: bool
  aq_lastEval :: "time option"
  aq_tickCount :: u64
  aq_cancel :: bool
  aq_loops :: nat

definition NewAdaptiveQuotaController ::
  "Scheduler \<Rightarrow> LaneRegistry \<Rightarrow> AdaptiveQuotaConfig \<Rightarrow> LaneAdaptivePolicy list \<Rightarrow> int go_map \<Rightarrow>
   laneQuotaApplier option \<Rightarrow> bool \<Rightarrow> AdaptiveQuotaController" where
  "NewAdaptiveQuotaController s reg cfg explicit initialQuotas app onDecision =
     \<lparr>aq_cfg = cfg, aq_policies = resolveAdaptiveLanePolicies reg s explicit initialQuotas, aq_policyVersion = 1,
      aq_apply = app, aq_onDecision = onDecision, aq_state = None, aq_running = False, aq_lastEval = None,
      aq_tickCount = 0, aq_cancel = False, aq_loops = 0\<rparr>"

definition startController :: "time \<Rightarrow> AdaptiveQuotaController \<Rightarrow> AdaptiveQuotaController" where
  "startController now c =
     (if \<not> aqc_Enabled (aq_cfg c) then c
      else if aq_running c then c
      else c\<lparr>aq_state := (case aq_state c of None \<Rightarrow> Some (newAdaptiveControllerState now) | Some st \<Rightarrow> Some st),
             aq_cancel := True, aq_running := True, aq_loops := aq_loops c + 1\<rparr>)"

definition stopController :: "AdaptiveQuotaController \<Rightarrow> AdaptiveQuotaController" where
  "stopController c =
     (if \<not> aq_cancel c \<and> \<not> aq_running c then c
      else c\<lparr>aq_cancel := False, aq_loops := 0, aq_running := False\<rparr>)"

text \<open>What a tick changes: the scheduler, the controller state and the decisions handed to the hook.\<close>

record tickAcc =
  ta_sched :: Scheduler
  ta_state :: AdaptiveControllerState
  ta_hooks :: "QuotaAdjustmentDecision list"

definition tickHold ::
  "AdaptiveQuotaConfig \<Rightarrow> LaneRegistry \<Rightarrow> bool \<Rightarrow> time \<Rightarrow> QuotaAdjustmentDecision \<Rightarrow> tickAcc \<Rightarrow> tickAcc" where
  "tickHold cfg reg hook now d a =
     (let s1 = (case Lookup reg (qd_Lane d) of
                  None \<Rightarrow> ta_sched a
                | Some laneId \<Rightarrow>
                    (let s0 = RecordAdaptiveQuotaLastReason laneId (qd_Reason d) (ta_sched a)
                     in if aqc_EmitHoldDecisions cfg
                        then RecordAdaptiveQuotaDecision laneId (qd_Action d) (qd_Reason d) now s0 else s0));
          a1 = a\<lparr>ta_sched := s1\<rparr>
      in if \<not> aqc_EmitHoldDecisions cfg then a1
         else a1\<lparr>ta_state := appendDecision d (ta_state a1), ta_hooks := ta_hooks a1 @ (if hook then [d] else [])\<rparr>)"

definition tickFailed ::
  "AdaptiveSignalSnapshot \<Rightarrow> LaneRegistry \<Rightarrow> bool \<Rightarrow> time \<Rightarrow> QuotaAdjustmentDecision \<Rightarrow> tickAcc \<Rightarrow> tickAcc" where
  "tickFailed snap reg hook now d a =
     (let failed = d\<lparr>qd_Action := QuotaAdjustmentHold, qd_Reason := QuotaReasonUpdateFailed,
                     qd_NewQuota := qd_OldQuota d, qd_PolicyVersion := ass_PolicyVersion snap,
                     qd_QuotaVersion := ass_QuotaVersion snap\<rparr>;
          s1 = (case Lookup reg (qd_Lane d) of
                  None \<Rightarrow> ta_sched a
                | Some laneId \<Rightarrow>
                    RecordAdaptiveQuotaDecision laneId (qd_Action failed) (qd_Reason failed) now (ta_sched a))
      in a\<lparr>ta_sched := s1, ta_state := appendDecision failed (ta_state a),
           ta_hooks := ta_hooks a @ (if hook then [failed] else [])\<rparr>)"

definition tickApplied ::
  "AdaptiveSignalSnapshot \<Rightarrow> LaneRegistry \<Rightarrow> bool \<Rightarrow> time \<Rightarrow> u64 \<Rightarrow> QuotaAdjustmentDecision \<Rightarrow> tickAcc \<Rightarrow> tickAcc" where
  "tickApplied snap reg hook now ver d0 a =
     (let d = d0\<lparr>qd_QuotaVersion := ver, qd_PolicyVersion := ass_PolicyVersion snap\<rparr>;
          a1 = (case Lookup reg (qd_Lane d) of
                  None \<Rightarrow> a
                | Some laneId \<Rightarrow>
                    a\<lparr>ta_state := recordApplied laneId now (ta_state a),
                      ta_sched := RecordAdaptiveQuotaDecision laneId (qd_Action d) (qd_Reason d) now (ta_sched a)\<rparr>)
      in a1\<lparr>ta_state := appendDecision d (ta_state a1), ta_hooks := ta_hooks a1 @ (if hook then [d] else [])\<rparr>)"

text \<open>\<open>ctxDone k\<close> says whether the context is done when decision \<open>k\<close> is about to be applied.\<close>

fun tickLoop ::
  "laneQuotaApplier \<Rightarrow> AdaptiveQuotaConfig \<Rightarrow> AdaptiveSignalSnapshot \<Rightarrow> LaneRegistry \<Rightarrow> bool \<Rightarrow> time \<Rightarrow>
   (nat \<Rightarrow> bool) \<Rightarrow> nat \<Rightarrow> QuotaAdjustmentDecision list \<Rightarrow> tickAcc \<Rightarrow> tickAcc" where
  "tickLoop app cfg snap reg hook now ctxDone k [] a = a"
| "tickLoop app cfg snap reg hook now ctxDone k (d # ds) a =
     (if qd_Action d = QuotaAdjustmentHold \<or> qd_NewQuota d = qd_OldQuota d
      then tickLoop app cfg snap reg hook now ctxDone (Suc k) ds (tickHold cfg reg hook now d a)
      else if ctxDone k then a
      else case app (qd_Lane d) (word_of_int (qd_NewQuota d)) (ass_QuotaVersion snap) (ta_sched a) of
             (Inl e, s') \<Rightarrow> tickLoop app cfg snap reg hook now ctxDone (Suc k) ds
                              (tickFailed snap reg hook now d (a\<lparr>ta_sched := s'\<rparr>))
           | (Inr ver, s') \<Rightarrow> tickLoop app cfg snap reg hook now ctxDone (Suc k) ds
                              (tickApplied snap reg hook now ver d (a\<lparr>ta_sched := s'\<rparr>)))"

text \<open>
  \<open>tick\<close>: \<open>now\<close> is its clock, \<open>now2\<close> the clock of the signal snapshot. The last component of the result are the
  decisions the hook is called with; \<open>None\<close> is a panic of the evaluation.
\<close>

definition tick ::
  "(laneCandidate list \<Rightarrow> laneCandidate list) \<Rightarrow> time \<Rightarrow> time \<Rightarrow> (nat \<Rightarrow> bool) \<Rightarrow> AdaptiveQuotaController \<Rightarrow> Scheduler \<Rightarrow>
   (AdaptiveQuotaController \<times> Scheduler \<times> QuotaAdjustmentDecision list) option" where
  "tick srt now now2 ctxDone c s =
     (case aq_apply c of
        None \<Rightarrow> Some (c, s, [])
      | Some app \<Rightarrow>
          (let st = (case aq_state c of None \<Rightarrow> newAdaptiveControllerState now | Some st \<Rightarrow> st);
               snap = buildAdaptiveSignalSnapshot s (s_laneReg s) (aq_policies c) (aq_policyVersion c) now2
           in case EvaluateAdaptiveQuota srt (aq_cfg c) (aq_policies c) snap (Some st) now of
                None \<Rightarrow> None
              | Some decisions \<Rightarrow>
                  (let a = tickLoop app (aq_cfg c) snap (s_laneReg s) (aq_onDecision c) now ctxDone 0 decisions
                             \<lparr>ta_sched = s, ta_state = st\<lparr>acs_TickCount := acs_TickCount st + 1\<rparr>, ta_hooks = []\<rparr>
                   in Some (c\<lparr>aq_state := Some (ta_state a), aq_tickCount := aq_tickCount c + 1,
                              aq_lastEval := Some now\<rparr>, ta_sched a, ta_hooks a))))"

subsection \<open>Configuration\<close>

text \<open>The configuration of the root package has the same fields, but for \<open>EmitHoldDecisions\<close>.\<close>

definition DefaultAdaptiveQuotaConfig :: AdaptiveQuotaConfig where
  "DefaultAdaptiveQuotaConfig =
     \<lparr>aqc_Enabled = False, aqc_EvaluationInterval = Second, aqc_WarmupDuration = 5 * Second,
      aqc_CooldownDuration = 5 * Second, aqc_PressureHigh = flit (85 / 100), aqc_PressureLow = flit (60 / 100),
      aqc_QueueWaitHigh = 25 * Millisecond, aqc_RunTimeHigh = 250 * Millisecond, aqc_IncreaseStep = 1,
      aqc_DecreaseStep = 1, aqc_MaxAdjustmentsPerTick = 1, aqc_EnableIncrease = True, aqc_EnableDecrease = True,
      aqc_EmitHoldDecisions = False\<rparr>"

definition posOr :: "int \<Rightarrow> int \<Rightarrow> int" where
  "posOr def x = (if x \<le> 0 then def else x)"

definition NormalizeAdaptiveQuotaConfig :: "AdaptiveQuotaConfig \<Rightarrow> AdaptiveQuotaConfig" where
  "NormalizeAdaptiveQuotaConfig cfg =
     (let def = DefaultAdaptiveQuotaConfig;
          cfg1 = cfg\<lparr>aqc_EvaluationInterval := posOr (aqc_EvaluationInterval def) (aqc_EvaluationInterval cfg),
                     aqc_WarmupDuration := posOr (aqc_WarmupDuration def) (aqc_WarmupDuration cfg),
                     aqc_CooldownDuration := posOr (aqc_CooldownDuration def) (aqc_CooldownDuration cfg),
                     aqc_PressureHigh := (if fle (aqc_PressureHigh cfg) (FFin 0) then aqc_PressureHigh def
                                          else aqc_PressureHigh cfg),
                     aqc_PressureLow := (if fle (aqc_PressureLow cfg) (FFin 0) then aqc_PressureLow def
                                         else aqc_PressureLow cfg),
                     aqc_QueueWaitHigh := posOr (aqc_QueueWaitHigh def) (aqc_QueueWaitHigh cfg),
                     aqc_RunTimeHigh := posOr (aqc_RunTimeHigh def) (aqc_RunTimeHigh cfg),
                     aqc_IncreaseStep := posOr (aqc_IncreaseStep def) (aqc_IncreaseStep cfg),
                     aqc_DecreaseStep := posOr (aqc_DecreaseStep def) (aqc_DecreaseStep cfg),
                     aqc_MaxAdjustmentsPerTick :=
                       posOr (aqc_MaxAdjustmentsPerTick def) (aqc_MaxAdjustmentsPerTick cfg)\<rparr>
      in if \<not> aqc_EnableIncrease cfg1 \<and> \<not> aqc_EnableDecrease cfg1
         then cfg1\<lparr>aqc_EnableIncrease := aqc_EnableIncrease def, aqc_EnableDecrease := aqc_EnableDecrease def\<rparr>
         else cfg1)"

text \<open>The loop over the lane policies, \<open>seen\<close> are the lanes so far.\<close>

fun validateAdaptiveLanes :: "int go_map \<Rightarrow> string list \<Rightarrow> LaneAdaptivePolicy list \<Rightarrow> core_error option" where
  "validateAdaptiveLanes laneQuotas seen [] = None"
| "validateAdaptiveLanes laneQuotas seen (lp # rest) =
     (if lap_Lane lp = [] then Some ErrInvalidLane
      else if map_of laneQuotas (lap_Lane lp) = None then Some ErrInvalidAdaptiveQuotaConfig
      else if lap_Lane lp \<in> set seen then Some ErrInvalidAdaptiveQuotaConfig
      else if lap_Class lp \<noteq> [] \<and> ValidateLaneClass (lap_Class lp) \<noteq> None then Some ErrInvalidLaneClass
      else if lap_MinQuota lp < 1 then Some ErrInvalidAdaptiveQuotaConfig
      else if lap_MaxQuota lp < lap_MinQuota lp then Some ErrInvalidAdaptiveQuotaConfig
      else if lap_MaxQuota lp > uint MaxLaneQuota then Some ErrInvalidAdaptiveQuotaConfig
      else validateAdaptiveLanes laneQuotas (lap_Lane lp # seen) rest)"

definition ValidateAdaptiveQuotaPolicy ::
  "AdaptiveQuotaConfig \<Rightarrow> LaneAdaptivePolicy list \<Rightarrow> int go_map \<Rightarrow> core_error option" where
  "ValidateAdaptiveQuotaPolicy raw lanes laneQuotas =
     (let cfg = NormalizeAdaptiveQuotaConfig raw; invalid = Some ErrInvalidAdaptiveQuotaConfig
      in if \<not> aqc_Enabled raw then None
         else if aqc_EvaluationInterval raw \<le> 0 then invalid
         else if flt (aqc_PressureLow raw) (FFin 0) then invalid
         else if flt (aqc_PressureHigh raw) (FFin 0) then invalid
         else if aqc_IncreaseStep raw < 0 then invalid
         else if aqc_DecreaseStep raw < 0 then invalid
         else if aqc_MaxAdjustmentsPerTick raw < 1 then invalid
         else if flt (aqc_PressureLow cfg) (FFin 0) \<or> fgt (aqc_PressureLow cfg) (FFin 1) then invalid
         else if flt (aqc_PressureHigh cfg) (FFin 0) \<or> fgt (aqc_PressureHigh cfg) (FFin 1) then invalid
         else if fge (aqc_PressureLow cfg) (aqc_PressureHigh cfg) then invalid
         else validateAdaptiveLanes laneQuotas [] lanes)"

definition adaptiveQuotaConfigToCore :: "AdaptiveQuotaConfig \<Rightarrow> bool \<Rightarrow> AdaptiveQuotaConfig" where
  "adaptiveQuotaConfigToCore cfg emitHoldDecisions = cfg\<lparr>aqc_EmitHoldDecisions := emitHoldDecisions\<rparr>"

text \<open>
  The hook that \<open>initAdaptiveController\<close> installs when hooks are enabled and one of the two is set: what it emits for
  a decision. \<open>onAdaptive\<close> and \<open>onQuotaChange\<close> say which of the two hooks is set.
\<close>

datatype adaptiveHookEvent = OnAdaptiveQuotaDecision QuotaAdjustmentDecision time | OnQuotaChange QuotaChangeEvent

definition adaptiveHook :: "bool \<Rightarrow> bool \<Rightarrow> QuotaAdjustmentDecision \<Rightarrow> time \<Rightarrow> adaptiveHookEvent list" where
  "adaptiveHook onAdaptive onQuotaChange d t =
     (if onAdaptive then [OnAdaptiveQuotaDecision d t] else [])
     @ (if qd_Reason d \<noteq> QuotaReasonUpdateFailed \<and> qd_NewQuota d \<noteq> qd_OldQuota d \<and> onQuotaChange
        then [OnQuotaChange \<lparr>qce_Time = t, qce_Lane = qd_Lane d, qce_OldQuota = qd_OldQuota d, qce_NewQuota = qd_NewQuota d,
                qce_Source = QuotaChangeAdaptive, qce_Reason = qd_Reason d, qce_PolicyVersion = qd_PolicyVersion d,
                qce_QuotaVersion = qd_QuotaVersion d\<rparr>]
        else [])"

definition initAdaptiveController ::
  "AdaptiveQuotaConfig \<Rightarrow> LaneAdaptivePolicy list \<Rightarrow> int go_map \<Rightarrow> bool \<Rightarrow> bool \<Rightarrow> bool \<Rightarrow> bool \<Rightarrow> Scheduler \<Rightarrow>
   AdaptiveQuotaController option" where
  "initAdaptiveController config lanes laneQuotas traceHolds enableHooks onAdaptive onQuotaChange s =
     (let cfg = adaptiveQuotaConfigToCore (NormalizeAdaptiveQuotaConfig config) traceHolds;
          hook = enableHooks \<and> (onAdaptive \<or> onQuotaChange)
      in if \<not> aqc_Enabled cfg then None
         else Some (NewAdaptiveQuotaController s (s_laneReg s) cfg lanes laneQuotas (Some queueApplier) hook))"

end
