(* ===== verification/Adaptive_Quota_Facts.thy ===== *)
theory Adaptive_Quota_Facts
  imports Adaptive_Quota
begin

text \<open>
  Facts on the adaptive quota controller: which lanes become candidates, which candidates a tick takes, within
  which bounds it moves a quota, and what the version check of the update path makes of several adjustments in one tick.
\<close>

subsection \<open>Candidates\<close>

lemmas block_defs = decreaseBlock_def increaseBlock_def Let_def

lemma decreaseReason_class:
  "decreaseReasonForClass class sig p cfg \<noteq> QuotaReasonEmpty \<Longrightarrow>
     class = LaneClassBestEffort \<or> class = LaneClassBackground \<or> class = LaneClassNormal"
  by (auto simp: decreaseReasonForClass_def split: if_splits)

lemma increaseReason_class:
  "increaseReasonForClass class \<noteq> QuotaReasonEmpty \<Longrightarrow>
     class = LaneClassCritical \<or> class = LaneClassNormal \<or> class = LaneClassBackground"
  by (auto simp: increaseReasonForClass_def split: if_splits)

text \<open>The two ways to become a candidate, with every guard on the way.\<close>

definition mayDecrease ::
  "AdaptiveQuotaConfig \<Rightarrow> resolvedLaneAdaptivePolicy \<Rightarrow> LaneAdaptiveSignal \<Rightarrow> float64 \<Rightarrow> bool" where
  "mayDecrease cfg pol sig p \<longleftrightarrow> aqc_EnableDecrease cfg \<and> rp_AllowDecrease pol
     \<and> (fge p (aqc_PressureHigh cfg) \<or> localizedOverloadDecreaseEligible (rp_Class pol) sig)
     \<and> rp_MinQuota pol < sig_CurrentQuota sig \<and> rp_Class pol \<noteq> LaneClassCritical"

definition mayIncrease ::
  "AdaptiveQuotaConfig \<Rightarrow> resolvedLaneAdaptivePolicy \<Rightarrow> LaneAdaptiveSignal \<Rightarrow> float64 \<Rightarrow> bool" where
  "mayIncrease cfg pol sig p \<longleftrightarrow> aqc_EnableIncrease cfg \<and> rp_AllowIncrease pol \<and> fle p (aqc_PressureLow cfg)
     \<and> sig_QueueFullCount sig = 0 \<and> sig_CurrentQuota sig < rp_MaxQuota pol
     \<and> \<not> (sig_RunMax sig > aqc_RunTimeHigh cfg \<and> aqc_RunTimeHigh cfg > 0)
     \<and> queueWaitHigh sig pol cfg \<and> rp_Class pol \<noteq> LaneClassBestEffort"

definition cooledDown :: "AdaptiveQuotaConfig \<Rightarrow> AdaptiveControllerState \<Rightarrow> time \<Rightarrow> LaneID \<Rightarrow> bool" where
  "cooledDown cfg st now l \<longleftrightarrow>
     (\<forall>t. acs_LastAdjusted st l = Some t \<longrightarrow> aqc_CooldownDuration cfg \<le> timeSub now t)"

lemma decreaseBlock_candidate:
  assumes "decreaseBlock cfg pol i sig p = Some (LaneCandidate c)"
  shows "cand_laneIdx c = i \<and> cand_action c = QuotaAdjustmentDecrease \<and> mayDecrease cfg pol sig p
    \<and> cand_priority c = decreasePriority (rp_Class pol)"
proof -
  have "decreaseReasonForClass (rp_Class pol) sig p cfg \<noteq> QuotaReasonEmpty"
    using assms by (auto simp: block_defs split: if_splits)
  from decreaseReason_class [OF this] have "rp_Class pol \<noteq> LaneClassCritical" by (auto simp: laneClass_defs)
  then show ?thesis using assms by (auto simp: block_defs mayDecrease_def split: if_splits)
qed

lemma increaseBlock_candidate:
  assumes "increaseBlock cfg pol i sig p = Some (LaneCandidate c)"
  shows "cand_laneIdx c = i \<and> cand_action c = QuotaAdjustmentIncrease \<and> mayIncrease cfg pol sig p
    \<and> cand_priority c = increasePriority (rp_Class pol)"
proof -
  have "increaseReasonForClass (rp_Class pol) \<noteq> QuotaReasonEmpty"
    using assms by (auto simp: block_defs split: if_splits)
  from increaseReason_class [OF this] have "rp_Class pol \<noteq> LaneClassBestEffort" by (auto simp: laneClass_defs)
  then show ?thesis using assms by (auto simp: block_defs mayIncrease_def word_gt_0 split: if_splits)
qed

lemma evaluateLane_candidate:
  assumes "evaluateLane cfg w st now p i pol sig = LaneCandidate c"
  shows "cand_laneIdx c = i \<and> rp_Enabled pol \<and> \<not> w \<and> cooledDown cfg st now (rp_LaneID pol)
    \<and> (cand_action c = QuotaAdjustmentDecrease \<and> mayDecrease cfg pol sig p
         \<and> cand_priority c = decreasePriority (rp_Class pol)
       \<or> cand_action c = QuotaAdjustmentIncrease \<and> mayIncrease cfg pol sig p
         \<and> cand_priority c = increasePriority (rp_Class pol))"
proof -
  have g: "rp_Enabled pol" "\<not> w" "cooledDown cfg st now (rp_LaneID pol)"
    using assms by (auto simp: evaluateLane_def Let_def cooledDown_def not_less split: if_splits option.splits)
  have "decreaseBlock cfg pol i sig p = Some (LaneCandidate c)
      \<or> increaseBlock cfg pol i sig p = Some (LaneCandidate c)"
    using assms by (auto simp: evaluateLane_def Let_def split: if_splits option.splits)
  then show ?thesis using g decreaseBlock_candidate increaseBlock_candidate by blast
qed

lemma candidatesOf_in:
  "c \<in> set (candidatesOf a outs) \<longleftrightarrow> LaneCandidate c \<in> set outs \<and> cand_action c = a"
  by (force simp: candidatesOf_def split: laneOutcome.splits if_splits)

text \<open>Outcome lists in which a candidate names its own position.\<close>

definition indexed :: "nat \<Rightarrow> laneOutcome list \<Rightarrow> bool" where
  "indexed k outs \<longleftrightarrow> (\<forall>i < length outs. \<forall>c. outs ! i = LaneCandidate c \<longrightarrow> cand_laneIdx c = k + i)"

lemma indexed_Cons: "indexed k (out # outs) \<longleftrightarrow>
    (\<forall>c. out = LaneCandidate c \<longrightarrow> cand_laneIdx c = k) \<and> indexed (Suc k) outs"
  by (auto simp: indexed_def nth_Cons less_Suc_eq_0_disj split: nat.splits)

lemma candidates_sorted_idx:
  "indexed k outs \<Longrightarrow> distinct (map cand_laneIdx (candidatesOf a outs))
     \<and> (\<forall>c \<in> set (candidatesOf a outs). k \<le> cand_laneIdx c \<and> cand_laneIdx c < k + length outs)"
proof (induction outs arbitrary: k)
  case Nil
  then show ?case by (simp add: candidatesOf_def)
next
  case (Cons out outs)
  have "indexed (Suc k) outs" using Cons.prems by (simp add: indexed_Cons)
  from Cons.IH [OF this] have ih: "distinct (map cand_laneIdx (candidatesOf a outs))"
      "\<forall>c \<in> set (candidatesOf a outs). Suc k \<le> cand_laneIdx c \<and> cand_laneIdx c < Suc k + length outs"
    by blast+
  have e: "candidatesOf a (out # outs) =
      (case out of LaneCandidate c \<Rightarrow> if cand_action c = a then [c] else [] | _ \<Rightarrow> []) @ candidatesOf a outs"
    by (simp add: candidatesOf_def)
  show ?case
  proof (cases out)
    case (LaneHold r)
    then show ?thesis unfolding e using ih by auto
  next
    case (LaneCandidate c)
    then have "cand_laneIdx c = k" using Cons.prems by (simp add: indexed_Cons)
    then show ?thesis unfolding e using ih LaneCandidate by auto
  qed
qed

lemma laneOutcomes_indexed: "indexed 0 (laneOutcomes cfg policies snap st now)"
  unfolding indexed_def using evaluateLane_candidate by (fastforce simp: laneOutcomes_def Let_def)


subsection \<open>Which candidates are taken\<close>

text \<open>Go's \<open>sort.Slice\<close> by priority: some permutation in ascending order.\<close>

definition prioritySort :: "(laneCandidate list \<Rightarrow> laneCandidate list) \<Rightarrow> bool" where
  "prioritySort srt \<longleftrightarrow> (\<forall>cs. mset (srt cs) = mset cs \<and> sorted (map cand_priority (srt cs)))"

definition tickBudget :: "AdaptiveQuotaConfig \<Rightarrow> nat" where
  "tickBudget cfg = nat (max 1 (aqc_MaxAdjustmentsPerTick cfg))"

text \<open>The candidates of a tick in the order they are taken: decreases before increases.\<close>

definition takenCandidates ::
  "(laneCandidate list \<Rightarrow> laneCandidate list) \<Rightarrow> AdaptiveQuotaConfig \<Rightarrow> laneOutcome list \<Rightarrow> laneCandidate list" where
  "takenCandidates srt cfg outs =
     take (tickBudget cfg) (srt (candidatesOf QuotaAdjustmentDecrease outs) @ srt (candidatesOf QuotaAdjustmentIncrease outs))"

abbreviation writeAll ::
  "(laneCandidate \<Rightarrow> QuotaAdjustmentDecision) \<Rightarrow> laneCandidate list \<Rightarrow> QuotaAdjustmentDecision list \<Rightarrow>
   QuotaAdjustmentDecision list" where
  "writeAll app cs ds \<equiv> fold (\<lambda>c ds. ds[cand_laneIdx c := app c]) cs ds"

lemma applyCandidates_eq:
  "applyCandidates app maxAdj cs (applied, ds)
     = (applied + int (length (take (nat (maxAdj - applied)) cs)), writeAll app (take (nat (maxAdj - applied)) cs) ds)"
proof (induction cs arbitrary: applied ds)
  case Nil
  then show ?case by simp
next
  case (Cons c cs)
  show ?case
  proof (cases "applied \<ge> maxAdj")
    case True
    then show ?thesis by simp
  next
    case False
    then have "nat (maxAdj - applied) = Suc (nat (maxAdj - (applied + 1)))" by simp
    then show ?thesis using False Cons.IH by simp
  qed
qed

lemma writeAll_length [simp]: "length (writeAll app cs ds) = length ds"
  by (induction cs arbitrary: ds) simp_all

lemma writeAll_other: "i \<notin> cand_laneIdx ` set cs \<Longrightarrow> writeAll app cs ds ! i = ds ! i"
  by (induction cs arbitrary: ds) simp_all

lemma writeAll_nth:
  assumes "distinct (map cand_laneIdx cs)" "c \<in> set cs" "cand_laneIdx c < length ds"
  shows "writeAll app cs ds ! cand_laneIdx c = app c"
  using assms
proof (induction cs arbitrary: ds)
  case Nil
  then show ?case by simp
next
  case (Cons d cs)
  show ?case
  proof (cases "c = d")
    case True
    then show ?thesis using Cons.prems by (simp add: writeAll_other)
  next
    case False
    then show ?thesis using Cons by simp
  qed
qed

definition heldDecisions ::
  "resolvedLaneAdaptivePolicy list \<Rightarrow> AdaptiveSignalSnapshot \<Rightarrow> laneOutcome list \<Rightarrow> QuotaAdjustmentDecision list" where
  "heldDecisions policies snap outs =
     map (\<lambda>i. decidedReason (outs ! i) (initialDecision (policies ! i) snap (ass_Lanes snap ! i)))
       [0..<length (ass_Lanes snap)]"

text \<open>One tick writes the taken candidates over decisions to hold.\<close>

lemma EvaluateAdaptiveQuota_eq:
  assumes "EvaluateAdaptiveQuota srt cfg policies snap (Some st) now = Some ds" "ds \<noteq> []"
  shows "aqc_Enabled cfg \<and> length (ass_Lanes snap) \<le> length policies
    \<and> ds = writeAll (\<lambda>c. applyCandidate cfg policies snap c (ass_GlobalPressure snap))
        (takenCandidates srt cfg (laneOutcomes cfg policies snap st now))
        (heldDecisions policies snap (laneOutcomes cfg policies snap st now))"
proof -
  let ?outs = "laneOutcomes cfg policies snap st now"
  let ?D = "srt (candidatesOf QuotaAdjustmentDecrease ?outs)" and ?I = "srt (candidatesOf QuotaAdjustmentIncrease ?outs)"
  let ?app = "\<lambda>c. applyCandidate cfg policies snap c (ass_GlobalPressure snap)"
  define M where "M = (if aqc_MaxAdjustmentsPerTick cfg < 1 then 1 else aqc_MaxAdjustmentsPerTick cfg)"
  define X where "X = applyCandidates ?app M ?D (0, heldDecisions policies snap ?outs)"
  have g: "aqc_Enabled cfg" "length (ass_Lanes snap) \<le> length policies"
    using assms by (auto simp: EvaluateAdaptiveQuota_def Let_def split: if_splits)
  have m: "nat M = tickBudget cfg" by (simp add: tickBudget_def max_def M_def)
  have X: "X = (int (length (take (nat M) ?D)), writeAll ?app (take (nat M) ?D) (heldDecisions policies snap ?outs))"
    by (simp only: X_def applyCandidates_eq diff_zero add_0)
  have ds: "ds = (if fst X < M then snd (applyCandidates ?app M ?I X) else snd X)"
    using assms
    by (simp add: EvaluateAdaptiveQuota_def Let_def heldDecisions_def X_def M_def [symmetric] case_prod_beta split: if_splits)
  have "ds = writeAll ?app (take (nat M - length ?D) ?I) (snd X)"
  proof (cases "fst X < M")
    case True
    then have "nat (M - fst X) = nat M - length ?D" by (simp add: X min_def split: if_splits)
    moreover have "ds = snd (applyCandidates ?app M ?I (fst X, snd X))" using ds True by simp
    ultimately show ?thesis by (simp only: applyCandidates_eq snd_conv)
  next
    case False
    then have "nat M - length ?D = 0" by (simp add: X min_def split: if_splits)
    then show ?thesis using ds False by simp
  qed
  then show ?thesis using g by (simp add: takenCandidates_def m X)
qed

lemma taken_ok:
  assumes "prioritySort srt" "indexed 0 outs"
  shows "distinct (map cand_laneIdx (takenCandidates srt cfg outs)) \<and> length (takenCandidates srt cfg outs) \<le> tickBudget cfg
    \<and> (\<forall>c \<in> set (takenCandidates srt cfg outs). cand_laneIdx c < length outs \<and> outs ! cand_laneIdx c = LaneCandidate c)"
proof -
  let ?D = "candidatesOf QuotaAdjustmentDecrease outs" and ?I = "candidatesOf QuotaAdjustmentIncrease outs"
  have m: "mset (srt ?D) = mset ?D" "mset (srt ?I) = mset ?I" using assms(1) by (simp_all add: prioritySort_def)
  have st: "set (srt ?D) = set ?D" "set (srt ?I) = set ?I" using m mset_eq_setD by blast+
  have own: "cand_laneIdx c < length outs \<and> outs ! cand_laneIdx c = LaneCandidate c"
    if "c \<in> set (srt ?D @ srt ?I)" for c
  proof -
    have "LaneCandidate c \<in> set outs" using that st by (auto simp: candidatesOf_in)
    then obtain i where "i < length outs" "outs ! i = LaneCandidate c" by (auto simp: in_set_conv_nth)
    then show ?thesis using assms(2) by (auto simp: indexed_def)
  qed
  have "distinct ?D" "distinct ?I"
    using candidates_sorted_idx [OF assms(2)] distinct_map by blast+
  then have "distinct (srt ?D)" "distinct (srt ?I)" using m mset_eq_imp_distinct_iff by blast+
  moreover have "set (srt ?D) \<inter> set (srt ?I) = {}" by (auto simp: st candidatesOf_in)
  ultimately have "distinct (srt ?D @ srt ?I)" by simp
  moreover have "inj_on cand_laneIdx (set (srt ?D @ srt ?I))"
    using own by (intro inj_onI) (metis laneOutcome.inject(2))
  ultimately have "distinct (map cand_laneIdx (srt ?D @ srt ?I))" by (simp only: distinct_map)
  then have "distinct (map cand_laneIdx (takenCandidates srt cfg outs))"
    unfolding takenCandidates_def take_map [symmetric] by (rule distinct_take)
  moreover have "set (takenCandidates srt cfg outs) \<subseteq> set (srt ?D @ srt ?I)"
    unfolding takenCandidates_def by (rule set_take_subset)
  ultimately show ?thesis using own by (auto simp: takenCandidates_def)
qed

lemma laneOutcomes_length [simp]: "length (laneOutcomes cfg policies snap st now) = length (ass_Lanes snap)"
  by (simp add: laneOutcomes_def Let_def)

text \<open>
  What the decisions of a tick are, lane by lane, for every sort that keeps Go's promise. \<open>decided\<close> says that a tick
  with these inputs made the decisions \<open>ds\<close>, one per lane.
\<close>

lemma applyCandidate_fields:
  "qd_OldQuota (applyCandidate cfg policies snap c p) = sig_CurrentQuota (ass_Lanes snap ! cand_laneIdx c)"
  "qd_Action (applyCandidate cfg policies snap c p) = cand_action c"
  "qd_Lane (applyCandidate cfg policies snap c p) = rp_Lane (policies ! cand_laneIdx c)"
  by (simp_all add: applyCandidate_def fillDecisionSignals_def Let_def)

definition goesBefore :: "laneCandidate \<Rightarrow> laneCandidate \<Rightarrow> bool" where
  "goesBefore b c \<longleftrightarrow> cand_action b = QuotaAdjustmentDecrease \<and> cand_action c = QuotaAdjustmentIncrease
     \<or> cand_action b = cand_action c \<and> cand_priority b < cand_priority c"

locale priority_sort =
  fixes srt :: "laneCandidate list \<Rightarrow> laneCandidate list"
  assumes perm: "mset (srt cs) = mset cs" and ascending: "sorted (map cand_priority (srt cs))"
begin

definition decided ::
  "AdaptiveQuotaConfig \<Rightarrow> resolvedLaneAdaptivePolicy list \<Rightarrow> AdaptiveSignalSnapshot \<Rightarrow> AdaptiveControllerState \<Rightarrow>
   time \<Rightarrow> QuotaAdjustmentDecision list \<Rightarrow> bool" where
  "decided cfg policies snap st now ds \<longleftrightarrow>
     EvaluateAdaptiveQuota srt cfg policies snap (Some st) now = Some ds \<and> ds \<noteq> []"

abbreviation taken ::
  "AdaptiveQuotaConfig \<Rightarrow> resolvedLaneAdaptivePolicy list \<Rightarrow> AdaptiveSignalSnapshot \<Rightarrow> AdaptiveControllerState \<Rightarrow>
   time \<Rightarrow> laneCandidate list" where
  "taken cfg policies snap st now \<equiv> takenCandidates srt cfg (laneOutcomes cfg policies snap st now)"

abbreviation adjusted ::
  "AdaptiveQuotaConfig \<Rightarrow> resolvedLaneAdaptivePolicy list \<Rightarrow> AdaptiveSignalSnapshot \<Rightarrow> laneCandidate \<Rightarrow>
   QuotaAdjustmentDecision" where
  "adjusted cfg policies snap \<equiv> \<lambda>c. applyCandidate cfg policies snap c (ass_GlobalPressure snap)"

lemma sorts: "prioritySort srt"
  by (simp add: prioritySort_def perm ascending)

lemmas taken_facts = taken_ok [OF sorts laneOutcomes_indexed]

lemma decided_eq:
  assumes "decided cfg policies snap st now ds"
  shows "ds = writeAll (adjusted cfg policies snap) (taken cfg policies snap st now)
    (heldDecisions policies snap (laneOutcomes cfg policies snap st now))" "length ds = length (ass_Lanes snap)"
proof -
  show e: "ds = writeAll (adjusted cfg policies snap) (taken cfg policies snap st now)
      (heldDecisions policies snap (laneOutcomes cfg policies snap st now))"
    using assms EvaluateAdaptiveQuota_eq unfolding decided_def by blast
  show "length ds = length (ass_Lanes snap)" by (subst e) (simp add: heldDecisions_def)
qed

lemma decision_taken:
  assumes "decided cfg policies snap st now ds" "c \<in> set (taken cfg policies snap st now)"
  shows "ds ! cand_laneIdx c = adjusted cfg policies snap c \<and> cand_laneIdx c < length ds"
proof -
  have d: "distinct (map cand_laneIdx (taken cfg policies snap st now))" "cand_laneIdx c < length (ass_Lanes snap)"
    using taken_facts assms(2) by auto
  have "writeAll (adjusted cfg policies snap) (taken cfg policies snap st now)
      (heldDecisions policies snap (laneOutcomes cfg policies snap st now)) ! cand_laneIdx c = adjusted cfg policies snap c"
    using d by (intro writeAll_nth [OF d(1) assms(2)]) (simp add: heldDecisions_def)
  then show ?thesis using d(2) decided_eq [OF assms(1)] by simp
qed

lemma decision_held:
  assumes "decided cfg policies snap st now ds" "i < length ds"
    "i \<notin> cand_laneIdx ` set (taken cfg policies snap st now)"
  shows "ds ! i = decidedReason (laneOutcomes cfg policies snap st now ! i)
    (initialDecision (policies ! i) snap (ass_Lanes snap ! i))"
proof -
  have "ds ! i = heldDecisions policies snap (laneOutcomes cfg policies snap st now) ! i"
    using decided_eq(1) [OF assms(1)] writeAll_other [OF assms(3)] by simp
  then show ?thesis using assms(2) decided_eq(2) [OF assms(1)] by (simp add: heldDecisions_def)
qed

lemma held_holds:
  assumes "decided cfg policies snap st now ds" "i < length ds"
    "i \<notin> cand_laneIdx ` set (taken cfg policies snap st now)"
  shows "qd_Action (ds ! i) = QuotaAdjustmentHold \<and> qd_NewQuota (ds ! i) = qd_OldQuota (ds ! i)"
  unfolding decision_held [OF assms]
  by (simp add: decidedReason_def initialDecision_def fillDecisionSignals_def split: laneOutcome.splits)

lemma taken_of_action:
  assumes "decided cfg policies snap st now ds" "i < length ds" "qd_Action (ds ! i) \<noteq> QuotaAdjustmentHold"
  shows "\<exists>c \<in> set (taken cfg policies snap st now). cand_laneIdx c = i \<and> ds ! i = adjusted cfg policies snap c"
  using held_holds [OF assms(1,2)] assms(3) decision_taken [OF assms(1)] by force

lemma action_count:
  assumes "decided cfg policies snap st now ds"
  shows "length (filter (\<lambda>d. qd_Action d \<noteq> QuotaAdjustmentHold) ds) \<le> tickBudget cfg"
proof -
  let ?t = "taken cfg policies snap st now" and ?A = "{i. i < length ds \<and> qd_Action (ds ! i) \<noteq> QuotaAdjustmentHold}"
  have "?A \<subseteq> cand_laneIdx ` set ?t" using held_holds [OF assms] by blast
  then have "card ?A \<le> card (cand_laneIdx ` set ?t)" by (intro card_mono) simp_all
  also have "\<dots> \<le> length ?t" using card_image_le [of "set ?t" cand_laneIdx] card_length [of ?t] by simp
  also have "\<dots> \<le> tickBudget cfg" using taken_facts by blast
  finally show ?thesis by (simp add: length_filter_conv_card)
qed

lemma candidate_guards:
  assumes "c \<in> set (taken cfg policies snap st now)"
  shows "rp_Enabled (policies ! cand_laneIdx c)
    \<and> \<not> (aqc_WarmupDuration cfg > 0 \<and> timeSub now (acs_StartedAt st) < aqc_WarmupDuration cfg)
    \<and> cooledDown cfg st now (rp_LaneID (policies ! cand_laneIdx c))
    \<and> (cand_action c = QuotaAdjustmentDecrease
         \<and> mayDecrease cfg (policies ! cand_laneIdx c) (ass_Lanes snap ! cand_laneIdx c) (ass_GlobalPressure snap)
         \<and> cand_priority c = decreasePriority (rp_Class (policies ! cand_laneIdx c))
       \<or> cand_action c = QuotaAdjustmentIncrease
         \<and> mayIncrease cfg (policies ! cand_laneIdx c) (ass_Lanes snap ! cand_laneIdx c) (ass_GlobalPressure snap)
         \<and> cand_priority c = increasePriority (rp_Class (policies ! cand_laneIdx c)))"
proof -
  let ?i = "cand_laneIdx c"
  have "?i < length (ass_Lanes snap)" "laneOutcomes cfg policies snap st now ! ?i = LaneCandidate c"
    using taken_facts assms by auto
  then have "evaluateLane cfg (aqc_WarmupDuration cfg > 0 \<and> timeSub now (acs_StartedAt st) < aqc_WarmupDuration cfg)
      st now (ass_GlobalPressure snap) ?i (policies ! ?i) (ass_Lanes snap ! ?i) = LaneCandidate c"
    by (simp add: laneOutcomes_def Let_def)
  from evaluateLane_candidate [OF this] show ?thesis by blast
qed

text \<open>A candidate that goes before a taken one is taken: decreases go before increases, and within one
  action a lower priority number goes first.\<close>

lemma taken_prefix:
  assumes "c \<in> set (taken cfg policies snap st now)" "LaneCandidate b \<in> set (laneOutcomes cfg policies snap st now)"
    "goesBefore b c" "cand_action b \<noteq> QuotaAdjustmentHold"
  shows "b \<in> set (taken cfg policies snap st now)"
proof -
  let ?outs = "laneOutcomes cfg policies snap st now"
  let ?D = "srt (candidatesOf QuotaAdjustmentDecrease ?outs)" and ?I = "srt (candidatesOf QuotaAdjustmentIncrease ?outs)"
  let ?P = "\<lambda>x y. cand_action x = QuotaAdjustmentDecrease \<and> cand_action y = QuotaAdjustmentIncrease
     \<or> cand_action x = cand_action y \<and> cand_priority x \<le> cand_priority y"
  have st: "set ?D = set (candidatesOf QuotaAdjustmentDecrease ?outs)" "set ?I = set (candidatesOf QuotaAdjustmentIncrease ?outs)"
    by (rule mset_eq_setD [OF perm])+
  have act: "cand_action x = QuotaAdjustmentDecrease" if "x \<in> set ?D" for x using that st by (simp add: candidatesOf_in)
  have act': "cand_action x = QuotaAdjustmentIncrease" if "x \<in> set ?I" for x using that st by (simp add: candidatesOf_in)
  have "sorted_wrt ?P ?D"
    by (rule sorted_wrt_mono_rel [OF _ ascending [unfolded sorted_map]]) (simp add: act)
  moreover have "sorted_wrt ?P ?I"
    by (rule sorted_wrt_mono_rel [OF _ ascending [unfolded sorted_map]]) (simp add: act')
  moreover have "\<forall>x \<in> set ?D. \<forall>y \<in> set ?I. ?P x y" by (intro ballI disjI1 conjI act act')
  ultimately have "sorted_wrt ?P (?D @ ?I)" unfolding sorted_wrt_append by (intro conjI)
  then have srtd: "sorted_wrt ?P (take (tickBudget cfg) (?D @ ?I) @ drop (tickBudget cfg) (?D @ ?I))"
    by (simp only: append_take_drop_id)
  have "b \<in> set ?D \<or> b \<in> set ?I"
    using assms(2,4) unfolding st by (cases "cand_action b") (simp_all add: candidatesOf_in)
  then have "b \<in> set (take (tickBudget cfg) (?D @ ?I) @ drop (tickBudget cfg) (?D @ ?I))"
    by (simp only: append_take_drop_id) simp
  moreover have "b \<notin> set (drop (tickBudget cfg) (?D @ ?I))"
  proof
    assume b: "b \<in> set (drop (tickBudget cfg) (?D @ ?I))"
    have c: "c \<in> set (take (tickBudget cfg) (?D @ ?I))" using assms(1) by (simp only: takenCandidates_def)
    have all: "\<forall>x \<in> set (take (tickBudget cfg) (?D @ ?I)). \<forall>y \<in> set (drop (tickBudget cfg) (?D @ ?I)). ?P x y"
      by (rule sorted_wrt_append [THEN iffD1, OF srtd, THEN conjunct2, THEN conjunct2])
    show False using bspec [OF bspec [OF all c] b] assms(3) unfolding goesBefore_def by (metis QuotaAdjustmentAction.distinct(5) leD)
  qed
  ultimately show ?thesis unfolding takenCandidates_def by simp
qed

lemma order_kept:
  assumes "decided cfg policies snap st now ds" "b \<in> set (taken cfg policies snap st now)" "j < length ds"
    "laneOutcomes cfg policies snap st now ! j = LaneCandidate c" "goesBefore c b"
  shows "qd_Action (ds ! j) = cand_action c"
proof -
  have len: "length ds = length (ass_Lanes snap)" by (rule decided_eq(2) [OF assms(1)])
  have mem: "LaneCandidate c \<in> set (laneOutcomes cfg policies snap st now)"
    using assms(3,4) len nth_mem [of j "laneOutcomes cfg policies snap st now"] by simp
  have "evaluateLane cfg (aqc_WarmupDuration cfg > 0 \<and> timeSub now (acs_StartedAt st) < aqc_WarmupDuration cfg)
      st now (ass_GlobalPressure snap) j (policies ! j) (ass_Lanes snap ! j) = LaneCandidate c"
    using assms(3,4) len by (simp add: laneOutcomes_def Let_def)
  note e = evaluateLane_candidate [OF this]
  then have "cand_action c \<noteq> QuotaAdjustmentHold" by (elim conjE disjE) simp_all
  from taken_prefix [OF assms(2) mem assms(5) this] have "c \<in> set (taken cfg policies snap st now)" .
  from decision_taken [OF assms(1) this] e show ?thesis by (simp add: applyCandidate_fields)
qed

end

interpretation insertion: priority_sort "sort_key cand_priority"
  by unfold_locales simp_all

lemma prioritySort_locale: "prioritySort srt \<Longrightarrow> priority_sort srt"
  by unfold_locales (simp_all add: prioritySort_def)

subsection \<open>Bounds of an adjustment\<close>

definition lanePolicyOk :: "resolvedLaneAdaptivePolicy \<Rightarrow> bool" where
  "lanePolicyOk pol \<longleftrightarrow> 1 \<le> rp_MinQuota pol \<and> rp_MinQuota pol \<le> rp_MaxQuota pol \<and> rp_MaxQuota pol \<le> 1024"

lemma applyCandidate_increase:
  assumes "cand_action c = QuotaAdjustmentIncrease" "lanePolicyOk (policies ! cand_laneIdx c)"
    "1 \<le> sig_CurrentQuota (ass_Lanes snap ! cand_laneIdx c)"
    "sig_CurrentQuota (ass_Lanes snap ! cand_laneIdx c) < rp_MaxQuota (policies ! cand_laneIdx c)"
    "1 \<le> aqc_IncreaseStep cfg" "aqc_IncreaseStep cfg < 2 ^ 62"
  shows "qd_NewQuota (applyCandidate cfg policies snap c p) =
    min (sig_CurrentQuota (ass_Lanes snap ! cand_laneIdx c) + aqc_IncreaseStep cfg) (rp_MaxQuota (policies ! cand_laneIdx c))"
proof -
  have w: "wrapInt (sig_CurrentQuota (ass_Lanes snap ! cand_laneIdx c) + aqc_IncreaseStep cfg)
      = sig_CurrentQuota (ass_Lanes snap ! cand_laneIdx c) + aqc_IncreaseStep cfg"
    using assms by (intro wrapInt_id) (simp_all add: lanePolicyOk_def)
  show ?thesis
    using assms by (simp add: applyCandidate_def fillDecisionSignals_def Let_def w lanePolicyOk_def MaxLaneQuota_def)
qed

lemma applyCandidate_decrease:
  assumes "cand_action c = QuotaAdjustmentDecrease" "lanePolicyOk (policies ! cand_laneIdx c)"
    "rp_MinQuota (policies ! cand_laneIdx c) < sig_CurrentQuota (ass_Lanes snap ! cand_laneIdx c)"
    "sig_CurrentQuota (ass_Lanes snap ! cand_laneIdx c) \<le> 1024"
    "1 \<le> aqc_DecreaseStep cfg" "aqc_DecreaseStep cfg < 2 ^ 63"
  shows "qd_NewQuota (applyCandidate cfg policies snap c p) =
    max (sig_CurrentQuota (ass_Lanes snap ! cand_laneIdx c) - aqc_DecreaseStep cfg) (rp_MinQuota (policies ! cand_laneIdx c))"
proof -
  have w: "wrapInt (sig_CurrentQuota (ass_Lanes snap ! cand_laneIdx c) - aqc_DecreaseStep cfg)
      = sig_CurrentQuota (ass_Lanes snap ! cand_laneIdx c) - aqc_DecreaseStep cfg"
    using assms by (intro wrapInt_id) (simp_all add: lanePolicyOk_def)
  show ?thesis
    using assms by (simp add: applyCandidate_def fillDecisionSignals_def Let_def w lanePolicyOk_def MaxLaneQuota_def)
qed

text \<open>An increase step near the top of the \<open>int\<close> range wraps around and sets the quota to its minimum.\<close>

lemma increase_step_overflow:
  assumes "cand_action c = QuotaAdjustmentIncrease" "lanePolicyOk (policies ! cand_laneIdx c)"
    "1 \<le> sig_CurrentQuota (ass_Lanes snap ! cand_laneIdx c)" "sig_CurrentQuota (ass_Lanes snap ! cand_laneIdx c) \<le> 1024"
    "aqc_IncreaseStep cfg = 2 ^ 63 - 1"
  shows "qd_NewQuota (applyCandidate cfg policies snap c p) = 1"
proof -
  have "wrapInt (q + (2 ^ 63 - 1)) = q - 1 - 2 ^ 63" if "1 \<le> q" "q \<le> 1024" for q
  proof -
    have "wrapInt (q + (2 ^ 63 - 1)) = (q + (2 ^ 63 - 1) + 2 ^ 63) mod 2 ^ 64 - 2 ^ 63"
      unfolding wrapInt_def int_word_sint by simp
    also have "q + (2 ^ 63 - 1) + 2 ^ 63 = (q - 1) + 2 ^ 64" by simp
    also have "((q - 1) + 2 ^ 64) mod 2 ^ 64 = q - 1" using that by (simp only: mod_add_self2) simp
    finally show ?thesis .
  qed
  then have "wrapInt (sig_CurrentQuota (ass_Lanes snap ! cand_laneIdx c) + aqc_IncreaseStep cfg) < 1"
    using assms(3-5) by simp
  then show ?thesis
    using assms(1,2) by (simp add: applyCandidate_def fillDecisionSignals_def Let_def lanePolicyOk_def MaxLaneQuota_def)
qed

subsection \<open>Resolved policies\<close>

lemma defaultResolvedPolicy_ok: "lanePolicyOk (defaultResolvedPolicy lane class initial)"
  by (simp add: defaultResolvedPolicy_def lanePolicyOk_def MaxLaneQuota_def Let_def case_prod_beta)

lemma validateAdaptiveLanes_ok:
  "validateAdaptiveLanes lq seen lanes = None \<Longrightarrow> lp \<in> set lanes \<Longrightarrow>
     1 \<le> lap_MinQuota lp \<and> lap_MinQuota lp \<le> lap_MaxQuota lp \<and> lap_MaxQuota lp \<le> 1024 \<and> lap_Lane lp \<noteq> []"
  by (induction lanes arbitrary: seen) (auto simp: MaxLaneQuota_def split: if_splits)

lemma policyByName_in: "policyByName explicit name = Some lp \<Longrightarrow> lp \<in> set explicit"
  by (auto simp: policyByName_def dest!: map_of_SomeD)

lemma applyExplicit_ok:
  assumes "1 \<le> lap_MinQuota lp" "lap_MinQuota lp \<le> lap_MaxQuota lp" "lap_MaxQuota lp \<le> 1024"
  shows "lanePolicyOk (applyExplicit lp name initial r)"
  using assms by (simp add: applyExplicit_def lanePolicyOk_def Let_def)

lemma clamp_ok:
  assumes "lanePolicyOk r2"
  shows "lanePolicyOk (let r3 = (if rp_MaxQuota r2 < rp_MinQuota r2 then r2\<lparr>rp_MaxQuota := rp_MinQuota r2\<rparr> else r2);
      r4 = (if rp_MaxQuota r3 > uint MaxLaneQuota then r3\<lparr>rp_MaxQuota := uint MaxLaneQuota\<rparr> else r3)
      in r4\<lparr>rp_LaneID := l\<rparr>)"
  using assms by (simp add: Let_def lanePolicyOk_def MaxLaneQuota_def)

lemma resolveAdaptiveLane_ok:
  assumes "\<forall>lp \<in> set explicit. 1 \<le> lap_MinQuota lp \<and> lap_MinQuota lp \<le> lap_MaxQuota lp \<and> lap_MaxQuota lp \<le> 1024"
  shows "lanePolicyOk (resolveAdaptiveLane reg adm explicit initial i)"
proof (cases "policyByName explicit (Name reg (of_nat i))")
  case None
  show ?thesis
    unfolding resolveAdaptiveLane_def Let_def None option.case
    by (rule clamp_ok [unfolded Let_def]) (rule defaultResolvedPolicy_ok)
next
  case (Some lp)
  then have lp: "1 \<le> lap_MinQuota lp" "lap_MinQuota lp \<le> lap_MaxQuota lp" "lap_MaxQuota lp \<le> 1024"
    using assms policyByName_in by blast+
  show ?thesis
    unfolding resolveAdaptiveLane_def Let_def Some option.case
    by (rule clamp_ok [unfolded Let_def]) (rule applyExplicit_ok [OF lp])
qed

subsection \<open>The update of one lane\<close>

lemma view_quota:
  assumes "reg_wf reg" "Len reg \<le> 65536" "length (qps_laneQuotas snap) = Len reg" "i < Len reg"
  shows "map_of (qpi_LaneQuotas (snd (quotaPolicyView reg snap))) (reg_names reg ! i) = Some (word_of_int (qps_laneQuotas snap ! i))"
proof -
  have e: "map (\<lambda>i. (Name reg (of_nat i), word_of_int (qps_laneQuotas snap ! i) :: u32)) [0..<Len reg]
      = map (\<lambda>i. (reg_names reg ! i, word_of_int (qps_laneQuotas snap ! i))) [0..<length (reg_names reg)]"
    using assms(2) by (simp add: Name_nth Len_def)
  show ?thesis
    unfolding quotaPolicyView_def snd_conv QuotaPolicyInput.select_convs e
    using assms by (intro map_of_laneTable_view) (simp_all add: reg_wf_def Len_def)
qed

text \<open>A successful update through the queue changes the quota of the named lane only, needs the expected
  version, and moves the version on.\<close>

lemma queueApplier_cases:
  assumes "queueApplier lane quota v s = (r, s')"
  shows "(\<exists>e. r = Inl e \<and> s' = s) \<or>
    (\<exists>snap. r = Inr (s_quotaVersion s + 1) \<and> qps_version (s_quotaPolicy s) = v
      \<and> s' = s\<lparr>s_quotaVersion := s_quotaVersion s + 1, s_quotaPolicy := snap\<lparr>qps_version := s_quotaVersion s + 1\<rparr>\<rparr>
      \<and> buildQuotaPolicySnapshot (s_laneReg s) \<lparr>qpi_DefaultQuota = qpi_DefaultQuota (snd (CurrentQuotaPolicyView s)),
           qpi_LaneQuotas = AList.update lane quota (qpi_LaneQuotas (snd (CurrentQuotaPolicyView s)))\<rparr> = Inr snap)"
  using assms
  by (auto simp: queueApplier_def updateLaneQuotaIfVersionInternal_def UpdateQuotaPolicyIfVersion_def Let_def
      publishQuotaPolicyLocked_def split: if_splits sum.splits prod.splits)

definition quotasNarrow :: "Scheduler \<Rightarrow> bool" where
  "quotasNarrow s \<longleftrightarrow> (\<forall>q \<in> set (qps_laneQuotas (s_quotaPolicy s)). q < 2 ^ 32)"

lemma updated_quotas:
  assumes "sched_wf s" "reg_wf (s_laneReg s)" "Len (s_laneReg s) \<le> 65536" "quotasNarrow s"
    "buildQuotaPolicySnapshot (s_laneReg s) \<lparr>qpi_DefaultQuota = d,
       qpi_LaneQuotas = AList.update lane quota (qpi_LaneQuotas (snd (CurrentQuotaPolicyView s)))\<rparr> = Inr snap"
    "l < Len (s_laneReg s)"
  shows "qps_laneQuotas snap ! l = (if reg_names (s_laneReg s) ! l = lane then uint quota
    else qps_laneQuotas (s_quotaPolicy s) ! l)"
proof -
  have "qps_laneQuotas (s_quotaPolicy s) ! l \<in> set (qps_laneQuotas (s_quotaPolicy s))"
    using assms(1,6) sched_wfD(6) by (metis nth_mem)
  then have "1 \<le> qps_laneQuotas (s_quotaPolicy s) ! l" "qps_laneQuotas (s_quotaPolicy s) ! l < 2 ^ 32"
    using sched_wfD(7) [OF assms(1)] assms(4) by (auto simp: quotasNarrow_def)
  then have "uint (word_of_int (qps_laneQuotas (s_quotaPolicy s) ! l) :: u32) = qps_laneQuotas (s_quotaPolicy s) ! l"
    by (simp add: uint_word_of_int)
  then show ?thesis
    using buildQuotaPolicySnapshot_quotas [OF assms(5,3)] assms(6)
      view_quota [OF assms(2,3) sched_wfD(6) [OF assms(1)] assms(6)]
    by (simp add: mapGet_def update_conv' CurrentQuotaPolicyView_def Len_def)
qed

subsection \<open>The tick\<close>

text \<open>What the bookkeeping of a tick leaves alone.\<close>

definition quotaSide :: "Scheduler \<Rightarrow> quotaPolicySnapshot \<times> u64 \<times> LaneRegistry \<times> lifecycleState" where
  "quotaSide s = (s_quotaPolicy s, s_quotaVersion s, s_laneReg s, s_state s)"

lemma quotaSide_upd [simp]: "quotaSide (updCounters l f s) = quotaSide s"
  by (simp add: quotaSide_def updCounters_def)

lemma record_wf [simp]:
  "sched_wf (RecordAdaptiveQuotaDecision l a r t s) = sched_wf s" "sched_wf (RecordAdaptiveQuotaLastReason l r s) = sched_wf s"
  "quotaSide (RecordAdaptiveQuotaDecision l a r t s) = quotaSide s"
  "quotaSide (RecordAdaptiveQuotaLastReason l r s) = quotaSide s"
  by (simp_all add: RecordAdaptiveQuotaDecision_def RecordAdaptiveQuotaLastReason_def)

lemma tick_parts [simp]:
  "quotaSide (ta_sched (tickHold cfg reg hook now d a)) = quotaSide (ta_sched a)"
  "quotaSide (ta_sched (tickFailed snap reg hook now d a)) = quotaSide (ta_sched a)"
  "quotaSide (ta_sched (tickApplied snap reg hook now ver d a)) = quotaSide (ta_sched a)"
  "sched_wf (ta_sched (tickHold cfg reg hook now d a)) = sched_wf (ta_sched a)"
  "sched_wf (ta_sched (tickFailed snap reg hook now d a)) = sched_wf (ta_sched a)"
  "sched_wf (ta_sched (tickApplied snap reg hook now ver d a)) = sched_wf (ta_sched a)"
  by (simp_all add: tickHold_def tickFailed_def tickApplied_def Let_def split: option.splits)

text \<open>Once the version has moved on, no further adjustment of the tick is applied.\<close>

lemma tickLoop_stale:
  "qps_version (s_quotaPolicy (ta_sched a)) \<noteq> ass_QuotaVersion snap \<Longrightarrow>
     quotaSide (ta_sched (tickLoop queueApplier cfg snap reg hook now ctxDone k ds a)) = quotaSide (ta_sched a)"
proof (induction ds arbitrary: k a)
  case Nil
  then show ?case by simp
next
  case (Cons d ds)
  obtain r s' where q: "queueApplier (qd_Lane d) (word_of_int (qd_NewQuota d)) (ass_QuotaVersion snap) (ta_sched a) = (r, s')"
    by (rule prod.exhaust)
  from queueApplier_cases [OF q] Cons.prems obtain e where r: "r = Inl e" "s' = ta_sched a" by auto
  have v: "qps_version (s_quotaPolicy (ta_sched b)) \<noteq> ass_QuotaVersion snap" if "quotaSide (ta_sched b) = quotaSide (ta_sched a)" for b :: tickAcc
    using that Cons.prems by (simp add: quotaSide_def)
  show ?case using Cons.IH [OF v] by (simp add: q r)
qed

lemma quotaApplied_wf:
  assumes "sched_wf s" "buildQuotaPolicySnapshot (s_laneReg s) p = Inr snap"
  shows "sched_wf (s\<lparr>s_quotaVersion := v, s_quotaPolicy := snap\<lparr>qps_version := w\<rparr>\<rparr>)"
  using assms buildQuotaPolicySnapshot_ok [OF assms(2)] by (auto simp: sched_wf_def quotaSnap_ok_def trackers_ok_def)

lemma tickLoop_wf:
  "sched_wf (ta_sched a) \<Longrightarrow>
     sched_wf (ta_sched (tickLoop queueApplier cfg snap reg hook now ctxDone k ds a))"
proof (induction ds arbitrary: k a)
  case Nil
  then show ?case by simp
next
  case (Cons d ds)
  obtain r s' where q: "queueApplier (qd_Lane d) (word_of_int (qd_NewQuota d)) (ass_QuotaVersion snap) (ta_sched a) = (r, s')"
    by (rule prod.exhaust)
  have "sched_wf s'"
    using queueApplier_cases [OF q] Cons.prems quotaApplied_wf by auto
  then show ?case using Cons.IH Cons.prems by (cases r) (simp_all add: q)
qed

text \<open>Over the whole loop the quota policy is the old one, or one lane of it was updated once.\<close>

definition oneUpdate :: "Scheduler \<Rightarrow> Scheduler \<Rightarrow> bool" where
  "oneUpdate s s' \<longleftrightarrow> (\<exists>lane quota d snap. buildQuotaPolicySnapshot (s_laneReg s) \<lparr>qpi_DefaultQuota = d,
        qpi_LaneQuotas = AList.update lane quota (qpi_LaneQuotas (snd (CurrentQuotaPolicyView s)))\<rparr> = Inr snap
      \<and> s_quotaPolicy s' = snap\<lparr>qps_version := s_quotaVersion s + 1\<rparr>
      \<and> s_quotaVersion s' = s_quotaVersion s + 1 \<and> s_laneReg s' = s_laneReg s)"

lemma oneUpdate_cong:
  "quotaSide s1 = quotaSide s \<Longrightarrow> oneUpdate s1 s' = oneUpdate s s'"
  "quotaSide s1 = quotaSide s \<Longrightarrow> oneUpdate s' s1 = oneUpdate s' s"
  by (simp_all add: oneUpdate_def quotaSide_def CurrentQuotaPolicyView_def)

lemma queueApplier_ok:
  assumes "queueApplier lane quota v s = (Inr v', s')"
  shows "oneUpdate s s' \<and> qps_version (s_quotaPolicy s) = v \<and> qps_version (s_quotaPolicy s') = s_quotaVersion s + 1"
proof -
  from queueApplier_cases [OF assms] obtain sn where sn: "buildQuotaPolicySnapshot (s_laneReg s)
      \<lparr>qpi_DefaultQuota = qpi_DefaultQuota (snd (CurrentQuotaPolicyView s)),
        qpi_LaneQuotas = AList.update lane quota (qpi_LaneQuotas (snd (CurrentQuotaPolicyView s)))\<rparr> = Inr sn"
      "s' = s\<lparr>s_quotaVersion := s_quotaVersion s + 1, s_quotaPolicy := sn\<lparr>qps_version := s_quotaVersion s + 1\<rparr>\<rparr>"
      "qps_version (s_quotaPolicy s) = v"
    by auto
  have "oneUpdate s s'"
    unfolding oneUpdate_def by (intro exI conjI, rule sn(1)) (simp_all add: sn(2))
  then show ?thesis using sn by simp
qed

lemma tickLoop_once:
  "qps_version (s_quotaPolicy (ta_sched a)) = s_quotaVersion (ta_sched a) \<Longrightarrow>
     quotaSide (ta_sched (tickLoop queueApplier cfg snap reg hook now ctxDone k ds a)) = quotaSide (ta_sched a)
     \<or> oneUpdate (ta_sched a) (ta_sched (tickLoop queueApplier cfg snap reg hook now ctxDone k ds a))"
proof (induction ds arbitrary: k a)
  case Nil
  then show ?case by simp
next
  case (Cons d ds)
  obtain r s' where q: "queueApplier (qd_Lane d) (word_of_int (qd_NewQuota d)) (ass_QuotaVersion snap) (ta_sched a) = (r, s')"
    by (rule prod.exhaust)
  let ?run = "\<lambda>b. ta_sched (tickLoop queueApplier cfg snap reg hook now ctxDone (Suc k) ds b)"
  have same: "quotaSide (?run b) = quotaSide (ta_sched a) \<or> oneUpdate (ta_sched a) (?run b)"
    if e: "quotaSide (ta_sched b) = quotaSide (ta_sched a)" for b
  proof -
    have "qps_version (s_quotaPolicy (ta_sched b)) = s_quotaVersion (ta_sched b)"
      using e Cons.prems by (simp add: quotaSide_def)
    from Cons.IH [OF this, of "Suc k"] show ?thesis using e by (simp add: oneUpdate_cong(1) [OF e])
  qed
  have new: "oneUpdate (ta_sched a) (?run b)" if r: "r = Inr v" and e: "quotaSide (ta_sched b) = quotaSide s'" for b v
  proof -
    from queueApplier_ok [OF q [unfolded r]] have one: "oneUpdate (ta_sched a) s'"
      and old: "qps_version (s_quotaPolicy (ta_sched a)) = ass_QuotaVersion snap"
      and new: "qps_version (s_quotaPolicy s') = s_quotaVersion (ta_sched a) + 1"
      by simp_all
    have "qps_version (s_quotaPolicy (ta_sched b)) \<noteq> ass_QuotaVersion snap"
      using e old new Cons.prems by (simp add: quotaSide_def)
    from tickLoop_stale [OF this] have "quotaSide (?run b) = quotaSide s'" using e by simp
    then show ?thesis using one oneUpdate_cong(2) by blast
  qed
  show ?case
  proof (cases r)
    case (Inl e)
    then have "s' = ta_sched a" using queueApplier_cases [OF q] by auto
    then show ?thesis using Inl same by (simp add: q)
  next
    case (Inr v)
    then show ?thesis using same new [OF Inr] by (simp add: q)
  qed
qed

lemma oneUpdate_changes:
  assumes "oneUpdate s s'" "sched_wf s" "reg_wf (s_laneReg s)" "Len (s_laneReg s) \<le> 65536" "quotasNarrow s"
  shows "\<exists>lane. \<forall>l < Len (s_laneReg s). reg_names (s_laneReg s) ! l \<noteq> lane \<longrightarrow>
    qps_laneQuotas (s_quotaPolicy s') ! l = qps_laneQuotas (s_quotaPolicy s) ! l"
proof -
  obtain lane quota d snap where u: "buildQuotaPolicySnapshot (s_laneReg s) \<lparr>qpi_DefaultQuota = d,
        qpi_LaneQuotas = AList.update lane quota (qpi_LaneQuotas (snd (CurrentQuotaPolicyView s)))\<rparr> = Inr snap"
      "s_quotaPolicy s' = snap\<lparr>qps_version := s_quotaVersion s + 1\<rparr>"
    using assms(1) unfolding oneUpdate_def by blast
  then show ?thesis using updated_quotas [OF assms(2-5) u(1)] by auto
qed

lemma tick_sched:
  assumes "tick srt now now2 ctxDone c s = Some (c', s', hooks)" "aq_apply c = Some queueApplier"
    "qps_version (s_quotaPolicy s) = s_quotaVersion s"
  shows "(sched_wf s \<longrightarrow> sched_wf s') \<and> (quotaSide s' = quotaSide s \<or> oneUpdate s s')"
proof -
  obtain ds a where "s' = ta_sched (tickLoop queueApplier (aq_cfg c)
      (buildAdaptiveSignalSnapshot s (s_laneReg s) (aq_policies c) (aq_policyVersion c) now2)
      (s_laneReg s) (aq_onDecision c) now ctxDone 0 ds a)" "ta_sched a = s"
    using assms(1,2) by (fastforce simp: tick_def Let_def split: option.splits)
  then show ?thesis using tickLoop_once [of a] tickLoop_wf [of a] assms(3) by metis
qed

lemma EvaluateAdaptiveQuota_returns:
  "length (ass_Lanes snap) \<le> length policies \<Longrightarrow> EvaluateAdaptiveQuota srt cfg policies snap st now \<noteq> None"
  by (simp add: EvaluateAdaptiveQuota_def Let_def case_prod_beta)

lemma tick_returns:
  assumes "length (aq_policies c) = Len (s_laneReg s)"
  shows "\<exists>c' s' hooks. tick srt now now2 ctxDone c s = Some (c', s', hooks)"
proof -
  define st0 where "st0 = (case aq_state c of None \<Rightarrow> newAdaptiveControllerState now | Some st \<Rightarrow> st)"
  have "EvaluateAdaptiveQuota srt (aq_cfg c) (aq_policies c)
      (buildAdaptiveSignalSnapshot s (s_laneReg s) (aq_policies c) (aq_policyVersion c) now2) (Some st0) now \<noteq> None"
    by (rule EvaluateAdaptiveQuota_returns) (simp add: buildAdaptiveSignalSnapshot_def assms)
  then obtain ds where "EvaluateAdaptiveQuota srt (aq_cfg c) (aq_policies c)
      (buildAdaptiveSignalSnapshot s (s_laneReg s) (aq_policies c) (aq_policyVersion c) now2) (Some st0) now = Some ds"
    by blast
  then show ?thesis by (cases "aq_apply c") (simp_all add: tick_def Let_def st0_def [symmetric])
qed

subsection \<open>Configuration\<close>

lemma posOr_pos: "0 < d \<Longrightarrow> 0 < posOr d x" "0 < d \<Longrightarrow> posOr d (posOr d x) = posOr d x"
  by (simp_all add: posOr_def)

lemmas default_adaptive = DefaultAdaptiveQuotaConfig_def Second_def Millisecond_def

lemma Normalize_fields:
  "aqc_Enabled (NormalizeAdaptiveQuotaConfig cfg) = aqc_Enabled cfg"
  "0 < aqc_EvaluationInterval (NormalizeAdaptiveQuotaConfig cfg)"
  "0 < aqc_WarmupDuration (NormalizeAdaptiveQuotaConfig cfg)" "0 < aqc_CooldownDuration (NormalizeAdaptiveQuotaConfig cfg)"
  "1 \<le> aqc_IncreaseStep (NormalizeAdaptiveQuotaConfig cfg)" "1 \<le> aqc_DecreaseStep (NormalizeAdaptiveQuotaConfig cfg)"
  "1 \<le> aqc_MaxAdjustmentsPerTick (NormalizeAdaptiveQuotaConfig cfg)"
  "aqc_EnableIncrease (NormalizeAdaptiveQuotaConfig cfg) \<or> aqc_EnableDecrease (NormalizeAdaptiveQuotaConfig cfg)"
  by (auto simp: NormalizeAdaptiveQuotaConfig_def Let_def default_adaptive posOr_def)

lemma default_pressures: "\<not> fle (flit (85 / 100)) (FFin 0)" "\<not> fle (flit (60 / 100)) (FFin 0)"
  by code_simp+

lemma Normalize_idem: "NormalizeAdaptiveQuotaConfig (NormalizeAdaptiveQuotaConfig cfg) = NormalizeAdaptiveQuotaConfig cfg"
  using default_pressures
  by (simp add: NormalizeAdaptiveQuotaConfig_def Let_def default_adaptive posOr_def)

lemma initAdaptiveController_facts:
  assumes "initAdaptiveController raw lanes quotas traceHolds eh oa oq s = Some c"
  shows "aq_cfg c = (NormalizeAdaptiveQuotaConfig raw)\<lparr>aqc_EmitHoldDecisions := traceHolds\<rparr>"
    "aq_policies c = resolveAdaptiveLanePolicies (s_laneReg s) s lanes quotas" "aq_apply c = Some queueApplier"
    "aqc_Enabled raw" "length (aq_policies c) = Len (s_laneReg s)"
  using assms
  by (auto simp: initAdaptiveController_def NewAdaptiveQuotaController_def adaptiveQuotaConfigToCore_def Let_def
      Normalize_fields resolveAdaptiveLanePolicies_def split: if_splits)

subsection \<open>Properties\<close>

text \<open>C26: A validated adaptive configuration is usable. The controller built from it has positive
  steps, interval, warm-up and cooldown, at least one adjustment per tick and one enabled direction, thresholds with
  0 <= low < high <= 1 unless one of them is NaN, and one policy per lane whose bounds satisfy 1 <= min <= max <= 1024;
  and normalising twice is normalising once.\<close>

theorem adaptive_config_valid:
  assumes "ValidateAdaptiveQuotaPolicy raw lanes quotas = None"
    "initAdaptiveController raw lanes quotas traceHolds eh oa oq s = Some c"
  shows "1 \<le> aqc_IncreaseStep (aq_cfg c) \<and> 1 \<le> aqc_DecreaseStep (aq_cfg c) \<and> 1 \<le> aqc_MaxAdjustmentsPerTick (aq_cfg c)
    \<and> 0 < aqc_EvaluationInterval (aq_cfg c) \<and> 0 < aqc_WarmupDuration (aq_cfg c) \<and> 0 < aqc_CooldownDuration (aq_cfg c)
    \<and> (aqc_EnableIncrease (aq_cfg c) \<or> aqc_EnableDecrease (aq_cfg c))
    \<and> (\<not> isNaN (aqc_PressureLow (aq_cfg c)) \<and> \<not> isNaN (aqc_PressureHigh (aq_cfg c)) \<longrightarrow>
        fle (FFin 0) (aqc_PressureLow (aq_cfg c)) \<and> flt (aqc_PressureLow (aq_cfg c)) (aqc_PressureHigh (aq_cfg c))
        \<and> fle (aqc_PressureHigh (aq_cfg c)) (FFin 1))
    \<and> length (aq_policies c) = Len (s_laneReg s) \<and> (\<forall>pol \<in> set (aq_policies c). lanePolicyOk pol)
    \<and> NormalizeAdaptiveQuotaConfig (NormalizeAdaptiveQuotaConfig raw) = NormalizeAdaptiveQuotaConfig raw"
proof -
  note f = initAdaptiveController_facts [OF assms(2)]
  have v: "\<not> flt (aqc_PressureLow (NormalizeAdaptiveQuotaConfig raw)) (FFin 0)"
      "\<not> fgt (aqc_PressureHigh (NormalizeAdaptiveQuotaConfig raw)) (FFin 1)"
      "\<not> fge (aqc_PressureLow (NormalizeAdaptiveQuotaConfig raw)) (aqc_PressureHigh (NormalizeAdaptiveQuotaConfig raw))"
      "validateAdaptiveLanes quotas [] lanes = None"
    using assms(1) f(4) by (auto simp: ValidateAdaptiveQuotaPolicy_def Let_def split: if_splits)
  have "lanePolicyOk pol" if "pol \<in> set (aq_policies c)" for pol
    using that validateAdaptiveLanes_ok [OF v(4)] resolveAdaptiveLane_ok
    unfolding f(2) resolveAdaptiveLanePolicies_def by auto
  moreover have thr: "\<not> isNaN lo \<Longrightarrow> \<not> isNaN hi \<Longrightarrow> \<not> flt lo (FFin 0) \<Longrightarrow> \<not> fgt hi (FFin 1) \<Longrightarrow> \<not> fge lo hi \<Longrightarrow>
      fle (FFin 0) lo \<and> flt lo hi \<and> fle hi (FFin 1)" for lo hi
    by (simp add: flt_or_fge isNaN_def)
  ultimately show ?thesis
    using thr [OF _ _ v(1-3)] Normalize_fields [of raw] Normalize_idem [of raw] f(5) by (simp add: f(1))
qed

definition demoAdaptiveLane :: "string \<Rightarrow> LaneAdaptivePolicy" where
  "demoAdaptiveLane lane = \<lparr>lap_Lane = lane, lap_Class = LaneClassBackground, lap_Enabled = True, lap_MinQuota = 1,
     lap_MaxQuota = 8, lap_AllowIncrease = False, lap_AllowDecrease = True, lap_TargetQueueWait = 0, lap_TargetRunTime = 0\<rparr>"

definition demoAdaptiveConfig :: AdaptiveQuotaConfig where
  "demoAdaptiveConfig = DefaultAdaptiveQuotaConfig\<lparr>aqc_Enabled := True, aqc_MaxAdjustmentsPerTick := 2\<rparr>"

definition demoAdaptiveQuotas :: "int go_map" where
  "demoAdaptiveQuotas = [(''bg'', 3), (''io'', 4)]"

text \<open>A scheduler with quotas 3 and 4 whose two lanes have shed work.\<close>

definition demoShedding :: Scheduler where
  "demoShedding = demoSched\<lparr>s_laneCounters := replicate 2 (zeroCounters\<lparr>lc_overloadShed := 1\<rparr>),
     s_quotaPolicy := \<lparr>qps_version = 0, qps_defaultQuota = 1, qps_laneQuotas = [3, 4]\<rparr>\<rparr>"

definition demoController :: AdaptiveQuotaController where
  "demoController = the (initAdaptiveController demoAdaptiveConfig [demoAdaptiveLane ''bg'', demoAdaptiveLane ''io'']
     demoAdaptiveQuotas False True True True demoShedding)"

lemma demo_adaptive:
  "ValidateAdaptiveQuotaPolicy demoAdaptiveConfig [demoAdaptiveLane ''bg'', demoAdaptiveLane ''io''] demoAdaptiveQuotas = None"
  "initAdaptiveController demoAdaptiveConfig [demoAdaptiveLane ''bg'', demoAdaptiveLane ''io'']
     demoAdaptiveQuotas False True True True demoShedding = Some demoController"
proof -
  show "ValidateAdaptiveQuotaPolicy demoAdaptiveConfig [demoAdaptiveLane ''bg'', demoAdaptiveLane ''io''] demoAdaptiveQuotas = None"
    by code_simp
  show "initAdaptiveController demoAdaptiveConfig [demoAdaptiveLane ''bg'', demoAdaptiveLane ''io'']
     demoAdaptiveQuotas False True True True demoShedding = Some demoController"
    by (simp add: demoController_def initAdaptiveController_def adaptiveQuotaConfigToCore_def Normalize_fields
        demoAdaptiveConfig_def Let_def)
qed

lemma demo_lanes_ok: "\<forall>pol \<in> set (aq_policies demoController). lanePolicyOk pol"
  unfolding initAdaptiveController_facts(2) [OF demo_adaptive(2)] resolveAdaptiveLanePolicies_def
  using resolveAdaptiveLane_ok [of "[demoAdaptiveLane ''bg'', demoAdaptiveLane ''io'']"] by (simp add: demoAdaptiveLane_def)

theorem adaptive_config_valid_witness: "list_all lanePolicyOk (aq_policies demoController)"
  unfolding list_all_iff using adaptive_config_valid [OF demo_adaptive] by blast


text \<open>C23: Within one tick every lane that is not changed holds, at most \<open>MaxAdjustmentsPerTick\<close> lanes
  change, an increase raises the quota by the step up to the lane's maximum and a decrease lowers it by the step down
  to the lane's minimum. (For steps below 2^62: a larger increase step wraps around in \<open>oldQ + IncreaseStep\<close>.)\<close>

theorem adaptive_bounds:
  assumes "prioritySort srt" "EvaluateAdaptiveQuota srt cfg policies snap (Some st) now = Some ds" "i < length ds"
    "lanePolicyOk (policies ! i)" "1 \<le> sig_CurrentQuota (ass_Lanes snap ! i)" "sig_CurrentQuota (ass_Lanes snap ! i) \<le> 1024"
    "1 \<le> aqc_IncreaseStep cfg" "aqc_IncreaseStep cfg < 2 ^ 62" "1 \<le> aqc_DecreaseStep cfg" "aqc_DecreaseStep cfg < 2 ^ 63"
  shows "(case qd_Action (ds ! i) of
       QuotaAdjustmentHold \<Rightarrow> qd_NewQuota (ds ! i) = qd_OldQuota (ds ! i)
     | QuotaAdjustmentIncrease \<Rightarrow> qd_OldQuota (ds ! i) < qd_NewQuota (ds ! i)
         \<and> qd_NewQuota (ds ! i) = min (sig_CurrentQuota (ass_Lanes snap ! i) + aqc_IncreaseStep cfg) (rp_MaxQuota (policies ! i))
     | QuotaAdjustmentDecrease \<Rightarrow> qd_NewQuota (ds ! i) < qd_OldQuota (ds ! i)
         \<and> qd_NewQuota (ds ! i) = max (sig_CurrentQuota (ass_Lanes snap ! i) - aqc_DecreaseStep cfg) (rp_MinQuota (policies ! i)))
    \<and> int (length (filter (\<lambda>d. qd_Action d \<noteq> QuotaAdjustmentHold) ds)) \<le> max 1 (aqc_MaxAdjustmentsPerTick cfg)"
proof
  note loc = prioritySort_locale [OF assms(1)]
  have ne: "ds \<noteq> []" using assms(3) by auto
  have d: "priority_sort.decided srt cfg policies snap st now ds"
    unfolding priority_sort.decided_def [OF loc] using assms(2) ne by blast
  have "int (tickBudget cfg) = max 1 (aqc_MaxAdjustmentsPerTick cfg)" by (simp add: tickBudget_def)
  then show "int (length (filter (\<lambda>d. qd_Action d \<noteq> QuotaAdjustmentHold) ds)) \<le> max 1 (aqc_MaxAdjustmentsPerTick cfg)"
    using priority_sort.action_count [OF loc d] by linarith
  let ?T = "takenCandidates srt cfg (laneOutcomes cfg policies snap st now)"
  let ?goal = "case qd_Action (ds ! i) of
       QuotaAdjustmentHold \<Rightarrow> qd_NewQuota (ds ! i) = qd_OldQuota (ds ! i)
     | QuotaAdjustmentIncrease \<Rightarrow> qd_OldQuota (ds ! i) < qd_NewQuota (ds ! i)
         \<and> qd_NewQuota (ds ! i) = min (sig_CurrentQuota (ass_Lanes snap ! i) + aqc_IncreaseStep cfg) (rp_MaxQuota (policies ! i))
     | QuotaAdjustmentDecrease \<Rightarrow> qd_NewQuota (ds ! i) < qd_OldQuota (ds ! i)
         \<and> qd_NewQuota (ds ! i) = max (sig_CurrentQuota (ass_Lanes snap ! i) - aqc_DecreaseStep cfg) (rp_MinQuota (policies ! i))"
  show ?goal
  proof (cases "i \<in> cand_laneIdx ` set ?T")
    case False
    then show ?thesis using priority_sort.held_holds [OF loc d assms(3)] by simp
  next
    case True
    then obtain c where c: "c \<in> set ?T" "cand_laneIdx c = i" by blast
    have e: "ds ! i = applyCandidate cfg policies snap c (ass_GlobalPressure snap)"
      using priority_sort.decision_taken [OF loc d c(1)] c(2) by simp
    from priority_sort.candidate_guards [OF loc c(1)] show ?thesis
      using applyCandidate_increase [of c policies snap cfg] applyCandidate_decrease [of c policies snap cfg] assms(4-10)
      by (auto simp: e applyCandidate_fields c(2) mayIncrease_def mayDecrease_def)
  qed
qed


definition demoSignals :: AdaptiveSignalSnapshot where
  "demoSignals = buildAdaptiveSignalSnapshot demoShedding (s_laneReg demoShedding) (aq_policies demoController) 1 0"

definition demoDecisions :: "QuotaAdjustmentDecision list" where
  "demoDecisions = the (EvaluateAdaptiveQuota (sort_key cand_priority) (aq_cfg demoController) (aq_policies demoController)
     demoSignals (Some (newAdaptiveControllerState 0)) (10 * Second))"

lemma prioritySort_key: "prioritySort (sort_key cand_priority)"
  by (simp add: prioritySort_def)

lemma demo_decided:
  "EvaluateAdaptiveQuota (sort_key cand_priority) (aq_cfg demoController) (aq_policies demoController)
     demoSignals (Some (newAdaptiveControllerState 0)) (10 * Second) = Some demoDecisions"
proof -
  have "\<not> Option.is_none (EvaluateAdaptiveQuota (sort_key cand_priority) (aq_cfg demoController) (aq_policies demoController)
     demoSignals (Some (newAdaptiveControllerState 0)) (10 * Second))" by code_simp
  then show ?thesis by (auto simp: demoDecisions_def Option.is_none_def)
qed

lemma demo_policies: "map rp_MinQuota (aq_policies demoController) = [1, 1]"
  by code_simp

lemma demo_quotas: "map sig_CurrentQuota (ass_Lanes demoSignals) = [3, 4]"
  by code_simp

lemma demo_actions: "map qd_Action demoDecisions = [QuotaAdjustmentDecrease, QuotaAdjustmentDecrease]"
  by code_simp

lemma nth_of_map: "map f xs = [a, b] \<Longrightarrow> length xs = 2 \<and> f (xs ! 0) = a \<and> f (xs ! 1) = b"
  by (auto simp: length_Suc_conv numeral_2_eq_2)

lemma demo_steps: "aqc_IncreaseStep (aq_cfg demoController) = 1" "aqc_DecreaseStep (aq_cfg demoController) = 1"
  by (simp_all add: initAdaptiveController_facts(1) [OF demo_adaptive(2)] NormalizeAdaptiveQuotaConfig_def Let_def
      demoAdaptiveConfig_def default_adaptive posOr_def)

theorem adaptive_bounds_witness: "qd_Action (demoDecisions ! 1) = QuotaAdjustmentDecrease \<and> qd_NewQuota (demoDecisions ! 1) = 3"
proof -
  note v = nth_of_map [OF demo_policies] nth_of_map [OF demo_quotas] nth_of_map [OF demo_actions]
  have c: "1 < length demoDecisions" using v by simp
  have "lanePolicyOk (aq_policies demoController ! 1)" using demo_lanes_ok v nth_mem by simp
  from adaptive_bounds [OF prioritySort_key demo_decided c this] show ?thesis using v demo_steps by simp
qed

text \<open>C24: Why a lane may change. A changed lane is enabled, its warm-up and its cooldown are over; a quota
  only grows at low pressure for a lane that never had a full queue and is not best effort, and only shrinks at high
  pressure (or when a background or best-effort lane was overloaded) for a lane that is not critical. And the
  order is kept: with a lane that changed, every candidate that goes before it changed too, decreases before increases,
  best effort before background before normal for decreases, critical first for increases.\<close>

theorem adaptive_guards:
  assumes "prioritySort srt" "EvaluateAdaptiveQuota srt cfg policies snap (Some st) now = Some ds" "i < length ds"
    "qd_Action (ds ! i) \<noteq> QuotaAdjustmentHold"
  shows "rp_Enabled (policies ! i) \<and> cooledDown cfg st now (rp_LaneID (policies ! i))
    \<and> \<not> (aqc_WarmupDuration cfg > 0 \<and> timeSub now (acs_StartedAt st) < aqc_WarmupDuration cfg)
    \<and> (\<exists>b. laneOutcomes cfg policies snap st now ! i = LaneCandidate b \<and> qd_Action (ds ! i) = cand_action b
       \<and> (cand_action b = QuotaAdjustmentDecrease
            \<and> mayDecrease cfg (policies ! i) (ass_Lanes snap ! i) (ass_GlobalPressure snap)
            \<and> cand_priority b = decreasePriority (rp_Class (policies ! i))
          \<or> cand_action b = QuotaAdjustmentIncrease
            \<and> mayIncrease cfg (policies ! i) (ass_Lanes snap ! i) (ass_GlobalPressure snap)
            \<and> cand_priority b = increasePriority (rp_Class (policies ! i)))
       \<and> (\<forall>j c. j < length ds \<and> laneOutcomes cfg policies snap st now ! j = LaneCandidate c \<and> goesBefore c b \<longrightarrow>
            qd_Action (ds ! j) = cand_action c))"
proof -
  note loc = prioritySort_locale [OF assms(1)]
  let ?outs = "laneOutcomes cfg policies snap st now" and ?T = "takenCandidates srt cfg (laneOutcomes cfg policies snap st now)"
  have ne: "ds \<noteq> []" using assms(3) by auto
  have d: "priority_sort.decided srt cfg policies snap st now ds"
    unfolding priority_sort.decided_def [OF loc] using assms(2) ne by blast
  obtain b where b: "b \<in> set ?T" "cand_laneIdx b = i" "ds ! i = applyCandidate cfg policies snap b (ass_GlobalPressure snap)"
    using priority_sort.taken_of_action [OF loc d assms(3,4)] by blast
  have ai: "qd_Action (ds ! i) = cand_action b" by (simp add: b(3) applyCandidate_fields)
  have out: "?outs ! i = LaneCandidate b" using priority_sort.taken_facts [OF loc] b(1,2) by blast
  have "\<forall>j c. j < length ds \<and> ?outs ! j = LaneCandidate c \<and> goesBefore c b \<longrightarrow> qd_Action (ds ! j) = cand_action c"
    using priority_sort.order_kept [OF loc d b(1)] by (intro allI impI) (elim conjE)
  then show ?thesis
    using priority_sort.candidate_guards [OF loc b(1)] out ai unfolding b(2) by (intro conjI exI [of _ b]) (elim conjE, assumption)+
qed

theorem adaptive_guards_witness:
  "mayDecrease (aq_cfg demoController) (aq_policies demoController ! 1) (ass_Lanes demoSignals ! 1) (ass_GlobalPressure demoSignals)"
proof -
  note v = nth_of_map [OF demo_actions]
  have c: "1 < length demoDecisions" "qd_Action (demoDecisions ! 1) \<noteq> QuotaAdjustmentHold" using v by simp_all
  from adaptive_guards [OF prioritySort_key demo_decided c] show ?thesis using v by auto
qed

text \<open>C25: The version check of the update path lets one adjustment through per tick. Every adjustment of a tick is
  sent with the quota version of the tick's snapshot, and the first success moves the version on, so whatever
  \<open>MaxAdjustmentsPerTick\<close> says, a tick returns (it does not panic) having changed the quota of at most one
  lane, and the scheduler stays well-formed.\<close>

theorem adaptive_one_change:
  assumes "initAdaptiveController raw lanes quotas traceHolds eh oa oq s0 = Some c0" "c = c0\<lparr>aq_state := st\<rparr>"
    "s_laneReg s = s_laneReg s0" "sched_wf s" "reg_wf (s_laneReg s)" "Len (s_laneReg s) \<le> 65536"
    "qps_version (s_quotaPolicy s) = s_quotaVersion s" "\<forall>q \<in> set (qps_laneQuotas (s_quotaPolicy s)). q < 2 ^ 32"
  shows "\<exists>c' s' hooks. tick srt now now2 ctxDone c s = Some (c', s', hooks) \<and> sched_wf s'
    \<and> qps_version (s_quotaPolicy s') = s_quotaVersion s'
    \<and> (\<exists>lane. \<forall>l < Len (s_laneReg s). reg_names (s_laneReg s) ! l \<noteq> lane \<longrightarrow>
         qps_laneQuotas (s_quotaPolicy s') ! l = qps_laneQuotas (s_quotaPolicy s) ! l)"
proof -
  note f = initAdaptiveController_facts [OF assms(1)]
  have p: "length (aq_policies c) = Len (s_laneReg s)" "aq_apply c = Some queueApplier" using f assms(2,3) by simp_all
  obtain c' s' hooks where t: "tick srt now now2 ctxDone c s = Some (c', s', hooks)" using tick_returns [OF p(1)] by blast
  note k = tick_sched [OF t p(2) assms(7)]
  have "\<exists>lane. \<forall>l < Len (s_laneReg s). reg_names (s_laneReg s) ! l \<noteq> lane \<longrightarrow>
      qps_laneQuotas (s_quotaPolicy s') ! l = qps_laneQuotas (s_quotaPolicy s) ! l"
    using k oneUpdate_changes [OF _ assms(4-6)] assms(8) by (auto simp: quotaSide_def quotasNarrow_def)
  moreover have "qps_version (s_quotaPolicy s') = s_quotaVersion s'"
    using k assms(7) by (auto simp: quotaSide_def oneUpdate_def)
  ultimately show ?thesis using t k assms(4) by blast
qed

lemma NewScheduler_fresh:
  "NewScheduler sc wc qs reg = Some s \<Longrightarrow> s_laneReg s = reg \<and> s_quotaVersion s = 0"
  by (auto simp: NewScheduler_def Let_def split: option.splits)

lemma demo_lane_count: "Len (s_laneReg demoSched) = 2" "s_laneReg demoSched = demoReg" "s_quotaVersion demoSched = 0"
  using NewScheduler_fresh [OF demoSched_built] by (simp_all add: demoReg_def Len_def)

lemma demo_tick:
  "map qd_Reason (snd (snd (the (tick (sort_key cand_priority) (10 * Second) 0 (\<lambda>_. False)
     (demoController\<lparr>aq_state := Some (newAdaptiveControllerState 0)\<rparr>) demoShedding))))
   = [QuotaReasonBackgroundPressureHigh, QuotaReasonUpdateFailed]"
  by code_simp

theorem adaptive_one_change_witness:
  "\<exists>c' s' hooks. tick (sort_key cand_priority) (10 * Second) 0 (\<lambda>_. False)
       (demoController\<lparr>aq_state := Some (newAdaptiveControllerState 0)\<rparr>) demoShedding = Some (c', s', hooks)
     \<and> sched_wf s' \<and> map qd_Reason hooks = [QuotaReasonBackgroundPressureHigh, QuotaReasonUpdateFailed]"
proof -
  let ?c = "demoController\<lparr>aq_state := Some (newAdaptiveControllerState 0)\<rparr>"
  have wf: "sched_wf demoShedding"
    using demoSched_wf demo_lane_count by (auto simp: sched_wf_def demoShedding_def trackers_ok_def)
  have "s_laneReg demoShedding = demoReg" "s_quotaVersion demoShedding = 0"
    using demo_lane_count by (simp_all add: demoShedding_def)
  then have "\<exists>c' s' hooks. tick (sort_key cand_priority) (10 * Second) 0 (\<lambda>_. False) ?c demoShedding = Some (c', s', hooks) \<and> sched_wf s'"
    using adaptive_one_change [OF demo_adaptive(2) refl refl wf, where st = "Some (newAdaptiveControllerState 0)" and srt = "sort_key cand_priority"
        and now = "10 * Second" and ?now2.0 = 0 and ctxDone = "\<lambda>_. False"] demoReg_wf
    by (auto simp: demoShedding_def)
  then show ?thesis using demo_tick by fastforce
qed

end
