(* ===== verification/Failure_Class.thy ===== *)
theory Failure_Class
  imports Overload_Policy Per_Key_Policy
begin

text \<open>
  Failures and deadline budgets of the root package: \<open>failure.go\<close>, \<open>stage_failure.go\<close>, \<open>deadline_budget.go\<close>,
  \<open>execution_deadline.go\<close> and the completion classifier of \<open>future.go\<close>. An error value is a tree of wrapped
  errors, and \<open>errors.Is\<close> and \<open>errors.As\<close> search it in pre-order. Of the structured errors the model keeps the fields
  that decide what they unwrap to; error types of the application with their own \<open>Is\<close> or \<open>As\<close> methods are not
  modelled. Clock readings are arguments.
\<close>

subsection \<open>Error values\<close>

datatype sentinel =
    SCore core_error | SNilQueue | SAdmissionRejected | SOverloadRejected | SOverloadShed | SOverloadDegraded
  | SPerKeyAdmissionRejected | SPerKeyAdmissionThrottled | SPerKeyAdmissionShed | SContextCanceled
  | SContextDeadlineExceeded | SPipelineBudgetExhaustedBeforeStage | SOther string

text \<open>A Go string type; \<open>FailureOther ''''\<close> is the empty string of the zero value.\<close>

datatype FailureKind =
    FailureNone | FailureRetryable | FailurePermanent | FailureTimeout | FailureCancelled | FailureOverloaded
  | FailureRejected | FailureDeadlineExhausted | FailurePanic | FailureUnknown | FailureOther string

abbreviation FailureEmpty :: FailureKind where
  "FailureEmpty \<equiv> FailureOther ''''"

text \<open>\<open>EWrapped\<close> is \<open>fmt.Errorf\<close> with one \<open>%w\<close>, \<open>EJoined\<close> an error with several children. A \<open>nil\<close> error is
  \<open>None\<close>.\<close>

datatype goerror =
    Sentinel sentinel
  | EFailure Failure
  | EStageFailure string "goerror option"
  | EAdmissionRejected
  | EOverload OverloadAction
  | EPerKeyAdmission PerKeyMitigationAction
  | EWrapped string goerror
  | EJoined "goerror list"
and Failure =
    Failure (f_Kind: FailureKind) (f_Err: "goerror option") (f_Retryable: bool) (f_Temporary: bool) (f_Message: string)

text \<open>The \<open>Unwrap\<close> method of \<open>OverloadError\<close> and \<open>PerKeyAdmissionError\<close>.\<close>

definition overloadSentinel :: "OverloadAction \<Rightarrow> sentinel" where
  "overloadSentinel a =
     (case a of OverloadActionShed \<Rightarrow> SOverloadShed | OverloadActionDegrade \<Rightarrow> SOverloadDegraded | _ \<Rightarrow> SOverloadRejected)"

definition perKeySentinel :: "PerKeyMitigationAction \<Rightarrow> sentinel" where
  "perKeySentinel a =
     (case a of PerKeyMitigationThrottle \<Rightarrow> SPerKeyAdmissionThrottled | PerKeyMitigationShed \<Rightarrow> SPerKeyAdmissionShed
      | _ \<Rightarrow> SPerKeyAdmissionRejected)"

text \<open>An error and everything it wraps, in the order in which \<open>errors.Is\<close> and \<open>errors.As\<close> look at it.\<close>

fun errorTree :: "goerror \<Rightarrow> goerror list" where
  "errorTree (Sentinel s) = [Sentinel s]"
| "errorTree (EFailure (Failure k e r tm m)) =
     EFailure (Failure k e r tm m) # (case e of None \<Rightarrow> [] | Some e' \<Rightarrow> errorTree e')"
| "errorTree (EStageFailure n e) = EStageFailure n e # (case e of None \<Rightarrow> [] | Some e' \<Rightarrow> errorTree e')"
| "errorTree EAdmissionRejected = [EAdmissionRejected, Sentinel SAdmissionRejected]"
| "errorTree (EOverload a) = [EOverload a, Sentinel (overloadSentinel a)]"
| "errorTree (EPerKeyAdmission a) = [EPerKeyAdmission a, Sentinel (perKeySentinel a)]"
| "errorTree (EWrapped m e) = EWrapped m e # errorTree e"
| "errorTree (EJoined es) = EJoined es # concat (map errorTree es)"

definition errorsIs :: "goerror \<Rightarrow> sentinel \<Rightarrow> bool" where
  "errorsIs e s \<longleftrightarrow> Sentinel s \<in> set (errorTree e)"

fun asFailure :: "goerror list \<Rightarrow> Failure option" where
  "asFailure [] = None"
| "asFailure (EFailure f # es) = Some f"
| "asFailure (e # es) = asFailure es"

fun asStage :: "goerror list \<Rightarrow> (string \<times> goerror option) option" where
  "asStage [] = None"
| "asStage (EStageFailure n e # es) = Some (n, e)"
| "asStage (e # es) = asStage es"

definition AsFailure :: "goerror \<Rightarrow> Failure option" where
  "AsFailure e = asFailure (errorTree e)"

definition IsFailure :: "goerror \<Rightarrow> bool" where
  "IsFailure e \<longleftrightarrow> AsFailure e \<noteq> None"

definition AsStageFailure :: "goerror \<Rightarrow> (string \<times> goerror option) option" where
  "AsStageFailure e = asStage (errorTree e)"

subsection \<open>Failures\<close>

definition NewFailure :: "FailureKind \<Rightarrow> goerror option \<Rightarrow> Failure" where
  "NewFailure kind err =
     (if kind = FailureRetryable then Failure kind err True True '''' else Failure kind err False False '''')"

definition RetryableFailure :: "goerror option \<Rightarrow> Failure" where "RetryableFailure = NewFailure FailureRetryable"
definition PermanentFailure :: "goerror option \<Rightarrow> Failure" where "PermanentFailure = NewFailure FailurePermanent"
definition TimeoutFailure :: "goerror option \<Rightarrow> Failure" where "TimeoutFailure = NewFailure FailureTimeout"
definition CancelledFailure :: "goerror option \<Rightarrow> Failure" where "CancelledFailure = NewFailure FailureCancelled"
definition OverloadedFailure :: "goerror option \<Rightarrow> Failure" where "OverloadedFailure = NewFailure FailureOverloaded"
definition RejectedFailure :: "goerror option \<Rightarrow> Failure" where "RejectedFailure = NewFailure FailureRejected"
definition DeadlineExhaustedFailure :: "goerror option \<Rightarrow> Failure" where
  "DeadlineExhaustedFailure = NewFailure FailureDeadlineExhausted"
definition PanicFailure :: "goerror option \<Rightarrow> Failure" where "PanicFailure = NewFailure FailurePanic"
definition UnknownFailure :: "goerror option \<Rightarrow> Failure" where "UnknownFailure = NewFailure FailureUnknown"

lemmas failure_constructors = RetryableFailure_def PermanentFailure_def TimeoutFailure_def CancelledFailure_def
  OverloadedFailure_def RejectedFailure_def DeadlineExhaustedFailure_def PanicFailure_def UnknownFailure_def

text \<open>The zero \<open>Failure\<close>.\<close>

definition zeroFailure :: Failure where
  "zeroFailure = Failure FailureEmpty None False False ''''"

definition IsTerminal :: "Failure \<Rightarrow> bool" where
  "IsTerminal f \<longleftrightarrow> f_Kind f \<noteq> FailureNone \<and> f_Kind f \<noteq> FailureRetryable"

definition isOverloadError :: "goerror \<Rightarrow> bool" where
  "isOverloadError err \<longleftrightarrow> errorsIs err SOverloadRejected \<or> errorsIs err SOverloadShed \<or> errorsIs err SOverloadDegraded"

definition hasPerKeyError :: "goerror \<Rightarrow> bool" where
  "hasPerKeyError err \<longleftrightarrow> (\<exists>e \<in> set (errorTree err). case e of EPerKeyAdmission a \<Rightarrow> True | _ \<Rightarrow> False)"

definition isRejectedError :: "goerror \<Rightarrow> bool" where
  "isRejectedError err \<longleftrightarrow>
     errorsIs err SAdmissionRejected
     \<or> (\<exists>c \<in> {ErrQueueFull, ErrStopped, ErrNotStarted, ErrInvalidLane, ErrInvalidJob, ErrInvalidKey, ErrNilJobRun}.
          errorsIs err (SCore c))
     \<or> errorsIs err SPerKeyAdmissionRejected \<or> errorsIs err SPerKeyAdmissionThrottled \<or> errorsIs err SPerKeyAdmissionShed
     \<or> EAdmissionRejected \<in> set (errorTree err) \<or> hasPerKeyError err"

definition classifyDefault :: "goerror option \<Rightarrow> Failure" where
  "classifyDefault err =
     (case err of
        None \<Rightarrow> NewFailure FailureNone None
      | Some e \<Rightarrow>
          (case AsFailure e of
             Some f \<Rightarrow> f
           | None \<Rightarrow>
               if errorsIs e SContextCanceled then CancelledFailure err
               else if errorsIs e SContextDeadlineExceeded then TimeoutFailure err
               else if isOverloadError e then OverloadedFailure err
               else if isRejectedError e then
                 (if errorsIs e SPerKeyAdmissionThrottled then Failure FailureRejected err True True ''''
                  else RejectedFailure err)
               else UnknownFailure err))"

text \<open>The optional classifier of the application is a parameter.\<close>

type_synonym FailurePolicy = "(goerror \<Rightarrow> Failure) option"

definition classifyFailureWithPolicy :: "goerror option \<Rightarrow> FailurePolicy \<Rightarrow> Failure" where
  "classifyFailureWithPolicy err policy =
     (case err of
        None \<Rightarrow> NewFailure FailureNone None
      | Some e \<Rightarrow>
          (case AsFailure e of
             Some f \<Rightarrow> f
           | None \<Rightarrow>
               (case policy of
                  None \<Rightarrow> classifyDefault err
                | Some classifier \<Rightarrow>
                    (let custom = classifier e
                     in if f_Kind custom \<noteq> FailureEmpty \<and> f_Kind custom \<noteq> FailureUnknown then custom
                        else classifyDefault err))))"

definition ClassifyFailure :: "goerror option \<Rightarrow> Failure" where
  "ClassifyFailure err = classifyFailureWithPolicy err None"

datatype RequestOutcome =
    RequestOutcomeCompleted | RequestOutcomeFailed | RequestOutcomeCancelled | RequestOutcomeTimedOut
  | RequestOutcomeRejected | RequestOutcomeAdmissionRejected | RequestOutcomeOverloadRejected | RequestOutcomeOverloadShed
  | RequestOutcomeOverloadDegraded

definition failureKindToRequestOutcome :: "FailureKind \<Rightarrow> RequestOutcome" where
  "failureKindToRequestOutcome kind =
     (case kind of
        FailureNone \<Rightarrow> RequestOutcomeCompleted
      | FailureCancelled \<Rightarrow> RequestOutcomeCancelled
      | FailureTimeout \<Rightarrow> RequestOutcomeTimedOut
      | FailureDeadlineExhausted \<Rightarrow> RequestOutcomeTimedOut
      | FailureOverloaded \<Rightarrow> RequestOutcomeOverloadRejected
      | FailureRejected \<Rightarrow> RequestOutcomeRejected
      | _ \<Rightarrow> RequestOutcomeFailed)"

definition classifyRequestOutcome :: "goerror option \<Rightarrow> RequestOutcome" where
  "classifyRequestOutcome err =
     (case err of
        None \<Rightarrow> RequestOutcomeCompleted
      | Some e \<Rightarrow>
          if errorsIs e SAdmissionRejected then RequestOutcomeAdmissionRejected
          else if errorsIs e SOverloadRejected then RequestOutcomeOverloadRejected
          else if errorsIs e SOverloadShed then RequestOutcomeOverloadShed
          else if errorsIs e SOverloadDegraded then RequestOutcomeOverloadDegraded
          else if errorsIs e (SCore ErrQueueFull) \<or> errorsIs e (SCore ErrStopped) \<or> errorsIs e (SCore ErrNotStarted)
            then RequestOutcomeRejected
          else if errorsIs e SContextDeadlineExceeded then RequestOutcomeTimedOut
          else if errorsIs e SContextCanceled then RequestOutcomeCancelled
          else RequestOutcomeFailed)"

subsection \<open>Deadline budgets\<close>

record DeadlineBudget =
  db_StartedAt :: time
  db_Deadline :: time
  db_HasDeadline :: bool
  db_QueueWait :: duration
  db_Runtime :: duration
  db_Remaining :: duration
  db_Exhausted :: bool

definition refreshAt :: "DeadlineBudget \<Rightarrow> time \<Rightarrow> DeadlineBudget" where
  "refreshAt b now =
     (if \<not> db_HasDeadline b then b\<lparr>db_Remaining := 0, db_Exhausted := False\<rparr>
      else let rem0 = timeSub (db_Deadline b) now; rem = (if rem0 < 0 then 0 else rem0)
           in b\<lparr>db_Remaining := rem, db_Exhausted := (rem = 0)\<rparr>)"

text \<open>The deadline of the context, if it has one, is the argument \<open>dl\<close>; a budget without one keeps the zero time,
  which nothing reads.\<close>

definition NewDeadlineBudget :: "time option \<Rightarrow> time \<Rightarrow> DeadlineBudget" where
  "NewDeadlineBudget dl now =
     refreshAt \<lparr>db_StartedAt = now, db_Deadline = (case dl of None \<Rightarrow> 0 | Some d \<Rightarrow> d), db_HasDeadline = (dl \<noteq> None),
       db_QueueWait = 0, db_Runtime = 0, db_Remaining = 0, db_Exhausted = False\<rparr> now"

definition WithQueueWaitAt :: "DeadlineBudget \<Rightarrow> duration \<Rightarrow> time \<Rightarrow> DeadlineBudget" where
  "WithQueueWaitAt b wait now = refreshAt (b\<lparr>db_QueueWait := wait\<rparr>) now"

definition WithRuntimeAt :: "DeadlineBudget \<Rightarrow> duration \<Rightarrow> time \<Rightarrow> DeadlineBudget" where
  "WithRuntimeAt b runtime now = refreshAt (b\<lparr>db_Runtime := runtime\<rparr>) now"

definition RemainingAt :: "DeadlineBudget \<Rightarrow> time \<Rightarrow> duration" where
  "RemainingAt b now =
     (if \<not> db_HasDeadline b then 0
      else let rem = timeSub (db_Deadline b) now in if rem < 0 then 0 else rem)"

definition HasRemainingAt :: "DeadlineBudget \<Rightarrow> duration \<Rightarrow> time \<Rightarrow> bool" where
  "HasRemainingAt b least now \<longleftrightarrow> RemainingAt b now \<ge> least"

definition IsExhaustedAt :: "DeadlineBudget \<Rightarrow> time \<Rightarrow> bool" where
  "IsExhaustedAt b now \<longleftrightarrow> db_HasDeadline b \<and> \<not> now < db_Deadline b"

definition ClassifyContextErrorAt :: "goerror option \<Rightarrow> DeadlineBudget \<Rightarrow> bool \<Rightarrow> time \<Rightarrow> Failure" where
  "ClassifyContextErrorAt err budget beforeHandlerStart now =
     (case err of
        None \<Rightarrow> NewFailure FailureNone None
      | Some e \<Rightarrow>
          if errorsIs e SContextCanceled then CancelledFailure err
          else if errorsIs e SContextDeadlineExceeded then
            (if beforeHandlerStart \<and> IsExhaustedAt budget now then DeadlineExhaustedFailure err else TimeoutFailure err)
          else classifyDefault err)"

text \<open>\<open>ClassifyContextError\<close> reads the wall clock itself; \<open>now\<close> is that reading.\<close>

definition ClassifyContextError :: "goerror option \<Rightarrow> DeadlineBudget \<Rightarrow> bool \<Rightarrow> time \<Rightarrow> Failure" where
  "ClassifyContextError err budget beforeHandlerStart now =
     (case err of
        None \<Rightarrow> NewFailure FailureNone None
      | Some e \<Rightarrow>
          if errorsIs e SContextCanceled then CancelledFailure err
          else if errorsIs e SContextDeadlineExceeded then
            (if beforeHandlerStart \<and> IsExhaustedAt budget now then DeadlineExhaustedFailure err else TimeoutFailure err)
          else classifyDefault err)"

text \<open>\<open>cause\<close> is \<open>nil\<close> for a stage failure without an error; every search in it then fails.\<close>

definition classifyCompletionFailure :: "goerror option \<Rightarrow> FailurePolicy \<Rightarrow> DeadlineBudget \<Rightarrow> bool \<Rightarrow> time \<Rightarrow> Failure" where
  "classifyCompletionFailure err policy budget beforeHandler now =
     (case err of
        None \<Rightarrow> NewFailure FailureNone None
      | Some e \<Rightarrow>
          (let cause = (case AsStageFailure e of Some (n, r) \<Rightarrow> r | None \<Rightarrow> err);
               wraps = (\<lambda>s. case cause of None \<Rightarrow> False | Some r \<Rightarrow> errorsIs r s);
               exhausted = (AsStageFailure e \<noteq> None
                 \<and> (case cause of None \<Rightarrow> False
                    | Some r \<Rightarrow> (case AsFailure r of None \<Rightarrow> False | Some f \<Rightarrow> f_Kind f = FailureDeadlineExhausted))
                 \<and> wraps SPipelineBudgetExhaustedBeforeStage)
           in if exhausted then classifyFailureWithPolicy err policy
              else if wraps SContextCanceled \<or> wraps SContextDeadlineExceeded
                then ClassifyContextErrorAt cause budget beforeHandler now
              else classifyFailureWithPolicy err policy))"

record DeadlineBudgetSnapshot =
  dbs_HasDeadline :: bool
  dbs_Deadline :: time
  dbs_Remaining :: duration
  dbs_QueueWait :: duration
  dbs_Runtime :: duration
  dbs_BudgetExhausted :: bool

definition SnapshotDeadlineBudget :: "DeadlineBudget \<Rightarrow> time \<Rightarrow> DeadlineBudgetSnapshot" where
  "SnapshotDeadlineBudget b0 now =
     (let b = refreshAt b0 now
      in \<lparr>dbs_HasDeadline = db_HasDeadline b, dbs_Deadline = db_Deadline b, dbs_Remaining = RemainingAt b now,
          dbs_QueueWait = db_QueueWait b, dbs_Runtime = db_Runtime b, dbs_BudgetExhausted = IsExhaustedAt b now\<rparr>)"

definition stageDeadlineBudget :: "time option \<Rightarrow> duration \<Rightarrow> duration \<Rightarrow> time \<Rightarrow> DeadlineBudgetSnapshot" where
  "stageDeadlineBudget dl queueWait runtime atT =
     (let b0 = NewDeadlineBudget dl atT;
          b1 = (if queueWait > 0 then WithQueueWaitAt b0 queueWait atT else b0);
          b2 = (if runtime > 0 then WithRuntimeAt b1 runtime atT else b1)
      in SnapshotDeadlineBudget b2 atT)"

subsection \<open>Facts about errors\<close>

lemma errorTree_self: "e \<in> set (errorTree e)"
  by (cases e rule: errorTree.cases) simp_all

lemma asFailure_SomeD: "asFailure es = Some f \<Longrightarrow> EFailure f \<in> set es"
  by (induction es rule: asFailure.induct) auto

lemma asFailure_None: "asFailure es = None \<longleftrightarrow> (\<forall>f. EFailure f \<notin> set es)"
  by (induction es rule: asFailure.induct) auto

lemma AsFailure_EFailure [simp]: "AsFailure (EFailure f) = Some f"
  by (cases f) (simp add: AsFailure_def)

lemma NewFailure_fields [simp]:
  "f_Kind (NewFailure k e) = k" "f_Err (NewFailure k e) = e" "f_Retryable (NewFailure k e) \<longleftrightarrow> k = FailureRetryable"
  "f_Temporary (NewFailure k e) \<longleftrightarrow> k = FailureRetryable"
  by (simp_all add: NewFailure_def)

lemma failure_kinds [simp]:
  "f_Kind (RetryableFailure e) = FailureRetryable" "f_Kind (PermanentFailure e) = FailurePermanent"
  "f_Kind (TimeoutFailure e) = FailureTimeout" "f_Kind (CancelledFailure e) = FailureCancelled"
  "f_Kind (OverloadedFailure e) = FailureOverloaded" "f_Kind (RejectedFailure e) = FailureRejected"
  "f_Kind (DeadlineExhaustedFailure e) = FailureDeadlineExhausted" "f_Kind (PanicFailure e) = FailurePanic"
  "f_Kind (UnknownFailure e) = FailureUnknown"
  by (simp_all add: failure_constructors)

subsection \<open>Facts about budgets\<close>

lemma refreshAt_fields [simp]:
  "db_HasDeadline (refreshAt b now) = db_HasDeadline b" "db_Deadline (refreshAt b now) = db_Deadline b"
  "db_Runtime (refreshAt b now) = db_Runtime b" "db_QueueWait (refreshAt b now) = db_QueueWait b"
  "db_StartedAt (refreshAt b now) = db_StartedAt b"
  by (simp_all add: refreshAt_def Let_def)

lemma WithRuntimeAt_fields [simp]:
  "db_HasDeadline (WithRuntimeAt b r now) = db_HasDeadline b" "db_Deadline (WithRuntimeAt b r now) = db_Deadline b"
  "db_Runtime (WithRuntimeAt b r now) = r"
  by (simp_all add: WithRuntimeAt_def)

lemma RemainingAt_cong:
  "db_HasDeadline b = db_HasDeadline b' \<Longrightarrow> db_Deadline b = db_Deadline b' \<Longrightarrow> RemainingAt b now = RemainingAt b' now"
  by (simp add: RemainingAt_def)

lemma RemainingAt_nonneg: "0 \<le> RemainingAt b now"
  by (simp add: RemainingAt_def Let_def)

lemma RemainingAt_deadline:
  assumes "0 < d" "d \<le> RemainingAt b now"
  shows "db_HasDeadline b \<and> now + d \<le> db_Deadline b"
  using assms by (auto simp: RemainingAt_def timeSub_def minDuration_def maxDuration_def Let_def split: if_splits)

text \<open>The stored remaining time and flag agree with the readings at the same instant.\<close>

lemma refreshAt_Remaining: "db_Remaining (refreshAt b now) = RemainingAt b now"
  by (simp add: refreshAt_def RemainingAt_def Let_def)

lemma refreshAt_Exhausted: "db_Exhausted (refreshAt b now) = IsExhaustedAt b now"
  using timeSub_pos_iff [of "db_Deadline b" now]
  by (auto simp: refreshAt_def IsExhaustedAt_def Let_def)

end
