(* ===== verification/Scale_Signal.thy ===== *)
theory Scale_Signal
  imports Pressure
begin

text \<open>
  The autoscaling signal of \<open>internal/core/scale_signal.go\<close> and \<open>scale_signal_policy.go\<close>, with the public
  configuration of \<open>autoscaling.go\<close>: the triggers and their priority, the scope of a signal, the admission rates between
  two samples, and the calculator that recommends a scale-out only after enough unhealthy windows in a row. The part that
  reads the scheduler is in \<open>Debug_Snapshot\<close>. The calculator's state is a record; the zero \<open>time.Time\<close> of
  \<open>lastSampleAt\<close> is \<open>None\<close>.
\<close>

subsection \<open>Types\<close>

datatype ShardPressureClass =
    ShardPressureHealthy | ShardPressureLocalizedKey | ShardPressureLaneDominant | ShardPressureShardHot
  | ShardPressureDistributed | ShardPressureWorkerBound | ShardPressureUnknown | ShardPressureEmpty

datatype ScaleReason =
    ScaleReasonNone | ScaleReasonQueueDepthHigh | ScaleReasonQueueWaitHigh | ScaleReasonAdmissionRejectHigh
  | ScaleReasonAdmissionShedHigh | ScaleReasonWorkerSaturated | ScaleReasonManyHotShards
  | ScaleReasonDistributedPressure | ScaleReasonLocalizedHotKey | ScaleReasonInsufficientData | ScaleReasonEmpty

datatype ScaleScope =
    ScaleScopeNone | ScaleScopeGlobal | ScaleScopeShard | ScaleScopeLane | ScaleScopeHotKey | ScaleScopeUnknown
  | ScaleScopeEmpty

record AutoscalingSignalConfig =
  asc_Enabled :: bool
  asc_Window :: duration
  asc_ConsecutiveWindows :: int
  asc_QueueDepthRatioThreshold :: float64
  asc_QueueWaitMaxThreshold :: duration
  asc_AdmissionRejectRateThreshold :: float64
  asc_AdmissionShedRateThreshold :: float64
  asc_WorkerBusyRatioThreshold :: float64
  asc_HotShardRatioThreshold :: float64
  asc_ManyHotShardsThreshold :: int
  asc_LocalizedHotKeyRatioThreshold :: float64

record ScaleSignal =
  ss_DiagnosticsEnabled :: bool
  ss_Recommended :: bool
  ss_PressureRatio :: float64
  ss_Reason :: ScaleReason
  ss_Scope :: ScaleScope
  ss_QueueDepthRatio :: float64
  ss_QueueWaitMax :: duration
  ss_AdmissionRejectedRate :: float64
  ss_AdmissionShedRate :: float64
  ss_AdmissionThrottledRate :: float64
  ss_WorkerBusyRatio :: float64
  ss_HotShardCount :: int
  ss_HotShardRatio :: float64
  ss_HotKeyCandidateCount :: int
  ss_LocalizedHotKeyRatio :: float64
  ss_LocalizedHotKey :: bool
  ss_WindowStartedAt :: "time option"
  ss_WindowEndedAt :: "time option"

text \<open>The zero value of the Go struct.\<close>

definition zeroScaleSignal :: ScaleSignal where
  "zeroScaleSignal =
     \<lparr>ss_DiagnosticsEnabled = False, ss_Recommended = False, ss_PressureRatio = FFin 0, ss_Reason = ScaleReasonEmpty,
      ss_Scope = ScaleScopeEmpty, ss_QueueDepthRatio = FFin 0, ss_QueueWaitMax = 0, ss_AdmissionRejectedRate = FFin 0,
      ss_AdmissionShedRate = FFin 0, ss_AdmissionThrottledRate = FFin 0, ss_WorkerBusyRatio = FFin 0,
      ss_HotShardCount = 0, ss_HotShardRatio = FFin 0, ss_HotKeyCandidateCount = 0, ss_LocalizedHotKeyRatio = FFin 0,
      ss_LocalizedHotKey = False, ss_WindowStartedAt = None, ss_WindowEndedAt = None\<rparr>"

record scaleSignalInput =
  si_QueueDepthTotal :: int
  si_QueueCapacityTotal :: int
  si_QueueWaitMax :: duration
  si_AdmissionRejectedRate :: float64
  si_AdmissionShedRate :: float64
  si_AdmissionThrottledRate :: float64
  si_WorkerBusyRatio :: float64
  si_HotShardCount :: int
  si_TotalShardCount :: int
  si_HotShardRatio :: float64
  si_HotKeyCandidateCount :: int
  si_LocalizedHotKeyRatio :: float64
  si_ShardPressureClass :: ShardPressureClass

record admissionCounterSample =
  acs_submitted :: u64
  acs_rejected :: u64
  acs_shed :: u64
  acs_throttled :: u64

definition zeroSample :: admissionCounterSample where
  "zeroSample = \<lparr>acs_submitted = 0, acs_rejected = 0, acs_shed = 0, acs_throttled = 0\<rparr>"

record scaleSignalCalculator =
  calc_cfg :: AutoscalingSignalConfig
  calc_unhealthyWindows :: int
  calc_lastSampleAt :: "time option"
  calc_lastCounters :: admissionCounterSample

subsection \<open>Configuration\<close>

definition floatOr :: "float64 \<Rightarrow> rat \<Rightarrow> float64" where
  "floatOr x d = (if fle x (FFin 0) then flit d else x)"

definition intOr :: "int \<Rightarrow> int \<Rightarrow> int" where
  "intOr x d = (if x \<le> 0 then d else x)"

definition normalizeAutoscalingSignalConfig :: "AutoscalingSignalConfig \<Rightarrow> AutoscalingSignalConfig" where
  "normalizeAutoscalingSignalConfig cfg =
     (if \<not> asc_Enabled cfg then cfg
      else cfg\<lparr>asc_Window := intOr (asc_Window cfg) (30 * Second),
        asc_ConsecutiveWindows := intOr (asc_ConsecutiveWindows cfg) 2,
        asc_QueueDepthRatioThreshold := floatOr (asc_QueueDepthRatioThreshold cfg) (7 / 10),
        asc_QueueWaitMaxThreshold := intOr (asc_QueueWaitMaxThreshold cfg) (50 * Millisecond),
        asc_AdmissionRejectRateThreshold := floatOr (asc_AdmissionRejectRateThreshold cfg) (5 / 100),
        asc_AdmissionShedRateThreshold := floatOr (asc_AdmissionShedRateThreshold cfg) (1 / 100),
        asc_WorkerBusyRatioThreshold := floatOr (asc_WorkerBusyRatioThreshold cfg) (85 / 100),
        asc_HotShardRatioThreshold := floatOr (asc_HotShardRatioThreshold cfg) (7 / 10),
        asc_ManyHotShardsThreshold := intOr (asc_ManyHotShardsThreshold cfg) 4,
        asc_LocalizedHotKeyRatioThreshold := floatOr (asc_LocalizedHotKeyRatioThreshold cfg) (4 / 10)\<rparr>)"

definition DefaultAutoscalingSignalConfig :: AutoscalingSignalConfig where
  "DefaultAutoscalingSignalConfig =
     \<lparr>asc_Enabled = True, asc_Window = 30 * Second, asc_ConsecutiveWindows = 2,
      asc_QueueDepthRatioThreshold = flit (7 / 10), asc_QueueWaitMaxThreshold = 50 * Millisecond,
      asc_AdmissionRejectRateThreshold = flit (5 / 100), asc_AdmissionShedRateThreshold = flit (1 / 100),
      asc_WorkerBusyRatioThreshold = flit (85 / 100), asc_HotShardRatioThreshold = flit (7 / 10),
      asc_ManyHotShardsThreshold = 4, asc_LocalizedHotKeyRatioThreshold = flit (4 / 10)\<rparr>"

text \<open>The public \<open>NormalizeAutoscalingSignalConfig\<close> takes each default from \<open>DefaultAutoscalingSignalConfig\<close>.\<close>

definition NormalizeAutoscalingSignalConfig :: "AutoscalingSignalConfig \<Rightarrow> AutoscalingSignalConfig" where
  "NormalizeAutoscalingSignalConfig cfg =
     (let def = DefaultAutoscalingSignalConfig;
          i = (\<lambda>f. if f cfg \<le> 0 then f def else (f cfg :: int));
          x = (\<lambda>f. if fle (f cfg) (FFin 0) then f def else f cfg)
      in if \<not> asc_Enabled cfg then cfg
         else cfg\<lparr>asc_Window := i asc_Window, asc_ConsecutiveWindows := i asc_ConsecutiveWindows,
           asc_QueueDepthRatioThreshold := x asc_QueueDepthRatioThreshold,
           asc_QueueWaitMaxThreshold := i asc_QueueWaitMaxThreshold,
           asc_AdmissionRejectRateThreshold := x asc_AdmissionRejectRateThreshold,
           asc_AdmissionShedRateThreshold := x asc_AdmissionShedRateThreshold,
           asc_WorkerBusyRatioThreshold := x asc_WorkerBusyRatioThreshold,
           asc_HotShardRatioThreshold := x asc_HotShardRatioThreshold,
           asc_ManyHotShardsThreshold := i asc_ManyHotShardsThreshold,
           asc_LocalizedHotKeyRatioThreshold := x asc_LocalizedHotKeyRatioThreshold\<rparr>)"

text \<open>\<open>True\<close> when \<open>ValidateAutoscalingSignalConfig\<close> returns \<open>nil\<close>; every other result wraps the one error
  \<open>ErrInvalidAutoscalingSignalConfig\<close>.\<close>

definition ValidateAutoscalingSignalConfig :: "AutoscalingSignalConfig \<Rightarrow> bool" where
  "ValidateAutoscalingSignalConfig cfg =
     (let unit = (\<lambda>x. \<not> (fle x (FFin 0) \<or> flt (FFin 1) x)); closed = (\<lambda>x. \<not> (flt x (FFin 0) \<or> flt (FFin 1) x))
      in \<not> asc_Enabled cfg \<or>
         asc_Window cfg > 0 \<and> asc_ConsecutiveWindows cfg \<ge> 1 \<and> unit (asc_QueueDepthRatioThreshold cfg)
         \<and> closed (asc_AdmissionRejectRateThreshold cfg) \<and> closed (asc_AdmissionShedRateThreshold cfg)
         \<and> unit (asc_WorkerBusyRatioThreshold cfg) \<and> unit (asc_HotShardRatioThreshold cfg)
         \<and> asc_ManyHotShardsThreshold cfg \<ge> 1 \<and> unit (asc_LocalizedHotKeyRatioThreshold cfg))"

subsection \<open>Triggers\<close>

text \<open>\<open>maxFloat64\<close> of \<open>shard_pressure_classification.go\<close>: the first value, then every larger one.\<close>

fun maxFrom :: "float64 \<Rightarrow> float64 list \<Rightarrow> float64" where
  "maxFrom m [] = m"
| "maxFrom m (v # vs) = maxFrom (if fgt v m then v else m) vs"

fun maxFloat64 :: "float64 list \<Rightarrow> float64" where
  "maxFloat64 [] = FFin 0"
| "maxFloat64 (v # vs) = maxFrom v vs"

definition computeScalePressureRatio :: "scaleSignalInput \<Rightarrow> AutoscalingSignalConfig \<Rightarrow> float64 \<Rightarrow> float64" where
  "computeScalePressureRatio i cfg depthRatio =
     (let waitRatio = (if asc_QueueWaitMaxThreshold cfg > 0
            then fdiv (float64_of_int (si_QueueWaitMax i)) (float64_of_int (asc_QueueWaitMaxThreshold cfg)) else FFin 0)
      in maxFloat64 [depthRatio, waitRatio, si_AdmissionRejectedRate i, si_AdmissionShedRate i,
           si_AdmissionThrottledRate i, si_WorkerBusyRatio i, si_HotShardRatio i])"

definition scopeForScaleTrigger :: "ScaleReason \<Rightarrow> scaleSignalInput \<Rightarrow> ScaleScope" where
  "scopeForScaleTrigger reason i =
     (if reason \<in> {ScaleReasonAdmissionRejectHigh, ScaleReasonAdmissionShedHigh, ScaleReasonDistributedPressure}
        then ScaleScopeGlobal
      else if reason = ScaleReasonManyHotShards
        then (if si_HotShardCount i \<le> 1 then ScaleScopeShard else ScaleScopeGlobal)
      else if reason = ScaleReasonWorkerSaturated
        then (if si_ShardPressureClass i = ShardPressureWorkerBound then ScaleScopeGlobal
              else if si_HotShardCount i = 1 then ScaleScopeShard else ScaleScopeGlobal)
      else if reason \<in> {ScaleReasonQueueWaitHigh, ScaleReasonQueueDepthHigh}
        then (if si_HotShardCount i = 1 \<and> si_ShardPressureClass i \<noteq> ShardPressureDistributed
                 \<and> si_ShardPressureClass i \<noteq> ShardPressureWorkerBound then ScaleScopeShard else ScaleScopeGlobal)
      else ScaleScopeGlobal)"

text \<open>The triggers that fire with their priorities, in the order the code appends them.\<close>

definition scaleTriggers :: "scaleSignalInput \<Rightarrow> AutoscalingSignalConfig \<Rightarrow> float64 \<Rightarrow> (ScaleReason \<times> int) list" where
  "scaleTriggers i cfg depthRatio =
     (if fge (si_AdmissionShedRate i) (asc_AdmissionShedRateThreshold cfg)
      then [(ScaleReasonAdmissionShedHigh, 1)] else []) @
     (if fge (si_AdmissionRejectedRate i) (asc_AdmissionRejectRateThreshold cfg)
      then [(ScaleReasonAdmissionRejectHigh, 2)] else []) @
     (if si_ShardPressureClass i = ShardPressureDistributed \<or> si_ShardPressureClass i = ShardPressureWorkerBound
      then [(ScaleReasonDistributedPressure, 3)] else []) @
     (if si_HotShardCount i \<ge> asc_ManyHotShardsThreshold cfg \<or> fge (si_HotShardRatio i) (asc_HotShardRatioThreshold cfg)
      then [(ScaleReasonManyHotShards, 4)] else []) @
     (if fge (si_WorkerBusyRatio i) (asc_WorkerBusyRatioThreshold cfg)
          \<or> si_ShardPressureClass i = ShardPressureWorkerBound
      then [(ScaleReasonWorkerSaturated, 5)] else []) @
     (if asc_QueueWaitMaxThreshold cfg > 0 \<and> si_QueueWaitMax i \<ge> asc_QueueWaitMaxThreshold cfg
      then [(ScaleReasonQueueWaitHigh, 6)] else []) @
     (if fge depthRatio (asc_QueueDepthRatioThreshold cfg) then [(ScaleReasonQueueDepthHigh, 7)] else [])"

fun bestTrigger :: "scaleSignalInput \<Rightarrow> (ScaleReason \<times> int) list \<Rightarrow> ScaleReason \<times> ScaleScope \<times> int \<times> bool \<Rightarrow>
   ScaleReason \<times> ScaleScope \<times> int \<times> bool" where
  "bestTrigger i [] acc = acc"
| "bestTrigger i ((reason, priority) # ts) (best, bestScope, bestPri, unhealthy) =
     bestTrigger i ts
       (if priority < bestPri then (reason, scopeForScaleTrigger reason i, priority, True)
        else (best, bestScope, bestPri, True))"

definition evaluateScaleTriggers ::
  "scaleSignalInput \<Rightarrow> AutoscalingSignalConfig \<Rightarrow> float64 \<Rightarrow> ScaleReason \<times> ScaleScope \<times> bool" where
  "evaluateScaleTriggers i cfg depthRatio =
     (let (best, bestScope, bestPri, unhealthy) =
            bestTrigger i (scaleTriggers i cfg depthRatio) (ScaleReasonNone, ScaleScopeNone, 999, False)
      in if \<not> unhealthy then (ScaleReasonNone, ScaleScopeNone, False) else (best, bestScope, True))"

subsection \<open>Rates between two samples\<close>

definition capOne :: "float64 \<Rightarrow> float64" where
  "capOne r = (if fgt r (FFin 1) then FFin 1 else r)"

definition rateOf :: "u64 \<Rightarrow> u64 \<Rightarrow> float64" where
  "rateOf n d = capOne (fdiv (float64_of_u64 n) (float64_of_u64 d))"

text \<open>The subtractions are of unsigned counters and wrap.\<close>

definition admissionRates :: "admissionCounterSample \<Rightarrow> admissionCounterSample \<Rightarrow> float64 \<times> float64 \<times> float64" where
  "admissionRates current lst =
     (let d0 = acs_submitted current - acs_submitted lst;
          rates = (\<lambda>d. (rateOf (acs_rejected current - acs_rejected lst) d, rateOf (acs_shed current - acs_shed lst) d,
                        rateOf (acs_throttled current - acs_throttled lst) d))
      in if d0 = 0
         then (if acs_submitted current > 0 \<and> acs_submitted lst = 0 then rates (acs_submitted current)
               else (FFin 0, FFin 0, FFin 0))
         else rates d0)"

subsection \<open>The calculator\<close>

definition localizedSample :: "AutoscalingSignalConfig \<Rightarrow> scaleSignalInput \<Rightarrow> bool" where
  "localizedSample cfg i \<longleftrightarrow>
     fge (si_LocalizedHotKeyRatio i) (asc_LocalizedHotKeyRatioThreshold cfg) \<and> si_HotShardCount i \<le> 2"

definition baseSignal :: "AutoscalingSignalConfig \<Rightarrow> scaleSignalInput \<Rightarrow> float64 \<Rightarrow> time option \<Rightarrow> time \<Rightarrow> ScaleSignal" where
  "baseSignal cfg i depthRatio windowStart now =
     zeroScaleSignal\<lparr>ss_DiagnosticsEnabled := True, ss_QueueDepthRatio := depthRatio, ss_QueueWaitMax := si_QueueWaitMax i,
       ss_AdmissionRejectedRate := si_AdmissionRejectedRate i, ss_AdmissionShedRate := si_AdmissionShedRate i,
       ss_AdmissionThrottledRate := si_AdmissionThrottledRate i, ss_WorkerBusyRatio := si_WorkerBusyRatio i,
       ss_HotShardCount := si_HotShardCount i, ss_HotShardRatio := si_HotShardRatio i,
       ss_HotKeyCandidateCount := si_HotKeyCandidateCount i, ss_LocalizedHotKeyRatio := si_LocalizedHotKeyRatio i,
       ss_LocalizedHotKey := localizedSample cfg i, ss_WindowStartedAt := windowStart, ss_WindowEndedAt := Some now,
       ss_Reason := ScaleReasonNone, ss_Scope := ScaleScopeNone\<rparr>"

text \<open>The block that both branches share: a sample that closes a window counts it and becomes the last sample.\<close>

definition closeWindow ::
  "bool \<Rightarrow> bool \<Rightarrow> admissionCounterSample \<Rightarrow> time \<Rightarrow> scaleSignalCalculator \<Rightarrow> scaleSignalCalculator" where
  "closeWindow advanceWindow unhealthy counters now c =
     (if advanceWindow
      then c\<lparr>calc_unhealthyWindows := (if unhealthy then calc_unhealthyWindows c + 1 else 0),
              calc_lastSampleAt := Some now, calc_lastCounters := counters\<rparr>
      else c)"

definition calculate ::
  "scaleSignalCalculator \<Rightarrow> scaleSignalInput \<Rightarrow> admissionCounterSample \<Rightarrow> time \<Rightarrow>
   ScaleSignal \<times> scaleSignalCalculator" where
  "calculate c i counters now =
     (let cfg = calc_cfg c;
          windowStart = (case calc_lastSampleAt c of None \<Rightarrow> Some now | Some t \<Rightarrow> Some t);
          depthRatio = safeRatio (word_of_int (si_QueueDepthTotal i)) (word_of_int (si_QueueCapacityTotal i));
          sig = baseSignal cfg i depthRatio windowStart now
      in if si_QueueCapacityTotal i \<le> 0 \<or> acs_submitted counters = 0
         then (sig\<lparr>ss_Reason := ScaleReasonInsufficientData, ss_Scope := ScaleScopeUnknown,
                    ss_PressureRatio := depthRatio\<rparr>, c)
         else
           (let sig1 = sig\<lparr>ss_PressureRatio := computeScalePressureRatio i cfg depthRatio\<rparr>;
                advanceWindow = (case calc_lastSampleAt c of None \<Rightarrow> True | Some t \<Rightarrow> timeSub now t \<ge> asc_Window cfg);
                localized = localizedSample cfg i;
                (reason, scope, unhealthy) = evaluateScaleTriggers i cfg depthRatio;
                c' = closeWindow advanceWindow unhealthy counters now c
            in if localized
               then (sig1\<lparr>ss_Reason := ScaleReasonLocalizedHotKey, ss_Scope := ScaleScopeHotKey,
                          ss_Recommended := False, ss_LocalizedHotKey := True\<rparr>, c')
               else (sig1\<lparr>ss_Reason := reason, ss_Scope := scope,
                          ss_Recommended := (unhealthy \<and> calc_unhealthyWindows c' \<ge> asc_ConsecutiveWindows cfg)\<rparr>, c')))"

text \<open>\<open>ConfigureAutoscalingSignal\<close> resets the calculator; the scheduler is built with one whose fields are zero.\<close>

definition ConfigureAutoscalingSignal ::
  "AutoscalingSignalConfig \<Rightarrow> scaleSignalCalculator option \<Rightarrow> scaleSignalCalculator option" where
  "ConfigureAutoscalingSignal cfg calc =
     Some \<lparr>calc_cfg = normalizeAutoscalingSignalConfig cfg, calc_unhealthyWindows = 0, calc_lastSampleAt = None,
           calc_lastCounters = zeroSample\<rparr>"

subsection \<open>The configuration: both normalisations agree\<close>

lemma normalize_agree: "NormalizeAutoscalingSignalConfig cfg = normalizeAutoscalingSignalConfig cfg"
  by (simp add: NormalizeAutoscalingSignalConfig_def normalizeAutoscalingSignalConfig_def
      DefaultAutoscalingSignalConfig_def floatOr_def intOr_def Let_def)

subsection \<open>The triggers\<close>

lemma bestTrigger_unhealthy:
  "snd (snd (snd (bestTrigger i ts (b, sc, p, u)))) \<longleftrightarrow> u \<or> ts \<noteq> []"
  by (induction ts arbitrary: b sc p u) (auto split: prod.splits)

lemma evaluateScaleTriggers_unhealthy:
  "snd (snd (evaluateScaleTriggers i cfg d)) \<longleftrightarrow> scaleTriggers i cfg d \<noteq> []"
  using bestTrigger_unhealthy [of i "scaleTriggers i cfg d" ScaleReasonNone ScaleScopeNone 999 False]
  by (auto simp: evaluateScaleTriggers_def split: prod.splits)

lemma bestTrigger_first:
  assumes "sorted_wrt (<) (map snd ts)" "\<forall>t \<in> set ts. p < snd t"
  shows "bestTrigger i ts (b, sc, p, u) = (b, sc, p, u \<or> ts \<noteq> [])"
  using assms by (induction ts arbitrary: u) auto

lemma scaleTriggers_sorted: "sorted_wrt (<) (map snd (scaleTriggers i cfg d))" "\<forall>t \<in> set (scaleTriggers i cfg d). snd t < 999"
  by (simp_all add: scaleTriggers_def ball_Un)

text \<open>The priorities are the order of appending, so the first trigger that fires wins.\<close>

lemma evaluateScaleTriggers_eq:
  "evaluateScaleTriggers i cfg d =
     (case scaleTriggers i cfg d of
        [] \<Rightarrow> (ScaleReasonNone, ScaleScopeNone, False)
      | (reason, p) # ts \<Rightarrow> (reason, scopeForScaleTrigger reason i, True))"
proof (cases "scaleTriggers i cfg d")
  case Nil
  then show ?thesis by (simp add: evaluateScaleTriggers_def)
next
  case (Cons t ts)
  obtain reason p where t: "t = (reason, p)" by force
  have "sorted_wrt (<) (map snd ts)" "\<forall>t \<in> set ts. p < snd t" "p < 999"
    using scaleTriggers_sorted [of i cfg d] unfolding Cons t by simp_all
  then show ?thesis
    using bestTrigger_first [of ts p i reason "scopeForScaleTrigger reason i" True]
    by (simp add: evaluateScaleTriggers_def Cons t)
qed

subsection \<open>Windows\<close>

text \<open>One sample of the calculator, and the calculator driven by a sequence of samples.\<close>

record scaleSample =
  smp_input :: scaleSignalInput
  smp_counters :: admissionCounterSample
  smp_now :: time

definition sampleStep :: "scaleSample \<Rightarrow> scaleSignalCalculator \<Rightarrow> scaleSignalCalculator" where
  "sampleStep x c = snd (calculate c (smp_input x) (smp_counters x) (smp_now x))"

definition sampleSignal :: "scaleSignalCalculator \<Rightarrow> scaleSample \<Rightarrow> ScaleSignal" where
  "sampleSignal c x = fst (calculate c (smp_input x) (smp_counters x) (smp_now x))"

text \<open>The reference definition: a sample with data is unhealthy when a trigger fires, and a window closes at the first
  sample with data and then at every one that is at least \<open>Window\<close> after the last close.\<close>

definition hasData :: "scaleSample \<Rightarrow> bool" where
  "hasData x \<longleftrightarrow> 0 < si_QueueCapacityTotal (smp_input x) \<and> acs_submitted (smp_counters x) \<noteq> 0"

definition unhealthySample :: "AutoscalingSignalConfig \<Rightarrow> scaleSample \<Rightarrow> bool" where
  "unhealthySample cfg x \<longleftrightarrow> scaleTriggers (smp_input x) cfg
     (safeRatio (word_of_int (si_QueueDepthTotal (smp_input x))) (word_of_int (si_QueueCapacityTotal (smp_input x)))) \<noteq> []"

definition windowStep :: "AutoscalingSignalConfig \<Rightarrow> scaleSample \<Rightarrow> (time \<times> bool) list \<Rightarrow> (time \<times> bool) list" where
  "windowStep cfg x ws =
     (if hasData x \<and> (ws = [] \<or> timeSub (smp_now x) (fst (last ws)) \<ge> asc_Window cfg)
      then ws @ [(smp_now x, unhealthySample cfg x)] else ws)"

definition windowsOf :: "AutoscalingSignalConfig \<Rightarrow> scaleSample list \<Rightarrow> (time \<times> bool) list" where
  "windowsOf cfg xs = fold (windowStep cfg) xs []"

text \<open>The calculator's state is determined by the windows closed so far.\<close>

definition windowsInv :: "(time \<times> bool) list \<Rightarrow> scaleSignalCalculator \<Rightarrow> bool" where
  "windowsInv ws c \<longleftrightarrow> calc_unhealthyWindows c = int (length (takeWhile snd (rev ws)))
     \<and> calc_lastSampleAt c = (if ws = [] then None else Some (fst (last ws)))"

lemma calculate_cfg [simp]: "calc_cfg (sampleStep x c) = calc_cfg c"
  by (simp add: sampleStep_def calculate_def closeWindow_def Let_def split: prod.splits)

lemma windowsInv_step:
  assumes "windowsInv ws c"
  shows "windowsInv (windowStep (calc_cfg c) x ws) (sampleStep x c)"
  using assms evaluateScaleTriggers_unhealthy [of "smp_input x" "calc_cfg c"
      "safeRatio (word_of_int (si_QueueDepthTotal (smp_input x))) (word_of_int (si_QueueCapacityTotal (smp_input x)))"]
  by (auto simp: windowsInv_def windowStep_def sampleStep_def calculate_def closeWindow_def Let_def hasData_def
      unhealthySample_def split: prod.splits if_splits)

lemma windowsInv_run:
  "windowsInv ws c \<Longrightarrow>
   windowsInv (fold (windowStep (calc_cfg c)) xs ws) (fold sampleStep xs c) \<and> calc_cfg (fold sampleStep xs c) = calc_cfg c"
proof (induction xs arbitrary: c ws)
  case (Cons x xs)
  then show ?case using Cons.IH [OF windowsInv_step [OF Cons.prems]] by simp
qed simp

definition configured :: "AutoscalingSignalConfig \<Rightarrow> scaleSignalCalculator" where
  "configured cfg = the (ConfigureAutoscalingSignal cfg None)"

lemma configured_inv: "windowsInv [] (configured cfg)" "calc_cfg (configured cfg) = normalizeAutoscalingSignalConfig cfg"
  by (simp_all add: configured_def ConfigureAutoscalingSignal_def windowsInv_def)

text \<open>Closed windows are at least \<open>Window\<close> apart.\<close>

definition spaced :: "duration \<Rightarrow> time list \<Rightarrow> bool" where
  "spaced w ts \<longleftrightarrow> (\<forall>i. Suc i < length ts \<longrightarrow> timeSub (ts ! Suc i) (ts ! i) \<ge> w)"

lemma spaced_snoc:
  assumes "spaced w ts" "ts = [] \<or> timeSub t (last ts) \<ge> w"
  shows "spaced w (ts @ [t])"
  unfolding spaced_def
proof (intro allI impI)
  fix i assume "Suc i < length (ts @ [t])"
  then consider "Suc i < length ts" | "Suc i = length ts" by fastforce
  then show "w \<le> timeSub ((ts @ [t]) ! Suc i) ((ts @ [t]) ! i)"
  proof cases
    case 1
    then show ?thesis using assms(1) by (simp add: spaced_def nth_append)
  next
    case 2
    then have n: "ts \<noteq> []" by auto
    have "length ts - 1 = i" using 2 by simp
    then have "last ts = ts ! i" using last_conv_nth [OF n] by simp
    then show ?thesis using 2 n assms(2) by (simp add: nth_append)
  qed
qed

lemma windowStep_spaced:
  "spaced (asc_Window cfg) (map fst ws) \<Longrightarrow> spaced (asc_Window cfg) (map fst (windowStep cfg x ws))"
  using spaced_snoc [of "asc_Window cfg" "map fst ws" "smp_now x"] by (cases ws rule: rev_cases) (simp_all add: windowStep_def)

lemma windowsOf_spaced: "spaced (asc_Window cfg) (map fst (windowsOf cfg xs))"
proof -
  have "spaced (asc_Window cfg) (map fst ws) \<Longrightarrow> spaced (asc_Window cfg) (map fst (fold (windowStep cfg) xs ws))" for ws
    by (induction xs arbitrary: ws) (simp_all add: windowStep_spaced)
  from this [of "[]"] show ?thesis by (simp add: windowsOf_def spaced_def)
qed

lemma sampleSignal_Recommended:
  assumes "windowsInv ws c" "ws' = windowStep (calc_cfg c) x ws"
  shows "ss_Recommended (sampleSignal c x) \<longleftrightarrow>
    hasData x \<and> \<not> localizedSample (calc_cfg c) (smp_input x) \<and> unhealthySample (calc_cfg c) x
    \<and> asc_ConsecutiveWindows (calc_cfg c) \<le> int (length (takeWhile snd (rev ws')))"
proof -
  have "calc_unhealthyWindows (sampleStep x c) = int (length (takeWhile snd (rev ws')))"
    using windowsInv_step [OF assms(1), of x] assms(2) by (simp add: windowsInv_def)
  then show ?thesis
    using evaluateScaleTriggers_unhealthy [of "smp_input x" "calc_cfg c"
      "safeRatio (word_of_int (si_QueueDepthTotal (smp_input x))) (word_of_int (si_QueueCapacityTotal (smp_input x)))"]
    by (auto simp: sampleSignal_def sampleStep_def calculate_def baseSignal_def zeroScaleSignal_def Let_def hasData_def
        unhealthySample_def split: prod.splits if_splits)
qed

subsection \<open>Properties\<close>

text \<open>C33: A scale-out is recommended exactly when it should be. After any sequence of samples of a freshly
  configured calculator, the next signal recommends to scale out if and only if the sample has data, is not explained by
  one hot key, some trigger fires on it, and the last \<open>ConsecutiveWindows\<close> windows that closed were all unhealthy;
  and windows close at least \<open>Window\<close> apart, so one burst of samples never makes a recommendation.\<close>

theorem scale_hysteresis:
  "let ncfg = normalizeAutoscalingSignalConfig cfg; ws = windowsOf ncfg (xs @ [x])
   in (ss_Recommended (sampleSignal (fold sampleStep xs (configured cfg)) x) \<longleftrightarrow>
        hasData x \<and> \<not> localizedSample ncfg (smp_input x) \<and> unhealthySample ncfg x
        \<and> asc_ConsecutiveWindows ncfg \<le> int (length (takeWhile snd (rev ws))))
      \<and> spaced (asc_Window ncfg) (map fst ws)"
proof -
  let ?ncfg = "normalizeAutoscalingSignalConfig cfg"
  have r: "windowsInv (windowsOf ?ncfg xs) (fold sampleStep xs (configured cfg))"
    "calc_cfg (fold sampleStep xs (configured cfg)) = ?ncfg"
    using windowsInv_run [OF configured_inv(1) [of cfg], of xs] by (simp_all add: configured_inv(2) windowsOf_def)
  have "windowsOf ?ncfg (xs @ [x]) = windowStep ?ncfg x (windowsOf ?ncfg xs)" by (simp add: windowsOf_def)
  then show ?thesis
    using sampleSignal_Recommended [OF r(1) refl, of x] windowsOf_spaced [of ?ncfg "xs @ [x]"]
    unfolding r(2) Let_def by simp
qed

end
