(* ===== verification/Retry_Policy.thy ===== *)
theory Retry_Policy
  imports Failure_Class Scale_Signal
begin

text \<open>
  The three decisions behind a retry, each a pure function as in the code: \<open>DecideRetry\<close> with the backoff
  (\<open>retry_policy.go\<close>), \<open>DecideRetrySafety\<close> (\<open>idempotency.go\<close>) and \<open>DecideRetrySuppression\<close>
  (\<open>retry_suppression.go\<close>), with the normalisation and validation of their policies. A hook of the application is
  a function whose result \<open>None\<close> is a panic, which the code recovers from. \<open>math.Pow\<close> and the machine's result of an
  out-of-range conversion are the fields of \<open>goMath\<close>; floating-point operations are not fused.
\<close>

record goMath =
  gm_Pow :: "float64 \<Rightarrow> float64 \<Rightarrow> float64"
  gm_cv :: "float64 \<Rightarrow> 64 word"

subsection \<open>Retry policy\<close>

record RetryPolicy =
  rp_Enabled :: bool
  rp_MaxAttempts :: int
  rp_InitialBackoff :: duration
  rp_MaxBackoff :: duration
  rp_Multiplier :: float64
  rp_Jitter :: bool
  rp_JitterFraction :: float64
  rp_MinRemainingBudget :: duration
  rp_RetryableKinds :: "FailureKind list"

definition zeroRetryPolicy :: RetryPolicy where
  "zeroRetryPolicy = \<lparr>rp_Enabled = False, rp_MaxAttempts = 0, rp_InitialBackoff = 0, rp_MaxBackoff = 0,
     rp_Multiplier = FFin 0, rp_Jitter = False, rp_JitterFraction = FFin 0, rp_MinRemainingBudget = 0, rp_RetryableKinds = []\<rparr>"

datatype RetryDecisionReason =
    RetryDecisionNone | RetryDecisionDisabled | RetryDecisionRetryableFailure | RetryDecisionPermanentFailure
  | RetryDecisionMaxAttempts | RetryDecisionContextCancelled | RetryDecisionDeadlineExhausted
  | RetryDecisionBudgetTooSmall | RetryDecisionEmpty

record RetryDecision =
  rd_Retry :: bool
  rd_Attempt :: int
  rd_Delay :: duration
  rd_Reason :: RetryDecisionReason
  rd_Failure :: Failure
  rd_Budget :: DeadlineBudget

text \<open>\<open>rs_CtxErr\<close> is what \<open>Ctx.Err()\<close> returns when \<open>DecideRetry\<close> asks, or \<open>None\<close> for a nil context.\<close>

record RetryState =
  rs_CtxErr :: "goerror option"
  rs_Attempt :: int
  rs_Failure :: Failure
  rs_Budget :: DeadlineBudget
  rs_Now :: "time option"

definition NormalizeRetryPolicy :: "RetryPolicy \<Rightarrow> RetryPolicy" where
  "NormalizeRetryPolicy cfg =
     (if \<not> rp_Enabled cfg then cfg
      else
        (let c1 = (if rp_MaxAttempts cfg \<le> 0 then cfg\<lparr>rp_MaxAttempts := 3\<rparr> else cfg);
             c2 = (if rp_InitialBackoff c1 \<le> 0 then c1\<lparr>rp_InitialBackoff := 10 * Millisecond\<rparr> else c1);
             c3 = (if rp_MaxBackoff c2 \<le> 0 then c2\<lparr>rp_MaxBackoff := 250 * Millisecond\<rparr> else c2);
             c4 = (if fle (rp_Multiplier c3) (FFin 0) then c3\<lparr>rp_Multiplier := flit 2\<rparr> else c3);
             c5 = (if fle (rp_JitterFraction c4) (FFin 0)
                   then c4\<lparr>rp_JitterFraction := flit (2 / 10), rp_Jitter := True\<rparr> else c4)
         in if rp_MinRemainingBudget c5 \<le> 0 then c5\<lparr>rp_MinRemainingBudget := rp_InitialBackoff c5\<rparr> else c5))"

text \<open>\<open>True\<close> when \<open>ValidateRetryPolicy\<close> returns \<open>nil\<close>; otherwise it wraps \<open>ErrInvalidRetryPolicy\<close>.\<close>

definition ValidateRetryPolicy :: "RetryPolicy \<Rightarrow> bool" where
  "ValidateRetryPolicy cfg \<longleftrightarrow>
     \<not> rp_Enabled cfg \<or>
     \<not> rp_MaxAttempts cfg < 1 \<and> \<not> rp_InitialBackoff cfg < 0
     \<and> \<not> (rp_MaxBackoff cfg > 0 \<and> rp_MaxBackoff cfg < rp_InitialBackoff cfg)
     \<and> \<not> (flt (FFin 0) (rp_Multiplier cfg) \<and> flt (rp_Multiplier cfg) (FFin 1))
     \<and> \<not> (flt (rp_JitterFraction cfg) (FFin 0) \<or> flt (FFin 1) (rp_JitterFraction cfg))
     \<and> \<not> rp_MinRemainingBudget cfg < 0"

definition resolveRetryPolicy :: "RetryPolicy \<Rightarrow> RetryPolicy \<Rightarrow> RetryPolicy" where
  "resolveRetryPolicy queue override =
     (if rp_Enabled override then NormalizeRetryPolicy override
      else if rp_Enabled queue then NormalizeRetryPolicy queue
      else zeroRetryPolicy)"

definition isRetryableFailure :: "RetryPolicy \<Rightarrow> Failure \<Rightarrow> bool" where
  "isRetryableFailure policy failure =
     (if f_Kind failure = FailureNone then False
      else if rp_RetryableKinds policy \<noteq> [] then list_ex (\<lambda>k. f_Kind failure = k) (rp_RetryableKinds policy)
      else case f_Kind failure of
             FailureRetryable \<Rightarrow> True
           | FailureOther s \<Rightarrow> f_Retryable failure
           | _ \<Rightarrow> False)"

text \<open>\<open>jit\<close> is the reading of the jitter source, which lies in [0, 1).\<close>

definition RetryDelay :: "goMath \<Rightarrow> RetryPolicy \<Rightarrow> int \<Rightarrow> float64 \<Rightarrow> duration" where
  "RetryDelay gm policy attempt0 jit =
     (let attempt = (if attempt0 < 1 then 1 else attempt0);
          initial = (if rp_InitialBackoff policy \<le> 0 then 10 * Millisecond else rp_InitialBackoff policy);
          maxB = (if rp_MaxBackoff policy \<le> 0 then 250 * Millisecond else rp_MaxBackoff policy);
          mult = (if fle (rp_Multiplier policy) (FFin 0) then flit 2 else rp_Multiplier policy);
          base0 = float64_of_int initial;
          base1 = (if flt (FFin 0) mult \<and> attempt > 1
                   then fmul base0 (gm_Pow gm mult (float64_of_int (attempt - 1))) else base0);
          base = (if maxB > 0 \<and> int64_of_float (gm_cv gm) base1 > maxB then float64_of_int maxB else base1);
          delay = int64_of_float (gm_cv gm) base
      in if \<not> rp_Jitter policy \<or> fle (rp_JitterFraction policy) (FFin 0)
         then (if delay < 0 then 0 else delay)
         else
           (let spread = fmul (float64_of_int delay) (rp_JitterFraction policy);
                offset = fmul (fsub (fmul jit (flit 2)) (flit 1)) spread;
                delay' = int64_of_float (gm_cv gm) (fadd (float64_of_int delay) offset)
            in if delay' < 0 then 0 else delay'))"

text \<open>\<open>wall\<close> is the clock reading that replaces a zero \<open>Now\<close>.\<close>

definition DecideRetry :: "goMath \<Rightarrow> RetryPolicy \<Rightarrow> RetryState \<Rightarrow> float64 \<Rightarrow> time \<Rightarrow> RetryDecision" where
  "DecideRetry gm policy state jit wall =
     (let decision = \<lparr>rd_Retry = False, rd_Attempt = rs_Attempt state, rd_Delay = 0, rd_Reason = RetryDecisionNone,
                      rd_Failure = rs_Failure state, rd_Budget = rs_Budget state\<rparr>
      in if \<not> rp_Enabled policy then decision\<lparr>rd_Reason := RetryDecisionDisabled\<rparr>
         else if rs_CtxErr state \<noteq> None then
           decision\<lparr>rd_Reason := RetryDecisionContextCancelled,
                     rd_Failure := ClassifyContextError (rs_CtxErr state) (rs_Budget state) False wall\<rparr>
         else if rs_Attempt state \<ge> rp_MaxAttempts policy then decision\<lparr>rd_Reason := RetryDecisionMaxAttempts\<rparr>
         else if \<not> isRetryableFailure policy (rs_Failure state) then decision\<lparr>rd_Reason := RetryDecisionPermanentFailure\<rparr>
         else
           (let now = (case rs_Now state of None \<Rightarrow> wall | Some t \<Rightarrow> t)
            in if db_HasDeadline (rs_Budget state) \<and> IsExhaustedAt (rs_Budget state) now
               then decision\<lparr>rd_Reason := RetryDecisionDeadlineExhausted\<rparr>
               else
                 (let delay = RetryDelay gm policy (rs_Attempt state) jit;
                      decision1 = decision\<lparr>rd_Delay := delay\<rparr>;
                      remaining = RemainingAt (rs_Budget state) now;
                      need = wrapInt (delay + rp_MinRemainingBudget policy)
                  in if db_HasDeadline (rs_Budget state) \<and> remaining < need
                     then decision1\<lparr>rd_Reason := (if remaining = 0 then RetryDecisionDeadlineExhausted
                                                    else RetryDecisionBudgetTooSmall)\<rparr>
                     else decision1\<lparr>rd_Retry := True, rd_Reason := RetryDecisionRetryableFailure\<rparr>)))"

subsection \<open>Duplicate safety\<close>

datatype RetrySafety = RetrySafetyUnspecified | RetrySafetySafe | RetrySafetyUnsafe | RetrySafetyRequiresCheck
  | RetrySafetyOther string

record Idempotency =
  id_Key :: string
  id_Safety :: RetrySafety
  id_Scope :: string
  id_Operation :: string
  id_AllowUnsafeRetry :: bool

datatype RetrySafetyDecisionReason =
    RetrySafetyDecisionSafe | RetrySafetyDecisionUnsafe | RetrySafetyDecisionMissingKey | RetrySafetyDecisionHookAllowed
  | RetrySafetyDecisionHookRejected | RetrySafetyDecisionHookFailed | RetrySafetyDecisionNoHook
  | RetrySafetyDecisionExplicitOverride | RetrySafetyDecisionOther string

abbreviation RetrySafetyDecisionEmpty :: RetrySafetyDecisionReason where
  "RetrySafetyDecisionEmpty \<equiv> RetrySafetyDecisionOther ''''"

record RetrySafetyDecision =
  sd_Allow :: bool
  sd_Reason :: RetrySafetyDecisionReason
  sd_Message :: string

record RetrySafetyCheck =
  sc_Key :: string
  sc_Lane :: string
  sc_ShardID :: int
  sc_Attempt :: int
  sc_Failure :: Failure
  sc_Retry :: RetryPolicy
  sc_Idempotency :: Idempotency
  sc_Budget :: DeadlineBudget

record IdempotencyPolicy =
  ip_RequireForRetry :: bool
  ip_Hook :: "(RetrySafetyCheck \<Rightarrow> RetrySafetyDecision option) option"

definition normalizeRetrySafetyHookDecision :: "RetrySafetyDecision \<Rightarrow> RetrySafetyDecision" where
  "normalizeRetrySafetyHookDecision d =
     (let d1 = (if sd_Allow d \<and> sd_Reason d = RetrySafetyDecisionUnsafe
                then d\<lparr>sd_Reason := RetrySafetyDecisionHookAllowed\<rparr> else d);
          d2 = (if \<not> sd_Allow d1 \<and> sd_Reason d1 = RetrySafetyDecisionSafe
                then d1\<lparr>sd_Reason := RetrySafetyDecisionHookRejected\<rparr> else d1)
      in if sd_Reason d2 = RetrySafetyDecisionEmpty
         then d2\<lparr>sd_Reason := (if sd_Allow d2 then RetrySafetyDecisionHookAllowed else RetrySafetyDecisionHookRejected)\<rparr>
         else d2)"

definition DecideRetrySafety :: "RetrySafetyCheck \<Rightarrow> IdempotencyPolicy \<Rightarrow> RetrySafetyDecision" where
  "DecideRetrySafety check policy =
     (let idem = sc_Idempotency check; answer = (\<lambda>a r. \<lparr>sd_Allow = a, sd_Reason = r, sd_Message = ''''\<rparr>)
      in if \<not> rp_Enabled (sc_Retry check) then answer True RetrySafetyDecisionSafe
         else if id_Safety idem = RetrySafetyUnsafe \<and> id_AllowUnsafeRetry idem
           then \<lparr>sd_Allow = True, sd_Reason = RetrySafetyDecisionExplicitOverride,
                 sd_Message = ''explicit unsafe retry override''\<rparr>
         else if ip_RequireForRetry policy \<and> id_Key idem = '''' then answer False RetrySafetyDecisionMissingKey
         else case id_Safety idem of
                RetrySafetySafe \<Rightarrow> answer True RetrySafetyDecisionSafe
              | RetrySafetyUnsafe \<Rightarrow> answer False RetrySafetyDecisionUnsafe
              | RetrySafetyRequiresCheck \<Rightarrow>
                  (case ip_Hook policy of
                     None \<Rightarrow> answer False RetrySafetyDecisionNoHook
                   | Some hook \<Rightarrow>
                       (case hook check of
                          None \<Rightarrow> answer False RetrySafetyDecisionHookFailed
                        | Some decision \<Rightarrow> normalizeRetrySafetyHookDecision decision))
              | _ \<Rightarrow> answer False RetrySafetyDecisionUnsafe)"

subsection \<open>Suppression\<close>

datatype RetrySuppressionReason =
    RetrySuppressionNone | RetrySuppressionDisabled | RetrySuppressionGlobalPressure | RetrySuppressionGlobalOverload
  | RetrySuppressionLanePressure | RetrySuppressionShardPressure | RetrySuppressionOverloadFailure
  | RetrySuppressionAdmissionFailure | RetrySuppressionPerKeyAdmission | RetrySuppressionHotKey
  | RetrySuppressionScaleOutRecommended | RetrySuppressionHookRejected | RetrySuppressionHookFailed
  | RetrySuppressionOther string

abbreviation RetrySuppressionEmpty :: RetrySuppressionReason where
  "RetrySuppressionEmpty \<equiv> RetrySuppressionOther ''''"

record RetrySuppressionDecision =
  sup_Suppress :: bool
  sup_Reason :: RetrySuppressionReason
  sup_Message :: string
  sup_Pressure :: Pressure
  sup_Lane :: string
  sup_LaneClass :: string
  sup_ShardID :: int
  sup_Attempt :: int
  sup_Failure :: Failure
  sup_Budget :: DeadlineBudget
  sup_RetryAfter :: duration

record RetrySuppressionCheck =
  suc_Key :: string
  suc_Lane :: string
  suc_ShardID :: int
  suc_Attempt :: int
  suc_Failure :: Failure
  suc_Retry :: RetryPolicy
  suc_Budget :: DeadlineBudget
  suc_Pressure :: Pressure
  suc_LaneDepthRatio :: float64
  suc_ShardDepthRatio :: float64
  suc_ScaleSignal :: ScaleSignal
  suc_Idempotency :: Idempotency
  suc_LaneClass :: string
  suc_HotKeyCandidate :: bool

record RetrySuppressionPolicy =
  rsp_Enabled :: bool
  rsp_SuppressWhenOverloaded :: bool
  rsp_SuppressNonCriticalWhenPressured :: bool
  rsp_SuppressLaneAboveRatio :: float64
  rsp_SuppressShardAboveRatio :: float64
  rsp_SuppressOverloadFailures :: bool
  rsp_SuppressAdmissionFailures :: bool
  rsp_SuppressPerKeyAdmissionFailures :: bool
  rsp_SuppressHotKeyRetry :: bool
  rsp_AllowCriticalHotKeyRetry :: bool
  rsp_SuppressWhenScaleOutRecommended :: bool
  rsp_Hook :: "(RetrySuppressionCheck \<Rightarrow> RetrySuppressionDecision option) option"

definition zeroSuppressionPolicy :: RetrySuppressionPolicy where
  "zeroSuppressionPolicy = \<lparr>rsp_Enabled = False, rsp_SuppressWhenOverloaded = False,
     rsp_SuppressNonCriticalWhenPressured = False, rsp_SuppressLaneAboveRatio = FFin 0, rsp_SuppressShardAboveRatio = FFin 0,
     rsp_SuppressOverloadFailures = False, rsp_SuppressAdmissionFailures = False,
     rsp_SuppressPerKeyAdmissionFailures = False, rsp_SuppressHotKeyRetry = False, rsp_AllowCriticalHotKeyRetry = False,
     rsp_SuppressWhenScaleOutRecommended = False, rsp_Hook = None\<rparr>"

definition NormalizeRetrySuppressionPolicy :: "RetrySuppressionPolicy \<Rightarrow> RetrySuppressionPolicy" where
  "NormalizeRetrySuppressionPolicy cfg =
     (if \<not> rsp_Enabled cfg then cfg
      else
        (let unset = (\<not> rsp_SuppressWhenOverloaded cfg \<and> \<not> rsp_SuppressNonCriticalWhenPressured cfg
               \<and> \<not> rsp_SuppressOverloadFailures cfg \<and> \<not> rsp_SuppressAdmissionFailures cfg
               \<and> \<not> rsp_SuppressPerKeyAdmissionFailures cfg \<and> \<not> rsp_SuppressHotKeyRetry cfg
               \<and> \<not> rsp_SuppressWhenScaleOutRecommended cfg \<and> feq (rsp_SuppressLaneAboveRatio cfg) (FFin 0)
               \<and> feq (rsp_SuppressShardAboveRatio cfg) (FFin 0) \<and> rsp_Hook cfg = None);
             c1 = (if unset
                   then cfg\<lparr>rsp_SuppressWhenOverloaded := True, rsp_SuppressNonCriticalWhenPressured := True,
                          rsp_SuppressOverloadFailures := True, rsp_SuppressAdmissionFailures := True,
                          rsp_SuppressPerKeyAdmissionFailures := True, rsp_SuppressHotKeyRetry := True,
                          rsp_SuppressWhenScaleOutRecommended := True\<rparr>
                   else cfg);
             c2 = (if feq (rsp_SuppressLaneAboveRatio c1) (FFin 0)
                   then c1\<lparr>rsp_SuppressLaneAboveRatio := PressuredDepthRatio\<rparr> else c1)
         in if feq (rsp_SuppressShardAboveRatio c2) (FFin 0)
            then c2\<lparr>rsp_SuppressShardAboveRatio := PressuredDepthRatio\<rparr> else c2))"

text \<open>\<open>True\<close> stands for a \<open>nil\<close> error; a failure wraps \<open>ErrInvalidRetrySuppressionPolicy\<close>.\<close>

definition validateSuppressionRatio :: "float64 \<Rightarrow> bool" where
  "validateSuppressionRatio r \<longleftrightarrow> feq r (FFin 0) \<or> \<not> (fle r (FFin 0) \<or> flt (FFin 1) r)"

definition ValidateRetrySuppressionPolicy :: "RetrySuppressionPolicy \<Rightarrow> bool" where
  "ValidateRetrySuppressionPolicy cfg \<longleftrightarrow>
     \<not> rsp_Enabled cfg \<or>
     validateSuppressionRatio (rsp_SuppressLaneAboveRatio cfg) \<and> validateSuppressionRatio (rsp_SuppressShardAboveRatio cfg)"

definition resolveRetrySuppressionPolicy ::
  "RetrySuppressionPolicy \<Rightarrow> RetrySuppressionPolicy option \<Rightarrow> RetrySuppressionPolicy" where
  "resolveRetrySuppressionPolicy queue override =
     (case override of
        Some p \<Rightarrow> if rsp_Enabled p then NormalizeRetrySuppressionPolicy p
                  else if rsp_Enabled queue then NormalizeRetrySuppressionPolicy queue else zeroSuppressionPolicy
      | None \<Rightarrow> if rsp_Enabled queue then NormalizeRetrySuppressionPolicy queue else zeroSuppressionPolicy)"

definition suppressDecision ::
  "RetrySuppressionDecision \<Rightarrow> RetrySuppressionReason \<Rightarrow> string \<Rightarrow> RetrySuppressionDecision" where
  "suppressDecision base reason message = base\<lparr>sup_Suppress := True, sup_Reason := reason, sup_Message := message\<rparr>"

definition isNonCriticalLaneClass :: "string \<Rightarrow> bool" where
  "isNonCriticalLaneClass c \<longleftrightarrow> c = LaneClassBackground \<or> c = LaneClassBestEffort"

definition isPerKeyAdmissionFailure :: "Failure \<Rightarrow> bool" where
  "isPerKeyAdmissionFailure f \<longleftrightarrow>
     (case f_Err f of
        None \<Rightarrow> False
      | Some e \<Rightarrow> errorsIs e SPerKeyAdmissionRejected \<or> errorsIs e SPerKeyAdmissionThrottled \<or> errorsIs e SPerKeyAdmissionShed
                  \<or> hasPerKeyError e)"

definition isGeneralAdmissionFailure :: "Failure \<Rightarrow> bool" where
  "isGeneralAdmissionFailure f \<longleftrightarrow>
     (case f_Err f of
        None \<Rightarrow> False
      | Some e \<Rightarrow> f_Kind f = FailureRejected \<and> \<not> isPerKeyAdmissionFailure f
                  \<and> (errorsIs e SAdmissionRejected \<or> EAdmissionRejected \<in> set (errorTree e)))"

text \<open>The hot-key rule: the reason text when it suppresses.\<close>

definition hotKeySuppression :: "RetrySuppressionPolicy \<Rightarrow> RetrySuppressionCheck \<Rightarrow> string option" where
  "hotKeySuppression policy check =
     (if \<not> (rsp_SuppressHotKeyRetry policy \<and> suc_HotKeyCandidate check) then None
      else if isNonCriticalLaneClass (suc_LaneClass check) then Some ''hot key on non-critical lane''
      else if suc_LaneClass check = LaneClassCritical then
        (if \<not> rsp_AllowCriticalHotKeyRetry policy then Some ''hot key on critical lane without explicit permission''
         else if suc_Attempt check > 1 then Some ''hot key retry budget exhausted for critical lane''
         else None)
      else None)"

definition suppressionHook ::
  "RetrySuppressionDecision \<Rightarrow> RetrySuppressionPolicy \<Rightarrow> RetrySuppressionCheck \<Rightarrow> RetrySuppressionDecision" where
  "suppressionHook decision policy check =
     (case rsp_Hook policy of
        None \<Rightarrow> decision
      | Some hook \<Rightarrow>
          (case hook check of
             None \<Rightarrow> suppressDecision decision RetrySuppressionHookFailed ''retry suppression hook failed''
           | Some answer \<Rightarrow>
               if sup_Suppress answer
               then suppressDecision decision (if sup_Reason answer = RetrySuppressionEmpty then RetrySuppressionHookRejected
                                               else sup_Reason answer) (sup_Message answer)
               else decision\<lparr>sup_Reason := (if sup_Reason answer = RetrySuppressionEmpty then RetrySuppressionNone
                                              else sup_Reason answer), sup_Message := sup_Message answer\<rparr>))"

definition DecideRetrySuppression :: "RetrySuppressionPolicy \<Rightarrow> RetrySuppressionCheck \<Rightarrow> RetrySuppressionDecision" where
  "DecideRetrySuppression policy check =
     (let decision = \<lparr>sup_Suppress = False, sup_Reason = RetrySuppressionNone, sup_Message = '''',
            sup_Pressure = suc_Pressure check, sup_Lane = suc_Lane check, sup_LaneClass = suc_LaneClass check,
            sup_ShardID = suc_ShardID check, sup_Attempt = suc_Attempt check, sup_Failure = suc_Failure check,
            sup_Budget = suc_Budget check, sup_RetryAfter = 0\<rparr>
      in if \<not> rsp_Enabled policy then decision\<lparr>sup_Reason := RetrySuppressionDisabled\<rparr>
         else if rsp_SuppressOverloadFailures policy \<and> f_Kind (suc_Failure check) = FailureOverloaded
           then suppressDecision decision RetrySuppressionOverloadFailure ''overload failure''
         else if rsp_SuppressAdmissionFailures policy \<and> isGeneralAdmissionFailure (suc_Failure check)
           then suppressDecision decision RetrySuppressionAdmissionFailure ''admission failure''
         else if rsp_SuppressPerKeyAdmissionFailures policy \<and> isPerKeyAdmissionFailure (suc_Failure check)
           then suppressDecision decision RetrySuppressionPerKeyAdmission ''per-key admission failure''
         else if rsp_SuppressWhenOverloaded policy \<and> p_IsOverloaded (suc_Pressure check)
           then suppressDecision decision RetrySuppressionGlobalOverload ''global queue overloaded''
         else if rsp_SuppressNonCriticalWhenPressured policy \<and> p_IsPressured (suc_Pressure check)
                  \<and> isNonCriticalLaneClass (suc_LaneClass check)
           then suppressDecision decision RetrySuppressionGlobalPressure ''global queue pressured for non-critical lane''
         else if flt (FFin 0) (rsp_SuppressLaneAboveRatio policy)
                  \<and> fge (suc_LaneDepthRatio check) (rsp_SuppressLaneAboveRatio policy)
           then suppressDecision decision RetrySuppressionLanePressure ''lane depth above threshold''
         else if flt (FFin 0) (rsp_SuppressShardAboveRatio policy)
                  \<and> fge (suc_ShardDepthRatio check) (rsp_SuppressShardAboveRatio policy)
           then suppressDecision decision RetrySuppressionShardPressure ''shard depth above threshold''
         else (case hotKeySuppression policy check of
                 Some message \<Rightarrow> suppressDecision decision RetrySuppressionHotKey message
               | None \<Rightarrow>
                   if rsp_SuppressWhenScaleOutRecommended policy \<and> ss_Recommended (suc_ScaleSignal check)
                      \<and> isNonCriticalLaneClass (suc_LaneClass check)
                   then suppressDecision decision RetrySuppressionScaleOutRecommended
                          ''scale-out recommended for non-critical lane''
                   else suppressionHook decision policy check))"

subsection \<open>Normalised policies\<close>

lemma Normalize_retry_fields:
  assumes "rp_Enabled cfg"
  shows "rp_Enabled (NormalizeRetryPolicy cfg)" "1 \<le> rp_MaxAttempts (NormalizeRetryPolicy cfg)"
    "0 < rp_InitialBackoff (NormalizeRetryPolicy cfg)" "0 < rp_MaxBackoff (NormalizeRetryPolicy cfg)"
    "0 < rp_MinRemainingBudget (NormalizeRetryPolicy cfg)" "\<not> fle (rp_JitterFraction (NormalizeRetryPolicy cfg)) (FFin 0)"
proof -
  have "\<not> fle (flit (2 / 10)) (FFin 0)" by code_simp
  then show "rp_Enabled (NormalizeRetryPolicy cfg)" "1 \<le> rp_MaxAttempts (NormalizeRetryPolicy cfg)"
    "0 < rp_InitialBackoff (NormalizeRetryPolicy cfg)" "0 < rp_MaxBackoff (NormalizeRetryPolicy cfg)"
    "0 < rp_MinRemainingBudget (NormalizeRetryPolicy cfg)" "\<not> fle (rp_JitterFraction (NormalizeRetryPolicy cfg)) (FFin 0)"
    using assms by (simp_all add: NormalizeRetryPolicy_def Let_def Millisecond_def)
qed

lemma Normalize_retry_enabled [simp]: "rp_Enabled (NormalizeRetryPolicy cfg) = rp_Enabled cfg"
  by (simp add: NormalizeRetryPolicy_def Let_def)

lemma Normalize_retry_idem: "NormalizeRetryPolicy (NormalizeRetryPolicy cfg) = NormalizeRetryPolicy cfg"
proof (cases "rp_Enabled cfg")
  case True
  note f = Normalize_retry_fields [OF True]
  have "\<not> fle (flit 2) (FFin 0)" by code_simp
  then have "\<not> fle (rp_Multiplier (NormalizeRetryPolicy cfg)) (FFin 0)"
    using True by (simp add: NormalizeRetryPolicy_def Let_def)
  then show ?thesis using f unfolding NormalizeRetryPolicy_def [of "NormalizeRetryPolicy cfg"] by (simp add: Let_def)
qed (simp add: NormalizeRetryPolicy_def)

subsection \<open>What a positive decision means\<close>

lemma DecideRetry_RetryD:
  assumes "rd_Retry (DecideRetry gm policy state jit wall)"
  shows "rp_Enabled policy \<and> rs_CtxErr state = None \<and> rs_Attempt state < rp_MaxAttempts policy
    \<and> isRetryableFailure policy (rs_Failure state)
    \<and> rd_Delay (DecideRetry gm policy state jit wall) = RetryDelay gm policy (rs_Attempt state) jit
    \<and> rd_Reason (DecideRetry gm policy state jit wall) = RetryDecisionRetryableFailure
    \<and> (db_HasDeadline (rs_Budget state) \<longrightarrow>
         wrapInt (RetryDelay gm policy (rs_Attempt state) jit + rp_MinRemainingBudget policy)
           \<le> RemainingAt (rs_Budget state) (case rs_Now state of None \<Rightarrow> wall | Some t \<Rightarrow> t))"
  using assms by (auto simp: DecideRetry_def Let_def split: if_splits)

lemma DecideRetrySafety_AllowD:
  assumes "sd_Allow (DecideRetrySafety check policy)" "rp_Enabled (sc_Retry check)"
  shows "id_Safety (sc_Idempotency check) = RetrySafetySafe
    \<or> id_Safety (sc_Idempotency check) = RetrySafetyUnsafe \<and> id_AllowUnsafeRetry (sc_Idempotency check)
    \<or> id_Safety (sc_Idempotency check) = RetrySafetyRequiresCheck
       \<and> (\<exists>hook d. ip_Hook policy = Some hook \<and> hook check = Some d \<and> sd_Allow d)"
  using assms
  by (auto simp: DecideRetrySafety_def normalizeRetrySafetyHookDecision_def Let_def
      split: if_splits RetrySafety.splits option.splits)

lemma suppressDecision_Suppress [simp]: "sup_Suppress (suppressDecision d r m)"
  by (simp add: suppressDecision_def)

end
