(* ===== verification/Retry_Run.thy ===== *)
theory Retry_Run
  imports Retry_Policy
begin

text \<open>
  The retry loop \<open>runWithRetry\<close> and the decision for pipelines \<open>evaluatePipelineRetry\<close> of \<open>retry_policy.go\<close>, the
  trace types of \<open>retry_trace.go\<close> and \<open>retry_observability.go\<close>, and the counters of \<open>retry_counters.go\<close>.

  What the loop reads from outside (clock, context, handler, jitter, snapshot, sleep) is the record \<open>retryEnv\<close> of functions
  of the attempt number, so a theorem about the loop holds for every environment. What the loop does to the outside is
  its trace: the calls of the handler, the sleeps and the records given to the observer, in order.
\<close>

subsection \<open>Records of a run\<close>

datatype RetryEventKind =
    RetryEventAttemptStarted | RetryEventFailureClassified | RetryEventScheduled | RetryEventSuppressed
  | RetryEventSafetySuppressed | RetryEventDeadlineStopped | RetryEventMaxAttemptsStopped | RetryEventExhausted
  | RetryEventContextCancelled | RetryEventRetryStopped | RetryEventSucceeded | RetryEventEmpty

record retryObsRecord =
  ro_Kind :: RetryEventKind
  ro_Key :: string
  ro_Lane :: string
  ro_ShardID :: int
  ro_Attempt :: int
  ro_Delay :: duration
  ro_Failure :: Failure
  ro_RetryReason :: RetryDecisionReason
  ro_SafetyReason :: RetrySafetyDecisionReason
  ro_SuppressionReason :: RetrySuppressionReason
  ro_IdempotencyScope :: string
  ro_IdempotencyOperation :: string
  ro_Budget :: DeadlineBudget
  ro_Pressure :: Pressure

record RetryAttempt =
  ra_Lane :: string
  ra_Key :: string
  ra_ShardID :: int
  ra_Attempt :: int
  ra_Delay :: duration
  ra_Failure :: Failure
  ra_Reason :: RetryDecisionReason
  ra_IdempotencyKey :: string
  ra_IdempotencyScope :: string
  ra_IdempotencyOperation :: string
  ra_RetrySafety :: RetrySafety
  ra_SafetyReason :: RetrySafetyDecisionReason
  ra_Suppressed :: bool
  ra_SuppressionReason :: RetrySuppressionReason
  ra_PressureRatio :: float64
  ra_LaneDepthRatioSnap :: float64
  ra_ShardDepthRatioSnap :: float64

record RetryFinalState =
  rf_Succeeded :: bool
  rf_Exhausted :: bool
  rf_StoppedReason :: RetryDecisionReason
  rf_SafetyReason :: RetrySafetyDecisionReason
  rf_SuppressionReason :: RetrySuppressionReason
  rf_FailureKind :: FailureKind

definition zeroRetryFinalState :: RetryFinalState where
  "zeroRetryFinalState = \<lparr>rf_Succeeded = False, rf_Exhausted = False, rf_StoppedReason = RetryDecisionEmpty,
     rf_SafetyReason = RetrySafetyDecisionEmpty, rf_SuppressionReason = RetrySuppressionEmpty, rf_FailureKind = FailureEmpty\<rparr>"

record RetryTrace =
  rt_Attempts :: "RetryAttempt list"
  rt_Final :: RetryFinalState

definition HadExplicitUnsafeRetry :: "RetryTrace \<Rightarrow> bool" where
  "HadExplicitUnsafeRetry t = list_ex (\<lambda>a. ra_SafetyReason a = RetrySafetyDecisionExplicitOverride) (rt_Attempts t)"

definition HadSuppression :: "RetryTrace \<Rightarrow> RetrySuppressionReason \<Rightarrow> bool" where
  "HadSuppression t reason = list_ex (\<lambda>a. ra_Suppressed a \<and> ra_SuppressionReason a = reason) (rt_Attempts t)"

definition LastSuppressionReason :: "RetryTrace \<Rightarrow> RetrySuppressionReason option" where
  "LastSuppressionReason t = map_option ra_SuppressionReason (List.find ra_Suppressed (rev (rt_Attempts t)))"

record RetrySuppressionSnapshot =
  snp_Pressure :: Pressure
  snp_LaneDepthRatio :: float64
  snp_ShardDepthRatio :: float64
  snp_ScaleSignal :: ScaleSignal
  snp_LaneClass :: string
  snp_HotKeyCandidate :: bool

definition zeroPressure :: Pressure where
  "zeroPressure = \<lparr>p_TotalDepth = 0, p_TotalCapacity = 0, p_TotalInFlight = 0, p_TotalDepthRatio = FFin 0,
     p_IsHealthy = False, p_IsPressured = False, p_IsOverloaded = False\<rparr>"

definition zeroSnapshot :: RetrySuppressionSnapshot where
  "zeroSnapshot = \<lparr>snp_Pressure = zeroPressure, snp_LaneDepthRatio = FFin 0, snp_ShardDepthRatio = FFin 0,
     snp_ScaleSignal = zeroScaleSignal, snp_LaneClass = '''', snp_HotKeyCandidate = False\<rparr>"

text \<open>\<open>op_Snapshot\<close> and \<open>op_Observer\<close> say whether the function is set.\<close>

record runWithRetryOpts =
  op_Key :: string
  op_Lane :: string
  op_ShardID :: int
  op_Idempotency :: Idempotency
  op_IdempotencyPolicy :: IdempotencyPolicy
  op_SuppressionPolicy :: RetrySuppressionPolicy
  op_Snapshot :: bool
  op_Observer :: bool

datatype retryEffect = CallRun int DeadlineBudget | SleepFor int duration | Observe retryObsRecord

definition observeRetry :: "runWithRetryOpts \<Rightarrow> retryObsRecord \<Rightarrow> retryEffect list" where
  "observeRetry opts rec = (if op_Observer opts then [Observe rec] else [])"

definition retryObsMeta :: "runWithRetryOpts \<Rightarrow> int \<Rightarrow> Failure \<Rightarrow> DeadlineBudget \<Rightarrow> retryObsRecord" where
  "retryObsMeta opts attempt failure budget =
     \<lparr>ro_Kind = RetryEventEmpty, ro_Key = op_Key opts, ro_Lane = op_Lane opts, ro_ShardID = op_ShardID opts,
      ro_Attempt = attempt, ro_Delay = 0, ro_Failure = failure, ro_RetryReason = RetryDecisionEmpty,
      ro_SafetyReason = RetrySafetyDecisionEmpty, ro_SuppressionReason = RetrySuppressionEmpty,
      ro_IdempotencyScope = id_Scope (op_Idempotency opts), ro_IdempotencyOperation = id_Operation (op_Idempotency opts),
      ro_Budget = budget, ro_Pressure = zeroPressure\<rparr>"

definition finalStateFromFailure ::
  "Failure \<Rightarrow> bool \<Rightarrow> RetryDecisionReason \<Rightarrow> RetrySafetyDecisionReason \<Rightarrow> RetrySuppressionReason \<Rightarrow> RetryFinalState" where
  "finalStateFromFailure failure exhausted stopped safety suppress =
     \<lparr>rf_Succeeded = False, rf_Exhausted = exhausted, rf_StoppedReason = stopped, rf_SafetyReason = safety,
      rf_SuppressionReason = suppress,
      rf_FailureKind = (if f_Kind failure = FailureEmpty then FailureUnknown else f_Kind failure)\<rparr>"

definition retryTerminalExhausted :: "RetryDecisionReason \<Rightarrow> bool" where
  "retryTerminalExhausted reason \<longleftrightarrow> reason = RetryDecisionMaxAttempts"

definition observeRetryTerminalStop ::
  "runWithRetryOpts \<Rightarrow> retryObsRecord \<Rightarrow> RetryDecisionReason \<Rightarrow> retryEffect list" where
  "observeRetryTerminalStop opts rec0 reason =
     (let rec = rec0\<lparr>ro_RetryReason := reason\<rparr>; obs = (\<lambda>k. observeRetry opts (rec\<lparr>ro_Kind := k\<rparr>))
      in case reason of
           RetryDecisionMaxAttempts \<Rightarrow> obs RetryEventMaxAttemptsStopped @ obs RetryEventExhausted
         | RetryDecisionDeadlineExhausted \<Rightarrow> obs RetryEventDeadlineStopped
         | RetryDecisionBudgetTooSmall \<Rightarrow> obs RetryEventDeadlineStopped
         | RetryDecisionContextCancelled \<Rightarrow> obs RetryEventContextCancelled
         | RetryDecisionPermanentFailure \<Rightarrow> obs RetryEventRetryStopped
         | RetryDecisionDisabled \<Rightarrow> obs RetryEventRetryStopped
         | _ \<Rightarrow> [])"

definition failureAsError :: "Failure \<Rightarrow> goerror option" where
  "failureAsError f = (if f_Kind f = FailureNone then None else Some (EFailure f))"

definition retryHandlerError :: "goerror option \<Rightarrow> Failure \<Rightarrow> goerror option" where
  "retryHandlerError lastErr lastFailure =
     (case lastErr of
        None \<Rightarrow> failureAsError lastFailure
      | Some e \<Rightarrow> if AsStageFailure e \<noteq> None then lastErr else failureAsError lastFailure)"

subsection \<open>The literals that the loop and the pipeline share\<close>

definition safetyCheck ::
  "runWithRetryOpts \<Rightarrow> int \<Rightarrow> Failure \<Rightarrow> RetryPolicy \<Rightarrow> DeadlineBudget \<Rightarrow> RetrySafetyCheck" where
  "safetyCheck opts attempt failure policy budget =
     \<lparr>sc_Key = op_Key opts, sc_Lane = op_Lane opts, sc_ShardID = op_ShardID opts, sc_Attempt = attempt,
      sc_Failure = failure, sc_Retry = policy, sc_Idempotency = op_Idempotency opts, sc_Budget = budget\<rparr>"

definition suppressionCheck ::
  "runWithRetryOpts \<Rightarrow> int \<Rightarrow> Failure \<Rightarrow> RetryPolicy \<Rightarrow> DeadlineBudget \<Rightarrow> RetrySuppressionSnapshot \<Rightarrow>
   RetrySuppressionCheck" where
  "suppressionCheck opts attempt failure policy budget snap =
     \<lparr>suc_Key = op_Key opts, suc_Lane = op_Lane opts, suc_ShardID = op_ShardID opts, suc_Attempt = attempt,
      suc_Failure = failure, suc_Retry = policy, suc_Budget = budget, suc_Pressure = snp_Pressure snap,
      suc_LaneDepthRatio = snp_LaneDepthRatio snap, suc_ShardDepthRatio = snp_ShardDepthRatio snap,
      suc_ScaleSignal = snp_ScaleSignal snap, suc_Idempotency = op_Idempotency opts, suc_LaneClass = snp_LaneClass snap,
      suc_HotKeyCandidate = snp_HotKeyCandidate snap\<rparr>"

definition attemptRecord ::
  "runWithRetryOpts \<Rightarrow> int \<Rightarrow> RetryDecision \<Rightarrow> Failure \<Rightarrow> RetrySafetyDecisionReason \<Rightarrow> RetryAttempt" where
  "attemptRecord opts attempt decision failure safetyReason =
     \<lparr>ra_Lane = op_Lane opts, ra_Key = op_Key opts, ra_ShardID = op_ShardID opts, ra_Attempt = attempt,
      ra_Delay = rd_Delay decision, ra_Failure = failure, ra_Reason = rd_Reason decision,
      ra_IdempotencyKey = id_Key (op_Idempotency opts), ra_IdempotencyScope = id_Scope (op_Idempotency opts),
      ra_IdempotencyOperation = id_Operation (op_Idempotency opts), ra_RetrySafety = id_Safety (op_Idempotency opts),
      ra_SafetyReason = safetyReason, ra_Suppressed = False, ra_SuppressionReason = RetrySuppressionEmpty,
      ra_PressureRatio = FFin 0, ra_LaneDepthRatioSnap = FFin 0, ra_ShardDepthRatioSnap = FFin 0\<rparr>"

definition markSuppression :: "RetrySuppressionDecision \<Rightarrow> RetrySuppressionSnapshot \<Rightarrow> RetryAttempt \<Rightarrow> RetryAttempt" where
  "markSuppression suppress snap a =
     a\<lparr>ra_Suppressed := sup_Suppress suppress, ra_SuppressionReason := sup_Reason suppress,
       ra_PressureRatio := p_TotalDepthRatio (snp_Pressure snap), ra_LaneDepthRatioSnap := snp_LaneDepthRatio snap,
       ra_ShardDepthRatioSnap := snp_ShardDepthRatio snap\<rparr>"

subsection \<open>The retry loop\<close>

text \<open>
  The readings of one attempt: the clock and the context at its start (\<open>en_wall\<close> is the wall clock that the
  classification of a context error reads), the handler, the clock twice after it, the context as \<open>DecideRetry\<close> sees it,
  the jitter, the snapshot, and the result of the sleep with the wall clock after it.
\<close>

record 'a retryEnv =
  en_now :: "int \<Rightarrow> time"
  en_ctx :: "int \<Rightarrow> goerror option"
  en_wall :: "int \<Rightarrow> time"
  en_run :: "int \<Rightarrow> DeadlineBudget \<Rightarrow> 'a \<times> goerror option"
  en_end :: "int \<Rightarrow> time"
  en_end2 :: "int \<Rightarrow> time"
  en_ctxAfter :: "int \<Rightarrow> goerror option"
  en_jitter :: "int \<Rightarrow> float64"
  en_snapshot :: "int \<Rightarrow> RetrySuppressionSnapshot"
  en_sleep :: "int \<Rightarrow> duration \<Rightarrow> goerror option"
  en_wallSleep :: "int \<Rightarrow> time"

record 'a runWithRetryResult =
  rr_val :: 'a
  rr_err :: "goerror option"
  rr_budget :: DeadlineBudget
  rr_beforeHandler :: bool
  rr_retryAttempts :: "RetryAttempt list"
  rr_retryFinal :: RetryFinalState
  rr_retryTracked :: bool

text \<open>One iteration either returns or continues with the budget, the attempts and the last error; in both cases it
  gives its effects.\<close>

datatype 'a retryStep = RetryReturn "'a runWithRetryResult" | RetryNext DeadlineBudget "RetryAttempt list" "goerror option"

definition retryResult ::
  "'a \<Rightarrow> goerror option \<Rightarrow> DeadlineBudget \<Rightarrow> bool \<Rightarrow> RetryAttempt list \<Rightarrow> RetryFinalState \<Rightarrow> 'a runWithRetryResult" where
  "retryResult val err budget beforeHandler attempts final =
     \<lparr>rr_val = val, rr_err = err, rr_budget = budget, rr_beforeHandler = beforeHandler, rr_retryAttempts = attempts,
      rr_retryFinal = final, rr_retryTracked = True\<rparr>"

text \<open>The budget at the start of an attempt: the start budget refreshed, with the runtime used so far.\<close>

definition attemptBudget :: "DeadlineBudget \<Rightarrow> DeadlineBudget \<Rightarrow> time \<Rightarrow> DeadlineBudget" where
  "attemptBudget startBudget budget now =
     (let runtimeSoFar = db_Runtime budget; b = refreshAt startBudget now
      in if runtimeSoFar > 0 then WithRuntimeAt b runtimeSoFar now else b)"

text \<open>From a positive decision on: duplicate safety, suppression, sleep.\<close>

definition retryGates ::
  "'a \<Rightarrow> runWithRetryOpts \<Rightarrow> RetryPolicy \<Rightarrow> 'a retryEnv \<Rightarrow> int \<Rightarrow> goerror option \<Rightarrow> Failure \<Rightarrow> DeadlineBudget \<Rightarrow>
   RetryDecision \<Rightarrow> RetryAttempt list \<Rightarrow> 'a retryStep \<times> retryEffect list" where
  "retryGates zero opts policy env attempt lastErr lastFailure budget decision attempts0 =
     (let rec = (retryObsMeta opts attempt lastFailure budget);
          safety = DecideRetrySafety (safetyCheck opts attempt lastFailure policy budget) (op_IdempotencyPolicy opts);
          attempts = attempts0 @ [attemptRecord opts attempt decision lastFailure (sd_Reason safety)];
          handlerErr = retryHandlerError lastErr lastFailure
      in if \<not> sd_Allow safety
         then (RetryReturn (retryResult zero handlerErr budget False attempts
                 (finalStateFromFailure lastFailure False (rd_Reason decision) (sd_Reason safety) RetrySuppressionEmpty)),
               observeRetry opts (rec\<lparr>ro_Kind := RetryEventSafetySuppressed, ro_RetryReason := rd_Reason decision,
                                      ro_SafetyReason := sd_Reason safety\<rparr>))
         else
           (let snap = (if op_Snapshot opts then en_snapshot env attempt else zeroSnapshot);
                suppress = DecideRetrySuppression (op_SuppressionPolicy opts)
                             (suppressionCheck opts attempt lastFailure policy budget snap);
                attempts' = attempts[length attempts - 1 := markSuppression suppress snap (last attempts)]
            in if sup_Suppress suppress
               then (RetryReturn (retryResult zero handlerErr budget False attempts'
                       (finalStateFromFailure lastFailure False (rd_Reason decision) (sd_Reason safety) (sup_Reason suppress))),
                     observeRetry opts (rec\<lparr>ro_Kind := RetryEventSuppressed, ro_RetryReason := rd_Reason decision,
                       ro_SafetyReason := sd_Reason safety, ro_SuppressionReason := sup_Reason suppress,
                       ro_Pressure := snp_Pressure snap, ro_Delay := rd_Delay decision\<rparr>))
               else
                 (let scheduled = observeRetry opts (rec\<lparr>ro_Kind := RetryEventScheduled, ro_RetryReason := rd_Reason decision,
                        ro_SafetyReason := sd_Reason safety, ro_Delay := rd_Delay decision, ro_Pressure := snp_Pressure snap\<rparr>);
                      slept = scheduled @ [SleepFor attempt (rd_Delay decision)];
                      sleepErr = en_sleep env attempt (rd_Delay decision)
                  in if sleepErr \<noteq> None
                     then
                       (let fail = ClassifyContextError sleepErr budget True (en_wallSleep env attempt);
                            rec' = retryObsMeta opts attempt fail budget
                        in (RetryReturn (retryResult zero sleepErr budget True attempts'
                              (finalStateFromFailure fail False RetryDecisionContextCancelled (sd_Reason safety)
                                 RetrySuppressionEmpty)),
                            slept @ observeRetry opts (rec'\<lparr>ro_Kind := RetryEventFailureClassified\<rparr>)
                              @ observeRetryTerminalStop opts (rec'\<lparr>ro_Kind := RetryEventFailureClassified\<rparr>)
                                  RetryDecisionContextCancelled))
                     else (RetryNext budget attempts' lastErr, slept))))"

text \<open>After the handler returned: success, unclassifiable errors, the decision.\<close>

definition retryAfterRun ::
  "goMath \<Rightarrow> 'a \<Rightarrow> FailurePolicy \<Rightarrow> runWithRetryOpts \<Rightarrow> RetryPolicy \<Rightarrow> 'a retryEnv \<Rightarrow> int \<Rightarrow> 'a \<Rightarrow> goerror option \<Rightarrow>
   DeadlineBudget \<Rightarrow> RetryAttempt list \<Rightarrow> 'a retryStep \<times> retryEffect list" where
  "retryAfterRun gm zero failurePolicy opts policy env attempt val err budget attempts =
     (if err = None
      then (RetryReturn (retryResult val None budget False attempts (zeroRetryFinalState\<lparr>rf_Succeeded := True\<rparr>)),
            observeRetry opts ((retryObsMeta opts attempt zeroFailure budget)\<lparr>ro_Kind := RetryEventSucceeded\<rparr>))
      else
        (let lastFailure = classifyFailureWithPolicy err failurePolicy
         in if f_Kind lastFailure = FailureNone
            then (RetryReturn (retryResult val err budget False attempts zeroRetryFinalState), [])
            else
              (let rec = (retryObsMeta opts attempt lastFailure budget)\<lparr>ro_Kind := RetryEventFailureClassified\<rparr>;
                   classified = observeRetry opts rec;
                   decision = DecideRetry gm policy
                     \<lparr>rs_CtxErr = en_ctxAfter env attempt, rs_Attempt = attempt, rs_Failure = lastFailure,
                      rs_Budget = budget, rs_Now = Some (en_now env attempt)\<rparr> (en_jitter env attempt) (en_wall env attempt)
               in if \<not> rd_Retry decision
                  then (RetryReturn (retryResult zero (retryHandlerError err lastFailure) budget False attempts
                          (finalStateFromFailure lastFailure (retryTerminalExhausted (rd_Reason decision))
                             (rd_Reason decision) RetrySafetyDecisionEmpty RetrySuppressionEmpty)),
                        classified @ observeRetryTerminalStop opts rec (rd_Reason decision))
                  else
                    (let (st, effs) = retryGates zero opts policy env attempt err lastFailure budget decision attempts
                     in (st, classified @ effs)))))"

definition retryIteration ::
  "goMath \<Rightarrow> 'a \<Rightarrow> FailurePolicy \<Rightarrow> runWithRetryOpts \<Rightarrow> RetryPolicy \<Rightarrow> DeadlineBudget \<Rightarrow> 'a retryEnv \<Rightarrow> int \<Rightarrow>
   DeadlineBudget \<Rightarrow> RetryAttempt list \<Rightarrow> 'a retryStep \<times> retryEffect list" where
  "retryIteration gm zero failurePolicy opts policy startBudget env attempt budget0 attempts =
     (let now = en_now env attempt; budget = attemptBudget startBudget budget0 now
      in if en_ctx env attempt \<noteq> None
         then
           (let err = en_ctx env attempt; fail = ClassifyContextError err budget True (en_wall env attempt);
                rec = (retryObsMeta opts attempt fail budget)\<lparr>ro_Kind := RetryEventFailureClassified\<rparr>
            in (RetryReturn (retryResult zero err budget True attempts
                  (finalStateFromFailure fail False RetryDecisionContextCancelled RetrySafetyDecisionEmpty
                     RetrySuppressionEmpty)),
                observeRetry opts rec @ observeRetryTerminalStop opts rec RetryDecisionContextCancelled))
         else
           (let started = observeRetry opts ((retryObsMeta opts attempt zeroFailure budget)\<lparr>ro_Kind := RetryEventAttemptStarted\<rparr>);
                (val, err) = en_run env attempt budget;
                attemptRuntime = timeSub (en_end env attempt) now;
                totalRuntime = wrapInt (db_Runtime budget + attemptRuntime);
                budget' = WithRuntimeAt budget totalRuntime (en_end2 env attempt);
                (st, effs) = retryAfterRun gm zero failurePolicy opts policy env attempt val err budget' attempts
            in (st, started @ [CallRun attempt budget] @ effs)))"

text \<open>The \<open>for\<close> loop from \<open>attempt\<close> on. A loop that is left at its head returns the zero value and no budget.\<close>

definition zeroBudget :: DeadlineBudget where
  "zeroBudget = \<lparr>db_StartedAt = 0, db_Deadline = 0, db_HasDeadline = False, db_QueueWait = 0, db_Runtime = 0,
     db_Remaining = 0, db_Exhausted = False\<rparr>"

function retryLoop ::
  "goMath \<Rightarrow> 'a \<Rightarrow> FailurePolicy \<Rightarrow> runWithRetryOpts \<Rightarrow> RetryPolicy \<Rightarrow> DeadlineBudget \<Rightarrow> 'a retryEnv \<Rightarrow> int \<Rightarrow>
   DeadlineBudget \<Rightarrow> RetryAttempt list \<Rightarrow> goerror option \<Rightarrow> 'a runWithRetryResult \<times> retryEffect list" where
  "retryLoop gm zero failurePolicy opts policy startBudget env attempt budget attempts lastErr =
     (if attempt \<le> rp_MaxAttempts policy
      then
        (let (st, effs) = retryIteration gm zero failurePolicy opts policy startBudget env attempt budget attempts
         in case st of
              RetryReturn r \<Rightarrow> (r, effs)
            | RetryNext budget' attempts' lastErr' \<Rightarrow>
                (let (r, effs') = retryLoop gm zero failurePolicy opts policy startBudget env (attempt + 1) budget' attempts' lastErr'
                 in (r, effs @ effs')))
      else (retryResult zero lastErr zeroBudget False attempts zeroRetryFinalState, []))"
  by pat_completeness auto

termination
  by (relation "measure (\<lambda>(gm, zero, failurePolicy, opts, policy, startBudget, env, attempt, b, as, e).
        nat (rp_MaxAttempts policy + 1 - attempt))") auto

declare retryLoop.simps [simp del]

definition runWithRetry ::
  "goMath \<Rightarrow> 'a \<Rightarrow> FailurePolicy \<Rightarrow> RetryPolicy \<Rightarrow> runWithRetryOpts \<Rightarrow> DeadlineBudget \<Rightarrow> 'a retryEnv \<Rightarrow>
   'a runWithRetryResult \<times> retryEffect list" where
  "runWithRetry gm zero failurePolicy retryPolicy opts startBudget env =
     retryLoop gm zero failurePolicy opts (NormalizeRetryPolicy retryPolicy) startBudget env 1 startBudget [] None"

subsection \<open>Pipelines\<close>

record pipelineRetryEvaluation =
  pe_ScheduleRetry :: bool
  pe_Delay :: duration
  pe_Failure :: Failure
  pe_TerminalFinal :: RetryFinalState

text \<open>\<open>attempts\<close> is the slice behind the pointer \<open>retryAttempts\<close>, \<open>None\<close> for a nil pointer.\<close>

definition evaluatePipelineRetry ::
  "goMath \<Rightarrow> FailurePolicy \<Rightarrow> RetryPolicy \<Rightarrow> runWithRetryOpts \<Rightarrow> int \<Rightarrow> goerror option \<Rightarrow> DeadlineBudget \<Rightarrow>
   RetryAttempt list option \<Rightarrow> float64 \<Rightarrow> goerror option \<Rightarrow> time \<Rightarrow> time \<Rightarrow> RetrySuppressionSnapshot \<Rightarrow>
   pipelineRetryEvaluation \<times> RetryAttempt list option \<times> retryEffect list" where
  "evaluatePipelineRetry gm failurePolicy retryPolicy opts attempt handlerErr budget attempts jit ctxErr now wall snapshot =
     (let lastFailure = classifyCompletionFailure handlerErr failurePolicy budget False wall;
          eval = \<lparr>pe_ScheduleRetry = False, pe_Delay = 0, pe_Failure = lastFailure, pe_TerminalFinal = zeroRetryFinalState\<rparr>;
          policy = NormalizeRetryPolicy retryPolicy
      in if \<not> rp_Enabled policy
         then (eval\<lparr>pe_TerminalFinal := finalStateFromFailure lastFailure False RetryDecisionDisabled
                      RetrySafetyDecisionEmpty RetrySuppressionEmpty\<rparr>, attempts, [])
         else if attempt \<ge> rp_MaxAttempts policy
         then (eval\<lparr>pe_TerminalFinal := finalStateFromFailure lastFailure True RetryDecisionMaxAttempts
                      RetrySafetyDecisionEmpty RetrySuppressionEmpty\<rparr>, attempts,
               observeRetryTerminalStop opts (retryObsMeta opts attempt lastFailure budget) RetryDecisionMaxAttempts)
         else
           (let decision = DecideRetry gm policy \<lparr>rs_CtxErr = ctxErr, rs_Attempt = attempt, rs_Failure = lastFailure,
                  rs_Budget = budget, rs_Now = Some now\<rparr> jit wall;
                rec = (retryObsMeta opts attempt lastFailure budget)\<lparr>ro_Kind := RetryEventFailureClassified\<rparr>;
                classified = observeRetry opts rec
            in if \<not> rd_Retry decision
               then (eval\<lparr>pe_TerminalFinal := finalStateFromFailure lastFailure (retryTerminalExhausted (rd_Reason decision))
                            (rd_Reason decision) RetrySafetyDecisionEmpty RetrySuppressionEmpty\<rparr>, attempts,
                     classified @ observeRetryTerminalStop opts rec (rd_Reason decision))
               else
                 (let safety = DecideRetrySafety (safetyCheck opts attempt lastFailure policy budget)
                                 (op_IdempotencyPolicy opts);
                      ra = attemptRecord opts attempt decision lastFailure (sd_Reason safety);
                      attempts1 = map_option (\<lambda>as. as @ [ra]) attempts
                  in if \<not> sd_Allow safety
                     then (eval\<lparr>pe_TerminalFinal := finalStateFromFailure lastFailure False (rd_Reason decision)
                                  (sd_Reason safety) RetrySuppressionEmpty\<rparr>, attempts1,
                           classified @ observeRetry opts (rec\<lparr>ro_Kind := RetryEventSafetySuppressed,
                             ro_RetryReason := rd_Reason decision, ro_SafetyReason := sd_Reason safety\<rparr>))
                     else
                       (let snap = (if op_Snapshot opts then snapshot else zeroSnapshot);
                            suppress = DecideRetrySuppression (op_SuppressionPolicy opts)
                                         (suppressionCheck opts attempt lastFailure policy budget snap);
                            attempts2 = map_option (\<lambda>as. as[length as - 1 := markSuppression suppress snap (last as)]) attempts1
                        in if sup_Suppress suppress
                           then (eval\<lparr>pe_TerminalFinal := finalStateFromFailure lastFailure False (rd_Reason decision)
                                        (sd_Reason safety) (sup_Reason suppress)\<rparr>, attempts2,
                                 classified @ observeRetry opts (rec\<lparr>ro_Kind := RetryEventSuppressed,
                                   ro_RetryReason := rd_Reason decision, ro_SafetyReason := sd_Reason safety,
                                   ro_SuppressionReason := sup_Reason suppress, ro_Pressure := snp_Pressure snap,
                                   ro_Delay := rd_Delay decision\<rparr>))
                           else (eval\<lparr>pe_ScheduleRetry := True, pe_Delay := rd_Delay decision\<rparr>, attempts2,
                                 classified @ observeRetry opts (rec\<lparr>ro_Kind := RetryEventScheduled,
                                   ro_RetryReason := rd_Reason decision, ro_SafetyReason := sd_Reason safety,
                                   ro_Delay := rd_Delay decision, ro_Pressure := snp_Pressure snap\<rparr>))))))"

end
