(* ===== verification/Go_Float_Exact.thy ===== *)
theory Go_Float_Exact
  imports Go_Float
begin

text \<open>
  Values that a \<open>float64\<close> represents exactly: a product of at most 53 bits and a power of two. Rounding keeps them and
  produces only them, so bounds by representable values survive every operation; and conversions from and to integers of
  at most 53 bits are exact.
\<close>

definition representable :: "rat \<Rightarrow> bool" where
  "representable x \<longleftrightarrow> (\<exists>n e. \<bar>n\<bar> \<le> 2 ^ 53 \<and> -1074 \<le> e \<and> x = of_int n * pow2 e)"

lemma representable_minus: "representable x \<Longrightarrow> representable (- x)"
  unfolding representable_def by (metis abs_minus_cancel mult_minus_left of_int_minus)

lemma representable_int: "\<bar>n\<bar> \<le> 2 ^ 53 \<Longrightarrow> representable (of_int n)"
  unfolding representable_def by (intro exI [of _ n] exI [of _ 0]) (simp add: pow2_def)

lemma pow2_diff: "pow2 a / pow2 b = pow2 (a - b)"
  using pow2_add [of "a - b" b] less_imp_neq [OF pow2_pos [of b]] by (simp add: field_simps)

lemma pow2_int: "0 \<le> e \<Longrightarrow> pow2 e = of_int (2 ^ nat e)"
  by (simp add: pow2_def)

lemma roundPos_int_multiple: "x / pow2 (ulpExp x) = of_int m \<Longrightarrow> roundPos x = x"
proof -
  assume m: "x / pow2 (ulpExp x) = of_int m"
  have "roundPos x = x / pow2 (ulpExp x) * pow2 (ulpExp x)" unfolding roundPos_def m rne_of_int ..
  then show "roundPos x = x" using less_imp_neq [OF pow2_pos [of "ulpExp x"]] by simp
qed

lemma roundPos_exact:
  assumes "0 < n" "n \<le> 2 ^ 53" "-1074 \<le> e" "x = of_int n * pow2 e"
  shows "roundPos x = x"
proof (cases "ulpExp x \<le> e")
  case True
  have "x / pow2 (ulpExp x) = of_int n * (pow2 e / pow2 (ulpExp x))" by (simp add: assms(4))
  also have "\<dots> = of_int (n * 2 ^ nat (e - ulpExp x))" using True by (simp add: pow2_diff pow2_int)
  finally show ?thesis by (rule roundPos_int_multiple)
next
  case False
  have pos: "0 < x" using assms(1,4) by simp
  have u: "ulpExp x = ilog2 x - 52" "e + 53 \<le> ilog2 x" using False assms(3) by (auto simp: ulpExp_def max_def split: if_splits)
  then have "pow2 (e + 53) \<le> x" using pow2_le_iff_ilog2 [OF pos] by blast
  moreover have "x \<le> pow2 (e + 53)"
  proof -
    have "(of_int n :: rat) \<le> 2 ^ 53" using assms(2) by (metis of_int_le_iff of_int_numeral of_int_power)
    then have "of_int n * pow2 e \<le> 2 ^ 53 * pow2 e" using less_imp_le [OF pow2_pos [of e]] by (rule mult_right_mono)
    also have "\<dots> = pow2 (e + 53)" using pow2_add [of e 53] by (simp add: pow2_def [of 53])
    finally show ?thesis by (simp add: assms(4))
  qed
  ultimately have x: "x = pow2 (e + 53)" by simp
  then have "ilog2 x = e + 53" using pow2_le_iff_ilog2 [OF pos, of "ilog2 x"] u(2) by simp
  then have "x / pow2 (ulpExp x) = of_int (2 ^ 52)" using u(1) by (simp add: x pow2_diff pow2_int del: of_int_power)
  then show ?thesis by (rule roundPos_int_multiple)
qed

lemma fround_exact:
  assumes "representable x" "\<bar>x\<bar> < pow2 1024"
  shows "fround x = FFin x"
proof -
  obtain n e where n: "\<bar>n\<bar> \<le> 2 ^ 53" "-1074 \<le> e" "x = of_int n * pow2 e" using assms(1) by (auto simp: representable_def)
  consider "x = 0" | "0 < x" | "x < 0" by linarith
  then show ?thesis
  proof cases
    case 2
    then have "0 < n" using n(3) pow2_pos [of e] by (simp add: zero_less_mult_iff)
    then have "roundPos x = x" using n by (intro roundPos_exact [OF _ _ n(2,3)]) auto
    then show ?thesis using 2 assms(2) by (simp add: fround_def)
  next
    case 3
    then have "n < 0" using n(3) pow2_pos [of e] by (simp add: mult_less_0_iff)
    then have "roundPos (- x) = - x" using n by (intro roundPos_exact [of "- n" e]) auto
    then show ?thesis using 3 assms(2) by (simp add: fround_def)
  qed simp
qed

lemma roundPos_representable:
  assumes "0 < x"
  shows "representable (roundPos x)"
proof -
  let ?u = "ulpExp x"
  have "x < pow2 (ilog2 x + 1)" using pow2_le_iff_ilog2 [OF assms, of "ilog2 x + 1"] by simp
  also have "\<dots> \<le> pow2 (?u + 53)" by (simp add: ulpExp_def)
  finally have "x / pow2 ?u \<le> pow2 53" using pow2_add [of ?u 53] pow2_pos [of ?u] by (simp add: field_simps)
  then have "x / pow2 ?u \<le> of_int (2 ^ 53)" by (simp add: pow2_def)
  then have "rne (x / pow2 ?u) \<le> 2 ^ 53" by (rule rne_le_int)
  moreover have "0 \<le> rne (x / pow2 ?u)" using rne_ge_int [of 0 "x / pow2 ?u"] assms pow2_pos [of ?u] by simp
  ultimately show ?thesis
    unfolding representable_def roundPos_def
    by (intro exI [of _ "rne (x / pow2 ?u)"] exI [of _ ?u]) (simp add: ulpExp_def)
qed

lemma fround_representable: "fround x = FFin r \<Longrightarrow> representable r"
  using roundPos_representable [of x] roundPos_representable [of "- x"] representable_minus [of "roundPos (- x)"]
    representable_int [of 0]
  by (auto simp: fround_def Let_def split: if_splits)

text \<open>A bound by a representable value survives rounding.\<close>

lemma fround_bounded:
  assumes "representable y" "y < pow2 1024" "\<bar>x\<bar> \<le> y"
  shows "\<exists>r. fround x = FFin r \<and> \<bar>r\<bar> \<le> y \<and> representable r"
proof -
  have "0 \<le> y" using assms(3) by linarith
  then have f: "fround y = FFin y" "fround (- y) = FFin (- y)"
    using assms(1,2) fround_exact representable_minus by simp_all
  have "fle (FFin (- y)) (fround x)" "fle (fround x) (FFin y)"
    using fround_mono [of "- y" x] fround_mono [of x y] f assms(3) by (simp_all add: abs_le_iff)
  then have "\<exists>r. fround x = FFin r \<and> \<bar>r\<bar> \<le> y" by (cases "fround x") auto
  then show ?thesis using fround_representable by blast
qed

lemma fround_between:
  assumes "representable a" "representable b" "\<bar>a\<bar> < pow2 1024" "\<bar>b\<bar> < pow2 1024" "a \<le> x" "x \<le> b"
  shows "\<exists>r. fround x = FFin r \<and> a \<le> r \<and> r \<le> b"
proof -
  have "fle (FFin a) (fround x)" "fle (fround x) (FFin b)"
    using fround_mono [OF assms(5)] fround_mono [OF assms(6)] fround_exact assms by simp_all
  then show ?thesis by (cases "fround x") auto
qed

lemma small_lt: "x \<le> 2 ^ 64 \<Longrightarrow> x < pow2 1024"
proof -
  have "(2 :: rat) ^ 64 < 2 ^ 1024" by (rule power_strict_increasing) simp_all
  then show "x \<le> 2 ^ 64 \<Longrightarrow> x < pow2 1024" by (simp add: pow2_def)
qed

lemma float64_of_int_exact: "\<bar>n\<bar> \<le> 2 ^ 53 \<Longrightarrow> float64_of_int n = FFin (of_int n)"
proof -
  assume n: "\<bar>n\<bar> \<le> 2 ^ 53"
  then have "\<bar>of_int n :: rat\<bar> \<le> 2 ^ 53" by (metis of_int_abs of_int_le_iff of_int_numeral of_int_power)
  then have "\<bar>of_int n :: rat\<bar> < pow2 1024" by (intro small_lt) simp
  then show ?thesis unfolding float64_of_int_def by (intro fround_exact representable_int n)
qed

text \<open>Every 64-bit integer converts to a finite value of the same sign and magnitude at most \<open>2 ^ 63\<close>.\<close>

lemma representable_pow2: "-1074 \<le> e \<Longrightarrow> representable (pow2 e)"
  unfolding representable_def by (intro exI [of _ 1] exI [of _ e]) simp

lemma float64_of_int64:
  assumes "- (2 ^ 63) \<le> n" "n < 2 ^ 63"
  shows "\<exists>r. float64_of_int n = FFin r \<and> \<bar>r\<bar> \<le> 2 ^ 63 \<and> representable r \<and> (n \<le> 0 \<longrightarrow> r \<le> 0)"
proof -
  have p: "pow2 63 = 2 ^ 63" by (simp add: pow2_def)
  have "\<bar>n\<bar> \<le> 2 ^ 63" using assms by auto
  then have "\<bar>of_int n :: rat\<bar> \<le> 2 ^ 63" by (metis of_int_abs of_int_le_iff of_int_numeral of_int_power)
  then obtain r where r: "fround (of_int n) = FFin r" "\<bar>r\<bar> \<le> 2 ^ 63" "representable r"
    using fround_bounded [of "2 ^ 63" "of_int n"] representable_pow2 [of 63] small_lt [of "2 ^ 63"] unfolding p by auto
  moreover have "n \<le> 0 \<Longrightarrow> r \<le> 0" using fround_mono [of "of_int n" 0] r(1) by simp
  ultimately show ?thesis by (auto simp: float64_of_int_def)
qed

lemma int64_of_float_exact: "- (2 ^ 63) \<le> n \<Longrightarrow> n < 2 ^ 63 \<Longrightarrow> int64_of_float cv (FFin (of_int n)) = n"
  by (simp add: int64_of_float_def truncRat_def)

lemma int64_of_float_le:
  assumes "0 \<le> r" "r \<le> of_int n" "n < 2 ^ 63"
  shows "int64_of_float cv (FFin r) \<le> n \<and> 0 \<le> int64_of_float cv (FFin r)"
proof -
  have "truncRat r \<le> n" "0 \<le> truncRat r" using assms(1,2) by (simp_all add: truncRat_def floor_le_iff le_floor_iff)
  then show ?thesis using assms(3) by (simp add: int64_of_float_def Let_def)
qed

lemma int64_of_float_range: "- (2 ^ 63) \<le> int64_of_float cv x" "int64_of_float cv x < 2 ^ 63"
  using sint_range_size [of "cv x"] by (auto simp: int64_of_float_def word_size Let_def split: float64.splits)

subsection \<open>Ratios\<close>

text \<open>A ratio between 0 and 1.\<close>

definition unitRatio :: "float64 \<Rightarrow> bool" where
  "unitRatio x \<longleftrightarrow> fle (FFin 0) x \<and> fle x (FFin 1)"

lemma unitRatio_zero [simp]: "unitRatio (FFin 0)"
  by (simp add: unitRatio_def)

lemma unitRatio_not_NaN: "unitRatio x \<Longrightarrow> \<not> isNaN x"
  by (auto simp: unitRatio_def isNaN_def)

lemma fround_nonneg: "0 \<le> x \<Longrightarrow> fle (FFin 0) (fround x)"
  using fround_nonneg_cases [of x] by auto

lemma fdiv_nonneg:
  assumes "0 \<le> a" "\<not> isNaN d" "\<not> fle d (FFin 0)"
  shows "fle (FFin 0) (fdiv (FFin a) d)"
  using assms by (cases d) (auto simp: isNaN_def fround_nonneg)

lemma float64_of_int_pos:
  assumes "0 < n" shows "float64_of_int n = FPosInf \<or> (\<exists>r \<ge> 1. float64_of_int n = FFin r)"
proof -
  have "(1 :: rat) \<le> of_int n" using assms by simp
  from fround_mono [OF this] have "fle (FFin 1) (fround (of_int n))" by (simp only: fround_one)
  then show ?thesis by (cases "fround (of_int n)") (auto simp: float64_of_int_def)
qed

end
