(* ===== verification/Retry_Facts.thy ===== *)
theory Retry_Facts
  imports Retry_Run Go_Float_Exact
begin

text \<open>
  Properties of the retry engine: how often the handler is called, what has to hold before it is called again, how long
  the backoff can be, and that the pipelines' decision agrees with the loop's.
\<close>

subsection \<open>Effects of an iteration\<close>

definition callOf :: "retryEffect \<Rightarrow> int list" where
  "callOf e = (case e of CallRun a b \<Rightarrow> [a] | _ \<Rightarrow> [])"

definition sleepOf :: "retryEffect \<Rightarrow> int list" where
  "sleepOf e = (case e of SleepFor a d \<Rightarrow> [a] | _ \<Rightarrow> [])"

definition callAttempts :: "retryEffect list \<Rightarrow> int list" where
  "callAttempts es = concat (map callOf es)"

definition sleepAttempts :: "retryEffect list \<Rightarrow> int list" where
  "sleepAttempts es = concat (map sleepOf es)"

lemma attempts_append [simp]:
  "callAttempts (xs @ ys) = callAttempts xs @ callAttempts ys" "sleepAttempts (xs @ ys) = sleepAttempts xs @ sleepAttempts ys"
  by (simp_all add: callAttempts_def sleepAttempts_def)

lemma attempts_Cons [simp]:
  "callAttempts (CallRun a b # es) = a # callAttempts es" "sleepAttempts (CallRun a b # es) = sleepAttempts es"
  "callAttempts (SleepFor a d # es) = callAttempts es" "sleepAttempts (SleepFor a d # es) = a # sleepAttempts es"
  "callAttempts [] = []" "sleepAttempts [] = []"
  by (simp_all add: callAttempts_def sleepAttempts_def callOf_def sleepOf_def)

lemma callAttempts_iff: "a \<in> set (callAttempts es) \<longleftrightarrow> (\<exists>b. CallRun a b \<in> set es)"
  by (force simp: callAttempts_def callOf_def split: retryEffect.splits)

lemma attempts_observe [simp]:
  "callAttempts (observeRetry opts rec) = []" "sleepAttempts (observeRetry opts rec) = []"
  by (simp_all add: observeRetry_def callAttempts_def sleepAttempts_def callOf_def sleepOf_def)

lemma attempts_terminal [simp]:
  "callAttempts (observeRetryTerminalStop opts rec reason) = []" "sleepAttempts (observeRetryTerminalStop opts rec reason) = []"
  by (cases reason; simp add: observeRetryTerminalStop_def Let_def)+

lemma observe_no_call [simp]:
  "CallRun a b \<notin> set (observeRetry opts rec)" "CallRun a b \<notin> set (observeRetryTerminalStop opts rec reason)"
  "SleepFor a d \<notin> set (observeRetry opts rec)" "SleepFor a d \<notin> set (observeRetryTerminalStop opts rec reason)"
  by (auto simp: observeRetry_def observeRetryTerminalStop_def Let_def split: RetryDecisionReason.splits)

lemma attemptBudget_fields [simp]:
  "db_HasDeadline (attemptBudget sb b now) = db_HasDeadline sb" "db_Deadline (attemptBudget sb b now) = db_Deadline sb"
  by (simp_all add: attemptBudget_def Let_def)

text \<open>What holds between two attempts of a run: attempt \<open>k\<close> was made with budget \<open>b\<close> and another one may follow.\<close>

definition retryAllowed ::
  "goMath \<Rightarrow> FailurePolicy \<Rightarrow> runWithRetryOpts \<Rightarrow> RetryPolicy \<Rightarrow> DeadlineBudget \<Rightarrow> 'a retryEnv \<Rightarrow> int \<Rightarrow> DeadlineBudget \<Rightarrow> bool" where
  "retryAllowed gm failurePolicy opts policy startBudget env k b \<longleftrightarrow>
     (let failure = classifyFailureWithPolicy (snd (en_run env k b)) failurePolicy;
          b' = WithRuntimeAt b (wrapInt (db_Runtime b + timeSub (en_end env k) (en_now env k))) (en_end2 env k);
          d = RetryDelay gm policy k (en_jitter env k);
          snap = (if op_Snapshot opts then en_snapshot env k else zeroSnapshot)
      in en_ctx env k = None \<and> snd (en_run env k b) \<noteq> None \<and> en_ctxAfter env k = None \<and> k < rp_MaxAttempts policy
         \<and> isRetryableFailure policy failure
         \<and> (db_HasDeadline startBudget \<longrightarrow>
              wrapInt (d + rp_MinRemainingBudget policy) \<le> RemainingAt startBudget (en_now env k))
         \<and> sd_Allow (DecideRetrySafety (safetyCheck opts k failure policy b') (op_IdempotencyPolicy opts))
         \<and> \<not> sup_Suppress (DecideRetrySuppression (op_SuppressionPolicy opts) (suppressionCheck opts k failure policy b' snap))
         \<and> en_sleep env k d = None)"

definition iterationNext ::
  "goMath \<Rightarrow> FailurePolicy \<Rightarrow> runWithRetryOpts \<Rightarrow> RetryPolicy \<Rightarrow> DeadlineBudget \<Rightarrow> 'a retryEnv \<Rightarrow> int \<Rightarrow>
   retryEffect list \<Rightarrow> bool" where
  "iterationNext gm failurePolicy opts policy startBudget env k effs \<longleftrightarrow>
     callAttempts effs = [k] \<and> sleepAttempts effs = [k]
     \<and> (\<forall>a b. CallRun a b \<in> set effs \<longrightarrow> a = k \<and> retryAllowed gm failurePolicy opts policy startBudget env k b)
     \<and> SleepFor k (RetryDelay gm policy k (en_jitter env k)) \<in> set effs"

lemma retryGates_next:
  assumes "retryGates zero opts policy env k err failure b decision as = (RetryNext b' as' e', effs)"
  shows "sd_Allow (DecideRetrySafety (safetyCheck opts k failure policy b) (op_IdempotencyPolicy opts))
    \<and> \<not> sup_Suppress (DecideRetrySuppression (op_SuppressionPolicy opts)
        (suppressionCheck opts k failure policy b (if op_Snapshot opts then en_snapshot env k else zeroSnapshot)))
    \<and> en_sleep env k (rd_Delay decision) = None
    \<and> callAttempts effs = [] \<and> sleepAttempts effs = [k] \<and> SleepFor k (rd_Delay decision) \<in> set effs"
  using assms by (auto simp: retryGates_def Let_def split: if_splits)

lemma retryGates_effects:
  assumes "retryGates zero opts policy env k err failure b decision as = (st, effs)"
  shows "callAttempts effs = [] \<and> (sleepAttempts effs = [] \<or> sleepAttempts effs = [k])"
  using assms by (auto simp: retryGates_def Let_def split: if_splits)

lemma retryGates_call: "retryGates zero opts policy env k err failure b decision as = (st, effs) \<Longrightarrow> CallRun a c \<notin> set effs"
  using retryGates_effects callAttempts_iff by (metis empty_iff empty_set)

lemma retryIteration_next:
  assumes "retryIteration gm zero failurePolicy opts policy startBudget env k b0 as = (RetryNext b' as' e', effs)"
  shows "iterationNext gm failurePolicy opts policy startBudget env k effs"
proof -
  let ?b = "attemptBudget startBudget b0 (en_now env k)"
  let ?b' = "WithRuntimeAt ?b (wrapInt (db_Runtime ?b + timeSub (en_end env k) (en_now env k))) (en_end2 env k)"
  let ?f = "classifyFailureWithPolicy (snd (en_run env k ?b)) failurePolicy"
  let ?state = "\<lparr>rs_CtxErr = en_ctxAfter env k, rs_Attempt = k, rs_Failure = ?f, rs_Budget = ?b', rs_Now = Some (en_now env k)\<rparr>"
  let ?d = "DecideRetry gm policy ?state (en_jitter env k) (en_wall env k)"
  obtain gs where ctx: "en_ctx env k = None" and err: "snd (en_run env k ?b) \<noteq> None" and dec: "rd_Retry ?d"
    and g: "retryGates zero opts policy env k (snd (en_run env k ?b)) ?f ?b' ?d as = (RetryNext b' as' e', gs)"
    and effs: "effs = observeRetry opts ((retryObsMeta opts k zeroFailure ?b)\<lparr>ro_Kind := RetryEventAttemptStarted\<rparr>)
      @ [CallRun k ?b] @ observeRetry opts ((retryObsMeta opts k ?f ?b')\<lparr>ro_Kind := RetryEventFailureClassified\<rparr>) @ gs"
    using assms by (auto simp: retryIteration_def retryAfterRun_def Let_def split: if_splits prod.splits)
  note d = DecideRetry_RetryD [OF dec, simplified]
  have delay: "rd_Delay ?d = RetryDelay gm policy k (en_jitter env k)" using d by blast
  note r = retryGates_next [OF g, unfolded delay]
  have "RemainingAt ?b' t = RemainingAt startBudget t" for t by (rule RemainingAt_cong) simp_all
  then have "db_HasDeadline startBudget \<longrightarrow>
      wrapInt (RetryDelay gm policy k (en_jitter env k) + rp_MinRemainingBudget policy) \<le> RemainingAt startBudget (en_now env k)"
    using d by simp
  then have "retryAllowed gm failurePolicy opts policy startBudget env k ?b"
    using ctx err d r unfolding retryAllowed_def Let_def by blast
  then show ?thesis using r retryGates_call [OF g] unfolding iterationNext_def effs by auto
qed

lemma retryIteration_effects:
  assumes "retryIteration gm zero failurePolicy opts policy startBudget env k b0 as = (st, effs)"
  shows "(callAttempts effs = [] \<and> en_ctx env k \<noteq> None \<and> sleepAttempts effs = [])
    \<or> (callAttempts effs = [k] \<and> en_ctx env k = None \<and> (sleepAttempts effs = [] \<or> sleepAttempts effs = [k]))"
proof (cases "en_ctx env k = None")
  case True
  obtain val err where run: "en_run env k (attemptBudget startBudget b0 (en_now env k)) = (val, err)" by force
  define b' where "b' = WithRuntimeAt (attemptBudget startBudget b0 (en_now env k))
     (wrapInt (db_Runtime (attemptBudget startBudget b0 (en_now env k)) + timeSub (en_end env k) (en_now env k))) (en_end2 env k)"
  obtain st' rs where a: "retryAfterRun gm zero failurePolicy opts policy env k val err b' as = (st', rs)" by force
  have "callAttempts rs = [] \<and> (sleepAttempts rs = [] \<or> sleepAttempts rs = [k])"
    using a by (auto simp: retryAfterRun_def Let_def split: if_splits prod.splits dest: retryGates_effects)
  then show ?thesis using assms True a by (auto simp: retryIteration_def run Let_def b'_def)
next
  case False
  then show ?thesis using assms by (auto simp: retryIteration_def Let_def)
qed

text \<open>The result of an iteration that returns: success is the success of its call, and otherwise there is an error.\<close>

definition callSucceeded :: "'a retryEnv \<Rightarrow> retryEffect list \<Rightarrow> bool" where
  "callSucceeded env effs \<longleftrightarrow> (\<exists>a b. CallRun a b \<in> set effs \<and> snd (en_run env a b) = None)"

definition resultMatches :: "'a retryEnv \<Rightarrow> 'a runWithRetryResult \<Rightarrow> retryEffect list \<Rightarrow> bool" where
  "resultMatches env r effs \<longleftrightarrow>
     rf_Succeeded (rr_retryFinal r) = callSucceeded env effs
     \<and> (rr_err r = None) = callSucceeded env effs
     \<and> (\<forall>a b. CallRun a b \<in> set effs \<and> snd (en_run env a b) = None \<longrightarrow> rr_val r = fst (en_run env a b))"

lemma final_not_succeeded [simp]: "\<not> rf_Succeeded (finalStateFromFailure f x y z w)" "\<not> rf_Succeeded zeroRetryFinalState"
  by (simp_all add: finalStateFromFailure_def zeroRetryFinalState_def)

lemma retryHandlerError_some: "f_Kind f \<noteq> FailureNone \<Longrightarrow> retryHandlerError e f \<noteq> None"
  by (auto simp: retryHandlerError_def failureAsError_def split: option.splits)

lemma retryResult_fields [simp]:
  "rr_val (retryResult v e b h as f) = v" "rr_err (retryResult v e b h as f) = e" "rr_retryFinal (retryResult v e b h as f) = f"
  "rr_retryAttempts (retryResult v e b h as f) = as"
  by (simp_all add: retryResult_def)

lemma retryGates_return:
  assumes "retryGates zero opts policy env k err failure b decision as = (RetryReturn r, effs)" "f_Kind failure \<noteq> FailureNone"
  shows "\<not> rf_Succeeded (rr_retryFinal r) \<and> rr_err r \<noteq> None"
  using assms retryHandlerError_some [OF assms(2)] by (auto simp: retryGates_def Let_def split: if_splits)

lemma retryAfterRun_return:
  assumes "retryAfterRun gm zero failurePolicy opts policy env k val err b as = (RetryReturn r, effs)"
  shows "rf_Succeeded (rr_retryFinal r) = (err = None) \<and> (rr_err r = None) = (err = None) \<and> (err = None \<longrightarrow> rr_val r = val)
    \<and> (\<forall>a c. CallRun a c \<notin> set effs)"
proof (cases "err = None")
  case True
  then show ?thesis using assms by (auto simp: retryAfterRun_def zeroRetryFinalState_def)
next
  case False
  let ?f = "classifyFailureWithPolicy err failurePolicy"
  let ?d = "DecideRetry gm policy \<lparr>rs_CtxErr = en_ctxAfter env k, rs_Attempt = k, rs_Failure = ?f, rs_Budget = b,
    rs_Now = Some (en_now env k)\<rparr> (en_jitter env k) (en_wall env k)"
  consider "f_Kind ?f = FailureNone" | "f_Kind ?f \<noteq> FailureNone" "\<not> rd_Retry ?d" | "f_Kind ?f \<noteq> FailureNone" "rd_Retry ?d" by blast
  then show ?thesis
  proof cases
    case 1
    then show ?thesis using assms False by (auto simp: retryAfterRun_def Let_def)
  next
    case 2
    then show ?thesis using assms False retryHandlerError_some [OF 2(1), of err] by (auto simp: retryAfterRun_def Let_def)
  next
    case 3
    obtain st gs where g: "retryGates zero opts policy env k err ?f b ?d as = (st, gs)" by force
    then have "st = RetryReturn r" and effs: "effs = observeRetry opts ((retryObsMeta opts k ?f b)\<lparr>ro_Kind := RetryEventFailureClassified\<rparr>) @ gs"
      using assms False 3 by (simp_all add: retryAfterRun_def Let_def)
    with g have "\<not> rf_Succeeded (rr_retryFinal r) \<and> rr_err r \<noteq> None" by (intro retryGates_return [OF _ 3(1)]) simp
    with effs False retryGates_call [OF g] show ?thesis by auto
  qed
qed

lemma retryIteration_return:
  assumes "retryIteration gm zero failurePolicy opts policy startBudget env k b0 as = (RetryReturn r, effs)"
  shows "resultMatches env r effs"
proof (cases "en_ctx env k = None")
  case True
  let ?b = "attemptBudget startBudget b0 (en_now env k)"
  obtain val err where run: "en_run env k ?b = (val, err)" by force
  obtain rs where a: "retryAfterRun gm zero failurePolicy opts policy env k val err
      (WithRuntimeAt ?b (wrapInt (db_Runtime ?b + timeSub (en_end env k) (en_now env k))) (en_end2 env k)) as = (RetryReturn r, rs)"
    and effs: "effs = observeRetry opts ((retryObsMeta opts k zeroFailure ?b)\<lparr>ro_Kind := RetryEventAttemptStarted\<rparr>)
      @ [CallRun k ?b] @ rs"
    using assms True by (auto simp: retryIteration_def run Let_def split: prod.splits)
  note f = retryAfterRun_return [OF a]
  have "CallRun a b \<in> set effs \<longleftrightarrow> a = k \<and> b = ?b" for a b using f unfolding effs by auto
  then show ?thesis using f run by (auto simp: resultMatches_def callSucceeded_def)
next
  case False
  then show ?thesis using assms by (auto simp: retryIteration_def Let_def resultMatches_def callSucceeded_def)
qed

subsection \<open>The loop\<close>

text \<open>What a loop that starts at attempt \<open>k\<close> does: the attempts it makes are consecutive, each but the first is
  allowed by the attempt before it, and the result is that of the last one.\<close>

definition loopTrace ::
  "goMath \<Rightarrow> FailurePolicy \<Rightarrow> runWithRetryOpts \<Rightarrow> RetryPolicy \<Rightarrow> DeadlineBudget \<Rightarrow> 'a retryEnv \<Rightarrow> int \<Rightarrow>
   'a runWithRetryResult \<Rightarrow> retryEffect list \<Rightarrow> bool" where
  "loopTrace gm failurePolicy opts policy startBudget env k r tr \<longleftrightarrow>
     (\<exists>m. k - 1 \<le> m \<and> m \<le> rp_MaxAttempts policy \<and> callAttempts tr = [k..m]
        \<and> (sleepAttempts tr = [k..m - 1] \<or> sleepAttempts tr = [k..m]))
     \<and> (\<forall>j b. k \<le> j \<and> CallRun (j + 1) b \<in> set tr \<longrightarrow>
          (\<exists>b'. CallRun j b' \<in> set tr \<and> retryAllowed gm failurePolicy opts policy startBudget env j b')
          \<and> SleepFor j (RetryDelay gm policy j (en_jitter env j)) \<in> set tr)
     \<and> resultMatches env r tr"

lemma loopTrace_cons:
  assumes "iterationNext gm failurePolicy opts policy startBudget env k effs"
    "loopTrace gm failurePolicy opts policy startBudget env (k + 1) r tr"
  shows "loopTrace gm failurePolicy opts policy startBudget env k r (effs @ tr)"
proof -
  from assms(2) obtain m where m: "k \<le> m" "m \<le> rp_MaxAttempts policy" "callAttempts tr = [k + 1..m]"
    "sleepAttempts tr = [k + 1..m - 1] \<or> sleepAttempts tr = [k + 1..m]" by (auto simp: loopTrace_def)
  have n: "callAttempts effs = [k]" "sleepAttempts effs = [k]" "SleepFor k (RetryDelay gm policy k (en_jitter env k)) \<in> set effs"
    and call: "\<And>a b. CallRun a b \<in> set effs \<Longrightarrow> a = k \<and> retryAllowed gm failurePolicy opts policy startBudget env k b"
    using assms(1) by (auto simp: iterationNext_def)
  obtain b where b: "CallRun k b \<in> set effs" using n(1) callAttempts_iff [of k effs] by auto
  have "sleepAttempts (effs @ tr) = [k..m - 1] \<or> sleepAttempts (effs @ tr) = [k..m]"
    using m n(2) upto_rec1 [of k m] upto_rec1 [of k "m - 1"] by (cases "m = k") auto
  moreover have "callAttempts (effs @ tr) = [k..m]" using m n(1) upto_rec1 [of k m] by simp
  ultimately have 1: "\<exists>m. k - 1 \<le> m \<and> m \<le> rp_MaxAttempts policy \<and> callAttempts (effs @ tr) = [k..m]
        \<and> (sleepAttempts (effs @ tr) = [k..m - 1] \<or> sleepAttempts (effs @ tr) = [k..m])" using m(1,2) by (intro exI [of _ m]) simp
  have "snd (en_run env a c) \<noteq> None" if "CallRun a c \<in> set effs" for a c
    using call [OF that] by (auto simp: retryAllowed_def Let_def)
  then have "CallRun a c \<in> set (effs @ tr) \<and> snd (en_run env a c) = None \<longleftrightarrow> CallRun a c \<in> set tr \<and> snd (en_run env a c) = None"
    for a c unfolding set_append by blast
  then have 2: "resultMatches env r (effs @ tr)"
    using assms(2) unfolding loopTrace_def resultMatches_def callSucceeded_def by metis
  have 3: "(\<exists>b'. CallRun j b' \<in> set (effs @ tr) \<and> retryAllowed gm failurePolicy opts policy startBudget env j b')
       \<and> SleepFor j (RetryDelay gm policy j (en_jitter env j)) \<in> set (effs @ tr)"
    if j: "k \<le> j" "CallRun (j + 1) c \<in> set (effs @ tr)" for j c
  proof (cases "j = k")
    case True
    then show ?thesis using b call [OF b] n(3) by auto
  next
    case False
    then have "k + 1 \<le> j" "CallRun (j + 1) c \<in> set tr" using j call by auto
    then show ?thesis using assms(2) by (auto simp: loopTrace_def)
  qed
  show ?thesis unfolding loopTrace_def using 1 2 3 by blast
qed

lemma loopTrace_return:
  assumes it: "retryIteration gm zero failurePolicy opts policy startBudget env k b0 as = (RetryReturn r, effs)"
    and k: "k \<le> rp_MaxAttempts policy"
  shows "loopTrace gm failurePolicy opts policy startBudget env k r effs"
proof -
  have e: "(callAttempts effs = [] \<and> sleepAttempts effs = []) \<or>
      callAttempts effs = [k] \<and> (sleepAttempts effs = [] \<or> sleepAttempts effs = [k])"
    using retryIteration_effects [OF it] by blast
  then have "\<exists>m. k - 1 \<le> m \<and> m \<le> rp_MaxAttempts policy \<and> callAttempts effs = [k..m]
        \<and> (sleepAttempts effs = [k..m - 1] \<or> sleepAttempts effs = [k..m])"
  proof
    assume "callAttempts effs = [] \<and> sleepAttempts effs = []"
    then show ?thesis using k by (intro exI [of _ "k - 1"]) simp
  next
    assume "callAttempts effs = [k] \<and> (sleepAttempts effs = [] \<or> sleepAttempts effs = [k])"
    then show ?thesis using k by (intro exI [of _ k]) auto
  qed
  moreover have "CallRun (j + 1) c \<notin> set effs" if "k \<le> j" for j c
    using e that callAttempts_iff [of "j + 1" effs] by auto
  ultimately show ?thesis unfolding loopTrace_def using retryIteration_return [OF it] by blast
qed

text \<open>The last attempt never continues, so an enabled loop is not left at its head.\<close>

lemma retryLoop_trace:
  assumes "k \<le> rp_MaxAttempts policy"
    "retryLoop gm zero failurePolicy opts policy startBudget env k b as e = (r, tr)"
  shows "loopTrace gm failurePolicy opts policy startBudget env k r tr"
  using assms
proof (induction gm zero failurePolicy opts policy startBudget env k b as e arbitrary: r tr rule: retryLoop.induct)
  case (1 gm zero failurePolicy opts policy startBudget env k b as e)
  obtain st effs where it: "retryIteration gm zero failurePolicy opts policy startBudget env k b as = (st, effs)" by force
  show ?case
  proof (cases st)
    case (RetryReturn r')
    then show ?thesis using 1(2,3) it loopTrace_return [of gm zero failurePolicy opts policy startBudget env k b as r' effs]
      by (simp add: retryLoop.simps [of gm zero failurePolicy opts policy startBudget env k])
  next
    case (RetryNext b' as' e')
    have n: "iterationNext gm failurePolicy opts policy startBudget env k effs"
      by (rule retryIteration_next) (use it RetryNext in simp)
    have "\<exists>b. retryAllowed gm failurePolicy opts policy startBudget env k b"
      using n callAttempts_iff [of k effs] by (auto simp: iterationNext_def)
    then have k1: "k + 1 \<le> rp_MaxAttempts policy" by (auto simp: retryAllowed_def Let_def)
    obtain r' tr' where l: "retryLoop gm zero failurePolicy opts policy startBudget env (k + 1) b' as' e' = (r', tr')" by force
    have "loopTrace gm failurePolicy opts policy startBudget env (k + 1) r' tr'"
      using 1(1) [OF 1(2) it [symmetric] refl RetryNext k1 l] .
    moreover have "r = r'" "tr = effs @ tr'"
      using 1(2,3) it RetryNext l by (simp_all add: retryLoop.simps [of gm zero failurePolicy opts policy startBudget env k])
    ultimately show ?thesis using loopTrace_cons [OF n] by simp
  qed
qed

lemma call_unique:
  "distinct (callAttempts tr) \<Longrightarrow> CallRun a b \<in> set tr \<Longrightarrow> CallRun a b' \<in> set tr \<Longrightarrow> b = b'"
proof (induction tr)
  case (Cons e tr)
  have "callAttempts (e # tr) = callOf e @ callAttempts tr" by (simp add: callAttempts_def)
  moreover have "CallRun a c \<in> set tr \<Longrightarrow> a \<in> set (callAttempts tr)" for c using callAttempts_iff by blast
  ultimately show ?case using Cons by (auto simp: callOf_def)
qed simp

lemma RetryDelay_nonneg: "0 \<le> RetryDelay gm policy attempt jit"
  by (simp add: RetryDelay_def Let_def)

lemma RetryDelay_lt: "RetryDelay gm policy attempt jit < 2 ^ 63"
proof -
  have "int64_of_float cv x < 2 ^ 63" for cv x
    using sint_range_size [of "cv x"] by (auto simp: int64_of_float_def word_size Let_def split: float64.splits)
  then show ?thesis by (simp add: RetryDelay_def Let_def)
qed

text \<open>The first attempt is made unless the context is already done.\<close>

lemma retryLoop_first:
  assumes "k \<le> rp_MaxAttempts policy" "en_ctx env k = None"
    "retryLoop gm zero failurePolicy opts policy startBudget env k b as e = (r, tr)"
  shows "callAttempts tr \<noteq> []"
proof -
  obtain st effs where it: "retryIteration gm zero failurePolicy opts policy startBudget env k b as = (st, effs)" by force
  then have "callAttempts effs = [k]" using retryIteration_effects [OF it] assms(2) by blast
  moreover have "\<exists>tr'. tr = effs @ tr'"
    using assms(1,3) it by (auto simp: retryLoop.simps [of gm zero failurePolicy opts policy startBudget env k]
        split: retryStep.splits prod.splits)
  ultimately show ?thesis by auto
qed

subsection \<open>Properties\<close>


text \<open>A job that is safe to repeat, with a deadline one second after its start; the handler fails once after 950 ms and
  then succeeds. The second attempt starts 40 ms before the deadline.\<close>

definition demoMath :: goMath where
  "demoMath = \<lparr>gm_Pow = (\<lambda>x y. FFin 2), gm_cv = (\<lambda>x. 2 ^ 63)\<rparr>"

definition demoRetryPolicy :: RetryPolicy where
  "demoRetryPolicy = zeroRetryPolicy\<lparr>rp_Enabled := True, rp_MinRemainingBudget := 100 * Millisecond\<rparr>"

definition demoOpts :: runWithRetryOpts where
  "demoOpts = \<lparr>op_Key = ''k'', op_Lane = ''io'', op_ShardID = 0,
     op_Idempotency = \<lparr>id_Key = ''op-1'', id_Safety = RetrySafetySafe, id_Scope = '''', id_Operation = '''',
       id_AllowUnsafeRetry = False\<rparr>,
     op_IdempotencyPolicy = \<lparr>ip_RequireForRetry = False, ip_Hook = None\<rparr>, op_SuppressionPolicy = zeroSuppressionPolicy,
     op_Snapshot = False, op_Observer = True\<rparr>"

definition demoBudget :: DeadlineBudget where
  "demoBudget = NewDeadlineBudget (Some Second) 0"

definition demoRetryEnv :: "int retryEnv" where
  "demoRetryEnv = \<lparr>en_now = (\<lambda>k. if k = 1 then 0 else 960 * Millisecond), en_ctx = (\<lambda>k. None), en_wall = (\<lambda>k. 0),
     en_run = (\<lambda>k b. if k = 1 then (0, Some (EFailure (RetryableFailure None))) else (42, None)),
     en_end = (\<lambda>k. if k = 1 then 950 * Millisecond else 970 * Millisecond),
     en_end2 = (\<lambda>k. if k = 1 then 950 * Millisecond else 970 * Millisecond), en_ctxAfter = (\<lambda>k. None),
     en_jitter = (\<lambda>k. flit (1 / 2)), en_snapshot = (\<lambda>k. zeroSnapshot), en_sleep = (\<lambda>k d. None), en_wallSleep = (\<lambda>k. 0)\<rparr>"

definition demoRetry :: "int runWithRetryResult \<times> retryEffect list" where
  "demoRetry = runWithRetry demoMath 0 None demoRetryPolicy demoOpts demoBudget demoRetryEnv"

lemma demoRetry_calls: "callAttempts (snd demoRetry) = [1, 2]" "rr_val (fst demoRetry) = 42" "rr_err (fst demoRetry) = None"
  by code_simp+

lemma demoRetry_run:
  "rp_Enabled demoRetryPolicy"
  "runWithRetry demoMath 0 None demoRetryPolicy demoOpts demoBudget demoRetryEnv = (fst demoRetry, snd demoRetry)"
  by (simp_all add: demoRetryPolicy_def demoRetry_def)


text \<open>C30: A handler is called again only when everything allows it. If attempt k + 1 is made, attempt k was made and
  failed, its failure is retryable under the policy, attempts are left, the context was alive after it, the job is declared
  safe to repeat (or explicitly overridden, or the application's check allowed it), no suppression rule applies, the loop
  slept the backoff without being interrupted, and a deadline left room for the backoff and the minimal budget, counted from
  the start of attempt k.\<close>

theorem retry_justified:
  assumes "rp_Enabled retryPolicy" "runWithRetry gm zero failurePolicy retryPolicy opts startBudget env = (r, tr)"
    "1 \<le> k" "CallRun (k + 1) b \<in> set tr" "policy = NormalizeRetryPolicy retryPolicy"
    "d = RetryDelay gm policy k (en_jitter env k)"
  shows "\<exists>b' v e failure budget.
      CallRun k b' \<in> set tr \<and> en_run env k b' = (v, Some e) \<and> failure = classifyFailureWithPolicy (Some e) failurePolicy
    \<and> isRetryableFailure policy failure \<and> k < rp_MaxAttempts policy \<and> en_ctxAfter env k = None
    \<and> (id_Safety (op_Idempotency opts) = RetrySafetySafe
       \<or> id_Safety (op_Idempotency opts) = RetrySafetyUnsafe \<and> id_AllowUnsafeRetry (op_Idempotency opts)
       \<or> id_Safety (op_Idempotency opts) = RetrySafetyRequiresCheck
          \<and> (\<exists>hook s. ip_Hook (op_IdempotencyPolicy opts) = Some hook
               \<and> hook (safetyCheck opts k failure policy budget) = Some s \<and> sd_Allow s))
    \<and> \<not> sup_Suppress (DecideRetrySuppression (op_SuppressionPolicy opts)
         (suppressionCheck opts k failure policy budget (if op_Snapshot opts then en_snapshot env k else zeroSnapshot)))
    \<and> SleepFor k d \<in> set tr \<and> en_sleep env k d = None
    \<and> (db_HasDeadline startBudget \<and> d + rp_MinRemainingBudget policy < 2 ^ 63 \<longrightarrow>
         en_now env k + d + rp_MinRemainingBudget policy \<le> db_Deadline startBudget)"
proof -
  note f = Normalize_retry_fields [OF assms(1), folded assms(5)]
  have "loopTrace gm failurePolicy opts policy startBudget env 1 r tr"
    unfolding assms(5)
    by (rule retryLoop_trace [OF Normalize_retry_fields(2) [OF assms(1)] assms(2) [unfolded runWithRetry_def]])
  then obtain b' where b': "CallRun k b' \<in> set tr" "retryAllowed gm failurePolicy opts policy startBudget env k b'"
    and slept: "SleepFor k d \<in> set tr"
    using assms(3,4) unfolding loopTrace_def assms(6) by blast
  obtain v e where run: "en_run env k b' = (v, Some e)" using b'(2) by (cases "en_run env k b'") (auto simp: retryAllowed_def Let_def)
  let ?f = "classifyFailureWithPolicy (Some e) failurePolicy"
  let ?b = "WithRuntimeAt b' (wrapInt (db_Runtime b' + timeSub (en_end env k) (en_now env k))) (en_end2 env k)"
  note a = b'(2) [unfolded retryAllowed_def Let_def run snd_conv, folded assms(6)]
  have "en_now env k + d + rp_MinRemainingBudget policy \<le> db_Deadline startBudget"
    if "db_HasDeadline startBudget" "d + rp_MinRemainingBudget policy < 2 ^ 63"
  proof -
    have "0 \<le> d" by (simp add: assms(6) RetryDelay_nonneg)
    then have "wrapInt (d + rp_MinRemainingBudget policy) = d + rp_MinRemainingBudget policy"
      using f(5) that(2) by (intro wrapInt_id) simp_all
    then have "d + rp_MinRemainingBudget policy \<le> RemainingAt startBudget (en_now env k)" using a that(1) by simp
    then show ?thesis using RemainingAt_deadline [of "d + rp_MinRemainingBudget policy" startBudget "en_now env k"] f(5)
      \<open>0 \<le> d\<close> by simp
  qed
  moreover have "sd_Allow (DecideRetrySafety (safetyCheck opts k ?f policy ?b) (op_IdempotencyPolicy opts))" using a by blast
  note DecideRetrySafety_AllowD [OF this]
  moreover have "rp_Enabled (sc_Retry (safetyCheck opts k ?f policy ?b))" "sc_Idempotency (safetyCheck opts k ?f policy ?b) = op_Idempotency opts"
    using f(1) by (simp_all add: safetyCheck_def)
  ultimately show ?thesis using a b'(1) run slept by (intro exI [of _ b'] exI [of _ v] exI [of _ e] exI [of _ ?f] exI [of _ ?b]) simp
qed

theorem retry_justified_witness:
  "\<exists>b. CallRun 1 b \<in> set (snd demoRetry) \<and> en_run demoRetryEnv 1 b = (0, Some (EFailure (RetryableFailure None)))"
proof -
  obtain b where b: "CallRun (1 + 1) b \<in> set (snd demoRetry)"
    using demoRetry_calls(1) callAttempts_iff [of 2 "snd demoRetry"] by auto
  from retry_justified [OF demoRetry_run _ b refl refl] obtain b' v e
    where "CallRun 1 b' \<in> set (snd demoRetry)" "en_run demoRetryEnv 1 b' = (v, Some e)" by auto
  then show ?thesis by (auto simp: demoRetryEnv_def)
qed

text \<open>The deadline is compared with the time at which the failed attempt started. In the example the second attempt is
  made with 40 ms left, although the policy asks for 100 ms before another attempt.\<close>

lemma retry_budget_stale:
  "list_ex (\<lambda>e. case e of CallRun a b \<Rightarrow> a = 2 \<and> db_Remaining b = 40 * Millisecond | _ \<Rightarrow> False) (snd demoRetry)
   \<and> rp_MinRemainingBudget (NormalizeRetryPolicy demoRetryPolicy) = 100 * Millisecond"
  by code_simp

subsection \<open>Pipelines\<close>

lemma DecideRetry_max:
  assumes "rp_Enabled policy" "rs_CtxErr state = None" "rp_MaxAttempts policy \<le> rs_Attempt state"
  shows "\<not> rd_Retry (DecideRetry gm policy state jit wall) \<and> rd_Reason (DecideRetry gm policy state jit wall) = RetryDecisionMaxAttempts"
  using assms by (simp add: DecideRetry_def Let_def)


definition demoError :: goerror where
  "demoError = EFailure (RetryableFailure None)"

definition demoEval :: "pipelineRetryEvaluation \<times> RetryAttempt list option \<times> retryEffect list" where
  "demoEval = evaluatePipelineRetry demoMath None demoRetryPolicy demoOpts 1 (Some demoError) demoBudget (Some [])
     (en_jitter demoRetryEnv 1) (en_ctxAfter demoRetryEnv 1) (en_now demoRetryEnv 1) (en_wall demoRetryEnv 1)
     (en_snapshot demoRetryEnv 1)"


subsection \<open>Backoff\<close>

lemma flit_two: "flit 2 = FFin 2"
  using fround_exact [OF representable_int [of 2]] small_lt [of 2] by (simp add: flit_def)

text \<open>The factor \<open>2 * j - 1\<close> of the jitter, rounded, stays within [-1, 1].\<close>

lemma jitter_factor:
  assumes "0 \<le> j" "j \<le> 1"
  shows "\<exists>a. fsub (fmul (FFin j) (flit 2)) (flit 1) = FFin a \<and> \<bar>a\<bar> \<le> 1"
proof -
  obtain t where t: "fround (j * 2) = FFin t" "0 \<le> t" "t \<le> 2"
    using fround_between [of 0 2 "j * 2"] representable_int [of 0] representable_int [of 2] small_lt [of 0] small_lt [of 2] assms
    by auto
  obtain a where "fround (t + - 1) = FFin a" "\<bar>a\<bar> \<le> 1"
    using fround_bounded [of 1 "t + - 1"] representable_int [of 1] small_lt [of 1] t(2,3) by (auto simp: abs_le_iff)
  then show ?thesis by (simp add: flit_two fsub_def t(1)) (simp add: flit_def)
qed

text \<open>The offset is at most the delay in magnitude.\<close>

lemma jitter_offset:
  assumes "0 \<le> f" "f \<le> 1" "\<bar>a\<bar> \<le> 1" "representable x" "\<bar>x\<bar> \<le> 2 ^ 63"
  shows "\<exists>u. fmul (FFin a) (fmul (FFin x) (FFin f)) = FFin u \<and> \<bar>u\<bar> \<le> \<bar>x\<bar>"
proof -
  have r: "representable \<bar>x\<bar>" "\<bar>x\<bar> < pow2 1024"
    using assms(4,5) representable_minus [of x] small_lt [of "\<bar>x\<bar>"] by (simp_all add: abs_if)
  have "\<bar>x * f\<bar> \<le> \<bar>x\<bar> * 1" unfolding abs_mult using assms(1,2) by (intro mult_left_mono) simp_all
  then obtain s where s: "fround (x * f) = FFin s" "\<bar>s\<bar> \<le> \<bar>x\<bar>" using fround_bounded [OF r] by auto
  have "\<bar>a * s\<bar> \<le> 1 * \<bar>s\<bar>" unfolding abs_mult using assms(3) by (intro mult_right_mono) simp_all
  then obtain u where "fround (a * s) = FFin u" "\<bar>u\<bar> \<le> \<bar>x\<bar>" using fround_bounded [OF r, of "a * s"] s(2) by auto
  then show ?thesis by (simp add: s(1))
qed

lemma jittered_le:
  assumes "0 \<le> f" "f \<le> 1" "0 \<le> j" "j \<le> 1" "- (2 ^ 63) \<le> d" "d \<le> m" "0 \<le> m" "m \<le> 2 ^ 52"
    and cv: "\<And>r. r < 0 \<Longrightarrow> sint (cv (FFin r)) \<le> 0"
  shows "int64_of_float cv (fadd (float64_of_int d)
     (fmul (fsub (fmul (FFin j) (flit 2)) (flit 1)) (fmul (float64_of_int d) (FFin f)))) \<le> 2 * m"
proof -
  obtain a where a: "fsub (fmul (FFin j) (flit 2)) (flit 1) = FFin a" "\<bar>a\<bar> \<le> 1" using jitter_factor [OF assms(3,4)] by blast
  obtain x where x: "float64_of_int d = FFin x" "\<bar>x\<bar> \<le> 2 ^ 63" "representable x" "d \<le> 0 \<longrightarrow> x \<le> 0"
    using float64_of_int64 [of d] assms(5,6,8) by auto
  obtain u where u: "fmul (FFin a) (fmul (FFin x) (FFin f)) = FFin u" "\<bar>u\<bar> \<le> \<bar>x\<bar>"
    using jitter_offset [OF assms(1,2) a(2) x(3,2)] by blast
  show ?thesis
  proof (cases "0 \<le> d")
    case True
    then have xd: "x = of_int d" using x(1) float64_of_int_exact [of d] assms(6,8) by simp
    then have lo: "0 \<le> x + u" and hi: "x + u \<le> of_int (2 * d)" using u(2) True by (simp_all add: abs_le_iff)
    have r0: "representable 0" using representable_int [of 0] by simp
    have rd: "representable (of_int (2 * d))" using True assms(6,8) by (intro representable_int) simp
    have "of_int d \<le> (of_int (2 ^ 52) :: rat)" using assms(6,8) by (subst of_int_le_iff) simp
    then have "\<bar>of_int (2 * d) :: rat\<bar> < pow2 1024" using True by (intro small_lt) simp
    then obtain r where r: "fround (x + u) = FFin r" "0 \<le> r" "r \<le> of_int (2 * d)"
      using fround_between [OF r0 rd _ _ lo hi] small_lt [of 0] by auto
    have "int64_of_float cv (FFin r) \<le> 2 * d" using int64_of_float_le [OF r(2,3)] assms(6,8) by simp
    then show ?thesis using assms(6) unfolding a(1) x(1) u(1) fadd.simps r(1) by simp
  next
    case False
    then have neg: "x \<le> 0" using x(4) by simp
    have lo: "- pow2 64 \<le> x + u" and hi: "x + u \<le> 0" using u(2) x(2) neg by (simp_all add: abs_le_iff pow2_def)
    have "representable (- pow2 64)" by (intro representable_minus representable_pow2) simp
    moreover have "representable 0" using representable_int [of 0] by simp
    ultimately obtain r where r: "fround (x + u) = FFin r" "r \<le> 0"
      using fround_between [OF _ _ _ _ lo hi] small_lt [of 0] small_lt [of "pow2 64"] by (auto simp: pow2_def)
    have "truncRat r \<le> 0" using r(2) by (simp add: truncRat_def ceiling_le_iff)
    moreover have "r < 0 \<or> r = 0" using r(2) by auto
    ultimately have "int64_of_float cv (FFin r) \<le> 0"
      using cv [of r] by (auto simp: int64_of_float_def Let_def truncRat_def)
    then show ?thesis using assms(7) unfolding a(1) x(1) u(1) fadd.simps r(1) by simp
  qed
qed

text \<open>C31: The backoff is bounded. It is never negative; without jitter it is at most \<open>MaxBackoff\<close>; with jitter, which is
  applied after the cap, it is at most twice \<open>MaxBackoff\<close>. This holds for every power function and every attempt
  number, overflow included, as long as \<open>MaxBackoff\<close> is at most 2^52 ns (52 days), the jitter source is in [0, 1], and the
  machine does not turn a negative value that does not fit into a positive integer.\<close>

theorem retry_delay_bounds:
  assumes "0 < rp_MaxBackoff policy" "rp_MaxBackoff policy \<le> 2 ^ 52" "rp_JitterFraction policy = FFin f" "0 \<le> f" "f \<le> 1"
    "0 \<le> j" "j \<le> 1" "\<And>r. r < 0 \<Longrightarrow> sint (gm_cv gm (FFin r)) \<le> 0"
  shows "0 \<le> RetryDelay gm policy attempt (FFin j) \<and> RetryDelay gm policy attempt (FFin j) \<le> 2 * rp_MaxBackoff policy
    \<and> (\<not> rp_Jitter policy \<longrightarrow> RetryDelay gm policy attempt (FFin j) \<le> rp_MaxBackoff policy)"
proof -
  let ?m = "rp_MaxBackoff policy"
  define b1 where "b1 = (let attempt = (if attempt < 1 then 1 else attempt);
      initial = (if rp_InitialBackoff policy \<le> 0 then 10 * Millisecond else rp_InitialBackoff policy);
      mult = (if fle (rp_Multiplier policy) (FFin 0) then flit 2 else rp_Multiplier policy)
    in if flt (FFin 0) mult \<and> attempt > 1
       then fmul (float64_of_int initial) (gm_Pow gm mult (float64_of_int (attempt - 1))) else float64_of_int initial)"
  define d where "d = int64_of_float (gm_cv gm) (if ?m < int64_of_float (gm_cv gm) b1 then float64_of_int ?m else b1)"
  have "int64_of_float (gm_cv gm) (float64_of_int ?m) = ?m"
    using assms(1,2) by (simp add: float64_of_int_exact int64_of_float_exact)
  then have d: "d \<le> ?m" "- (2 ^ 63) \<le> d" using int64_of_float_range [of "gm_cv gm"] by (simp_all add: d_def)
  have eq: "RetryDelay gm policy attempt (FFin j) =
     (if \<not> rp_Jitter policy \<or> fle (FFin f) (FFin 0) then (if d < 0 then 0 else d)
      else let d' = int64_of_float (gm_cv gm) (fadd (float64_of_int d)
             (fmul (fsub (fmul (FFin j) (flit 2)) (flit 1)) (fmul (float64_of_int d) (FFin f))))
           in if d' < 0 then 0 else d')"
    using assms(1) unfolding RetryDelay_def d_def b1_def assms(3) Let_def by simp
  have "int64_of_float (gm_cv gm) (fadd (float64_of_int d)
      (fmul (fsub (fmul (FFin j) (flit 2)) (flit 1)) (fmul (float64_of_int d) (FFin f)))) \<le> 2 * ?m"
    using jittered_le [OF assms(4-7) d(2,1) _ assms(2), of "gm_cv gm"] assms(1,8) by simp
  then show ?thesis using d(1) assms(1) unfolding eq Let_def by auto
qed

theorem retry_delay_bounds_witness:
  "RetryDelay demoMath (NormalizeRetryPolicy demoRetryPolicy) 5 (FFin 1) \<le> 500 * Millisecond"
proof -
  have "sint (gm_cv demoMath (FFin r)) \<le> 0" for r by (simp add: demoMath_def) 
  moreover have "rp_MaxBackoff (NormalizeRetryPolicy demoRetryPolicy) = 250 * Millisecond" by code_simp
  moreover have "rp_JitterFraction (NormalizeRetryPolicy demoRetryPolicy) = flit (2 / 10)" by code_simp
  moreover obtain f where "flit (2 / 10) = FFin f" "0 \<le> f" "f \<le> 1"
    using fround_between [of 0 1 "2 / 10"] representable_int [of 0] representable_int [of 1] small_lt [of 0] small_lt [of 1]
    by (auto simp: flit_def)
  ultimately show ?thesis
    using retry_delay_bounds [of "NormalizeRetryPolicy demoRetryPolicy" f 1 demoMath 5] by (simp add: Millisecond_def)
qed

end
