(* ===== verification/Retry_Counters.thy ===== *)
theory Retry_Counters
  imports Retry_Facts
begin

text \<open>
  The counters of \<open>retry_counters.go\<close>, fed by the observer of the retry loop (\<open>recordRetryObs\<close> of
  \<open>retry_observability.go\<close>), and the snapshot over them. The buckets are arrays indexed by the switch functions
  of the source.
\<close>

subsection \<open>Counters\<close>

record retryCounters =
  rc_attemptsTotal :: u64
  rc_retriesScheduledTotal :: u64
  rc_retriesSuppressedTotal :: u64
  rc_retrySafetySuppressedTotal :: u64
  rc_retryDeadlineStoppedTotal :: u64
  rc_retryMaxAttemptsStoppedTotal :: u64
  rc_retryExhaustedTotal :: u64
  rc_failuresTotal :: u64
  rc_timeoutsTotal :: u64
  rc_cancellationsTotal :: u64
  rc_byFailureKind :: "u64 list"
  rc_byRetryReason :: "u64 list"
  rc_bySafetyReason :: "u64 list"
  rc_bySuppressionReason :: "u64 list"

definition failureKindBucketCount :: nat where "failureKindBucketCount = 10"
definition retryDecisionReasonBucketCount :: nat where "retryDecisionReasonBucketCount = 9"
definition retrySafetyReasonBucketCount :: nat where "retrySafetyReasonBucketCount = 9"
definition retrySuppressionReasonBucketCount :: nat where "retrySuppressionReasonBucketCount = 14"

definition zeroRetryCounters :: retryCounters where
  "zeroRetryCounters = \<lparr>rc_attemptsTotal = 0, rc_retriesScheduledTotal = 0, rc_retriesSuppressedTotal = 0,
     rc_retrySafetySuppressedTotal = 0, rc_retryDeadlineStoppedTotal = 0, rc_retryMaxAttemptsStoppedTotal = 0,
     rc_retryExhaustedTotal = 0, rc_failuresTotal = 0, rc_timeoutsTotal = 0, rc_cancellationsTotal = 0,
     rc_byFailureKind = replicate failureKindBucketCount 0, rc_byRetryReason = replicate retryDecisionReasonBucketCount 0,
     rc_bySafetyReason = replicate retrySafetyReasonBucketCount 0,
     rc_bySuppressionReason = replicate retrySuppressionReasonBucketCount 0\<rparr>"

fun failureKindIndex :: "FailureKind \<Rightarrow> nat" where
  "failureKindIndex FailureNone = 0"
| "failureKindIndex FailureRetryable = 1"
| "failureKindIndex FailurePermanent = 2"
| "failureKindIndex FailureTimeout = 3"
| "failureKindIndex FailureCancelled = 4"
| "failureKindIndex FailureOverloaded = 5"
| "failureKindIndex FailureRejected = 6"
| "failureKindIndex FailureDeadlineExhausted = 7"
| "failureKindIndex FailurePanic = 8"
| "failureKindIndex _ = 9"

fun retryDecisionReasonIndex :: "RetryDecisionReason \<Rightarrow> nat" where
  "retryDecisionReasonIndex RetryDecisionNone = 0"
| "retryDecisionReasonIndex RetryDecisionDisabled = 1"
| "retryDecisionReasonIndex RetryDecisionRetryableFailure = 2"
| "retryDecisionReasonIndex RetryDecisionPermanentFailure = 3"
| "retryDecisionReasonIndex RetryDecisionMaxAttempts = 4"
| "retryDecisionReasonIndex RetryDecisionContextCancelled = 5"
| "retryDecisionReasonIndex RetryDecisionDeadlineExhausted = 6"
| "retryDecisionReasonIndex RetryDecisionBudgetTooSmall = 7"
| "retryDecisionReasonIndex RetryDecisionEmpty = 8"

fun retrySafetyReasonIndex :: "RetrySafetyDecisionReason \<Rightarrow> nat" where
  "retrySafetyReasonIndex RetrySafetyDecisionSafe = 0"
| "retrySafetyReasonIndex RetrySafetyDecisionUnsafe = 1"
| "retrySafetyReasonIndex RetrySafetyDecisionMissingKey = 2"
| "retrySafetyReasonIndex RetrySafetyDecisionHookAllowed = 3"
| "retrySafetyReasonIndex RetrySafetyDecisionHookRejected = 4"
| "retrySafetyReasonIndex RetrySafetyDecisionHookFailed = 5"
| "retrySafetyReasonIndex RetrySafetyDecisionNoHook = 6"
| "retrySafetyReasonIndex RetrySafetyDecisionExplicitOverride = 7"
| "retrySafetyReasonIndex (RetrySafetyDecisionOther s) = 8"

fun retrySuppressionReasonIndex :: "RetrySuppressionReason \<Rightarrow> nat" where
  "retrySuppressionReasonIndex RetrySuppressionNone = 0"
| "retrySuppressionReasonIndex RetrySuppressionDisabled = 1"
| "retrySuppressionReasonIndex RetrySuppressionGlobalPressure = 2"
| "retrySuppressionReasonIndex RetrySuppressionGlobalOverload = 3"
| "retrySuppressionReasonIndex RetrySuppressionLanePressure = 4"
| "retrySuppressionReasonIndex RetrySuppressionShardPressure = 5"
| "retrySuppressionReasonIndex RetrySuppressionOverloadFailure = 6"
| "retrySuppressionReasonIndex RetrySuppressionAdmissionFailure = 7"
| "retrySuppressionReasonIndex RetrySuppressionPerKeyAdmission = 8"
| "retrySuppressionReasonIndex RetrySuppressionHotKey = 9"
| "retrySuppressionReasonIndex RetrySuppressionScaleOutRecommended = 10"
| "retrySuppressionReasonIndex RetrySuppressionHookRejected = 11"
| "retrySuppressionReasonIndex RetrySuppressionHookFailed = 12"
| "retrySuppressionReasonIndex (RetrySuppressionOther s) = 13"

definition bump :: "nat \<Rightarrow> u64 list \<Rightarrow> u64 list" where
  "bump i xs = xs[i := xs ! i + 1]"

definition recordFailureKind :: "FailureKind \<Rightarrow> retryCounters \<Rightarrow> retryCounters" where
  "recordFailureKind kind c =
     (if kind = FailureNone then c
      else
        (let c1 = c\<lparr>rc_failuresTotal := rc_failuresTotal c + 1\<rparr>;
             c2 = (if kind = FailureTimeout \<or> kind = FailureDeadlineExhausted
                   then c1\<lparr>rc_timeoutsTotal := rc_timeoutsTotal c1 + 1\<rparr>
                   else if kind = FailureCancelled then c1\<lparr>rc_cancellationsTotal := rc_cancellationsTotal c1 + 1\<rparr>
                   else c1)
         in if failureKindIndex kind < failureKindBucketCount
            then c2\<lparr>rc_byFailureKind := bump (failureKindIndex kind) (rc_byFailureKind c2)\<rparr> else c2))"

definition recordEventKind :: "retryObsRecord \<Rightarrow> retryCounters \<Rightarrow> retryCounters" where
  "recordEventKind rec c =
     (case ro_Kind rec of
        RetryEventAttemptStarted \<Rightarrow> c\<lparr>rc_attemptsTotal := rc_attemptsTotal c + 1\<rparr>
      | RetryEventFailureClassified \<Rightarrow>
          if f_Kind (ro_Failure rec) \<noteq> FailureNone then recordFailureKind (f_Kind (ro_Failure rec)) c else c
      | RetryEventScheduled \<Rightarrow> c\<lparr>rc_retriesScheduledTotal := rc_retriesScheduledTotal c + 1\<rparr>
      | RetryEventSuppressed \<Rightarrow> c\<lparr>rc_retriesSuppressedTotal := rc_retriesSuppressedTotal c + 1\<rparr>
      | RetryEventSafetySuppressed \<Rightarrow> c\<lparr>rc_retrySafetySuppressedTotal := rc_retrySafetySuppressedTotal c + 1\<rparr>
      | RetryEventDeadlineStopped \<Rightarrow> c\<lparr>rc_retryDeadlineStoppedTotal := rc_retryDeadlineStoppedTotal c + 1\<rparr>
      | RetryEventMaxAttemptsStopped \<Rightarrow> c\<lparr>rc_retryMaxAttemptsStoppedTotal := rc_retryMaxAttemptsStoppedTotal c + 1\<rparr>
      | RetryEventExhausted \<Rightarrow> c\<lparr>rc_retryExhaustedTotal := rc_retryExhaustedTotal c + 1\<rparr>
      | _ \<Rightarrow> c)"

definition recordRetry :: "retryObsRecord \<Rightarrow> retryCounters \<Rightarrow> retryCounters" where
  "recordRetry rec c =
     (let c1 = recordEventKind rec c;
          c2 = (if ro_RetryReason rec \<noteq> RetryDecisionEmpty
                then c1\<lparr>rc_byRetryReason := bump (retryDecisionReasonIndex (ro_RetryReason rec)) (rc_byRetryReason c1)\<rparr>
                else c1);
          c3 = (if ro_SafetyReason rec \<noteq> RetrySafetyDecisionEmpty
                then c2\<lparr>rc_bySafetyReason := bump (retrySafetyReasonIndex (ro_SafetyReason rec)) (rc_bySafetyReason c2)\<rparr>
                else c2)
      in if ro_SuppressionReason rec \<noteq> RetrySuppressionEmpty \<and> ro_SuppressionReason rec \<noteq> RetrySuppressionNone
         then c3\<lparr>rc_bySuppressionReason :=
                   bump (retrySuppressionReasonIndex (ro_SuppressionReason rec)) (rc_bySuppressionReason c3)\<rparr>
         else c3)"

subsection \<open>Snapshot\<close>

record RetryFailureSnapshot =
  rfs_AttemptsTotal :: u64
  rfs_RetriesScheduledTotal :: u64
  rfs_RetriesSuppressedTotal :: u64
  rfs_RetrySafetySuppressedTotal :: u64
  rfs_RetryDeadlineStoppedTotal :: u64
  rfs_RetryMaxAttemptsStoppedTotal :: u64
  rfs_RetryExhaustedTotal :: u64
  rfs_FailuresTotal :: u64
  rfs_TimeoutsTotal :: u64
  rfs_CancellationsTotal :: u64
  rfs_ByFailureKind :: "(FailureKind \<times> u64) list"
  rfs_ByRetryReason :: "(RetryDecisionReason \<times> u64) list"
  rfs_BySuppressionReason :: "(RetrySuppressionReason \<times> u64) list"
  rfs_BySafetyReason :: "(RetrySafetyDecisionReason \<times> u64) list"

text \<open>The four snapshot functions pair the labels with the buckets and keep the non-zero ones; the last label of the
  reasons is the empty string, whose bucket is never shown.\<close>

definition snapshotBuckets :: "'l list \<Rightarrow> u64 list \<Rightarrow> ('l \<times> u64) list" where
  "snapshotBuckets labels counts = filter (\<lambda>(l, n). n > 0) (zip labels counts)"

definition failureKinds :: "FailureKind list" where
  "failureKinds = [FailureNone, FailureRetryable, FailurePermanent, FailureTimeout, FailureCancelled, FailureOverloaded,
     FailureRejected, FailureDeadlineExhausted, FailurePanic, FailureUnknown]"

definition snapshotFailureKinds :: "retryCounters \<Rightarrow> (FailureKind \<times> u64) list" where
  "snapshotFailureKinds c = snapshotBuckets failureKinds (rc_byFailureKind c)"

definition snapshotRetryReasons :: "retryCounters \<Rightarrow> (RetryDecisionReason \<times> u64) list" where
  "snapshotRetryReasons c = filter (\<lambda>(r, n). r \<noteq> RetryDecisionEmpty)
     (snapshotBuckets [RetryDecisionNone, RetryDecisionDisabled, RetryDecisionRetryableFailure,
        RetryDecisionPermanentFailure, RetryDecisionMaxAttempts, RetryDecisionContextCancelled,
        RetryDecisionDeadlineExhausted, RetryDecisionBudgetTooSmall, RetryDecisionEmpty] (rc_byRetryReason c))"

definition snapshotSafetyReasons :: "retryCounters \<Rightarrow> (RetrySafetyDecisionReason \<times> u64) list" where
  "snapshotSafetyReasons c = filter (\<lambda>(r, n). r \<noteq> RetrySafetyDecisionEmpty)
     (snapshotBuckets [RetrySafetyDecisionSafe, RetrySafetyDecisionUnsafe, RetrySafetyDecisionMissingKey,
        RetrySafetyDecisionHookAllowed, RetrySafetyDecisionHookRejected, RetrySafetyDecisionHookFailed,
        RetrySafetyDecisionNoHook, RetrySafetyDecisionExplicitOverride, RetrySafetyDecisionEmpty] (rc_bySafetyReason c))"

definition snapshotSuppressionReasons :: "retryCounters \<Rightarrow> (RetrySuppressionReason \<times> u64) list" where
  "snapshotSuppressionReasons c = filter (\<lambda>(r, n). r \<noteq> RetrySuppressionEmpty)
     (snapshotBuckets [RetrySuppressionNone, RetrySuppressionDisabled, RetrySuppressionGlobalPressure,
        RetrySuppressionGlobalOverload, RetrySuppressionLanePressure, RetrySuppressionShardPressure,
        RetrySuppressionOverloadFailure, RetrySuppressionAdmissionFailure, RetrySuppressionPerKeyAdmission,
        RetrySuppressionHotKey, RetrySuppressionScaleOutRecommended, RetrySuppressionHookRejected,
        RetrySuppressionHookFailed, RetrySuppressionEmpty] (rc_bySuppressionReason c))"

definition retrySnapshot :: "retryCounters \<Rightarrow> RetryFailureSnapshot" where
  "retrySnapshot c =
     \<lparr>rfs_AttemptsTotal = rc_attemptsTotal c, rfs_RetriesScheduledTotal = rc_retriesScheduledTotal c,
      rfs_RetriesSuppressedTotal = rc_retriesSuppressedTotal c,
      rfs_RetrySafetySuppressedTotal = rc_retrySafetySuppressedTotal c,
      rfs_RetryDeadlineStoppedTotal = rc_retryDeadlineStoppedTotal c,
      rfs_RetryMaxAttemptsStoppedTotal = rc_retryMaxAttemptsStoppedTotal c,
      rfs_RetryExhaustedTotal = rc_retryExhaustedTotal c, rfs_FailuresTotal = rc_failuresTotal c,
      rfs_TimeoutsTotal = rc_timeoutsTotal c, rfs_CancellationsTotal = rc_cancellationsTotal c,
      rfs_ByFailureKind = snapshotFailureKinds c, rfs_ByRetryReason = snapshotRetryReasons c,
      rfs_BySuppressionReason = snapshotSuppressionReasons c, rfs_BySafetyReason = snapshotSafetyReasons c\<rparr>"

subsection \<open>Counting a run\<close>

definition observed :: "retryEffect list \<Rightarrow> retryObsRecord list" where
  "observed es = concat (map (\<lambda>e. case e of Observe rec \<Rightarrow> [rec] | _ \<Rightarrow> []) es)"

definition kindCount :: "RetryEventKind \<Rightarrow> retryEffect list \<Rightarrow> nat" where
  "kindCount k es = length (filter (\<lambda>rec. ro_Kind rec = k) (observed es))"

lemma observed_append [simp]: "observed (xs @ ys) = observed xs @ observed ys"
  by (simp add: observed_def)

lemma kindCount_append [simp]: "kindCount k (xs @ ys) = kindCount k xs + kindCount k ys"
  by (simp add: kindCount_def)

lemma kindCount_Cons [simp]:
  "kindCount k [] = 0" "kindCount k (CallRun a b # es) = kindCount k es" "kindCount k (SleepFor a d # es) = kindCount k es"
  "kindCount k (Observe rec # es) = (if ro_Kind rec = k then 1 else 0) + kindCount k es"
  by (simp_all add: kindCount_def observed_def)

lemma kindCount_observe: "op_Observer opts \<Longrightarrow> kindCount k (observeRetry opts rec) = (if ro_Kind rec = k then 1 else 0)"
  by (simp add: observeRetry_def)

lemma kindCount_terminal [simp]:
  "kindCount RetryEventAttemptStarted (observeRetryTerminalStop opts rec reason) = 0"
  "kindCount RetryEventScheduled (observeRetryTerminalStop opts rec reason) = 0"
  by (cases reason; simp add: observeRetryTerminalStop_def observeRetry_def Let_def)+

definition counted :: "retryEffect list \<Rightarrow> bool" where
  "counted es \<longleftrightarrow> kindCount RetryEventAttemptStarted es = length (callAttempts es)
     \<and> kindCount RetryEventScheduled es = length (sleepAttempts es)"

lemma counted_append: "counted xs \<Longrightarrow> counted ys \<Longrightarrow> counted (xs @ ys)"
  by (simp add: counted_def)

lemma retryGates_counted:
  "op_Observer opts \<Longrightarrow> retryGates zero opts policy env k err failure b decision as = (st, effs) \<Longrightarrow> counted effs"
  by (auto simp: retryGates_def Let_def counted_def kindCount_observe split: if_splits)

lemma retryAfterRun_counted:
  assumes "op_Observer opts" "retryAfterRun gm zero failurePolicy opts policy env k val err b as = (st, effs)"
  shows "counted effs"
  using assms
  by (auto simp: retryAfterRun_def Let_def counted_def kindCount_observe split: if_splits prod.splits
      dest!: retryGates_counted [OF assms(1), unfolded counted_def])

lemma retryIteration_counted:
  assumes "op_Observer opts" "retryIteration gm zero failurePolicy opts policy startBudget env k b0 as = (st, effs)"
  shows "counted effs"
proof (cases "en_ctx env k = None")
  case True
  let ?b = "attemptBudget startBudget b0 (en_now env k)"
  obtain val err where run: "en_run env k ?b = (val, err)" by force
  obtain st' rs where a: "retryAfterRun gm zero failurePolicy opts policy env k val err
      (WithRuntimeAt ?b (wrapInt (db_Runtime ?b + timeSub (en_end env k) (en_now env k))) (en_end2 env k)) as = (st', rs)" by force
  have "counted rs" by (rule retryAfterRun_counted [OF assms(1) a])
  then show ?thesis using assms True a by (auto simp: retryIteration_def run Let_def counted_def kindCount_observe)
next
  case False
  then show ?thesis using assms by (auto simp: retryIteration_def Let_def counted_def kindCount_observe)
qed

lemma retryLoop_counted:
  assumes "op_Observer opts" "retryLoop gm zero failurePolicy opts policy startBudget env k b as e = (r, tr)"
  shows "counted tr"
  using assms
proof (induction gm zero failurePolicy opts policy startBudget env k b as e arbitrary: r tr rule: retryLoop.induct)
  case (1 gm zero failurePolicy opts policy startBudget env k b as e)
  show ?case
  proof (cases "k \<le> rp_MaxAttempts policy")
    case True
    obtain st effs where it: "retryIteration gm zero failurePolicy opts policy startBudget env k b as = (st, effs)" by force
    have c: "counted effs" by (rule retryIteration_counted [OF 1(2) it])
    show ?thesis
    proof (cases st)
      case (RetryReturn r')
      then show ?thesis using 1(3) c it True
        by (simp add: retryLoop.simps [of gm zero failurePolicy opts policy startBudget env k])
    next
      case (RetryNext b' as' e')
      obtain r' tr' where l: "retryLoop gm zero failurePolicy opts policy startBudget env (k + 1) b' as' e' = (r', tr')" by force
      have "counted tr'" using 1(1) [OF True it [symmetric] refl RetryNext 1(2) l] .
      then show ?thesis using 1(3) c it True RetryNext l
        by (auto simp: retryLoop.simps [of gm zero failurePolicy opts policy startBudget env k] intro: counted_append)
    qed
  next
    case False
    then show ?thesis using 1(3)
      by (simp add: retryLoop.simps [of gm zero failurePolicy opts policy startBudget env k] counted_def)
  qed
qed

text \<open>What one record adds to the counters.\<close>

lemma recordFailureKind_totals [simp]:
  "rc_attemptsTotal (recordFailureKind kind c) = rc_attemptsTotal c"
  "rc_retriesScheduledTotal (recordFailureKind kind c) = rc_retriesScheduledTotal c"
  by (simp_all add: recordFailureKind_def Let_def)

lemma recordRetry_totals:
  "rc_attemptsTotal (recordRetry rec c) = rc_attemptsTotal c + (if ro_Kind rec = RetryEventAttemptStarted then 1 else 0)"
  "rc_retriesScheduledTotal (recordRetry rec c) = rc_retriesScheduledTotal c + (if ro_Kind rec = RetryEventScheduled then 1 else 0)"
  by (cases "ro_Kind rec"; simp add: recordRetry_def recordEventKind_def Let_def)+

lemma fold_recordRetry_totals:
  "rc_attemptsTotal (fold recordRetry recs c)
     = rc_attemptsTotal c + of_nat (length (filter (\<lambda>rec. ro_Kind rec = RetryEventAttemptStarted) recs))"
  "rc_retriesScheduledTotal (fold recordRetry recs c)
     = rc_retriesScheduledTotal c + of_nat (length (filter (\<lambda>rec. ro_Kind rec = RetryEventScheduled) recs))"
  by (induction recs arbitrary: c) (simp_all add: recordRetry_totals)

text \<open>The total of failures is the sum of the failure buckets.\<close>

definition retryCounters_ok :: "retryCounters \<Rightarrow> bool" where
  "retryCounters_ok c \<longleftrightarrow> length (rc_byFailureKind c) = failureKindBucketCount
     \<and> length (rc_byRetryReason c) = retryDecisionReasonBucketCount
     \<and> length (rc_bySafetyReason c) = retrySafetyReasonBucketCount
     \<and> length (rc_bySuppressionReason c) = retrySuppressionReasonBucketCount
     \<and> rc_failuresTotal c = sum_list (rc_byFailureKind c)"

lemma failureKindIndex_less: "failureKindIndex k < failureKindBucketCount"
  by (cases k) (simp_all add: failureKindBucketCount_def)

lemma sum_list_bump: "i < length xs \<Longrightarrow> sum_list (bump i xs) = sum_list xs + 1"
proof (induction xs arbitrary: i)
  case (Cons x xs)
  then show ?case by (cases i) (simp_all add: bump_def)
qed simp

lemma length_bump [simp]: "length (bump i xs) = length xs"
  by (simp add: bump_def)

lemma recordFailureKind_ok: "retryCounters_ok c \<Longrightarrow> retryCounters_ok (recordFailureKind kind c)"
  using failureKindIndex_less [of kind]
  by (auto simp: retryCounters_ok_def recordFailureKind_def Let_def sum_list_bump)

lemma recordEventKind_ok: "retryCounters_ok c \<Longrightarrow> retryCounters_ok (recordEventKind rec c)"
  using recordFailureKind_ok [of c] by (cases "ro_Kind rec") (auto simp: recordEventKind_def retryCounters_ok_def)

lemma recordRetry_ok: "retryCounters_ok c \<Longrightarrow> retryCounters_ok (recordRetry rec c)"
  using recordEventKind_ok [of c rec] by (auto simp: recordRetry_def retryCounters_ok_def Let_def)

interpretation retryCounting: op_system recordRetry retryCounters_ok
  by unfold_locales (rule recordRetry_ok)

lemma zeroRetryCounters_ok: "retryCounters_ok zeroRetryCounters"
  by (simp add: retryCounters_ok_def zeroRetryCounters_def sum_list_replicate)

lemma sum_nonzero: "sum_list (map snd (filter (\<lambda>(l, n). n > 0) ps)) = (sum_list (map snd ps) :: u64)"
  by (induction ps) (auto simp: word_gt_0)

lemma snapshot_failures:
  assumes "retryCounters_ok c"
  shows "sum_list (map snd (rfs_ByFailureKind (retrySnapshot c))) = rfs_FailuresTotal (retrySnapshot c)"
proof -
  have "length (rc_byFailureKind c) = length failureKinds"
    using assms by (simp add: retryCounters_ok_def failureKindBucketCount_def failureKinds_def)
  then show ?thesis
    using assms by (simp add: retrySnapshot_def snapshotFailureKinds_def snapshotBuckets_def sum_nonzero retryCounters_ok_def)
qed

subsection \<open>Properties\<close>

text \<open>The retry metrics are exact. Whatever was counted before, after a run with the observer set the attempts
  counter has grown by the number of handler calls and the scheduled counter by the number of sleeps (both modulo
  2^64); and in every snapshot the failures by kind add up to the failures total.\<close>

lemma retry_counted:
  assumes "op_Observer opts" "runWithRetry gm zero failurePolicy retryPolicy opts startBudget env = (r, tr)"
    "c = fold recordRetry recs zeroRetryCounters" "c' = fold recordRetry (observed tr) c"
  shows "rc_attemptsTotal c' = rc_attemptsTotal c + of_nat (length (callAttempts tr))
    \<and> rc_retriesScheduledTotal c' = rc_retriesScheduledTotal c + of_nat (length (sleepAttempts tr))
    \<and> sum_list (map snd (rfs_ByFailureKind (retrySnapshot c'))) = rfs_FailuresTotal (retrySnapshot c')"
proof -
  have "counted tr" using retryLoop_counted [OF assms(1)] assms(2) by (simp add: runWithRetry_def)
  then have "length (filter (\<lambda>rec. ro_Kind rec = RetryEventAttemptStarted) (observed tr)) = length (callAttempts tr)"
    "length (filter (\<lambda>rec. ro_Kind rec = RetryEventScheduled) (observed tr)) = length (sleepAttempts tr)"
    by (simp_all add: counted_def kindCount_def)
  moreover have "retryCounters_ok c'"
    unfolding assms(3,4) by (intro retryCounting.run_inv zeroRetryCounters_ok)
  ultimately show ?thesis using snapshot_failures [of c'] unfolding assms(4) by (simp add: fold_recordRetry_totals)
qed

end
