(* ===== verification/Debug_View.thy ===== *)
theory Debug_View
  imports Scheduler_Facts
begin

text \<open>
  The diagnostic view of a scheduler and its rankings: \<open>internal/core/debug_collect.go\<close> and \<open>hotspot.go\<close>. The
  rankings sort with \<open>sort.Slice\<close>, whose algorithm the language does not fix. The locale of rankings shows
  that the result does not depend on it: a comparison that decides between any two elements with different identifiers
  leaves one sorted permutation, and the first elements of it rank before everything that is cut off.
\<close>

subsection \<open>Sorting with a comparison\<close>

fun insertBy :: "('a \<Rightarrow> 'a \<Rightarrow> bool) \<Rightarrow> 'a \<Rightarrow> 'a list \<Rightarrow> 'a list" where
  "insertBy lt x [] = [x]"
| "insertBy lt x (y # ys) = (if lt y x then y # insertBy lt x ys else x # y # ys)"

text \<open>\<open>sort.Slice(xs, less)\<close>, computed by insertion.\<close>

definition sortSlice :: "('a \<Rightarrow> 'a \<Rightarrow> bool) \<Rightarrow> 'a list \<Rightarrow> 'a list" where
  "sortSlice lt xs = foldr (insertBy lt) xs []"

text \<open>\<open>if len(xs) > limit { xs = xs[:limit] }\<close>, for a positive limit.\<close>

definition topOf :: "('a \<Rightarrow> 'a \<Rightarrow> bool) \<Rightarrow> int \<Rightarrow> 'a list \<Rightarrow> 'a list" where
  "topOf lt limit xs = take (nat limit) (sortSlice lt xs)"

lemma mset_insertBy: "mset (insertBy lt x ys) = add_mset x (mset ys)"
  by (induction ys) auto

lemma mset_sortSlice [simp]: "mset (sortSlice lt xs) = mset xs"
  by (induction xs) (simp_all add: sortSlice_def mset_insertBy)

lemma set_sortSlice [simp]: "set (sortSlice lt xs) = set xs"
  by (metis mset_sortSlice set_mset_mset)

lemma length_sortSlice [simp]: "length (sortSlice lt xs) = length xs"
  by (metis mset_sortSlice size_mset)

locale ranking =
  fixes lt :: "'a \<Rightarrow> 'a \<Rightarrow> bool" and ident :: "'a \<Rightarrow> 'k" and valid :: "'a \<Rightarrow> bool"
  assumes asym: "valid a \<Longrightarrow> valid b \<Longrightarrow> lt a b \<Longrightarrow> \<not> lt b a"
    and trans: "valid a \<Longrightarrow> valid b \<Longrightarrow> valid c \<Longrightarrow> lt a b \<Longrightarrow> lt b c \<Longrightarrow> lt a c"
    and total: "valid a \<Longrightarrow> valid b \<Longrightarrow> ident a \<noteq> ident b \<Longrightarrow> lt a b \<or> lt b a"
begin

lemma insertBy_sorted:
  assumes "sorted_wrt lt ys" "\<forall>y \<in> set (x # ys). valid y" "ident x \<notin> ident ` set ys"
  shows "sorted_wrt lt (insertBy lt x ys)"
  using assms
proof (induction ys)
  case (Cons y ys)
  have set: "set (insertBy lt x ys) = insert x (set ys)"
    using mset_insertBy [of lt x ys] by (metis set_mset_mset set_mset_add_mset_insert)
  show ?case
  proof (cases "lt y x")
    case True
    then show ?thesis using Cons set by auto
  next
    case False
    then have "lt x y" using total [of x y] Cons.prems by auto
    moreover have "lt x z" if "z \<in> set ys" for z
      using trans [of x y z] \<open>lt x y\<close> Cons.prems that by auto
    ultimately show ?thesis using False Cons.prems by simp
  qed
qed simp

text \<open>A list whose elements are comparable: every element valid, no identifier twice.\<close>

definition comparable :: "'a list \<Rightarrow> bool" where
  "comparable xs \<longleftrightarrow> (\<forall>x \<in> set xs. valid x) \<and> distinct (map ident xs)"

lemma sortSlice_sorted: "comparable xs \<Longrightarrow> sorted_wrt lt (sortSlice lt xs)"
proof (induction xs)
  case (Cons x xs)
  have s: "sortSlice lt (x # xs) = insertBy lt x (sortSlice lt xs)" by (simp add: sortSlice_def)
  have "sorted_wrt lt (sortSlice lt xs)" using Cons by (simp add: comparable_def)
  then show ?case unfolding s using Cons.prems by (intro insertBy_sorted) (auto simp: comparable_def)
qed (simp add: sortSlice_def)

lemma comparable_mset: "mset xs = mset ys \<Longrightarrow> comparable xs \<longleftrightarrow> comparable ys"
  unfolding comparable_def by (metis mset_eq_imp_distinct_iff mset_map set_mset_mset)

text \<open>Whatever algorithm sorts: a permutation in which no later element is smaller is this one.\<close>

lemma sorted_lt: "comparable ys \<Longrightarrow> sorted_wrt (\<lambda>a b. \<not> lt b a) ys \<Longrightarrow> sorted_wrt lt ys"
proof (induction ys)
  case (Cons y ys)
  have "lt y z" if "z \<in> set ys" for z
    using total [of y z] Cons.prems that by (fastforce simp: comparable_def)
  then show ?case using Cons by (simp add: comparable_def)
qed simp

lemma sorted_unique:
  assumes "sorted_wrt lt xs" "sorted_wrt lt ys" "mset xs = mset ys" "\<forall>x \<in> set xs. valid x"
  shows "xs = ys"
  using assms
proof (induction xs arbitrary: ys)
  case (Cons x xs)
  obtain y zs where ys: "ys = y # zs" using Cons.prems(3) by (cases ys) auto
  have set: "set (x # xs) = set (y # zs)" using Cons.prems(3) ys by (metis set_mset_mset)
  have "x = y"
  proof (rule ccontr)
    assume "x \<noteq> y"
    then have "x \<in> set zs" "y \<in> set xs" using set by auto
    then have "lt x y" "lt y x" using Cons.prems(1,2) ys by auto
    moreover have "valid x" "valid y" using Cons.prems(4) set by auto
    ultimately show False using asym by blast
  qed
  then show ?case using Cons.IH [of zs] Cons.prems ys by simp
qed simp

lemma sortSlice_unique:
  assumes "comparable xs" "mset ys = mset xs" "sorted_wrt (\<lambda>a b. \<not> lt b a) ys"
  shows "ys = sortSlice lt xs"
proof (rule sorted_unique)
  have "comparable ys" using assms(1) comparable_mset [OF assms(2)] by simp
  then show "sorted_wrt lt ys" "\<forall>x \<in> set ys. valid x" using sorted_lt assms(3) by (simp_all add: comparable_def)
  show "sorted_wrt lt (sortSlice lt xs)" using assms(1) by (rule sortSlice_sorted)
  show "mset ys = mset (sortSlice lt xs)" using assms(2) by simp
qed

text \<open>What the cut keeps.\<close>

lemma topOf_facts:
  assumes "comparable xs"
  shows "sorted_wrt lt (topOf lt limit xs)" "set (topOf lt limit xs) \<subseteq> set xs"
    "length (topOf lt limit xs) = min (nat limit) (length xs)"
    "a \<in> set (topOf lt limit xs) \<Longrightarrow> b \<in> set xs \<Longrightarrow> b \<notin> set (topOf lt limit xs) \<Longrightarrow> lt a b"
proof -
  let ?s = "sortSlice lt xs"
  have s: "?s = topOf lt limit xs @ drop (nat limit) ?s" by (simp add: topOf_def)
  have sorted: "sorted_wrt lt (topOf lt limit xs @ drop (nat limit) ?s)"
    using sortSlice_sorted [OF assms] s by simp
  then show "sorted_wrt lt (topOf lt limit xs)" by (simp add: sorted_wrt_append)
  show "set (topOf lt limit xs) \<subseteq> set xs" unfolding topOf_def by (metis set_sortSlice set_take_subset)
  show "length (topOf lt limit xs) = min (nat limit) (length xs)" by (simp add: topOf_def min.commute)
  assume "a \<in> set (topOf lt limit xs)" "b \<in> set xs" "b \<notin> set (topOf lt limit xs)"
  moreover from this have "b \<in> set (drop (nat limit) ?s)"
    using s by (metis Un_iff set_append set_sortSlice)
  ultimately show "lt a b" using sorted by (simp add: sorted_wrt_append)
qed

end

subsection \<open>The view\<close>

record laneDepthInShard =
  lds_laneID :: LaneID
  lds_depth :: u64

record shardDebugView =
  sv_shardID :: u32
  sv_depth :: u64
  sv_capacity :: u64
  sv_inFlight :: u64
  sv_queueWaitNanos :: u64
  sv_laneDeps :: "laneDepthInShard list"

record laneDebugView =
  lv_laneID :: LaneID
  lv_name :: string
  lv_depth :: u64
  lv_capacity :: u64
  lv_inFlight :: u64
  lv_submitted :: u64
  lv_completed :: u64
  lv_failed :: u64
  lv_queueFull :: u64
  lv_admissionRejected :: u64
  lv_overloadRejected :: u64
  lv_overloadShed :: u64
  lv_queueWaitTotal :: u64
  lv_queueWaitMax :: u64
  lv_runTotal :: u64
  lv_runMax :: u64

record schedulerDebugView =
  view_shardCount :: nat
  view_laneCount :: nat
  view_workerCount :: int
  view_shards :: "shardDebugView list"
  view_lanes :: "laneDebugView list"

text \<open>The body of the loop over the shards. The sums are unsigned and wrap.\<close>

definition shardView :: "Scheduler \<Rightarrow> nat \<Rightarrow> shardDebugView" where
  "shardView s i =
     (let sh = s_shards s ! i; (shardDepth, shardCapacity) = shardTotals sh
      in \<lparr>sv_shardID = of_nat i, sv_depth = shardDepth, sv_capacity = shardCapacity,
          sv_inFlight = word_of_int (s_shardInflight s ! i),
          sv_queueWaitNanos = (if i < length (s_shardQueueWait s) then acc_totalNanos (s_shardQueueWait s ! i) else 0),
          sv_laneDeps = map (\<lambda>(j, q). \<lparr>lds_laneID = of_nat j, lds_depth = of_nat (depth q)\<rparr>)
                          (enumerate 0 (sh_Lanes sh))\<rparr>)"

text \<open>Entry \<open>i\<close> of the tables \<open>laneDepth\<close> and \<open>laneCapacity\<close>: the lanes \<open>j\<close> with \<open>LaneID(j) = i\<close>, summed over the
  shards.\<close>

definition laneSumTable :: "(laneQueue \<Rightarrow> nat) \<Rightarrow> Scheduler \<Rightarrow> nat \<Rightarrow> u64" where
  "laneSumTable f s i =
     sum_list (map (\<lambda>sh. sum_list (map (\<lambda>(j, q). if unat (of_nat j :: LaneID) = i then of_nat (f q) else 0)
       (enumerate 0 (sh_Lanes sh)))) (s_shards s))"

definition laneView :: "Scheduler \<Rightarrow> nat \<Rightarrow> laneDebugView" where
  "laneView s i =
     (let counters = snapshotGCPressure (s_laneCounters s ! i);
          qw = snapshotGCPressureQueueWait (s_laneCounters s ! i);
          run = snapshotGCPressureRun (s_laneCounters s ! i)
      in \<lparr>lv_laneID = of_nat i, lv_name = Name (s_laneReg s) (of_nat i), lv_depth = laneSumTable depth s i,
          lv_capacity = laneSumTable capacity s i, lv_inFlight = word_of_int (s_laneInflight s ! i),
          lv_submitted = gc_Submitted counters, lv_completed = gc_Completed counters, lv_failed = gc_Failed counters,
          lv_queueFull = gc_QueueFull counters, lv_admissionRejected = gc_AdmissionRejected counters,
          lv_overloadRejected = gc_OverloadRejected counters, lv_overloadShed = gc_OverloadShed counters,
          lv_queueWaitTotal = ds_TotalNanos qw, lv_queueWaitMax = ds_MaxNanos qw, lv_runTotal = ds_TotalNanos run,
          lv_runMax = ds_MaxNanos run\<rparr>)"

definition collectSchedulerDebugView :: "Scheduler \<Rightarrow> schedulerDebugView" where
  "collectSchedulerDebugView s =
     \<lparr>view_shardCount = length (s_shards s), view_laneCount = Len (s_laneReg s), view_workerCount = s_workerCount s,
      view_shards = map (shardView s) [0..<length (s_shards s)],
      view_lanes = map (laneView s) [0..<Len (s_laneReg s)]\<rparr>"

definition debugViewTotals :: "schedulerDebugView \<Rightarrow> u64 \<times> u64 \<times> u64" where
  "debugViewTotals v =
     (sum_list (map sv_depth (view_shards v)), sum_list (map sv_capacity (view_shards v)),
      sum_list (map sv_inFlight (view_shards v)))"

subsection \<open>Hot shards and lanes\<close>

record HotShard =
  hsh_ShardID :: u32
  hsh_Depth :: u64
  hsh_Capacity :: u64
  hsh_InFlight :: u64
  hsh_DepthRatio :: float64

record HotLane =
  hln_LaneID :: u16
  hln_Name :: string
  hln_Depth :: u64
  hln_Capacity :: u64
  hln_InFlight :: u64
  hln_DepthRatio :: float64

definition topHotShards :: int where "topHotShards = 5"
definition topHotLanes :: int where "topHotLanes = 5"

definition hotShardLess :: "HotShard \<Rightarrow> HotShard \<Rightarrow> bool" where
  "hotShardLess a b =
     (if hsh_Depth a \<noteq> hsh_Depth b then hsh_Depth a > hsh_Depth b
      else if hsh_InFlight a \<noteq> hsh_InFlight b then hsh_InFlight a > hsh_InFlight b
      else hsh_ShardID a < hsh_ShardID b)"

definition hotShardOf :: "shardDebugView \<Rightarrow> HotShard" where
  "hotShardOf sh = \<lparr>hsh_ShardID = sv_shardID sh, hsh_Depth = sv_depth sh, hsh_Capacity = sv_capacity sh,
     hsh_InFlight = sv_inFlight sh, hsh_DepthRatio = safeRatio (sv_depth sh) (sv_capacity sh)\<rparr>"

definition rankHotShards :: "shardDebugView list \<Rightarrow> int \<Rightarrow> HotShard list" where
  "rankHotShards shards limit =
     (if limit \<le> 0 \<or> shards = [] then []
      else topOf hotShardLess limit
             (map hotShardOf (filter (\<lambda>sh. \<not> (sv_depth sh = 0 \<and> sv_inFlight sh = 0)) shards)))"

definition hotLaneLess :: "HotLane \<Rightarrow> HotLane \<Rightarrow> bool" where
  "hotLaneLess a b =
     (if hln_Depth a \<noteq> hln_Depth b then hln_Depth a > hln_Depth b
      else if hln_InFlight a \<noteq> hln_InFlight b then hln_InFlight a > hln_InFlight b
      else hln_LaneID a < hln_LaneID b)"

definition hotLaneOf :: "laneDebugView \<Rightarrow> HotLane" where
  "hotLaneOf lv = \<lparr>hln_LaneID = lv_laneID lv, hln_Name = lv_name lv, hln_Depth = lv_depth lv,
     hln_Capacity = lv_capacity lv, hln_InFlight = lv_inFlight lv,
     hln_DepthRatio = safeRatio (lv_depth lv) (lv_capacity lv)\<rparr>"

definition rankHotLanes :: "laneDebugView list \<Rightarrow> int \<Rightarrow> HotLane list" where
  "rankHotLanes lanes limit =
     (if limit \<le> 0 \<or> lanes = [] then []
      else topOf hotLaneLess limit
             (map hotLaneOf (filter (\<lambda>lv. \<not> (lv_depth lv = 0 \<and> lv_inFlight lv = 0)) lanes)))"

interpretation hotShard: ranking hotShardLess hsh_ShardID "\<lambda>_. True"
  by unfold_locales (auto simp: hotShardLess_def split: if_splits)

interpretation hotLane: ranking hotLaneLess hln_LaneID "\<lambda>_. True"
  by unfold_locales (auto simp: hotLaneLess_def split: if_splits)

subsection \<open>Facts about the view\<close>

lemma shardView_fields [simp]: "sv_depth (shardView s i) = fst (shardTotals (s_shards s ! i))"
  "sv_capacity (shardView s i) = snd (shardTotals (s_shards s ! i))" "sv_shardID (shardView s i) = of_nat i"
  "sv_inFlight (shardView s i) = word_of_int (s_shardInflight s ! i)"
  by (simp_all add: shardView_def Let_def case_prod_beta)

text \<open>The totals of the view are the totals behind \<open>Pressure\<close>.\<close>

lemma map_nth_upt: "n = length xs \<Longrightarrow> map (\<lambda>i. f (xs ! i)) [0..<n] = map f xs"
  by (rule nth_equalityI) simp_all

lemma debugViewTotals_pressure:
  assumes "length (s_shardInflight s) = length (s_shards s)"
  shows "debugViewTotals (collectSchedulerDebugView s) = collectPressureTotals s"
  unfolding debugViewTotals_def collectSchedulerDebugView_def collectPressureTotals_def schedulerDebugView.simps map_map
    comp_def shardView_fields map_nth_upt [OF refl, of "\<lambda>sh. fst (shardTotals sh)"]
    map_nth_upt [OF refl, of "\<lambda>sh. snd (shardTotals sh)"] map_nth_upt [OF assms [symmetric], of word_of_int]
  by (rule refl)

text \<open>Shard ids of the view are distinct while the shards are fewer than \<open>2\<^sup>3\<^sup>2\<close>.\<close>

lemma view_ids_distinct:
  assumes "length (s_shards s) \<le> 2 ^ 32"
  shows "distinct (map sv_shardID (view_shards (collectSchedulerDebugView s)))"
proof -
  have "inj_on (\<lambda>i. of_nat i :: u32) {0..<length (s_shards s)}"
  proof (rule inj_onI)
    fix i j assume ij: "i \<in> {0..<length (s_shards s)}" "j \<in> {0..<length (s_shards s)}" "(of_nat i :: u32) = of_nat j"
    have "unat (of_nat i :: u32) = i" "unat (of_nat j :: u32) = j"
      using ij(1,2) assms by (simp_all only: unat_of_nat atLeastLessThan_iff) (intro mod_less; simp)+
    then show "i = j" using ij(3) by metis
  qed
  then show ?thesis
    unfolding collectSchedulerDebugView_def schedulerDebugView.simps map_map comp_def shardView_fields
    by (simp only: distinct_map distinct_upt set_upt simp_thms)
qed

end
