(* ===== verification/Shard_Pressure.thy ===== *)
theory Shard_Pressure
  imports Debug_View Scale_Signal
begin

text \<open>
  Shard pressure diagnostics: \<open>internal/core/shard_pressure_policy.go\<close>, \<open>shard_pressure_classification.go\<close> and
  \<open>shard_pressure_snapshot.go\<close>. A snapshot reads the debug view, asks the hot-key tracker of each shard for its
  candidates (which expires stale entries, so the scheduler is threaded through), and classifies every shard and the
  whole queue. Clock readings are arguments; \<open>hkNow i\<close> is the reading of the tracker of shard \<open>i\<close>. \<open>cv\<close> is the
  machine's conversion of a float that does not fit an integer.
\<close>

subsection \<open>Configuration\<close>

record ShardPressureConfig =
  spc_Enabled :: bool
  spc_Window :: duration
  spc_HotShardPressureRatio :: float64
  spc_DominantLaneRatio :: float64
  spc_LocalizedHotKeyRatio :: float64
  spc_DistributedShardRatio :: float64
  spc_WorkerBusyRatio :: float64
  spc_MaxHotShards :: int
  spc_MaxLaneBreakdownPerShard :: int
  spc_MaxHotKeyCandidatesPerShard :: int

definition normalizeShardPressureConfig :: "ShardPressureConfig \<Rightarrow> ShardPressureConfig" where
  "normalizeShardPressureConfig cfg =
     (if \<not> spc_Enabled cfg then cfg
      else cfg\<lparr>spc_HotShardPressureRatio := floatOr (spc_HotShardPressureRatio cfg) (70 / 100),
        spc_DominantLaneRatio := floatOr (spc_DominantLaneRatio cfg) (60 / 100),
        spc_LocalizedHotKeyRatio := floatOr (spc_LocalizedHotKeyRatio cfg) (40 / 100),
        spc_DistributedShardRatio := floatOr (spc_DistributedShardRatio cfg) (50 / 100),
        spc_WorkerBusyRatio := floatOr (spc_WorkerBusyRatio cfg) (80 / 100),
        spc_MaxHotShards := intOr (spc_MaxHotShards cfg) 16,
        spc_MaxLaneBreakdownPerShard := intOr (spc_MaxLaneBreakdownPerShard cfg) 8,
        spc_MaxHotKeyCandidatesPerShard := intOr (spc_MaxHotKeyCandidatesPerShard cfg) 4\<rparr>)"

definition shardPressureEnabled :: "ShardPressureConfig \<Rightarrow> bool" where
  "shardPressureEnabled cfg = spc_Enabled cfg"

subsection \<open>Snapshots\<close>

record LanePressureSnapshot =
  lp_LaneID :: u16
  lp_Name :: string
  lp_QueueDepth :: int
  lp_QueueDepthRatio :: float64
  lp_QueueWaitApproxNanos :: u64
  lp_QueueWaitRatio :: float64
  lp_InflightJobs :: int
  lp_CompletedApprox :: u64
  lp_RejectedApprox :: u64
  lp_ThrottledApprox :: u64
  lp_ShedApprox :: u64
  lp_PressureRatio :: float64
  lp_ContributionRatio :: float64

record HotKeyPressureSnapshot =
  hp_KeyHash :: u64
  hp_LaneID :: u16
  hp_Status :: HotKeyStatus
  hp_QueuedApprox :: int
  hp_SubmittedApprox :: u64
  hp_RejectedApprox :: u64
  hp_ThrottledApprox :: u64
  hp_ShedApprox :: u64
  hp_DepthContributionRatio :: float64
  hp_WaitContributionRatio :: float64
  hp_AdmissionContributionRatio :: float64
  hp_ActiveMitigation :: PerKeyMitigationAction
  hp_MitigationReason :: PerKeyAdmissionReason
  hp_LastSeen :: time

record ShardPressureSnapshot =
  sp_ShardID :: int
  sp_DiagnosticsEnabled :: bool
  sp_Class :: ShardPressureClass
  sp_QueueDepth :: int
  sp_QueueCapacity :: int
  sp_QueueDepthRatio :: float64
  sp_QueueWaitApproxNanos :: u64
  sp_QueueWaitRatio :: float64
  sp_InflightJobs :: int
  sp_CompletedApprox :: u64
  sp_RejectedApprox :: u64
  sp_ThrottledApprox :: u64
  sp_ShedApprox :: u64
  sp_PressureRatio :: float64
  sp_PeerPressureRatio :: float64
  sp_SkewRatio :: float64
  sp_DominantLane :: "LanePressureSnapshot option"
  sp_LaneBreakdown :: "LanePressureSnapshot list"
  sp_HotKeyCandidates :: "HotKeyPressureSnapshot list"
  sp_UpdatedAt :: "time option"

definition zeroShardPressureSnapshot :: ShardPressureSnapshot where
  "zeroShardPressureSnapshot =
     \<lparr>sp_ShardID = 0, sp_DiagnosticsEnabled = False, sp_Class = ShardPressureEmpty, sp_QueueDepth = 0, sp_QueueCapacity = 0,
      sp_QueueDepthRatio = FFin 0, sp_QueueWaitApproxNanos = 0, sp_QueueWaitRatio = FFin 0, sp_InflightJobs = 0,
      sp_CompletedApprox = 0, sp_RejectedApprox = 0, sp_ThrottledApprox = 0, sp_ShedApprox = 0, sp_PressureRatio = FFin 0,
      sp_PeerPressureRatio = FFin 0, sp_SkewRatio = FFin 0, sp_DominantLane = None, sp_LaneBreakdown = [],
      sp_HotKeyCandidates = [], sp_UpdatedAt = None\<rparr>"

record PressureSummary =
  sm_DiagnosticsEnabled :: bool
  sm_Class :: ShardPressureClass
  sm_TotalQueueDepth :: int
  sm_TotalQueueCapacity :: int
  sm_QueueDepthRatio :: float64
  sm_TotalQueueWaitNanos :: u64
  sm_HotShardCount :: int
  sm_HotShardRatio :: float64
  sm_WorkerBusyRatio :: float64
  sm_InflightJobs :: int
  sm_DistributedPressureRatio :: float64
  sm_LocalizedPressureRatio :: float64
  sm_LaneDominanceRatio :: float64
  sm_ScaleRelevant :: bool
  sm_MitigationRelevant :: bool
  sm_HotShards :: "ShardPressureSnapshot list"
  sm_UpdatedAt :: "time option"

definition zeroPressureSummary :: PressureSummary where
  "zeroPressureSummary =
     \<lparr>sm_DiagnosticsEnabled = False, sm_Class = ShardPressureEmpty, sm_TotalQueueDepth = 0, sm_TotalQueueCapacity = 0,
      sm_QueueDepthRatio = FFin 0, sm_TotalQueueWaitNanos = 0, sm_HotShardCount = 0, sm_HotShardRatio = FFin 0,
      sm_WorkerBusyRatio = FFin 0, sm_InflightJobs = 0, sm_DistributedPressureRatio = FFin 0,
      sm_LocalizedPressureRatio = FFin 0, sm_LaneDominanceRatio = FFin 0, sm_ScaleRelevant = False,
      sm_MitigationRelevant = False, sm_HotShards = [], sm_UpdatedAt = None\<rparr>"

record shardAdmissionTotals =
  sat_submitted :: u64
  sat_rejected :: u64
  sat_throttled :: u64
  sat_shed :: u64
  sat_completed :: u64

definition laneDepthShare :: "u64 \<Rightarrow> u64 \<Rightarrow> float64" where
  "laneDepthShare shardLaneDepth laneGlobalDepth =
     (if laneGlobalDepth = 0 \<or> shardLaneDepth = 0 then FFin 0
      else fdiv (float64_of_u64 shardLaneDepth) (float64_of_u64 laneGlobalDepth))"

text \<open>\<open>uint64(float64(n) * share)\<close>.\<close>

definition scaledBy :: "(float64 \<Rightarrow> 64 word) \<Rightarrow> float64 \<Rightarrow> u64 \<Rightarrow> u64" where
  "scaledBy cv share n = u64_of_float cv (fmul (float64_of_u64 n) share)"

definition addAdmissionTotals ::
  "(float64 \<Rightarrow> 64 word) \<Rightarrow> laneDebugView list \<Rightarrow> laneDepthInShard \<Rightarrow> shardAdmissionTotals \<Rightarrow> shardAdmissionTotals" where
  "addAdmissionTotals cv lanes ld out =
     (let laneIdx = unat (lds_laneID ld)
      in if lds_depth ld = 0 then out
         else if laneIdx \<ge> length lanes then out
         else let l = lanes ! laneIdx; share = laneDepthShare (lds_depth ld) (lv_depth l)
              in if fle share (FFin 0) then out
                 else out\<lparr>sat_submitted := sat_submitted out + scaledBy cv share (lv_submitted l),
                   sat_rejected := sat_rejected out + scaledBy cv share (lv_admissionRejected l + lv_overloadRejected l),
                   sat_shed := sat_shed out + scaledBy cv share (lv_overloadShed l),
                   sat_completed := sat_completed out + scaledBy cv share (lv_completed l)\<rparr>)"

definition shardLaneAdmissionTotals ::
  "(float64 \<Rightarrow> 64 word) \<Rightarrow> shardDebugView \<Rightarrow> laneDebugView list \<Rightarrow> shardAdmissionTotals" where
  "shardLaneAdmissionTotals cv sh lanes =
     fold (addAdmissionTotals cv lanes) (sv_laneDeps sh)
       \<lparr>sat_submitted = 0, sat_rejected = 0, sat_throttled = 0, sat_shed = 0, sat_completed = 0\<rparr>"

subsection \<open>Ratios and classification\<close>

record shardPressureInput =
  spi_ShardID :: int
  spi_QueueDepth :: int
  spi_QueueCapacity :: int
  spi_QueueDepthRatio :: float64
  spi_QueueWaitApproxNanos :: u64
  spi_QueueWaitRatio :: float64
  spi_InflightJobs :: int
  spi_AdmissionPressureRatio :: float64
  spi_WorkerContributionRatio :: float64
  spi_PressureRatio :: float64
  spi_PeerPressureRatio :: float64
  spi_SkewRatio :: float64
  spi_TopHotKeyContribution :: float64
  spi_TopLaneContribution :: float64
  spi_HasHotKeyCandidate :: bool
  spi_Cfg :: ShardPressureConfig

record globalPressureInput =
  gpi_ShardCount :: int
  gpi_HotShardCount :: int
  gpi_HotShardRatio :: float64
  gpi_QueueDepthRatio :: float64
  gpi_QueueWaitRatio :: float64
  gpi_WorkerBusyRatio :: float64
  gpi_MaxSkewRatio :: float64
  gpi_LocalizedShardCount :: int
  gpi_Cfg :: ShardPressureConfig

definition computeShardPressureRatio :: "float64 \<Rightarrow> float64 \<Rightarrow> float64 \<Rightarrow> float64 \<Rightarrow> float64" where
  "computeShardPressureRatio depthRatio waitRatio admissionRatio workerRatio =
     maxFloat64 [depthRatio, waitRatio, admissionRatio, workerRatio]"

definition computeQueueWaitRatio :: "u64 \<Rightarrow> u64 \<Rightarrow> int \<Rightarrow> float64" where
  "computeQueueWaitRatio waitNanos windowNanos workerCount =
     (if windowNanos = 0 \<or> workerCount \<le> 0 then FFin 0
      else let denom = fmul (float64_of_u64 windowNanos) (float64_of_int workerCount)
           in if fle denom (FFin 0) then FFin 0
              else capOne (fdiv (float64_of_u64 waitNanos) denom))"

definition computeWorkerContributionRatio :: "int \<Rightarrow> int \<Rightarrow> float64" where
  "computeWorkerContributionRatio inflight workerCount =
     (if workerCount \<le> 0 then FFin 0
      else capOne (fdiv (float64_of_int inflight) (float64_of_int workerCount)))"

definition computeAdmissionPressureRatio :: "u64 \<Rightarrow> u64 \<Rightarrow> u64 \<Rightarrow> u64 \<Rightarrow> float64" where
  "computeAdmissionPressureRatio rejected throttled shed submitted =
     (if submitted = 0 then FFin 0
      else capOne (fdiv (float64_of_u64 (rejected + throttled + shed)) (float64_of_u64 submitted)))"

text \<open>\<open>math.MaxFloat64\<close>.\<close>

definition MaxFloat64 :: float64 where
  "MaxFloat64 = FFin ((2 - pow2 (-52)) * pow2 1023)"

definition computePeerPressureRatio :: "float64 \<Rightarrow> float64 \<Rightarrow> int \<Rightarrow> float64 \<times> float64" where
  "computePeerPressureRatio shardPressure peerSum peerCount =
     (if peerCount \<le> 0 then (FFin 0, FFin 0)
      else let peerAvg = fdiv peerSum (float64_of_int peerCount)
           in if fle peerAvg (FFin 0)
              then (if fgt shardPressure (FFin 0) then (FFin 0, MaxFloat64) else (FFin 0, FFin 0))
              else (peerAvg, fdiv shardPressure peerAvg))"

definition isLocalizedHotKeyPressure :: "shardPressureInput \<Rightarrow> bool" where
  "isLocalizedHotKeyPressure i =
     (if \<not> spc_Enabled (spi_Cfg i) then False
      else if flt (spi_PressureRatio i) (spc_HotShardPressureRatio (spi_Cfg i)) then False
      else if \<not> spi_HasHotKeyCandidate i then False
      else fge (spi_TopHotKeyContribution i) (spc_LocalizedHotKeyRatio (spi_Cfg i)))"

definition isLaneDominantPressure :: "shardPressureInput \<Rightarrow> bool" where
  "isLaneDominantPressure i =
     (if \<not> spc_Enabled (spi_Cfg i) then False
      else if flt (spi_PressureRatio i) (spc_HotShardPressureRatio (spi_Cfg i)) then False
      else if isLocalizedHotKeyPressure i then False
      else fge (spi_TopLaneContribution i) (spc_DominantLaneRatio (spi_Cfg i)))"

definition classifyShardPressure :: "shardPressureInput \<Rightarrow> ShardPressureClass" where
  "classifyShardPressure i =
     (if \<not> spc_Enabled (spi_Cfg i) then ShardPressureUnknown
      else if flt (spi_PressureRatio i) (spc_HotShardPressureRatio (spi_Cfg i)) then ShardPressureHealthy
      else if isLocalizedHotKeyPressure i then ShardPressureLocalizedKey
      else if isLaneDominantPressure i then ShardPressureLaneDominant
      else ShardPressureShardHot)"

definition isDistributedPressure :: "globalPressureInput \<Rightarrow> bool" where
  "isDistributedPressure i =
     (if \<not> spc_Enabled (gpi_Cfg i) then False
      else fge (gpi_HotShardRatio i) (spc_DistributedShardRatio (gpi_Cfg i)))"

definition classifyGlobalPressure :: "globalPressureInput \<Rightarrow> ShardPressureClass" where
  "classifyGlobalPressure i =
     (let cfg = gpi_Cfg i
      in if \<not> spc_Enabled cfg then ShardPressureUnknown
         else if gpi_ShardCount i = 0 then ShardPressureUnknown
         else if isDistributedPressure i then ShardPressureDistributed
         else if fge (gpi_WorkerBusyRatio i) (spc_WorkerBusyRatio cfg)
              \<and> fge (gpi_QueueWaitRatio i) (fmul (spc_HotShardPressureRatio cfg) (flit (1 / 2)))
              \<and> flt (gpi_MaxSkewRatio i) (FFin 2) then ShardPressureWorkerBound
         else if gpi_HotShardCount i = 0 \<and> flt (gpi_QueueDepthRatio i) (spc_HotShardPressureRatio cfg)
         then ShardPressureHealthy
         else if gpi_LocalizedShardCount i > 0 then ShardPressureLocalizedKey
         else if gpi_HotShardCount i = 1 then ShardPressureShardHot
         else if gpi_HotShardCount i > 0 then ShardPressureDistributed
         else ShardPressureHealthy)"

definition computeScaleMitigationFlags :: "ShardPressureClass \<Rightarrow> globalPressureInput \<Rightarrow> bool \<times> bool" where
  "computeScaleMitigationFlags c i =
     (case c of
        ShardPressureDistributed \<Rightarrow> (True, False)
      | ShardPressureWorkerBound \<Rightarrow> (True, False)
      | ShardPressureLocalizedKey \<Rightarrow> (False, True)
      | ShardPressureShardHot \<Rightarrow>
          (if gpi_LocalizedShardCount i > 0 then (False, True)
           else (fge (gpi_HotShardRatio i) (fmul (spc_DistributedShardRatio (gpi_Cfg i)) (flit (1 / 2))), False))
      | ShardPressureLaneDominant \<Rightarrow> (False, False)
      | ShardPressureHealthy \<Rightarrow> (False, False)
      | _ \<Rightarrow> (fge (gpi_QueueDepthRatio i) (spc_HotShardPressureRatio (gpi_Cfg i)), gpi_LocalizedShardCount i > 0))"

subsection \<open>One shard\<close>

definition buildPerKeyMitigationLookup ::
  "PerKeyAdmissionSnapshot list \<Rightarrow> int \<Rightarrow> (u64 \<times> PerKeyAdmissionSnapshot) list" where
  "buildPerKeyMitigationLookup source shardID =
     fold (\<lambda>s out. if ps_ShardID s \<noteq> shardID then out else (ps_KeyHash s, s) # out) source []"

definition entryMitigation :: "hotKeyTracker option \<Rightarrow> u64 \<Rightarrow> PerKeyMitigationAction \<times> PerKeyAdmissionReason" where
  "entryMitigation tracker keyHash =
     (case tracker of
        None \<Rightarrow> (PerKeyMitigationEmpty, PerKeyAdmissionReasonEmpty)
      | Some t \<Rightarrow>
          if \<not> enabled t then (PerKeyMitigationEmpty, PerKeyAdmissionReasonEmpty)
          else case map_of (indexOf t) keyHash of
                 None \<Rightarrow> (PerKeyMitigationEmpty, PerKeyAdmissionReasonEmpty)
               | Some idx \<Rightarrow>
                   (let e = hk_entries t ! idx
                    in if e_keyHash e \<noteq> keyHash then (PerKeyMitigationEmpty, PerKeyAdmissionReasonEmpty)
                       else (e_lastAction e, e_lastReason e)))"

definition hotKeyToPressureSnapshot ::
  "HotKeyCandidate \<Rightarrow> u64 \<Rightarrow> u64 \<Rightarrow> (u64 \<times> PerKeyAdmissionSnapshot) list \<Rightarrow> PerKeyMitigationAction \<Rightarrow>
   PerKeyAdmissionReason \<Rightarrow> HotKeyPressureSnapshot" where
  "hotKeyToPressureSnapshot c shardDepth shardWait mit fallbackAction fallbackReason =
     (let depthContrib = (if shardDepth > 0 \<and> hc_QueuedApprox c > 0
            then fdiv (float64_of_int (hc_QueuedApprox c)) (float64_of_u64 shardDepth) else FFin 0);
          waitContrib = (if shardWait > 0 \<and> fgt (hc_WaitRatio c) (FFin 0) then hc_WaitRatio c else FFin 0);
          admitContrib = (if hc_SubmittedApprox c > 0
            then fdiv (float64_of_u64 (hc_RejectedApprox c)) (float64_of_u64 (hc_SubmittedApprox c)) else FFin 0);
          (action, reason) = (case map_of mit (hc_KeyHash c) of
             Some pk \<Rightarrow> (ps_Action pk, ps_Reason pk) | None \<Rightarrow> (fallbackAction, fallbackReason));
          count = hc_RejectedApprox c;
          active = (action \<noteq> PerKeyMitigationEmpty \<and> action \<noteq> PerKeyMitigationAllow)
      in \<lparr>hp_KeyHash = hc_KeyHash c, hp_LaneID = hc_LaneID c, hp_Status = hc_Status c,
          hp_QueuedApprox = hc_QueuedApprox c, hp_SubmittedApprox = hc_SubmittedApprox c,
          hp_RejectedApprox = (if action = PerKeyMitigationReject then count else 0),
          hp_ThrottledApprox = (if action = PerKeyMitigationThrottle then count else 0),
          hp_ShedApprox = (if action = PerKeyMitigationShed then count else 0),
          hp_DepthContributionRatio = depthContrib, hp_WaitContributionRatio = waitContrib,
          hp_AdmissionContributionRatio = admitContrib,
          hp_ActiveMitigation = (if active then action else PerKeyMitigationEmpty),
          hp_MitigationReason = (if active then reason else PerKeyAdmissionReasonEmpty),
          hp_LastSeen = hc_LastSeen c\<rparr>)"

text \<open>The map from lane to throttle count, read with default 0.\<close>

definition perLaneThrottleCounts :: "HotKeyPressureSnapshot list \<Rightarrow> u16 \<Rightarrow> u64" where
  "perLaneThrottleCounts hotKeys laneID =
     sum_list (map hp_ThrottledApprox
       (filter (\<lambda>hk. hp_ActiveMitigation hk = PerKeyMitigationThrottle \<and> hp_LaneID hk = laneID) hotKeys))"

definition lanePressureLess :: "LanePressureSnapshot \<Rightarrow> LanePressureSnapshot \<Rightarrow> bool" where
  "lanePressureLess a b =
     (if \<not> feq (lp_ContributionRatio a) (lp_ContributionRatio b)
      then fgt (lp_ContributionRatio a) (lp_ContributionRatio b)
      else lp_LaneID a < lp_LaneID b)"

text \<open>The loop body of \<open>buildLaneBreakdown\<close>: \<open>[]\<close> where it continues.\<close>

definition lanePressureOf ::
  "(float64 \<Rightarrow> 64 word) \<Rightarrow> shardDebugView \<Rightarrow> laneDebugView list \<Rightarrow> LaneRegistry \<Rightarrow> u64 \<Rightarrow> int \<Rightarrow> (u16 \<Rightarrow> u64) \<Rightarrow>
   laneDepthInShard \<Rightarrow> LanePressureSnapshot list" where
  "lanePressureOf cv sh lanes laneReg windowNanos workerCount throttleByLane ld =
     (let laneIdx = unat (lds_laneID ld)
      in if lds_depth ld = 0 then []
         else if laneIdx \<ge> length lanes then []
         else let l = lanes ! laneIdx;
                  contrib = fdiv (float64_of_u64 (lds_depth ld)) (float64_of_u64 (sv_depth sh));
                  share = laneDepthShare (lds_depth ld) (lv_depth l);
                  depthRatio = safeRatio (lds_depth ld) (sv_capacity sh);
                  waitNanos = scaledBy cv share (lv_queueWaitTotal l)
              in [\<lparr>lp_LaneID = lds_laneID ld, lp_Name = Name laneReg (lds_laneID ld), lp_QueueDepth = sint (lds_depth ld),
                   lp_QueueDepthRatio = depthRatio, lp_QueueWaitApproxNanos = waitNanos,
                   lp_QueueWaitRatio = computeQueueWaitRatio waitNanos windowNanos workerCount,
                   lp_InflightJobs = int64_of_float cv (fmul (float64_of_u64 (lv_inFlight l)) share),
                   lp_CompletedApprox = scaledBy cv share (lv_completed l),
                   lp_RejectedApprox = scaledBy cv share (lv_admissionRejected l + lv_overloadRejected l),
                   lp_ThrottledApprox = throttleByLane (lds_laneID ld),
                   lp_ShedApprox = scaledBy cv share (lv_overloadShed l),
                   lp_PressureRatio = depthRatio, lp_ContributionRatio = contrib\<rparr>])"

definition buildLaneBreakdown ::
  "(float64 \<Rightarrow> 64 word) \<Rightarrow> shardDebugView \<Rightarrow> laneDebugView list \<Rightarrow> LaneRegistry \<Rightarrow> ShardPressureConfig \<Rightarrow> u64 \<Rightarrow> int \<Rightarrow>
   (u16 \<Rightarrow> u64) \<Rightarrow> LanePressureSnapshot list \<times> LanePressureSnapshot option \<times> float64" where
  "buildLaneBreakdown cv sh lanes laneReg cfg windowNanos workerCount throttleByLane =
     (if sv_depth sh = 0 \<or> sv_laneDeps sh = [] then ([], None, FFin 0)
      else let limit = (if spc_MaxLaneBreakdownPerShard cfg \<le> 0 then 8 else spc_MaxLaneBreakdownPerShard cfg);
               breakdown0 = concat (map (lanePressureOf cv sh lanes laneReg windowNanos workerCount throttleByLane)
                              (sv_laneDeps sh));
               topContrib = maxFrom (FFin 0) (map lp_ContributionRatio breakdown0);
               breakdown = topOf lanePressureLess limit breakdown0;
               dominant = (case breakdown of
                  [] \<Rightarrow> None
                | d # _ \<Rightarrow> if fge (lp_ContributionRatio d) (spc_DominantLaneRatio cfg) then Some d else None)
           in (breakdown, dominant, topContrib))"

text \<open>The hot keys of one shard: the candidates of its tracker, which expires stale keys first.\<close>

definition hotKeyPressures ::
  "ShardPressureConfig \<Rightarrow> nat \<Rightarrow> shardDebugView \<Rightarrow> (u64 \<times> PerKeyAdmissionSnapshot) list \<Rightarrow> time \<Rightarrow> Scheduler \<Rightarrow>
   HotKeyPressureSnapshot list \<times> Scheduler" where
  "hotKeyPressures cfg shardID sh mit hkNow s =
     (case hotKeyTrackerForShard s shardID of
        None \<Rightarrow> ([], s)
      | Some hk \<Rightarrow>
          if \<not> enabled hk then ([], s)
          else let (found, hk') = detectHotKeyCandidates hk (int shardID) (sv_depth sh) (sv_queueWaitNanos sh) hkNow;
                   candidates = (case found of None \<Rightarrow> [] | Some (_, cs) \<Rightarrow> cs);
                   limit = (if spc_MaxHotKeyCandidatesPerShard cfg \<le> 0 then 4 else spc_MaxHotKeyCandidatesPerShard cfg);
                   snapOf = (\<lambda>c. let (action, reason) = entryMitigation (Some hk') (hc_KeyHash c)
                     in hotKeyToPressureSnapshot (c\<lparr>hc_Key := []\<rparr>) (sv_depth sh) (sv_queueWaitNanos sh) mit action reason)
               in (map snapOf (take (nat limit) candidates), withTracker shardID (\<lambda>_. hk') s))"

definition keyContribution :: "HotKeyPressureSnapshot \<Rightarrow> float64" where
  "keyContribution hk =
     maxFloat64 [hp_DepthContributionRatio hk, hp_WaitContributionRatio hk, hp_AdmissionContributionRatio hk]"

definition buildShardPressureSnapshot ::
  "(float64 \<Rightarrow> 64 word) \<Rightarrow> int \<Rightarrow> schedulerDebugView \<Rightarrow> ShardPressureConfig \<Rightarrow> PerKeyAdmissionSnapshot list \<Rightarrow> float64 \<Rightarrow>
   int \<Rightarrow> time \<Rightarrow> time \<Rightarrow> Scheduler \<Rightarrow> ShardPressureSnapshot \<times> Scheduler" where
  "buildShardPressureSnapshot cv shardID view cfg perKeySnaps peerPressureSum peerCount now hkNow s =
     (if shardID < 0 \<or> shardID \<ge> int (length (view_shards view))
      then (zeroShardPressureSnapshot\<lparr>sp_ShardID := shardID, sp_Class := ShardPressureUnknown, sp_UpdatedAt := Some now\<rparr>, s)
      else
        let sh = view_shards view ! nat shardID;
            windowNanos = word_of_int (spc_Window cfg);
            depthRatio = safeRatio (sv_depth sh) (sv_capacity sh);
            waitRatio = computeQueueWaitRatio (sv_queueWaitNanos sh) windowNanos (view_workerCount view);
            workerRatio = computeWorkerContributionRatio (sint (sv_inFlight sh)) (view_workerCount view);
            mitLookup = buildPerKeyMitigationLookup perKeySnaps shardID;
            (hotKeySnaps, s') = hotKeyPressures cfg (nat shardID) sh mitLookup hkNow s;
            topKeyContrib = maxFrom (FFin 0) (map keyContribution hotKeySnaps);
            throttleByLane = perLaneThrottleCounts hotKeySnaps;
            totals0 = shardLaneAdmissionTotals cv sh (view_lanes view);
            totals = totals0\<lparr>sat_throttled := sat_throttled totals0 + sum_list (map hp_ThrottledApprox hotKeySnaps)\<rparr>;
            admissionRatio = computeAdmissionPressureRatio (sat_rejected totals) (sat_throttled totals) (sat_shed totals)
              (sat_submitted totals);
            pressureRatio = computeShardPressureRatio depthRatio waitRatio admissionRatio workerRatio;
            (peerAvg, skew) = computePeerPressureRatio pressureRatio peerPressureSum peerCount;
            (lanes, dominant, topLaneContrib) = buildLaneBreakdown cv sh (view_lanes view) (s_laneReg s) cfg windowNanos
              (view_workerCount view) throttleByLane;
            classInput = \<lparr>spi_ShardID = shardID, spi_QueueDepth = sint (sv_depth sh), spi_QueueCapacity = sint (sv_capacity sh),
              spi_QueueDepthRatio = depthRatio, spi_QueueWaitApproxNanos = sv_queueWaitNanos sh,
              spi_QueueWaitRatio = waitRatio, spi_InflightJobs = sint (sv_inFlight sh),
              spi_AdmissionPressureRatio = admissionRatio, spi_WorkerContributionRatio = workerRatio,
              spi_PressureRatio = pressureRatio, spi_PeerPressureRatio = peerAvg, spi_SkewRatio = skew,
              spi_TopHotKeyContribution = topKeyContrib, spi_TopLaneContribution = topLaneContrib,
              spi_HasHotKeyCandidate = (hotKeySnaps \<noteq> []), spi_Cfg = cfg\<rparr>
        in (\<lparr>sp_ShardID = shardID, sp_DiagnosticsEnabled = True, sp_Class = classifyShardPressure classInput,
             sp_QueueDepth = sint (sv_depth sh), sp_QueueCapacity = sint (sv_capacity sh), sp_QueueDepthRatio = depthRatio,
             sp_QueueWaitApproxNanos = sv_queueWaitNanos sh, sp_QueueWaitRatio = waitRatio,
             sp_InflightJobs = sint (sv_inFlight sh), sp_CompletedApprox = sat_completed totals,
             sp_RejectedApprox = sat_rejected totals, sp_ThrottledApprox = sat_throttled totals,
             sp_ShedApprox = sat_shed totals, sp_PressureRatio = pressureRatio, sp_PeerPressureRatio = peerAvg,
             sp_SkewRatio = skew, sp_DominantLane = dominant, sp_LaneBreakdown = lanes,
             sp_HotKeyCandidates = hotKeySnaps, sp_UpdatedAt = Some now\<rparr>, s'))"

subsection \<open>All shards\<close>

definition shardPressureLess :: "ShardPressureSnapshot \<Rightarrow> ShardPressureSnapshot \<Rightarrow> bool" where
  "shardPressureLess a b =
     (if \<not> feq (sp_PressureRatio a) (sp_PressureRatio b) then fgt (sp_PressureRatio a) (sp_PressureRatio b)
      else if sp_QueueDepth a \<noteq> sp_QueueDepth b then sp_QueueDepth a > sp_QueueDepth b
      else sp_ShardID a < sp_ShardID b)"

definition rankHotShardPressures :: "ShardPressureSnapshot list \<Rightarrow> int \<Rightarrow> ShardPressureSnapshot list" where
  "rankHotShardPressures summaries limit =
     (if limit \<le> 0 \<or> summaries = [] then []
      else topOf shardPressureLess limit
             (filter (\<lambda>sh. \<not> (fle (sp_PressureRatio sh) (FFin 0) \<and> sp_QueueDepth sh \<le> 0)) summaries))"

record pressureViewBundle =
  pvb_view :: schedulerDebugView
  pvb_perKeySnaps :: "PerKeyAdmissionSnapshot list"
  pvb_summaries :: "ShardPressureSnapshot list"

definition hotLimitOf :: "ShardPressureConfig \<Rightarrow> int" where
  "hotLimitOf cfg = (if spc_MaxHotShards cfg \<le> 0 then 16 else spc_MaxHotShards cfg)"

definition hotShardPressuresFromBundle :: "pressureViewBundle \<Rightarrow> ShardPressureConfig \<Rightarrow> ShardPressureSnapshot list" where
  "hotShardPressuresFromBundle bundle cfg = rankHotShardPressures (pvb_summaries bundle) (hotLimitOf cfg)"

text \<open>The first pass: a ratio without admissions for every shard, and their floating-point sum in order.\<close>

definition partialRatio :: "schedulerDebugView \<Rightarrow> ShardPressureConfig \<Rightarrow> shardDebugView \<Rightarrow> float64" where
  "partialRatio view cfg sh =
     computeShardPressureRatio (safeRatio (sv_depth sh) (sv_capacity sh))
       (computeQueueWaitRatio (sv_queueWaitNanos sh) (word_of_int (spc_Window cfg)) (view_workerCount view)) (FFin 0)
       (computeWorkerContributionRatio (sint (sv_inFlight sh)) (view_workerCount view))"

definition peerSumOf :: "float64 list \<Rightarrow> float64" where
  "peerSumOf rs = foldl fadd (FFin 0) rs"

text \<open>The second pass, from shard \<open>i\<close> on.\<close>

fun summariesFrom ::
  "(float64 \<Rightarrow> 64 word) \<Rightarrow> schedulerDebugView \<Rightarrow> ShardPressureConfig \<Rightarrow> PerKeyAdmissionSnapshot list \<Rightarrow> float64 \<Rightarrow> time \<Rightarrow>
   (nat \<Rightarrow> time) \<Rightarrow> nat \<Rightarrow> float64 list \<Rightarrow> Scheduler \<Rightarrow> ShardPressureSnapshot list \<times> Scheduler" where
  "summariesFrom cv view cfg pks peerSum now hkNow i [] s = ([], s)"
| "summariesFrom cv view cfg pks peerSum now hkNow i (r # rs) s =
     (let (snap, s1) = buildShardPressureSnapshot cv (int i) view cfg pks (fsub peerSum r)
            (int (length (view_shards view)) - 1) now (hkNow i) s;
          (snaps, s2) = summariesFrom cv view cfg pks peerSum now hkNow (Suc i) rs s1
      in (snap # snaps, s2))"

definition collectPressureView ::
  "(float64 \<Rightarrow> 64 word) \<Rightarrow> ShardPressureConfig \<Rightarrow> time \<Rightarrow> time \<Rightarrow> (nat \<Rightarrow> time) \<Rightarrow> Scheduler \<Rightarrow>
   pressureViewBundle \<times> Scheduler" where
  "collectPressureView cv cfg now pkNow hkNow s =
     (let view = collectSchedulerDebugView s; perKeySnaps = PerKeyAdmissionSnapshots s pkNow
      in if view_shards view = []
         then (\<lparr>pvb_view = view, pvb_perKeySnaps = perKeySnaps, pvb_summaries = []\<rparr>, s)
         else let partials = map (partialRatio view cfg) (view_shards view);
                  (summaries, s') = summariesFrom cv view cfg perKeySnaps (peerSumOf partials) now hkNow 0 partials s
              in (\<lparr>pvb_view = view, pvb_perKeySnaps = perKeySnaps, pvb_summaries = summaries\<rparr>, s'))"

definition buildPressureSummary :: "pressureViewBundle \<Rightarrow> ShardPressureConfig \<Rightarrow> time \<Rightarrow> PressureSummary" where
  "buildPressureSummary bundle cfg now =
     (let summaries = pvb_summaries bundle; shardCount = length summaries; view = pvb_view bundle
      in if \<not> shardPressureEnabled cfg then zeroPressureSummary\<lparr>sm_UpdatedAt := Some now\<rparr>
         else if shardCount = 0
         then zeroPressureSummary\<lparr>sm_DiagnosticsEnabled := True, sm_Class := ShardPressureUnknown, sm_UpdatedAt := Some now\<rparr>
         else
           let (totalDepth, totalCapacity, totalInFlight) = debugViewTotals view;
               totalWait = sum_list (map sv_queueWaitNanos (view_shards view));
               globalDepthRatio = safeRatio totalDepth totalCapacity;
               globalWaitRatio = computeQueueWaitRatio totalWait (word_of_int (spc_Window cfg)) (view_workerCount view);
               workerBusy = computeWorkerContributionRatio (sint totalInFlight) (view_workerCount view);
               hotShards = rankHotShardPressures summaries (hotLimitOf cfg);
               hotCount = int (length (filter (\<lambda>sh. fge (sp_PressureRatio sh) (spc_HotShardPressureRatio cfg)) summaries));
               localized = filter (\<lambda>sh. sp_Class sh = ShardPressureLocalizedKey) summaries;
               localizedRatio = maxFrom (FFin 0) (map sp_PressureRatio localized);
               laneDomRatio = maxFrom (FFin 0)
                 (concat (map (\<lambda>sh. case sp_DominantLane sh of None \<Rightarrow> [] | Some d \<Rightarrow> [lp_ContributionRatio d]) summaries));
               maxSkew = maxFrom (FFin 0) (map sp_SkewRatio summaries);
               hotShardRatio = fdiv (float64_of_int hotCount) (float64_of_int (int shardCount));
               globalInput = \<lparr>gpi_ShardCount = int shardCount, gpi_HotShardCount = hotCount, gpi_HotShardRatio = hotShardRatio,
                 gpi_QueueDepthRatio = globalDepthRatio, gpi_QueueWaitRatio = globalWaitRatio, gpi_WorkerBusyRatio = workerBusy,
                 gpi_MaxSkewRatio = maxSkew, gpi_LocalizedShardCount = int (length localized), gpi_Cfg = cfg\<rparr>;
               cls = classifyGlobalPressure globalInput;
               (scale, mitigation) = computeScaleMitigationFlags cls globalInput
           in \<lparr>sm_DiagnosticsEnabled = True, sm_Class = cls, sm_TotalQueueDepth = sint totalDepth,
               sm_TotalQueueCapacity = sint totalCapacity, sm_QueueDepthRatio = globalDepthRatio,
               sm_TotalQueueWaitNanos = totalWait, sm_HotShardCount = hotCount, sm_HotShardRatio = hotShardRatio,
               sm_WorkerBusyRatio = workerBusy, sm_InflightJobs = sint totalInFlight,
               sm_DistributedPressureRatio = hotShardRatio, sm_LocalizedPressureRatio = localizedRatio,
               sm_LaneDominanceRatio = laneDomRatio, sm_ScaleRelevant = scale, sm_MitigationRelevant = mitigation,
               sm_HotShards = hotShards, sm_UpdatedAt = Some now\<rparr>)"

subsection \<open>The scheduler's diagnostic operations\<close>

text \<open>The scheduler with the fields that only the diagnostics use. \<open>pc_now\<close>, \<open>pc_later\<close> are the two readings of the
  clock by the caller, \<open>pc_pk\<close> the one of the per-key snapshots, \<open>pc_hk\<close> the readings by the trackers.\<close>

record diagScheduler =
  dg_sched :: Scheduler
  dg_shardPressureCfg :: ShardPressureConfig
  dg_scaleCalc :: "scaleSignalCalculator option"

record pressureClock =
  pc_now :: time
  pc_pk :: time
  pc_later :: time
  pc_hk :: "nat \<Rightarrow> time"

definition PressureSummarySnapshot ::
  "(float64 \<Rightarrow> 64 word) \<Rightarrow> pressureClock \<Rightarrow> diagScheduler \<Rightarrow> PressureSummary \<times> diagScheduler" where
  "PressureSummarySnapshot cv clk d =
     (let cfg = normalizeShardPressureConfig (dg_shardPressureCfg d)
      in if \<not> shardPressureEnabled cfg then (zeroPressureSummary\<lparr>sm_UpdatedAt := Some (pc_now clk)\<rparr>, d)
         else let (bundle, s') = collectPressureView cv cfg (pc_now clk) (pc_pk clk) (pc_hk clk) (dg_sched d)
              in (buildPressureSummary bundle cfg (pc_later clk), d\<lparr>dg_sched := s'\<rparr>))"

text \<open>\<open>None\<close> is the result \<open>(_, false)\<close>.\<close>

definition ShardPressureSnapshotOf ::
  "(float64 \<Rightarrow> 64 word) \<Rightarrow> int \<Rightarrow> pressureClock \<Rightarrow> diagScheduler \<Rightarrow> ShardPressureSnapshot option \<times> diagScheduler" where
  "ShardPressureSnapshotOf cv shardID clk d =
     (let cfg = normalizeShardPressureConfig (dg_shardPressureCfg d)
      in if shardID < 0 \<or> shardID \<ge> int (length (s_shards (dg_sched d))) then (None, d)
         else if \<not> shardPressureEnabled cfg
         then (Some (zeroShardPressureSnapshot\<lparr>sp_ShardID := shardID, sp_UpdatedAt := Some (pc_now clk)\<rparr>), d)
         else let (bundle, s') = collectPressureView cv cfg (pc_now clk) (pc_pk clk) (pc_hk clk) (dg_sched d)
              in (if shardID \<ge> int (length (pvb_summaries bundle)) then None else Some (pvb_summaries bundle ! nat shardID),
                  d\<lparr>dg_sched := s'\<rparr>))"

definition HotShardPressureSnapshots ::
  "(float64 \<Rightarrow> 64 word) \<Rightarrow> pressureClock \<Rightarrow> diagScheduler \<Rightarrow> ShardPressureSnapshot list \<times> diagScheduler" where
  "HotShardPressureSnapshots cv clk d =
     (let cfg = normalizeShardPressureConfig (dg_shardPressureCfg d)
      in if \<not> shardPressureEnabled cfg then ([], d)
         else let (bundle, s') = collectPressureView cv cfg (pc_now clk) (pc_pk clk) (pc_hk clk) (dg_sched d)
              in (hotShardPressuresFromBundle bundle cfg, d\<lparr>dg_sched := s'\<rparr>))"

definition AppendHotShardPressureSnapshots ::
  "(float64 \<Rightarrow> 64 word) \<Rightarrow> pressureClock \<Rightarrow> ShardPressureSnapshot list \<Rightarrow> diagScheduler \<Rightarrow>
   ShardPressureSnapshot list \<times> diagScheduler" where
  "AppendHotShardPressureSnapshots cv clk dst d =
     (let cfg = normalizeShardPressureConfig (dg_shardPressureCfg d)
      in if \<not> shardPressureEnabled cfg then (dst, d)
         else let (bundle, s') = collectPressureView cv cfg (pc_now clk) (pc_pk clk) (pc_hk clk) (dg_sched d)
              in (dst @ hotShardPressuresFromBundle bundle cfg, d\<lparr>dg_sched := s'\<rparr>))"

end
