(* ===== verification/Debug_Snapshot.thy ===== *)
theory Debug_Snapshot
  imports Shard_Pressure
begin

text \<open>
  The two operations that put the diagnostics together: the autoscaling signal of a running scheduler (the part of
  \<open>internal/core/scale_signal.go\<close> that reads it) and the debug snapshot of \<open>internal/core/debug_snapshot.go\<close>, with the
  flat views of \<open>debug_snapshot_v05.go\<close>. A Go string type over a closed set of constants is the datatype of the constants.
\<close>

subsection \<open>The input of the scale signal\<close>

definition schedAdmissionCounterSample :: "Scheduler \<Rightarrow> admissionCounterSample" where
  "schedAdmissionCounterSample s =
     (let fragments = map admissionSampleFragment (s_laneCounters s)
      in \<lparr>acs_submitted = sum_list (map fst fragments), acs_rejected = sum_list (map (fst \<circ> snd) fragments),
          acs_shed = sum_list (map (snd \<circ> snd) fragments), acs_throttled = s_perKeyThrottledTotal s\<rparr>)"

text \<open>\<open>time.Duration(maxNanos)\<close> reads the unsigned maximum as a signed number.\<close>

definition schedulerQueueWaitMax :: "Scheduler \<Rightarrow> duration" where
  "schedulerQueueWaitMax s =
     sint (fold (\<lambda>c m. if queueWaitMaxNanos c > m then queueWaitMaxNanos c else m) (s_laneCounters s) 0)"

record scaleShardAggregates =
  ssa_hotShardCount :: int
  ssa_hotShardRatio :: float64
  ssa_hotKeyCandidateCount :: int
  ssa_localizedRatio :: float64
  ssa_pressureClass :: ShardPressureClass

record hotKeyScan =
  hsc_hotKeyCount :: int
  hsc_maxLocalized :: float64
  hsc_localizedShardCount :: int

text \<open>The loop over the hot shards that asks their trackers for candidates.\<close>

definition scanHotShard ::
  "ShardPressureConfig \<Rightarrow> schedulerDebugView \<Rightarrow> (nat \<Rightarrow> time) \<Rightarrow> nat \<Rightarrow> hotKeyScan \<times> Scheduler \<Rightarrow> hotKeyScan \<times> Scheduler" where
  "scanHotShard spCfg view hkNow shardID acc =
     (let (scan, s) = acc
      in if shardID \<ge> length (view_shards view) then acc
         else case hotKeyTrackerForShard s shardID of
                None \<Rightarrow> acc
              | Some hk \<Rightarrow>
                  if \<not> enabled hk then acc
                  else let sh = view_shards view ! shardID;
                           (found, hk') = detectHotKeyCandidates hk (int shardID) (sv_depth sh) (sv_queueWaitNanos sh) (hkNow shardID);
                           cands = (case found of None \<Rightarrow> [] | Some (_, cs) \<Rightarrow> cs);
                           depths = map hc_DepthRatio cands;
                           locThreshold = floatOr (spc_LocalizedHotKeyRatio spCfg) (40 / 100)
                       in (\<lparr>hsc_hotKeyCount = hsc_hotKeyCount scan + int (length cands),
                            hsc_maxLocalized = maxFrom (hsc_maxLocalized scan) depths,
                            hsc_localizedShardCount = hsc_localizedShardCount scan
                              + (if fge (maxFrom (FFin 0) depths) locThreshold then 1 else 0)\<rparr>,
                           withTracker shardID (\<lambda>_. hk') s))"

definition scaleHot :: "ShardPressureConfig \<Rightarrow> schedulerDebugView \<Rightarrow> shardDebugView \<Rightarrow> bool" where
  "scaleHot spCfg view sh =
     (if shardPressureEnabled spCfg then fge (partialRatio view spCfg sh) (spc_HotShardPressureRatio spCfg)
      else sv_depth sh > 0 \<or> sv_inFlight sh > 0)"

definition scaleSkews :: "float64 list \<Rightarrow> float64 list" where
  "scaleSkews ratios =
     (let peerCount = int (length ratios) - 1; peerSum = peerSumOf ratios
      in if peerCount > 0
         then map (\<lambda>r. fdiv r (fdiv (fsub peerSum r) (float64_of_int peerCount))) ratios else [])"

text \<open>\<open>float64(pressure.TotalInFlight) / float64(workerCount)\<close>, at most 1.\<close>

definition workerBusyOf :: "Pressure \<Rightarrow> int \<Rightarrow> float64" where
  "workerBusyOf p workerCount =
     (if workerCount > 0 then capOne (fdiv (float64_of_u64 (p_TotalInFlight p)) (float64_of_int workerCount)) else FFin 0)"

definition buildScaleSignalShardAggregates ::
  "ShardPressureConfig \<Rightarrow> schedulerDebugView \<Rightarrow> (nat \<Rightarrow> time) \<Rightarrow> Scheduler \<Rightarrow> scaleShardAggregates \<times> Scheduler" where
  "buildScaleSignalShardAggregates cfg0 view hkNow s =
     (let spCfg = normalizeShardPressureConfig cfg0; shardCount = length (view_shards view)
      in if shardCount = 0
         then (\<lparr>ssa_hotShardCount = 0, ssa_hotShardRatio = FFin 0, ssa_hotKeyCandidateCount = 0, ssa_localizedRatio = FFin 0,
                ssa_pressureClass = ShardPressureUnknown\<rparr>, s)
         else
           let windowNanos = word_of_int (spc_Window spCfg) :: u64;
               ratios = map (partialRatio view spCfg) (view_shards view);
               hot = filter (\<lambda>i. scaleHot spCfg view (view_shards view ! i)) [0..<shardCount];
               hotLimit = hotLimitOf spCfg;
               maxSkew = maxFrom (FFin 0) (scaleSkews ratios);
               (scan, s') = fold (scanHotShard spCfg view hkNow) (take (nat hotLimit) hot)
                 (\<lparr>hsc_hotKeyCount = 0, hsc_maxLocalized = FFin 0, hsc_localizedShardCount = 0\<rparr>, s);
               hotCount = (if shardPressureEnabled spCfg then int (length hot)
                 else int (length (rankHotShards (view_shards view) hotLimit)));
               hotShardRatio = fdiv (float64_of_int hotCount) (float64_of_int (int shardCount));
               pressure = schedPressure s';
               queueWaitRatio = (if windowNanos > 0 \<and> view_workerCount view > 0
                 then computeQueueWaitRatio (sum_list (map sv_queueWaitNanos (view_shards view))) windowNanos (view_workerCount view)
                 else FFin 0);
               cls = (if shardPressureEnabled spCfg
                 then classifyGlobalPressure \<lparr>gpi_ShardCount = int shardCount, gpi_HotShardCount = hotCount,
                   gpi_HotShardRatio = hotShardRatio, gpi_QueueDepthRatio = p_TotalDepthRatio pressure,
                   gpi_QueueWaitRatio = queueWaitRatio, gpi_WorkerBusyRatio = workerBusyOf pressure (view_workerCount view),
                   gpi_MaxSkewRatio = maxSkew, gpi_LocalizedShardCount = hsc_localizedShardCount scan, gpi_Cfg = spCfg\<rparr>
                 else ShardPressureHealthy)
           in (\<lparr>ssa_hotShardCount = hotCount, ssa_hotShardRatio = hotShardRatio, ssa_hotKeyCandidateCount = hsc_hotKeyCount scan,
                ssa_localizedRatio = hsc_maxLocalized scan, ssa_pressureClass = cls\<rparr>, s'))"

definition buildScaleSignalRawInput ::
  "ShardPressureConfig \<Rightarrow> (nat \<Rightarrow> time) \<Rightarrow> Scheduler \<Rightarrow> (scaleSignalInput \<times> admissionCounterSample) \<times> Scheduler" where
  "buildScaleSignalRawInput cfg0 hkNow s =
     (let pressure = schedPressure s; view = collectSchedulerDebugView s;
          (aggregates, s') = buildScaleSignalShardAggregates cfg0 view hkNow s
      in ((\<lparr>si_QueueDepthTotal = sint (p_TotalDepth pressure), si_QueueCapacityTotal = sint (p_TotalCapacity pressure),
            si_QueueWaitMax = schedulerQueueWaitMax s', si_AdmissionRejectedRate = FFin 0, si_AdmissionShedRate = FFin 0,
            si_AdmissionThrottledRate = FFin 0, si_WorkerBusyRatio = workerBusyOf pressure (s_workerCount s),
            si_HotShardCount = ssa_hotShardCount aggregates, si_TotalShardCount = int (length (view_shards view)),
            si_HotShardRatio = ssa_hotShardRatio aggregates, si_HotKeyCandidateCount = ssa_hotKeyCandidateCount aggregates,
            si_LocalizedHotKeyRatio = ssa_localizedRatio aggregates,
            si_ShardPressureClass = ssa_pressureClass aggregates\<rparr>, schedAdmissionCounterSample s'), s'))"

subsection \<open>The signal\<close>

definition autoscalingEnabled :: "AutoscalingSignalConfig \<Rightarrow> bool" where
  "autoscalingEnabled cfg = asc_Enabled cfg"

definition disabledScaleSignal :: "time \<Rightarrow> ScaleSignal" where
  "disabledScaleSignal now =
     zeroScaleSignal\<lparr>ss_Reason := ScaleReasonNone, ss_Scope := ScaleScopeNone, ss_WindowEndedAt := Some now\<rparr>"

text \<open>The rates since the last sample; the first sample takes the rates since the start.\<close>

definition sampleRates :: "scaleSignalCalculator \<Rightarrow> admissionCounterSample \<Rightarrow> float64 \<times> float64 \<times> float64" where
  "sampleRates calc counters =
     (if calc_lastSampleAt calc = None \<and> acs_submitted counters > 0
      then (rateOf (acs_rejected counters) (acs_submitted counters), rateOf (acs_shed counters) (acs_submitted counters),
            rateOf (acs_throttled counters) (acs_submitted counters))
      else admissionRates counters (calc_lastCounters calc))"

definition ScaleSignalSnapshotOf :: "time \<Rightarrow> (nat \<Rightarrow> time) \<Rightarrow> diagScheduler \<Rightarrow> ScaleSignal \<times> diagScheduler" where
  "ScaleSignalSnapshotOf now hkNow d =
     (case dg_scaleCalc d of
        None \<Rightarrow> (disabledScaleSignal now, d)
      | Some calc \<Rightarrow>
          if \<not> autoscalingEnabled (calc_cfg calc) then (disabledScaleSignal now, d)
          else let ((raw, counters), s') = buildScaleSignalRawInput (dg_shardPressureCfg d) hkNow (dg_sched d);
                   (rejectRate, shedRate, throttleRate) = sampleRates calc counters;
                   i = raw\<lparr>si_AdmissionRejectedRate := rejectRate, si_AdmissionShedRate := shedRate,
                           si_AdmissionThrottledRate := throttleRate\<rparr>;
                   (sig, calc') = calculate calc i counters now
               in (sig, d\<lparr>dg_sched := s', dg_scaleCalc := Some calc'\<rparr>))"

definition PerKeyThrottledTotal :: "Scheduler \<Rightarrow> u64" where
  "PerKeyThrottledTotal s = s_perKeyThrottledTotal s"

definition ScaleAdmissionTotals :: "Scheduler \<Rightarrow> u64 \<times> u64 \<times> u64" where
  "ScaleAdmissionTotals s =
     (let sample = schedAdmissionCounterSample s in (acs_rejected sample, acs_shed sample, acs_throttled sample))"

definition ConfigureShardPressure :: "ShardPressureConfig \<Rightarrow> diagScheduler \<Rightarrow> diagScheduler" where
  "ConfigureShardPressure cfg d = d\<lparr>dg_shardPressureCfg := normalizeShardPressureConfig cfg\<rparr>"

record ScaleSignalView =
  sgv_DiagnosticsEnabled :: bool
  sgv_Recommended :: bool
  sgv_PressureRatio :: float64
  sgv_Reason :: ScaleReason
  sgv_Scope :: ScaleScope
  sgv_QueueDepthRatio :: float64
  sgv_QueueWaitMaxMillis :: float64
  sgv_AdmissionRejectedRate :: float64
  sgv_AdmissionShedRate :: float64
  sgv_AdmissionThrottledRate :: float64
  sgv_WorkerBusyRatio :: float64
  sgv_HotShardCount :: int
  sgv_HotKeyCandidateCount :: int
  sgv_LocalizedHotKeyRatio :: float64
  sgv_LocalizedHotKey :: bool

definition scaleSignalToSnapshot :: "ScaleSignal \<Rightarrow> ScaleSignalView" where
  "scaleSignalToSnapshot sig =
     \<lparr>sgv_DiagnosticsEnabled = ss_DiagnosticsEnabled sig, sgv_Recommended = ss_Recommended sig,
      sgv_PressureRatio = ss_PressureRatio sig, sgv_Reason = ss_Reason sig, sgv_Scope = ss_Scope sig,
      sgv_QueueDepthRatio = ss_QueueDepthRatio sig,
      sgv_QueueWaitMaxMillis = fdiv (float64_of_int (ss_QueueWaitMax sig)) (float64_of_int Millisecond),
      sgv_AdmissionRejectedRate = ss_AdmissionRejectedRate sig, sgv_AdmissionShedRate = ss_AdmissionShedRate sig,
      sgv_AdmissionThrottledRate = ss_AdmissionThrottledRate sig, sgv_WorkerBusyRatio = ss_WorkerBusyRatio sig,
      sgv_HotShardCount = ss_HotShardCount sig, sgv_HotKeyCandidateCount = ss_HotKeyCandidateCount sig,
      sgv_LocalizedHotKeyRatio = ss_LocalizedHotKeyRatio sig, sgv_LocalizedHotKey = ss_LocalizedHotKey sig\<rparr>"

subsection \<open>The debug snapshot\<close>

record LaneDepthSnapshot =
  lsn_LaneID :: u16
  lsn_Name :: string
  lsn_Depth :: u64

record ShardSnapshot =
  shs_ShardID :: u32
  shs_Depth :: u64
  shs_Capacity :: u64
  shs_InFlight :: u64
  shs_DepthRatio :: float64
  shs_LaneDepths :: "LaneDepthSnapshot list"
  shs_HotKeyCandidate :: "HotKeyCandidate option"
  shs_HotKeyCandidates :: "HotKeyCandidate list"
  shs_ShardPressure :: ShardPressureSnapshot

record LaneSnapshot =
  las_LaneID :: u16
  las_Name :: string
  las_Depth :: u64
  las_Capacity :: u64
  las_InFlight :: u64
  las_DepthRatio :: float64
  las_Submitted :: u64
  las_Completed :: u64
  las_Failed :: u64
  las_QueueFull :: u64
  las_QueueWaitNanosTotal :: u64
  las_QueueWaitNanosMax :: u64
  las_RunNanosTotal :: u64
  las_RunNanosMax :: u64

record DebugSnapshot =
  dbg_Version :: string
  dbg_GeneratedAt :: time
  dbg_AdmissionPolicyVersion :: u64
  dbg_OverloadPolicyVersion :: u64
  dbg_ShardCount :: nat
  dbg_LaneCount :: nat
  dbg_WorkerCount :: int
  dbg_TotalDepth :: u64
  dbg_TotalCapacity :: u64
  dbg_TotalInFlight :: u64
  dbg_Pressure :: "Pressure option"
  dbg_PressureSummary :: PressureSummary
  dbg_ScaleSignal :: "ScaleSignalView option"
  dbg_HotShards :: "HotShard list"
  dbg_HotLanes :: "HotLane list"
  dbg_Shards :: "ShardSnapshot list"
  dbg_Lanes :: "LaneSnapshot list"
  dbg_PerKeyAdmissionSnapshots :: "PerKeyAdmissionSnapshot list"

definition DebugSnapshotVersion :: string where "DebugSnapshotVersion = ''4''"

text \<open>The zero \<open>Pressure\<close> and \<open>ScaleSignal\<close> of a disabled snapshot are \<open>None\<close>.\<close>

definition emptyDebugSnapshot :: "time \<Rightarrow> Scheduler \<Rightarrow> DebugSnapshot" where
  "emptyDebugSnapshot now s =
     \<lparr>dbg_Version = DebugSnapshotVersion, dbg_GeneratedAt = now,
      dbg_AdmissionPolicyVersion = aps_version (s_admissionPolicy s),
      dbg_OverloadPolicyVersion = ops_version (s_overloadPolicy s), dbg_ShardCount = length (s_shards s),
      dbg_LaneCount = Len (s_laneReg s), dbg_WorkerCount = s_workerCount s, dbg_TotalDepth = 0, dbg_TotalCapacity = 0,
      dbg_TotalInFlight = 0, dbg_Pressure = None, dbg_PressureSummary = zeroPressureSummary, dbg_ScaleSignal = None,
      dbg_HotShards = [], dbg_HotLanes = [], dbg_Shards = [], dbg_Lanes = [], dbg_PerKeyAdmissionSnapshots = []\<rparr>"

definition legacyHotShardsFromPressure :: "ShardPressureSnapshot list \<Rightarrow> int \<Rightarrow> HotShard list" where
  "legacyHotShardsFromPressure pressures limit =
     (if limit \<le> 0 \<or> pressures = [] then []
      else map (\<lambda>p. \<lparr>hsh_ShardID = word_of_int (sp_ShardID p), hsh_Depth = word_of_int (sp_QueueDepth p),
             hsh_Capacity = word_of_int (sp_QueueCapacity p), hsh_InFlight = word_of_int (sp_InflightJobs p),
             hsh_DepthRatio = sp_QueueDepthRatio p\<rparr>) (take (nat limit) pressures))"

text \<open>The body of the loop over the shards of the view, with the scheduler after the tracker's expiry.\<close>

definition shardSnapshotOf :: "(nat \<Rightarrow> time) \<Rightarrow> nat \<Rightarrow> shardDebugView \<Rightarrow> Scheduler \<Rightarrow> ShardSnapshot \<times> Scheduler" where
  "shardSnapshotOf hkNow i sh s =
     (let ss = \<lparr>shs_ShardID = sv_shardID sh, shs_Depth = sv_depth sh, shs_Capacity = sv_capacity sh,
                shs_InFlight = sv_inFlight sh, shs_DepthRatio = safeRatio (sv_depth sh) (sv_capacity sh),
                shs_LaneDepths = map (\<lambda>ld. \<lparr>lsn_LaneID = lds_laneID ld, lsn_Name = Name (s_laneReg s) (lds_laneID ld),
                  lsn_Depth = lds_depth ld\<rparr>) (sv_laneDeps sh),
                shs_HotKeyCandidate = None, shs_HotKeyCandidates = [], shs_ShardPressure = zeroShardPressureSnapshot\<rparr>
      in case hotKeyTrackerForShard s i of
           None \<Rightarrow> (ss, s)
         | Some hk \<Rightarrow>
             if \<not> enabled hk then (ss, s)
             else let waitNanos = (if i < length (s_shardQueueWait s) then acc_totalNanos (s_shardQueueWait s ! i) else 0);
                      (found, hk') = detectHotKeyCandidates hk (int i) (sv_depth sh) waitNanos (hkNow i)
                  in (case found of
                        None \<Rightarrow> ss
                      | Some (t, cs) \<Rightarrow> ss\<lparr>shs_HotKeyCandidate := Some t, shs_HotKeyCandidates := cs\<rparr>,
                      withTracker i (\<lambda>_. hk') s))"

fun shardSnapshotsFrom :: "(nat \<Rightarrow> time) \<Rightarrow> nat \<Rightarrow> shardDebugView list \<Rightarrow> Scheduler \<Rightarrow> ShardSnapshot list \<times> Scheduler" where
  "shardSnapshotsFrom hkNow i [] s = ([], s)"
| "shardSnapshotsFrom hkNow i (sh # shs) s =
     (let (ss, s1) = shardSnapshotOf hkNow i sh s; (rest, s2) = shardSnapshotsFrom hkNow (Suc i) shs s1 in (ss # rest, s2))"

definition laneSnapshotOf :: "laneDebugView \<Rightarrow> LaneSnapshot" where
  "laneSnapshotOf l =
     \<lparr>las_LaneID = lv_laneID l, las_Name = lv_name l, las_Depth = lv_depth l, las_Capacity = lv_capacity l,
      las_InFlight = lv_inFlight l, las_DepthRatio = safeRatio (lv_depth l) (lv_capacity l), las_Submitted = lv_submitted l,
      las_Completed = lv_completed l, las_Failed = lv_failed l, las_QueueFull = lv_queueFull l,
      las_QueueWaitNanosTotal = lv_queueWaitTotal l, las_QueueWaitNanosMax = lv_queueWaitMax l,
      las_RunNanosTotal = lv_runTotal l, las_RunNanosMax = lv_runMax l\<rparr>"

text \<open>The clock readings of one call, in the order they are taken.\<close>

record debugClock =
  dc_hk :: "nat \<Rightarrow> time"
  dc_pk :: time
  dc_pressure :: pressureClock
  dc_scale :: time
  dc_scaleHk :: "nat \<Rightarrow> time"
  dc_generated :: time

definition DebugSnapshotOf :: "(float64 \<Rightarrow> 64 word) \<Rightarrow> debugClock \<Rightarrow> diagScheduler \<Rightarrow> DebugSnapshot \<times> diagScheduler" where
  "DebugSnapshotOf cv clk d =
     (if \<not> obs_EnableDebugSnapshot (s_Obs (dg_sched d)) then (emptyDebugSnapshot (dc_generated clk) (dg_sched d), d)
      else
        let view = collectSchedulerDebugView (dg_sched d);
            (totalDepth, totalCapacity, totalInFlight) = debugViewTotals view;
            (shards0, s1) = shardSnapshotsFrom (dc_hk clk) 0 (view_shards view) (dg_sched d);
            perKeySnaps = PerKeyAdmissionSnapshots s1 (dc_pk clk);
            cfg = normalizeShardPressureConfig (dg_shardPressureCfg d);
            pclk = dc_pressure clk;
            (pressureSummary, shards, s2) =
              (if shardPressureEnabled cfg
               then let (bundle, s2) = collectPressureView cv cfg (pc_now pclk) (pc_pk pclk) (pc_hk pclk) s1
                    in (buildPressureSummary bundle cfg (pc_later pclk),
                        map (\<lambda>(i, ss). if i < length (pvb_summaries bundle)
                          then ss\<lparr>shs_ShardPressure := pvb_summaries bundle ! i\<rparr> else ss) (enumerate 0 shards0), s2)
               else (zeroPressureSummary\<lparr>sm_UpdatedAt := Some (pc_now pclk)\<rparr>, shards0, s1));
            legacyHotShards = (if shardPressureEnabled cfg \<and> sm_HotShards pressureSummary \<noteq> []
              then legacyHotShardsFromPressure (sm_HotShards pressureSummary) topHotShards
              else rankHotShards (view_shards view) topHotShards);
            (scaleSig, d') = ScaleSignalSnapshotOf (dc_scale clk) (dc_scaleHk clk) (d\<lparr>dg_sched := s2\<rparr>)
        in (\<lparr>dbg_Version = DebugSnapshotVersion, dbg_GeneratedAt = dc_generated clk,
             dbg_AdmissionPolicyVersion = aps_version (s_admissionPolicy s1),
             dbg_OverloadPolicyVersion = ops_version (s_overloadPolicy s1), dbg_ShardCount = view_shardCount view,
             dbg_LaneCount = view_laneCount view, dbg_WorkerCount = view_workerCount view, dbg_TotalDepth = totalDepth,
             dbg_TotalCapacity = totalCapacity, dbg_TotalInFlight = totalInFlight,
             dbg_Pressure = Some (classifyPressure totalDepth totalCapacity totalInFlight),
             dbg_PressureSummary = pressureSummary, dbg_ScaleSignal = Some (scaleSignalToSnapshot scaleSig),
             dbg_HotShards = legacyHotShards, dbg_HotLanes = rankHotLanes (view_lanes view) topHotLanes,
             dbg_Shards = shards, dbg_Lanes = map laneSnapshotOf (view_lanes view),
             dbg_PerKeyAdmissionSnapshots = perKeySnaps\<rparr>, d'))"

subsection \<open>The flat views of the public snapshot\<close>

text \<open>A \<open>HotKeyCandidateSnapshot\<close> has the fields of the candidate, with the time as a number.\<close>

definition hotKeySnapshotLess :: "HotKeyCandidate \<Rightarrow> HotKeyCandidate \<Rightarrow> bool" where
  "hotKeySnapshotLess a b =
     (if hc_ShardID a \<noteq> hc_ShardID b then hc_ShardID a < hc_ShardID b else hc_KeyHash a < hc_KeyHash b)"

definition flattenHotKeyCandidates :: "ShardSnapshot list \<Rightarrow> HotKeyCandidate list" where
  "flattenHotKeyCandidates shards =
     sortSlice hotKeySnapshotLess
       (concat (map (\<lambda>sh. case shs_HotKeyCandidate sh of
          None \<Rightarrow> shs_HotKeyCandidates sh | Some c \<Rightarrow> c # shs_HotKeyCandidates sh) shards))"

definition flattenShardPressure :: "ShardSnapshot list \<Rightarrow> ShardPressureSnapshot list" where
  "flattenShardPressure shards =
     sortSlice (\<lambda>a b. sp_ShardID a < sp_ShardID b)
       (filter sp_DiagnosticsEnabled (map shs_ShardPressure shards))"

record PerKeyMitigationSnapshot =
  pm_ShardID :: int
  pm_LaneID :: u16
  pm_KeyHash :: u64
  pm_Action :: PerKeyMitigationAction
  pm_Reason :: PerKeyAdmissionReason
  pm_AllowedApprox :: u64
  pm_DelayedApprox :: u64
  pm_RejectedApprox :: u64
  pm_ShedApprox :: u64
  pm_ThrottledApprox :: u64
  pm_QueuedApprox :: int
  pm_InflightApprox :: int
  pm_PressureRatio :: float64

definition perKeyAdmissionToMitigation :: "PerKeyAdmissionSnapshot \<Rightarrow> PerKeyMitigationSnapshot" where
  "perKeyAdmissionToMitigation ps =
     \<lparr>pm_ShardID = ps_ShardID ps, pm_LaneID = ps_LaneID ps, pm_KeyHash = ps_KeyHash ps, pm_Action = ps_Action ps,
      pm_Reason = ps_Reason ps,
      pm_AllowedApprox = (if ps_QueuedApprox ps > 0 \<or> ps_InflightApprox ps > 0 then 1 else 0), pm_DelayedApprox = 0,
      pm_RejectedApprox = ps_RejectedApprox ps, pm_ShedApprox = 0,
      pm_ThrottledApprox = (if ps_Action ps = PerKeyMitigationThrottle then 1 else 0),
      pm_QueuedApprox = ps_QueuedApprox ps, pm_InflightApprox = ps_InflightApprox ps,
      pm_PressureRatio = ps_PressureRatio ps\<rparr>"

definition mitigationLess :: "PerKeyMitigationSnapshot \<Rightarrow> PerKeyMitigationSnapshot \<Rightarrow> bool" where
  "mitigationLess a b =
     (if pm_ShardID a \<noteq> pm_ShardID b then pm_ShardID a < pm_ShardID b
      else if pm_LaneID a \<noteq> pm_LaneID b then pm_LaneID a < pm_LaneID b
      else pm_KeyHash a < pm_KeyHash b)"

definition flattenMitigations :: "PerKeyAdmissionSnapshot list \<Rightarrow> PerKeyMitigationSnapshot list" where
  "flattenMitigations perKey = sortSlice mitigationLess (map perKeyAdmissionToMitigation perKey)"

end
