(* ===== verification/Debug_Facts.thy ===== *)
theory Debug_Facts
  imports Debug_Snapshot Go_Float_Exact
begin

text \<open>
  What the diagnostics promise: they observe the scheduler and change nothing but forgotten hot keys, every pressure ratio
  lies in the unit interval, the hot shards are ranked as documented, and the advice of a summary is not contradictory.
\<close>

subsection \<open>Observation\<close>

text \<open>A tracker that has only forgotten stale keys, at some clock readings.\<close>

definition aged :: "hotKeyTracker \<Rightarrow> hotKeyTracker \<Rightarrow> bool" where
  "aged t t' \<longleftrightarrow> (\<exists>nows. t' = fold expireStaleEntriesLocked nows t)"

lemma aged_refl [simp]: "aged t t"
  unfolding aged_def by (rule exI [of _ "[]"]) simp

lemma aged_trans: "aged a b \<Longrightarrow> aged b c \<Longrightarrow> aged a c"
proof -
  assume "aged a b" "aged b c"
  then obtain xs ys where "b = fold expireStaleEntriesLocked xs a" "c = fold expireStaleEntriesLocked ys b"
    by (auto simp: aged_def)
  then have "c = fold expireStaleEntriesLocked (xs @ ys) a" by simp
  then show ?thesis unfolding aged_def by blast
qed

lemma aged_expire: "aged t (expireStaleEntriesLocked now t)"
  unfolding aged_def by (rule exI [of _ "[now]"]) simp

lemma detect_aged: "detectHotKeyCandidates t i d w now = (r, t') \<Longrightarrow> aged t t'"
  by (auto simp: detectHotKeyCandidates_def Let_def aged_expire split: if_splits prod.splits)

definition observes :: "Scheduler \<Rightarrow> Scheduler \<Rightarrow> bool" where
  "observes s s' \<longleftrightarrow> s' = s\<lparr>s_hotKeyTrackers := s_hotKeyTrackers s'\<rparr>
     \<and> rel_option (list_all2 aged) (s_hotKeyTrackers s) (s_hotKeyTrackers s')"

lemma observes_refl [simp]: "observes s s"
  by (simp add: observes_def option.rel_refl list_all2_refl)

lemma observes_trans:
  assumes "observes a b" "observes b c"
  shows "observes a c"
proof -
  have "rel_option (list_all2 aged) (s_hotKeyTrackers a) (s_hotKeyTrackers c)"
  proof (rule option.rel_transp [THEN transpD])
    show "transp (list_all2 aged)" by (rule list.rel_transp) (auto intro: transpI aged_trans)
    show "rel_option (list_all2 aged) (s_hotKeyTrackers a) (s_hotKeyTrackers b)"
      "rel_option (list_all2 aged) (s_hotKeyTrackers b) (s_hotKeyTrackers c)" using assms by (simp_all add: observes_def)
  qed
  moreover have "c = a\<lparr>s_hotKeyTrackers := s_hotKeyTrackers c\<rparr>"
  proof -
    obtain x y where "b = a\<lparr>s_hotKeyTrackers := x\<rparr>" "c = b\<lparr>s_hotKeyTrackers := y\<rparr>"
      using assms unfolding observes_def by blast
    then show ?thesis by simp
  qed
  ultimately show ?thesis by (simp add: observes_def)
qed

lemma observes_with:
  assumes "hotKeyTrackerForShard s i = Some hk" "aged hk hk'"
  shows "observes s (withTracker i (\<lambda>_. hk') s)"
proof -
  obtain ts where ts: "s_hotKeyTrackers s = Some ts" "i < length ts" "hk = ts ! i"
    using assms(1) by (auto simp: hotKeyTrackerForShard_def not_le split: option.splits if_splits)
  have "list_all2 aged ts (ts[i := hk'])"
    using ts(2,3) assms(2) by (auto simp: list_all2_conv_all_nth nth_list_update)
  then show ?thesis using assms(1) ts by (simp add: observes_def withTracker_def)
qed

lemma observes_fields:
  assumes "observes s s'"
  shows "s_shards s' = s_shards s" "s_laneReg s' = s_laneReg s" "schedPressure s' = schedPressure s"
    "s_workerCount s' = s_workerCount s" "s_shardInflight s' = s_shardInflight s" "s_Obs s' = s_Obs s"
    "s_ReadyCh s' = s_ReadyCh s" "s_state s' = s_state s"
proof -
  have s': "s' = s\<lparr>s_hotKeyTrackers := s_hotKeyTrackers s'\<rparr>" using assms by (simp add: observes_def)
  show "s_shards s' = s_shards s" "s_laneReg s' = s_laneReg s" "s_workerCount s' = s_workerCount s"
    "s_shardInflight s' = s_shardInflight s" "s_Obs s' = s_Obs s" "s_ReadyCh s' = s_ReadyCh s" "s_state s' = s_state s"
    by (subst s', simp)+
  show "schedPressure s' = schedPressure s"
    by (subst s') (simp add: schedPressure_def collectPressureTotals_def)
qed

text \<open>The operations, from the inside out.\<close>

lemma hotKeyPressures_observes: "hotKeyPressures cfg i sh mit now s = (r, s') \<Longrightarrow> observes s s'"
  by (auto simp: hotKeyPressures_def Let_def split: option.splits if_splits prod.splits
      intro: observes_with detect_aged)

lemma buildShardPressureSnapshot_snd:
  "snd (buildShardPressureSnapshot cv i view cfg pks ps pc now hkNow s) =
     (if i < 0 \<or> i \<ge> int (length (view_shards view)) then s
      else snd (hotKeyPressures cfg (nat i) (view_shards view ! nat i) (buildPerKeyMitigationLookup pks i) hkNow s))"
  unfolding buildShardPressureSnapshot_def Let_def case_prod_beta by simp

lemma buildShardPressureSnapshot_observes:
  assumes "buildShardPressureSnapshot cv i view cfg pks ps pc now hkNow s = (r, s')"
  shows "observes s s'"
proof -
  have "s' = snd (buildShardPressureSnapshot cv i view cfg pks ps pc now hkNow s)" using assms by simp
  then show ?thesis unfolding buildShardPressureSnapshot_snd using hotKeyPressures_observes by (metis observes_refl prod.collapse)
qed

lemma summariesFrom_observes: "summariesFrom cv view cfg pks p now hk i rs s = (r, s') \<Longrightarrow> observes s s'"
proof (induction rs arbitrary: i s r s')
  case (Cons x rs)
  obtain a s1 where a: "buildShardPressureSnapshot cv (int i) view cfg pks (fsub p x) (int (length (view_shards view)) - 1)
      now (hk i) s = (a, s1)" by force
  obtain b s2 where b: "summariesFrom cv view cfg pks p now hk (Suc i) rs s1 = (b, s2)" by force
  have "s' = s2" using Cons.prems a b by simp
  then show ?case using observes_trans [OF buildShardPressureSnapshot_observes [OF a] Cons.IH [OF b]] by simp
qed simp

lemma collectPressureView_observes: "collectPressureView cv cfg now pk hk s = (b, s') \<Longrightarrow> observes s s'"
  by (auto simp: collectPressureView_def Let_def split: if_splits prod.splits intro: summariesFrom_observes)

lemma scanHotShard_observes: "scanHotShard cfg view hk i (a, s) = (a', s') \<Longrightarrow> observes s s'"
  by (auto simp: scanHotShard_def Let_def split: option.splits if_splits prod.splits intro: observes_with detect_aged)

lemma scanHotShards_observes: "fold (scanHotShard cfg view hk) is (a, s) = (a', s') \<Longrightarrow> observes s s'"
proof (induction "is" arbitrary: a s)
  case (Cons i "is")
  obtain b s1 where b: "scanHotShard cfg view hk i (a, s) = (b, s1)" by force
  then have "fold (scanHotShard cfg view hk) is (b, s1) = (a', s')" using Cons.prems by simp
  then show ?case using observes_trans [OF scanHotShard_observes [OF b] Cons.IH] by blast
qed simp

lemma aggregates_observes: "buildScaleSignalShardAggregates cfg view hk s = (a, s') \<Longrightarrow> observes s s'"
  by (auto simp: buildScaleSignalShardAggregates_def Let_def split: if_splits prod.splits intro: scanHotShards_observes)

lemma rawInput_observes: "buildScaleSignalRawInput cfg hk s = (a, s') \<Longrightarrow> observes s s'"
  by (auto simp: buildScaleSignalRawInput_def Let_def split: prod.splits intro: aggregates_observes)

lemma shardSnapshotOf_observes: "shardSnapshotOf hk i sh s = (r, s') \<Longrightarrow> observes s s'"
  by (auto simp: shardSnapshotOf_def Let_def split: option.splits if_splits prod.splits intro: observes_with detect_aged)

lemma shardSnapshotsFrom_observes: "shardSnapshotsFrom hk i shs s = (r, s') \<Longrightarrow> observes s s'"
proof (induction shs arbitrary: i s r s')
  case (Cons x shs)
  obtain a s1 where a: "shardSnapshotOf hk i x s = (a, s1)" by force
  obtain b s2 where b: "shardSnapshotsFrom hk (Suc i) shs s1 = (b, s2)" by force
  have "s' = s2" using Cons.prems a b by simp
  then show ?case using observes_trans [OF shardSnapshotOf_observes [OF a] Cons.IH [OF b]] by simp
qed simp

lemma ScaleSignalSnapshotOf_observes:
  "ScaleSignalSnapshotOf now hk d = (r, d') \<Longrightarrow> observes (dg_sched d) (dg_sched d')"
  "ScaleSignalSnapshotOf now hk d = (r, d') \<Longrightarrow> dg_shardPressureCfg d' = dg_shardPressureCfg d"
  by (auto simp: ScaleSignalSnapshotOf_def Let_def split: option.splits if_splits prod.splits intro: rawInput_observes)

lemma DebugSnapshotOf_observes:
  assumes "DebugSnapshotOf cv clk d = (r, d')"
  shows "observes (dg_sched d) (dg_sched d')" "dg_shardPressureCfg d' = dg_shardPressureCfg d"
proof -
  let ?s = "dg_sched d" and ?cfg = "normalizeShardPressureConfig (dg_shardPressureCfg d)" and ?p = "dc_pressure clk"
  obtain a s1 where a: "shardSnapshotsFrom (dc_hk clk) 0 (view_shards (collectSchedulerDebugView ?s)) ?s = (a, s1)" by force
  obtain b s2 where b: "collectPressureView cv ?cfg (pc_now ?p) (pc_pk ?p) (pc_hk ?p) s1 = (b, s2)" by force
  have s1: "observes ?s s1" and s2: "observes ?s s2"
    using shardSnapshotsFrom_observes [OF a] observes_trans [OF _ collectPressureView_observes [OF b]] by blast+
  have "d' = d \<or> (\<exists>s3 r'. observes ?s s3
      \<and> ScaleSignalSnapshotOf (dc_scale clk) (dc_scaleHk clk) (d\<lparr>dg_sched := s3\<rparr>) = (r', d'))"
    using assms a b s1 s2 by (auto simp: DebugSnapshotOf_def Let_def split: if_splits prod.splits)
  then show "observes ?s (dg_sched d')" "dg_shardPressureCfg d' = dg_shardPressureCfg d"
    using ScaleSignalSnapshotOf_observes observes_trans by fastforce+
qed

subsection \<open>Ratios\<close>

lemma maxFrom_in: "maxFrom m vs \<in> insert m (set vs)"
  by (induction vs arbitrary: m) (auto split: if_splits)

lemma maxFloat64_unit: "\<forall>v \<in> set vs. unitRatio v \<Longrightarrow> unitRatio (maxFloat64 vs)"
  using maxFrom_in by (cases vs) fastforce+

lemma capOne_unit: "fle (FFin 0) x \<Longrightarrow> unitRatio (capOne x)"
  by (cases x) (auto simp: capOne_def unitRatio_def)

lemma waitRatio_unit: "unitRatio (computeQueueWaitRatio w win n)"
proof (cases "win = 0 \<or> n \<le> 0")
  case False
  obtain a where a: "float64_of_u64 w = FFin a" "0 \<le> a" by (rule float64_of_u64_fin)
  obtain b where b: "float64_of_u64 win = FFin b" "1 \<le> b" using False float64_of_u64_pos by blast
  have "\<not> isNaN (fmul (FFin b) (float64_of_int n))"
  proof (cases "float64_of_int n = FPosInf")
    case True
    then show ?thesis using b(2) by (simp add: isNaN_def infOfSign_def)
  next
    case fin: False
    then obtain r where "float64_of_int n = FFin r" using float64_of_int_pos [of n] False by auto
    then show ?thesis by simp
  qed
  then show ?thesis using False a b fdiv_nonneg [OF a(2)] capOne_unit
    by (auto simp: computeQueueWaitRatio_def Let_def)
qed (auto simp: computeQueueWaitRatio_def)

lemma workerRatio_unit:
  assumes "0 \<le> k" "k < 2 ^ 63" shows "unitRatio (computeWorkerContributionRatio k n)"
proof (cases "n \<le> 0")
  case False
  obtain r where r: "float64_of_int k = FFin r" using float64_of_int64 [of k] assms by auto
  have "0 \<le> r" using fround_mono [of 0 "of_int k"] assms(1) r by (simp add: float64_of_int_def)
  moreover have "\<not> isNaN (float64_of_int n)" "\<not> fle (float64_of_int n) (FFin 0)"
    using float64_of_int_pos [of n] False by (auto simp: isNaN_def)
  ultimately show ?thesis using False r fdiv_nonneg capOne_unit by (simp add: computeWorkerContributionRatio_def)
qed (simp add: computeWorkerContributionRatio_def)

lemma admissionRatio_unit: "unitRatio (computeAdmissionPressureRatio r t sh n)"
proof (cases "n = 0")
  case False
  obtain a where a: "float64_of_u64 (r + t + sh) = FFin a" "0 \<le> a" by (rule float64_of_u64_fin)
  obtain b where b: "float64_of_u64 n = FFin b" "1 \<le> b" using False float64_of_u64_pos by blast
  have "fle (FFin 0) (fdiv (FFin a) (FFin b))" using a(2) b(2) by (intro fdiv_nonneg) (simp_all add: isNaN_def)
  then show ?thesis unfolding computeAdmissionPressureRatio_def a b using False capOne_unit by simp
qed (simp add: computeAdmissionPressureRatio_def)

text \<open>What a scheduler must satisfy for its numbers to be exact: no sum of a shard wraps, and the in-flight counters are
  not negative; lane ids are distinct.\<close>

definition diag_ok :: "Scheduler \<Rightarrow> bool" where
  "diag_ok s \<longleftrightarrow> sched_wf s
     \<and> (\<forall>sh \<in> set (s_shards s). sum_list (map capacity (sh_Lanes sh)) < 2 ^ 64)
     \<and> (\<forall>n \<in> set (s_shardInflight s). 0 \<le> n \<and> n < 2 ^ 63) \<and> Len (s_laneReg s) \<le> 65536"

lemma of_nat_sum_list: "(of_nat (sum_list xs) :: 'b :: semiring_1) = sum_list (map of_nat xs)"
  by (induction xs) simp_all

lemma shardTotals_le:
  assumes "shard_wf sh" "sum_list (map capacity (sh_Lanes sh)) < 2 ^ 64"
  shows "fst (shardTotals sh) \<le> snd (shardTotals sh)"
proof -
  have "sum_list (map depth (sh_Lanes sh)) \<le> sum_list (map capacity (sh_Lanes sh))"
    using assms(1) by (intro sum_list_mono) (simp add: shard_wf_def list_all_iff lq_wf_def depth_def capacity_def)
  moreover have "fst (shardTotals sh) = of_nat (sum_list (map depth (sh_Lanes sh)))"
    "snd (shardTotals sh) = of_nat (sum_list (map capacity (sh_Lanes sh)))"
    by (simp_all add: shardTotals_def of_nat_sum_list comp_def)
  ultimately show ?thesis using assms(2) by (simp add: word_le_nat_alt unat_of_nat)
qed

lemma diag_okD:
  assumes "diag_ok s" "i < length (s_shards s)"
  shows "fst (shardTotals (s_shards s ! i)) \<le> snd (shardTotals (s_shards s ! i))"
    "0 \<le> s_shardInflight s ! i" "s_shardInflight s ! i < 2 ^ 63"
proof -
  have wf: "sched_wf s" using assms(1) by (simp add: diag_ok_def)
  have "shard_wf (s_shards s ! i)" using sched_wfD(8) [OF wf] assms(2) by (simp add: shards_ok_def)
  then show "fst (shardTotals (s_shards s ! i)) \<le> snd (shardTotals (s_shards s ! i))"
    using assms by (intro shardTotals_le) (auto simp: diag_ok_def)
  have "s_shardInflight s ! i \<in> set (s_shardInflight s)" using assms(2) sched_wfD(3) [OF wf] by simp
  then show "0 \<le> s_shardInflight s ! i" "s_shardInflight s ! i < 2 ^ 63" using assms(1) unfolding diag_ok_def by blast+
qed

text \<open>The ratios of one shard view of such a scheduler.\<close>

lemma shardView_ratios:
  assumes "diag_ok s" "i < length (s_shards s)"
  shows "unitRatio (safeRatio (sv_depth (shardView s i)) (sv_capacity (shardView s i)))"
    "unitRatio (computeWorkerContributionRatio (sint (sv_inFlight (shardView s i))) n)"
proof -
  show "unitRatio (safeRatio (sv_depth (shardView s i)) (sv_capacity (shardView s i)))"
    using diag_okD(1) [OF assms] by (simp add: unitRatio_def safeRatio_nonneg safeRatio_le_one)
  have "wrapInt (s_shardInflight s ! i) = s_shardInflight s ! i" using diag_okD(2,3) [OF assms] by (intro wrapInt_id) simp_all
  then show "unitRatio (computeWorkerContributionRatio (sint (sv_inFlight (shardView s i))) n)"
    using diag_okD(2,3) [OF assms] workerRatio_unit by (simp add: wrapInt_def)
qed

subsection \<open>Rankings over floats\<close>

lemma feq_iff: "\<not> isNaN a \<Longrightarrow> feq a b \<longleftrightarrow> a = b"
  by (cases a; cases b) (auto simp: isNaN_def)

lemma flt_trans: "flt a b \<Longrightarrow> flt b c \<Longrightarrow> flt a c"
  by (meson flt_fle_trans flt_imp_fle)

lemma flt_asym: "flt a b \<Longrightarrow> \<not> flt b a"
  using flt_trans flt_irrefl by blast

lemma flt_total: "\<not> isNaN a \<Longrightarrow> \<not> isNaN b \<Longrightarrow> a \<noteq> b \<Longrightarrow> flt a b \<or> flt b a"
  by (cases a; cases b) (auto simp: isNaN_def)

interpretation lanePressure: ranking lanePressureLess lp_LaneID "\<lambda>l. \<not> isNaN (lp_ContributionRatio l)"
proof (unfold_locales, goal_cases)
  case 1
  then show ?case using flt_asym by (fastforce simp: lanePressureLess_def feq_iff split: if_splits)
next
  case 2
  then show ?case using flt_trans flt_irrefl by (fastforce simp: lanePressureLess_def feq_iff split: if_splits)
next
  case 3
  then show ?case using flt_total by (fastforce simp: lanePressureLess_def feq_iff split: if_splits)
qed

interpretation shardPressure: ranking shardPressureLess sp_ShardID "\<lambda>p. \<not> isNaN (sp_PressureRatio p)"
proof (unfold_locales, goal_cases)
  case 1
  then show ?case using flt_asym by (fastforce simp: shardPressureLess_def feq_iff split: if_splits)
next
  case 2
  then show ?case using flt_trans flt_irrefl by (fastforce simp: shardPressureLess_def feq_iff split: if_splits)
next
  case 3
  then show ?case using flt_total by (fastforce simp: shardPressureLess_def feq_iff split: if_splits)
qed

lemma maxFrom_ge_iff: "\<not> isNaN m \<Longrightarrow> fge (maxFrom m vs) t \<longleftrightarrow> fge m t \<or> (\<exists>v \<in> set vs. fge v t)"
proof (induction vs arbitrary: m)
  case (Cons v vs)
  show ?case
  proof (cases "fgt v m")
    case True
    then have "\<not> isNaN v" by (cases v) (auto simp: isNaN_def)
    then show ?thesis using Cons.IH [of v] True flt_imp_fle fle_trans by auto
  next
    case False
    have "fge v t \<Longrightarrow> fge m t"
      using False Cons.prems flt_or_fge [of m v] fle_trans by (cases "isNaN v") (auto simp: isNaN_def)
    then show ?thesis using Cons.IH [of m] Cons.prems False by auto
  qed
qed simp

subsection \<open>The dominant lane\<close>

lemma lanePressureOf_cases:
  obtains "lanePressureOf cv sh lanes reg w n th ld = []"
  | x where "lanePressureOf cv sh lanes reg w n th ld = [x]" "lp_LaneID x = lds_laneID ld"
      "sv_depth sh \<noteq> 0 \<Longrightarrow> \<not> isNaN (lp_ContributionRatio x)"
proof -
  have nn: "\<not> isNaN (fdiv (float64_of_u64 a) (float64_of_u64 b))" if "b \<noteq> 0" for a b :: u64
  proof -
    obtain x where "float64_of_u64 a = FFin x" by (rule float64_of_u64_fin)
    moreover obtain y where "float64_of_u64 b = FFin y" "1 \<le> y" using \<open>b \<noteq> 0\<close> by (rule float64_of_u64_pos)
    ultimately show ?thesis by simp
  qed
  show ?thesis
  proof (cases "lds_depth ld = 0 \<or> length lanes \<le> unat (lds_laneID ld)")
    case True
    then have "lanePressureOf cv sh lanes reg w n th ld = []" by (auto simp: lanePressureOf_def Let_def)
    then show ?thesis by (rule that(1))
  next
    case False
    then obtain x where "lanePressureOf cv sh lanes reg w n th ld = [x]" "lp_LaneID x = lds_laneID ld"
      "lp_ContributionRatio x = fdiv (float64_of_u64 (lds_depth ld)) (float64_of_u64 (sv_depth sh))"
      by (auto simp: lanePressureOf_def Let_def)
    then show ?thesis using that(2) nn by metis
  qed
qed

lemma breakdown_ids:
  "lp_LaneID ` set (concat (map (lanePressureOf cv sh lanes reg w n th) lds)) \<subseteq> lds_laneID ` set lds"
proof (induction lds)
  case (Cons ld lds)
  then show ?case by (cases rule: lanePressureOf_cases [of cv sh lanes reg w n th ld]) auto
qed simp

lemma breakdown_comparable:
  assumes "distinct (map lds_laneID lds)" "sv_depth sh \<noteq> 0"
  shows "lanePressure.comparable (concat (map (lanePressureOf cv sh lanes reg w n th) lds))"
  using assms(1)
proof (induction lds)
  case (Cons ld lds)
  have "lanePressure.comparable (concat (map (lanePressureOf cv sh lanes reg w n th) lds))" using Cons by simp
  then show ?case using breakdown_ids [of cv sh lanes reg w n th lds] Cons.prems assms(2)
    by (cases rule: lanePressureOf_cases [of cv sh lanes reg w n th ld]) (auto simp: lanePressure.comparable_def)
qed (simp add: lanePressure.comparable_def)

lemma dominant_iff:
  assumes "buildLaneBreakdown cv sh lanes reg cfg w n th = (bd, dl, tc)" "distinct (map lds_laneID (sv_laneDeps sh))"
    "\<not> fle (spc_DominantLaneRatio cfg) (FFin 0)"
  shows "dl \<noteq> None \<longleftrightarrow> fge tc (spc_DominantLaneRatio cfg)"
proof (cases "sv_depth sh = 0 \<or> sv_laneDeps sh = []")
  case True
  then show ?thesis using assms by (auto simp: buildLaneBreakdown_def)
next
  case False
  define bd0 where "bd0 = concat (map (lanePressureOf cv sh lanes reg w n th) (sv_laneDeps sh))"
  define limit where "limit = (if spc_MaxLaneBreakdownPerShard cfg \<le> 0 then 8 else spc_MaxLaneBreakdownPerShard cfg)"
  have eq: "bd = topOf lanePressureLess limit bd0" "tc = maxFrom (FFin 0) (map lp_ContributionRatio bd0)"
    "dl = (case bd of [] \<Rightarrow> None
       | d # _ \<Rightarrow> if fge (lp_ContributionRatio d) (spc_DominantLaneRatio cfg) then Some d else None)"
    using assms(1) False by (auto simp: buildLaneBreakdown_def bd0_def limit_def Let_def)
  have comp: "lanePressure.comparable bd0" using breakdown_comparable [OF assms(2)] False by (simp add: bd0_def)
  note facts = lanePressure.topOf_facts [OF comp, where limit = limit, folded eq(1)]
  have top: "fge tc (spc_DominantLaneRatio cfg) \<longleftrightarrow> (\<exists>x \<in> set bd0. fge (lp_ContributionRatio x) (spc_DominantLaneRatio cfg))"
    using assms(3) by (simp add: eq(2) maxFrom_ge_iff isNaN_def)
  show ?thesis
  proof (cases bd)
    case Nil
    have "0 < nat limit" by (simp add: limit_def)
    then have "bd0 = []" using facts(3) Nil by (cases bd0) auto
    then show ?thesis using top Nil eq(3) by simp
  next
    case (Cons d ds)
    have d: "d \<in> set bd0" "\<not> isNaN (lp_ContributionRatio d)"
      using facts(2) comp Cons by (auto simp: lanePressure.comparable_def)
    have "fle (lp_ContributionRatio x) (lp_ContributionRatio d)" if x: "x \<in> set bd0" for x
    proof (cases "x = d")
      case True
      then show ?thesis using d(2) by (simp add: fle_refl_iff)
    next
      case False
      have "lanePressureLess d x"
        using facts(1) facts(4) [of d x] x False Cons by (cases "x \<in> set bd") auto
      then show ?thesis using d(2) flt_imp_fle by (auto simp: lanePressureLess_def feq_iff fle_refl_iff split: if_splits)
    qed
    then have "(\<exists>x \<in> set bd0. fge (lp_ContributionRatio x) (spc_DominantLaneRatio cfg))
        \<longleftrightarrow> fge (lp_ContributionRatio d) (spc_DominantLaneRatio cfg)"
      using d(1) fle_trans by blast
    then show ?thesis using top Cons eq(3) by simp
  qed
qed

lemma view_lanes_distinct:
  assumes "length (sh_Lanes (s_shards s ! i)) \<le> 65536"
  shows "distinct (map lds_laneID (sv_laneDeps (shardView s i)))"
proof -
  let ?n = "length (sh_Lanes (s_shards s ! i))"
  have ids: "map lds_laneID (sv_laneDeps (shardView s i)) = map (\<lambda>j. of_nat j) [0..<?n]"
    by (rule nth_equalityI) (simp_all add: shardView_def Let_def case_prod_beta nth_enumerate_eq)
  have "inj_on (\<lambda>j. of_nat j :: LaneID) {0..<?n}"
  proof (rule inj_onI)
    fix j k assume jk: "j \<in> {0..<?n}" "k \<in> {0..<?n}" "(of_nat j :: LaneID) = of_nat k"
    have "unat (of_nat j :: LaneID) = j" "unat (of_nat k :: LaneID) = k"
      using jk(1,2) assms by (simp_all only: unat_of_nat atLeastLessThan_iff) (intro mod_less; simp)+
    then show "j = k" using jk(3) by metis
  qed
  then show ?thesis unfolding ids by (simp only: distinct_map distinct_upt set_upt simp_thms)
qed

subsection \<open>One snapshot\<close>

text \<open>The reference definition: the class of a shard read off its own snapshot.\<close>

definition classOf :: "ShardPressureConfig \<Rightarrow> ShardPressureSnapshot \<Rightarrow> ShardPressureClass" where
  "classOf cfg r =
     (if flt (sp_PressureRatio r) (spc_HotShardPressureRatio cfg) then ShardPressureHealthy
      else if list_ex (\<lambda>hk. fge (keyContribution hk) (spc_LocalizedHotKeyRatio cfg)) (sp_HotKeyCandidates r)
      then ShardPressureLocalizedKey
      else if sp_DominantLane r \<noteq> None then ShardPressureLaneDominant else ShardPressureShardHot)"

definition thresholds_ok :: "ShardPressureConfig \<Rightarrow> bool" where
  "thresholds_ok cfg \<longleftrightarrow> spc_Enabled cfg \<and> \<not> fle (spc_LocalizedHotKeyRatio cfg) (FFin 0)
     \<and> \<not> fle (spc_DominantLaneRatio cfg) (FFin 0)"

lemma flit_pos: "\<not> fle (flit (40 / 100)) (FFin 0)" "\<not> fle (flit (60 / 100)) (FFin 0)"
  by code_simp+

lemma normalize_thresholds: "spc_Enabled cfg \<Longrightarrow> thresholds_ok (normalizeShardPressureConfig cfg)"
  using flit_pos by (simp add: thresholds_ok_def normalizeShardPressureConfig_def floatOr_def)

lemma classify_iff:
  assumes "thresholds_ok (spi_Cfg i)" "spi_TopHotKeyContribution i = maxFrom (FFin 0) (map keyContribution hks)"
    "spi_HasHotKeyCandidate i \<longleftrightarrow> hks \<noteq> []"
    "d \<longleftrightarrow> fge (spi_TopLaneContribution i) (spc_DominantLaneRatio (spi_Cfg i))"
  shows "classifyShardPressure i =
    (if flt (spi_PressureRatio i) (spc_HotShardPressureRatio (spi_Cfg i)) then ShardPressureHealthy
     else if list_ex (\<lambda>hk. fge (keyContribution hk) (spc_LocalizedHotKeyRatio (spi_Cfg i))) hks then ShardPressureLocalizedKey
     else if d then ShardPressureLaneDominant else ShardPressureShardHot)"
proof -
  have "fge (spi_TopHotKeyContribution i) (spc_LocalizedHotKeyRatio (spi_Cfg i))
      \<longleftrightarrow> list_ex (\<lambda>hk. fge (keyContribution hk) (spc_LocalizedHotKeyRatio (spi_Cfg i))) hks"
    using assms(1,2) by (simp add: thresholds_ok_def maxFrom_ge_iff isNaN_def list_ex_iff)
  then have "isLocalizedHotKeyPressure i \<longleftrightarrow> \<not> flt (spi_PressureRatio i) (spc_HotShardPressureRatio (spi_Cfg i))
      \<and> list_ex (\<lambda>hk. fge (keyContribution hk) (spc_LocalizedHotKeyRatio (spi_Cfg i))) hks"
    using assms(1,3) by (auto simp: isLocalizedHotKeyPressure_def thresholds_ok_def)
  then show ?thesis using assms(1,4)
    by (auto simp: classifyShardPressure_def isLaneDominantPressure_def thresholds_ok_def)
qed

lemma snapshot_fields:
  assumes "i < length (view_shards view)" "thresholds_ok cfg" "distinct (map lds_laneID (sv_laneDeps (view_shards view ! i)))"
    "r = fst (buildShardPressureSnapshot cv (int i) view cfg pks ps pc now hk s)" "sh = view_shards view ! i"
  shows "sp_ShardID r = int i" "sp_QueueDepth r = sint (sv_depth sh)" "sp_Class r = classOf cfg r"
    "\<exists>a. unitRatio a \<and> sp_PressureRatio r = maxFloat64 [safeRatio (sv_depth sh) (sv_capacity sh),
       computeQueueWaitRatio (sv_queueWaitNanos sh) (word_of_int (spc_Window cfg)) (view_workerCount view), a,
       computeWorkerContributionRatio (sint (sv_inFlight sh)) (view_workerCount view)]"
proof -
  define hks where "hks = fst (hotKeyPressures cfg i sh (buildPerKeyMitigationLookup pks (int i)) hk s)"
  define bld where "bld = buildLaneBreakdown cv sh (view_lanes view) (s_laneReg s) cfg (word_of_int (spc_Window cfg))
    (view_workerCount view) (perLaneThrottleCounts hks)"
  have range: "(int i < 0 \<or> int i \<ge> int (length (view_shards view))) = False" using assms(1) by simp
  note unf = buildShardPressureSnapshot_def Let_def case_prod_beta nat_int range if_False fst_conv
    ShardPressureSnapshot.simps
  show "sp_ShardID r = int i" "sp_QueueDepth r = sint (sv_depth sh)" unfolding assms(4,5) unf by (rule refl)+
  show "\<exists>a. unitRatio a \<and> sp_PressureRatio r = maxFloat64 [safeRatio (sv_depth sh) (sv_capacity sh),
       computeQueueWaitRatio (sv_queueWaitNanos sh) (word_of_int (spc_Window cfg)) (view_workerCount view), a,
       computeWorkerContributionRatio (sint (sv_inFlight sh)) (view_workerCount view)]"
    unfolding assms(4,5) unf computeShardPressureRatio_def by (intro exI conjI, rule admissionRatio_unit, rule refl)
  have dl: "sp_DominantLane r = fst (snd bld)" "sp_HotKeyCandidates r = hks"
    unfolding bld_def hks_def assms(4,5) unf by (rule refl)+
  have "fst (snd bld) \<noteq> None \<longleftrightarrow> fge (snd (snd bld)) (spc_DominantLaneRatio cfg)"
    using assms(2,3) dominant_iff [of cv sh "view_lanes view" "s_laneReg s" cfg] unfolding bld_def assms(5)
    by (metis prod.collapse thresholds_ok_def)
  then have "sp_DominantLane r \<noteq> None \<longleftrightarrow> fge (snd (snd bld)) (spc_DominantLaneRatio cfg)" using dl(1) by simp
  moreover have "\<exists>ci. sp_Class r = classifyShardPressure ci \<and> spi_Cfg ci = cfg \<and> spi_PressureRatio ci = sp_PressureRatio r
      \<and> spi_TopHotKeyContribution ci = maxFrom (FFin 0) (map keyContribution hks)
      \<and> spi_HasHotKeyCandidate ci = (hks \<noteq> []) \<and> spi_TopLaneContribution ci = snd (snd bld)"
    unfolding bld_def hks_def assms(4,5) unf
    by (rule exI, rule conjI, rule refl) (simp only: shardPressureInput.simps simp_thms)
  ultimately show "sp_Class r = classOf cfg r"
    using assms(2) classify_iff [where hks = hks and d = "sp_DominantLane r \<noteq> None"] dl(2)
    unfolding classOf_def by metis
qed

subsection \<open>All snapshots\<close>

definition builtAt :: "(float64 \<Rightarrow> 64 word) \<Rightarrow> schedulerDebugView \<Rightarrow> ShardPressureConfig \<Rightarrow> PerKeyAdmissionSnapshot list \<Rightarrow>
   time \<Rightarrow> (nat \<Rightarrow> time) \<Rightarrow> nat \<Rightarrow> ShardPressureSnapshot \<Rightarrow> bool" where
  "builtAt cv view cfg pks now hk i x \<longleftrightarrow>
     (\<exists>ps pc s0. x = fst (buildShardPressureSnapshot cv (int i) view cfg pks ps pc now (hk i) s0))"

lemma summariesFrom_nth:
  "summariesFrom cv view cfg pks p now hk i rs s = (xs, s') \<Longrightarrow>
   length xs = length rs \<and> (\<forall>j < length rs. builtAt cv view cfg pks now hk (i + j) (xs ! j))"
proof (induction rs arbitrary: i s xs s')
  case (Cons r rs)
  obtain a s1 where a: "buildShardPressureSnapshot cv (int i) view cfg pks (fsub p r) (int (length (view_shards view)) - 1)
      now (hk i) s = (a, s1)" by force
  obtain b s2 where b: "summariesFrom cv view cfg pks p now hk (Suc i) rs s1 = (b, s2)" by force
  have xs: "xs = a # b" using Cons.prems a b by simp
  have "builtAt cv view cfg pks now hk i a" unfolding builtAt_def using a by (metis fst_conv)
  then show ?case using Cons.IH [OF b] xs by (auto simp: nth_Cons' less_Suc_eq_0_disj)
qed simp

text \<open>The snapshots of all shards, as \<open>ShardPressureSnapshotOf\<close> returns them one by one.\<close>

definition allPressures :: "(float64 \<Rightarrow> 64 word) \<Rightarrow> pressureClock \<Rightarrow> diagScheduler \<Rightarrow> ShardPressureSnapshot list" where
  "allPressures cv clk d =
     map (\<lambda>i. the (fst (ShardPressureSnapshotOf cv (int i) clk d))) [0..<length (s_shards (dg_sched d))]"

lemma bundle_eq:
  fixes d :: diagScheduler
  defines "cfg \<equiv> normalizeShardPressureConfig (dg_shardPressureCfg d)"
  assumes "spc_Enabled (dg_shardPressureCfg d)"
    "collectPressureView cv cfg (pc_now clk) (pc_pk clk) (pc_hk clk) (dg_sched d) = (b, s')" "s_shards (dg_sched d) \<noteq> []"
  shows "pvb_summaries b = allPressures cv clk d" "pvb_view b = collectSchedulerDebugView (dg_sched d)"
    "i < length (s_shards (dg_sched d)) \<Longrightarrow>
       builtAt cv (pvb_view b) cfg (pvb_perKeySnaps b) (pc_now clk) (pc_hk clk) i (pvb_summaries b ! i)"
proof -
  let ?v = "collectSchedulerDebugView (dg_sched d)" and ?n = "length (s_shards (dg_sched d))"
  have len: "length (view_shards ?v) = ?n" by (simp add: collectSchedulerDebugView_def)
  have ne: "view_shards ?v \<noteq> []" using len assms(4) by auto
  obtain xs where xs: "summariesFrom cv ?v cfg (PerKeyAdmissionSnapshots (dg_sched d) (pc_pk clk))
      (peerSumOf (map (partialRatio ?v cfg) (view_shards ?v))) (pc_now clk) (pc_hk clk) 0 (map (partialRatio ?v cfg) (view_shards ?v))
      (dg_sched d) = (xs, s')" "b = \<lparr>pvb_view = ?v, pvb_perKeySnaps = PerKeyAdmissionSnapshots (dg_sched d) (pc_pk clk), pvb_summaries = xs\<rparr>"
    using assms(3) ne by (auto simp: collectPressureView_def Let_def split: prod.splits)
  have length: "length (pvb_summaries b) = ?n" using summariesFrom_nth [OF xs(1)] len xs(2) by simp
  have en: "shardPressureEnabled cfg"
    using assms(2) by (simp add: cfg_def shardPressureEnabled_def normalizeShardPressureConfig_def)
  have "fst (ShardPressureSnapshotOf cv (int i) clk d) = Some (pvb_summaries b ! i)" if "i < ?n" for i
    using that length assms(3) en by (simp add: ShardPressureSnapshotOf_def Let_def cfg_def [symmetric])
  then show "pvb_summaries b = allPressures cv clk d"
    using length by (intro nth_equalityI) (simp_all add: allPressures_def)
  show "pvb_view b = ?v" using xs(2) by simp
  assume i: "i < ?n"
  then show "builtAt cv (pvb_view b) cfg (pvb_perKeySnaps b) (pc_now clk) (pc_hk clk) i (pvb_summaries b ! i)"
    using summariesFrom_nth [OF xs(1)] len xs(2) by simp
qed

lemma allPressures_facts:
  fixes d :: diagScheduler
  defines "cfg \<equiv> normalizeShardPressureConfig (dg_shardPressureCfg d)"
  assumes "diag_ok (dg_sched d)" "spc_Enabled (dg_shardPressureCfg d)" "i < length (s_shards (dg_sched d))"
    "r = allPressures cv clk d ! i"
  shows "sp_ShardID r = int i" "sp_QueueDepth r = sint (fst (shardTotals (s_shards (dg_sched d) ! i)))"
    "sp_Class r = classOf cfg r" "unitRatio (sp_PressureRatio r)"
proof -
  let ?s = "dg_sched d"
  let ?v = "collectSchedulerDebugView ?s"
  obtain b s' where b: "collectPressureView cv cfg (pc_now clk) (pc_pk clk) (pc_hk clk) ?s = (b, s')" by force
  note eq = bundle_eq [OF assms(3) b [unfolded cfg_def], folded cfg_def]
  have ne: "s_shards ?s \<noteq> []" using assms(4) by auto
  obtain ps pc s0 where r: "r = fst (buildShardPressureSnapshot cv (int i) ?v cfg (pvb_perKeySnaps b) ps pc (pc_now clk) (pc_hk clk i) s0)"
    using eq(3) [OF ne assms(4)] eq(1,2) [OF ne] assms(5) by (auto simp: builtAt_def)
  have sh: "i < length (view_shards ?v)" "view_shards ?v ! i = shardView ?s i"
    using assms(4) by (simp_all add: collectSchedulerDebugView_def)
  have "length (sh_Lanes (s_shards ?s ! i)) \<le> 65536"
    using assms(2,4) by (simp add: diag_ok_def sched_wf_def shards_ok_def)
  then have dist: "distinct (map lds_laneID (sv_laneDeps (view_shards ?v ! i)))" unfolding sh(2) by (rule view_lanes_distinct)
  have th: "thresholds_ok cfg" unfolding cfg_def using assms(3) by (rule normalize_thresholds)
  note f = snapshot_fields [OF sh(1) th dist r refl]
  show "sp_ShardID r = int i" "sp_Class r = classOf cfg r" by (fact f)+
  show "sp_QueueDepth r = sint (fst (shardTotals (s_shards ?s ! i)))" using f(2) sh(2) by simp
  show "unitRatio (sp_PressureRatio r)"
    using f(4) waitRatio_unit shardView_ratios [OF assms(2,4)] unfolding sh(2) by (auto intro!: maxFloat64_unit simp del: shardView_fields)
qed

lemma allPressures_comparable:
  assumes "diag_ok (dg_sched d)" "spc_Enabled (dg_shardPressureCfg d)"
  shows "shardPressure.comparable (allPressures cv clk d)"
proof -
  let ?n = "length (s_shards (dg_sched d))" and ?all = "allPressures cv clk d"
  have len: "length ?all = ?n" by (simp add: allPressures_def)
  have ids: "map sp_ShardID ?all = map int [0..<?n]"
  proof (rule nth_equalityI)
    fix i assume "i < length (map sp_ShardID ?all)"
    then have i: "i < ?n" using len by simp
    then show "map sp_ShardID ?all ! i = map int [0..<?n] ! i"
      using allPressures_facts(1) [OF assms i refl] len by simp
  qed (simp add: len)
  have "distinct (map sp_ShardID ?all)" unfolding ids by (simp add: distinct_map inj_on_def)
  moreover have "\<not> isNaN (sp_PressureRatio x)" if x: "x \<in> set ?all" for x
  proof -
    obtain i where i: "i < length ?all" "x = ?all ! i" using x unfolding in_set_conv_nth by blast
    show ?thesis using allPressures_facts(4) [OF assms i(1) [unfolded len] i(2)] by (rule unitRatio_not_NaN)
  qed
  ultimately show ?thesis unfolding shardPressure.comparable_def by blast
qed

subsection \<open>Properties\<close>

text \<open>Diagnostics observe. Taking a pressure summary, the snapshot of a shard, the list of hot shards, a scale signal
  or a full debug snapshot leaves every part of the scheduler as it was (queues, tokens, life cycle, policies, counters,
  in-flight numbers) except that hot-key trackers may have forgotten stale keys, and no call changes the configuration of
  the diagnostics; only the scale signal and the debug snapshot, which contains one, advance the calculator.\<close>

lemma diagnostics_observe:
  "observes (dg_sched d) (dg_sched (snd (PressureSummarySnapshot cv clk d)))
     \<and> observes (dg_sched d) (dg_sched (snd (ShardPressureSnapshotOf cv shardID clk d)))
     \<and> observes (dg_sched d) (dg_sched (snd (HotShardPressureSnapshots cv clk d)))
     \<and> observes (dg_sched d) (dg_sched (snd (ScaleSignalSnapshotOf now hkNow d)))
     \<and> observes (dg_sched d) (dg_sched (snd (DebugSnapshotOf cv dclk d)))
     \<and> dg_shardPressureCfg (snd (DebugSnapshotOf cv dclk d)) = dg_shardPressureCfg d
     \<and> dg_scaleCalc (snd (PressureSummarySnapshot cv clk d)) = dg_scaleCalc d
     \<and> dg_scaleCalc (snd (HotShardPressureSnapshots cv clk d)) = dg_scaleCalc d"
proof -
  let ?cfg = "normalizeShardPressureConfig (dg_shardPressureCfg d)"
  obtain b s' where b: "collectPressureView cv ?cfg (pc_now clk) (pc_pk clk) (pc_hk clk) (dg_sched d) = (b, s')" by force
  note o = collectPressureView_observes [OF b]
  show ?thesis
    using b o ScaleSignalSnapshotOf_observes(1) [of now hkNow d] DebugSnapshotOf_observes [of cv dclk d]
    by (simp add: PressureSummarySnapshot_def ShardPressureSnapshotOf_def HotShardPressureSnapshots_def Let_def
        prod_eq_iff split: prod.splits)
qed


definition demoDiag :: diagScheduler where
  "demoDiag = \<lparr>dg_sched = demoSched, dg_shardPressureCfg =
     \<lparr>spc_Enabled = True, spc_Window = 30 * Second, spc_HotShardPressureRatio = FFin 0, spc_DominantLaneRatio = FFin 0,
      spc_LocalizedHotKeyRatio = FFin 0, spc_DistributedShardRatio = FFin 0, spc_WorkerBusyRatio = FFin 0,
      spc_MaxHotShards = 0, spc_MaxLaneBreakdownPerShard = 0, spc_MaxHotKeyCandidatesPerShard = 0\<rparr>, dg_scaleCalc = None\<rparr>"

definition demoPressureClock :: pressureClock where
  "demoPressureClock = \<lparr>pc_now = 1, pc_pk = 1, pc_later = 2, pc_hk = (\<lambda>_. 1)\<rparr>"

lemma demoSched_fields:
  "s_shardInflight demoSched = [0, 0]" "map (\<lambda>sh. sum_list (map capacity (sh_Lanes sh))) (s_shards demoSched) = [8, 8]"
  "Len (s_laneReg demoSched) = 2" "length (s_shards demoSched) = 2"
  by code_simp+

lemma demoDiag_ok: "diag_ok (dg_sched demoDiag)" "spc_Enabled (dg_shardPressureCfg demoDiag)"
  "dg_sched demoDiag = demoSched"
proof -
  have "sum_list (map capacity (sh_Lanes sh)) = 8" if "sh \<in> set (s_shards demoSched)" for sh
  proof -
    have "sum_list (map capacity (sh_Lanes sh)) \<in> set (map (\<lambda>sh. sum_list (map capacity (sh_Lanes sh))) (s_shards demoSched))"
      using that by simp
    then show ?thesis unfolding demoSched_fields(2) by simp
  qed
  then show "diag_ok (dg_sched demoDiag)"
    using demoSched_wf by (simp add: diag_ok_def demoDiag_def demoSched_fields(1,3))
qed (simp_all add: demoDiag_def)


text \<open>A shard that a ranking considers at all.\<close>

definition activePressure :: "ShardPressureSnapshot \<Rightarrow> bool" where
  "activePressure sh \<longleftrightarrow> \<not> (fle (sp_PressureRatio sh) (FFin 0) \<and> sp_QueueDepth sh \<le> 0)"



lemma buildPressureSummary_input:
  fixes pb cfg now
  defines "sm \<equiv> buildPressureSummary pb cfg now" and "all \<equiv> pvb_summaries pb"
  assumes "spc_Enabled cfg" "pvb_summaries pb \<noteq> []"
  shows "\<exists>gi. sm_Class sm = classifyGlobalPressure gi
    \<and> (sm_ScaleRelevant sm, sm_MitigationRelevant sm) = computeScaleMitigationFlags (classifyGlobalPressure gi) gi
    \<and> gpi_Cfg gi = cfg \<and> gpi_ShardCount gi = int (length all)
    \<and> gpi_HotShardCount gi = int (length (filter (\<lambda>sh. fge (sp_PressureRatio sh) (spc_HotShardPressureRatio cfg)) all))
    \<and> gpi_HotShardRatio gi =
        fdiv (float64_of_int (int (length (filter (\<lambda>sh. fge (sp_PressureRatio sh) (spc_HotShardPressureRatio cfg)) all))))
          (float64_of_int (int (length all)))
    \<and> gpi_LocalizedShardCount gi = int (length (filter (\<lambda>sh. sp_Class sh = ShardPressureLocalizedKey) all))
    \<and> sm_HotShardCount sm = int (length (filter (\<lambda>sh. fge (sp_PressureRatio sh) (spc_HotShardPressureRatio cfg)) all))"
proof -
  have guards: "(length (pvb_summaries pb) = 0) = False" "(\<not> shardPressureEnabled cfg) = False"
    using assms(3,4) by (simp_all add: shardPressureEnabled_def)
  show ?thesis
    unfolding sm_def all_def buildPressureSummary_def Let_def case_prod_beta guards if_False PressureSummary.simps
    by (intro exI conjI) (rule refl, simp_all only: globalPressureInput.simps prod.collapse)
qed

lemma hotRatio_zero:
  assumes "0 < n" shows "fdiv (float64_of_int 0) (float64_of_int n) = FFin 0"
proof -
  have "float64_of_int 0 = FFin 0" by (simp add: float64_of_int_def)
  then show ?thesis using float64_of_int_pos [OF assms] by auto
qed

lemma half_pos: "\<not> fle (flit (50 / 100)) (FFin 0)"
  by code_simp

lemma distributed_pos:
  "spc_Enabled cfg \<Longrightarrow> \<not> fle (spc_DistributedShardRatio (normalizeShardPressureConfig cfg)) (FFin 0)"
  using half_pos by (simp add: normalizeShardPressureConfig_def floatOr_def)

text \<open>Flags of a classified input: a hot shard with a localized one is classified as localized, so the branch of the flags for
  it is never taken.\<close>

lemma globalFlags:
  assumes "spc_Enabled (gpi_Cfg gi)" "gpi_ShardCount gi \<noteq> 0"
  shows "snd (computeScaleMitigationFlags (classifyGlobalPressure gi) gi) \<longleftrightarrow> classifyGlobalPressure gi = ShardPressureLocalizedKey"
    "\<not> (fst (computeScaleMitigationFlags (classifyGlobalPressure gi) gi)
        \<and> snd (computeScaleMitigationFlags (classifyGlobalPressure gi) gi))"
proof -
  have "classifyGlobalPressure gi = ShardPressureShardHot \<Longrightarrow> \<not> gpi_LocalizedShardCount gi > 0"
    "classifyGlobalPressure gi \<noteq> ShardPressureUnknown" "classifyGlobalPressure gi \<noteq> ShardPressureEmpty"
    using assms unfolding classifyGlobalPressure_def Let_def by (auto split: if_splits)
  then show "snd (computeScaleMitigationFlags (classifyGlobalPressure gi) gi) \<longleftrightarrow> classifyGlobalPressure gi = ShardPressureLocalizedKey"
    "\<not> (fst (computeScaleMitigationFlags (classifyGlobalPressure gi) gi)
        \<and> snd (computeScaleMitigationFlags (classifyGlobalPressure gi) gi))"
    by (cases "classifyGlobalPressure gi"; simp add: computeScaleMitigationFlags_def)+
qed

text \<open>The advice of a summary is consistent. With diagnostics enabled, the number of hot shards is the number of shards
  whose own class is not healthy; scaling and mitigation are never advised together; mitigation is advised exactly for a
  localized key, and then some shard has that class; a healthy summary has no hot shard, and without a
  hot shard the summary is healthy or worker bound.\<close>

lemma pressure_advice:
  fixes d :: diagScheduler and cv clk
  defines "sm \<equiv> fst (PressureSummarySnapshot cv clk d)"
  assumes "diag_ok (dg_sched d)" "spc_Enabled (dg_shardPressureCfg d)"
    "\<not> isNaN (spc_HotShardPressureRatio (dg_shardPressureCfg d))"
  shows "sm_HotShardCount sm = int (length (filter (\<lambda>r. sp_Class r \<noteq> ShardPressureHealthy) (allPressures cv clk d)))
    \<and> \<not> (sm_ScaleRelevant sm \<and> sm_MitigationRelevant sm)
    \<and> (sm_MitigationRelevant sm \<longleftrightarrow> sm_Class sm = ShardPressureLocalizedKey)
    \<and> (sm_Class sm = ShardPressureLocalizedKey \<longrightarrow> (\<exists>r \<in> set (allPressures cv clk d). sp_Class r = ShardPressureLocalizedKey))
    \<and> (sm_Class sm = ShardPressureHealthy \<longrightarrow> sm_HotShardCount sm = 0)
    \<and> (sm_HotShardCount sm = 0 \<longrightarrow> sm_Class sm \<in> {ShardPressureHealthy, ShardPressureWorkerBound})"
proof -
  let ?cfg = "normalizeShardPressureConfig (dg_shardPressureCfg d)" and ?all = "allPressures cv clk d"
  obtain b s' where b: "collectPressureView cv ?cfg (pc_now clk) (pc_pk clk) (pc_hk clk) (dg_sched d) = (b, s')" by force
  have ne: "s_shards (dg_sched d) \<noteq> []" using assms(2) by (auto simp: diag_ok_def sched_wf_def)
  have en: "spc_Enabled ?cfg" using assms(3) by (simp add: normalizeShardPressureConfig_def)
  have sums: "pvb_summaries b = ?all" by (rule bundle_eq(1) [OF assms(3) b ne])
  have all: "?all \<noteq> []" using ne by (simp add: allPressures_def)
  let ?loc = "filter (\<lambda>sh. sp_Class sh = ShardPressureLocalizedKey) ?all"
  let ?hot = "filter (\<lambda>sh. fge (sp_PressureRatio sh) (spc_HotShardPressureRatio ?cfg)) ?all"
  have nan: "\<not> isNaN (spc_HotShardPressureRatio ?cfg)"
    using assms(4) by (simp add: normalizeShardPressureConfig_def floatOr_def flit_def)
  have cls: "sp_Class r = ShardPressureHealthy \<longleftrightarrow> \<not> fge (sp_PressureRatio r) (spc_HotShardPressureRatio ?cfg)"
    if r: "r \<in> set ?all" for r
  proof -
    obtain i where i: "i < length (s_shards (dg_sched d))" "r = ?all ! i"
      using r unfolding in_set_conv_nth by (auto simp: allPressures_def)
    note f = allPressures_facts [OF assms(2,3) i]
    have "flt (sp_PressureRatio r) (spc_HotShardPressureRatio ?cfg) \<longleftrightarrow> \<not> fge (sp_PressureRatio r) (spc_HotShardPressureRatio ?cfg)"
      using flt_or_fge [OF unitRatio_not_NaN [OF f(4)] nan] .
    then show ?thesis using f(3) by (simp add: classOf_def)
  qed
  have hot: "?hot = filter (\<lambda>r. sp_Class r \<noteq> ShardPressureHealthy) ?all"
    by (rule filter_cong) (simp_all add: cls)
  have loc: "?hot \<noteq> []" if l: "?loc \<noteq> []"
  proof -
    obtain r where "r \<in> set ?loc" using hd_in_set [OF l] by blast
    then have "r \<in> set (filter (\<lambda>r. sp_Class r \<noteq> ShardPressureHealthy) ?all)" by simp
    then show ?thesis unfolding hot by (metis list.set(1) emptyE)
  qed
  have sm: "sm = buildPressureSummary b ?cfg (pc_later clk)"
    using b en by (simp add: sm_def PressureSummarySnapshot_def shardPressureEnabled_def)
  obtain gi where gi: "sm_Class sm = classifyGlobalPressure gi"
      "(sm_ScaleRelevant sm, sm_MitigationRelevant sm) = computeScaleMitigationFlags (classifyGlobalPressure gi) gi"
      "gpi_Cfg gi = ?cfg" "gpi_ShardCount gi = int (length ?all)" "gpi_HotShardCount gi = int (length ?hot)"
      "gpi_HotShardRatio gi = fdiv (float64_of_int (int (length ?hot))) (float64_of_int (int (length ?all)))"
      "gpi_LocalizedShardCount gi = int (length ?loc)" "sm_HotShardCount sm = int (length ?hot)"
    using buildPressureSummary_input [OF en, of b "pc_later clk"] all unfolding sums sm by blast
  have dist: "\<not> isDistributedPressure gi" if "?hot = []"
    using that gi(3,6) hotRatio_zero [of "int (length ?all)"] all distributed_pos [OF assms(3)]
    by (simp add: isDistributedPressure_def)
  have m: "sm_MitigationRelevant sm \<longleftrightarrow> classifyGlobalPressure gi = ShardPressureLocalizedKey"
    "\<not> (sm_ScaleRelevant sm \<and> sm_MitigationRelevant sm)"
    using gi(2) globalFlags [of gi] gi(3,4) en all by (simp_all add: prod_eq_iff)
  have c: "classifyGlobalPressure gi = ShardPressureLocalizedKey \<Longrightarrow> ?loc \<noteq> []"
    "classifyGlobalPressure gi = ShardPressureHealthy \<Longrightarrow> ?hot = []"
    "?hot = [] \<Longrightarrow> classifyGlobalPressure gi \<in> {ShardPressureHealthy, ShardPressureWorkerBound}"
    using gi(3-5,7) en all dist loc unfolding classifyGlobalPressure_def by (auto simp: Let_def split: if_splits)
  have "(\<exists>r \<in> set ?all. sp_Class r = ShardPressureLocalizedKey)" if "?loc \<noteq> []"
    using that by (simp add: filter_empty_conv)
  moreover have "int (length ?hot) = 0 \<longleftrightarrow> ?hot = []" by (simp only: of_nat_eq_0_iff length_0_conv)
  ultimately show ?thesis using m c unfolding gi(1) gi(8) hot [symmetric] by blast
qed

subsection \<open>The flat list of hot keys\<close>

lemma detect_top: "detectHotKeyCandidates t i d w now = (Some (c, cs), t') \<Longrightarrow> c \<in> set cs"
  by (auto simp: detectHotKeyCandidates_def Let_def split: if_splits prod.splits)

lemma shardSnapshotOf_top:
  "shardSnapshotOf hk i sh s = (ss, s') \<Longrightarrow> shs_HotKeyCandidate ss = Some c \<Longrightarrow> c \<in> set (shs_HotKeyCandidates ss)"
  by (auto simp: shardSnapshotOf_def Let_def dest: detect_top split: option.splits if_splits prod.splits)

lemma shardSnapshotsFrom_top:
  "shardSnapshotsFrom hk i shs s = (sss, s') \<Longrightarrow> ss \<in> set sss \<Longrightarrow> shs_HotKeyCandidate ss = Some c \<Longrightarrow>
   c \<in> set (shs_HotKeyCandidates ss)"
proof (induction shs arbitrary: i s sss)
  case (Cons x shs)
  obtain a s1 where a: "shardSnapshotOf hk i x s = (a, s1)" by force
  obtain b s2 where b: "shardSnapshotsFrom hk (Suc i) shs s1 = (b, s2)" by force
  have "sss = a # b" "s' = s2" using Cons.prems a b by simp_all
  then show ?case using Cons.prems(2,3) Cons.IH [of "Suc i" s1 b] b shardSnapshotOf_top [OF a] by auto
qed simp

lemma DebugSnapshotOf_shards:
  assumes "ss \<in> set (dbg_Shards (fst (DebugSnapshotOf cv clk d)))"
  shows "\<exists>s1 sss ss0. shardSnapshotsFrom (dc_hk clk) 0 (view_shards (collectSchedulerDebugView (dg_sched d))) (dg_sched d) = (sss, s1)
    \<and> ss0 \<in> set sss \<and> shs_HotKeyCandidate ss = shs_HotKeyCandidate ss0 \<and> shs_HotKeyCandidates ss = shs_HotKeyCandidates ss0"
proof -
  obtain sss s1 where sss: "shardSnapshotsFrom (dc_hk clk) 0 (view_shards (collectSchedulerDebugView (dg_sched d))) (dg_sched d)
    = (sss, s1)" by force
  have mem: "\<exists>ss0 \<in> set sss. shs_HotKeyCandidate ss = shs_HotKeyCandidate ss0 \<and> shs_HotKeyCandidates ss = shs_HotKeyCandidates ss0"
    if "ss \<in> set (map (\<lambda>(i, ss). if i < length ps then ss\<lparr>shs_ShardPressure := ps ! i\<rparr> else ss) (enumerate 0 sss))" for ps
    using that nth_mem [of _ sss] by (fastforce simp: in_set_enumerate_eq split: if_splits)
  have "\<exists>ss0 \<in> set sss. shs_HotKeyCandidate ss = shs_HotKeyCandidate ss0 \<and> shs_HotKeyCandidates ss = shs_HotKeyCandidates ss0"
  proof (cases "obs_EnableDebugSnapshot (s_Obs (dg_sched d))")
    case True
    let ?cfg = "normalizeShardPressureConfig (dg_shardPressureCfg d)" and ?p = "dc_pressure clk"
    obtain b s2 where b: "collectPressureView cv ?cfg (pc_now ?p) (pc_pk ?p) (pc_hk ?p) s1 = (b, s2)" by force
    have "dbg_Shards (fst (DebugSnapshotOf cv clk d)) = (if shardPressureEnabled ?cfg
        then map (\<lambda>(i, ss). if i < length (pvb_summaries b) then ss\<lparr>shs_ShardPressure := pvb_summaries b ! i\<rparr> else ss) (enumerate 0 sss)
        else sss)"
      using True sss b by (simp add: DebugSnapshotOf_def Let_def split: prod.splits)
    then show ?thesis using assms mem [of "pvb_summaries b"] by (auto split: if_splits)
  next
    case False
    then show ?thesis using assms by (simp add: DebugSnapshotOf_def emptyDebugSnapshot_def)
  qed
  then show ?thesis using sss by blast
qed

text \<open>The flat list of hot keys lists the hottest key of every shard twice. \<open>detectHotKeyCandidates\<close> returns its top
  candidate also as the first of the candidates, and \<open>flattenHotKeyCandidates\<close> puts the top in front of them again, so
  each shard that reports a candidate contributes that candidate at least twice to \<open>HotKeys\<close>.\<close>

lemma hot_keys_twice:
  assumes "ss \<in> set (dbg_Shards (fst (DebugSnapshotOf cv clk d)))" "shs_HotKeyCandidate ss = Some c"
  shows "2 \<le> count (mset (flattenHotKeyCandidates (dbg_Shards (fst (DebugSnapshotOf cv clk d))))) c"
proof -
  let ?f = "\<lambda>sh. case shs_HotKeyCandidate sh of None \<Rightarrow> shs_HotKeyCandidates sh | Some c \<Rightarrow> c # shs_HotKeyCandidates sh"
  let ?shs = "dbg_Shards (fst (DebugSnapshotOf cv clk d))"
  have "c \<in> set (shs_HotKeyCandidates ss)"
    using DebugSnapshotOf_shards [OF assms(1)] assms(2) shardSnapshotsFrom_top by metis
  then have two: "2 \<le> count (mset (?f ss)) c" using assms(2) count_greater_zero_iff [of "mset (shs_HotKeyCandidates ss)" c]
    by (simp del: count_greater_zero_iff)
  obtain xs ys where "?shs = xs @ ss # ys" using assms(1) by (meson split_list)
  then have "count (mset (concat (map ?f ?shs))) c \<ge> count (mset (?f ss)) c" by simp
  then show ?thesis using two by (simp add: flattenHotKeyCandidates_def)
qed

text \<open>Shard 0 with a tracker that has seen three keys.\<close>

definition demoHotDiag :: diagScheduler where
  "demoHotDiag = demoDiag\<lparr>dg_sched := demoSched\<lparr>s_hotKeyTrackers := Some [demoTracker, demoTracker]\<rparr>,
     dg_shardPressureCfg := (dg_shardPressureCfg demoDiag)\<lparr>spc_Enabled := False\<rparr>\<rparr>"

definition demoDebugClock :: debugClock where
  "demoDebugClock = \<lparr>dc_hk = (\<lambda>_. 200), dc_pk = 200, dc_pressure = demoPressureClock, dc_scale = 200, dc_scaleHk = (\<lambda>_. 200), dc_generated = 200\<rparr>"

lemma dbg_Shards_plain:
  assumes "obs_EnableDebugSnapshot (s_Obs (dg_sched d))" "\<not> spc_Enabled (dg_shardPressureCfg d)"
  shows "dbg_Shards (fst (DebugSnapshotOf cv clk d))
    = fst (shardSnapshotsFrom (dc_hk clk) 0 (view_shards (collectSchedulerDebugView (dg_sched d))) (dg_sched d))"
  using assms by (simp add: DebugSnapshotOf_def Let_def normalizeShardPressureConfig_def shardPressureEnabled_def split: prod.splits)

lemma demoHot_detect:
  "map_option (hc_KeyHash \<circ> fst) (fst (detectHotKeyCandidates demoTracker 0 0 0 200)) = Some 11" "enabled demoTracker"
  "obs_EnableDebugSnapshot (s_Obs demoSched)"
  by code_simp+

lemma demoHot_view: "\<exists>v0 v1. view_shards (collectSchedulerDebugView (dg_sched demoHotDiag)) = [v0, v1] \<and> sv_depth v0 = 0"
proof -
  have "map sv_depth (view_shards (collectSchedulerDebugView (dg_sched demoHotDiag))) = [0, 0]" by code_simp
  then show ?thesis by (auto simp: map_eq_Cons_conv)
qed

lemma demoHot_wait: "acc_totalNanos (s_shardQueueWait demoSched ! 0) = 0"
  by code_simp

lemma demoHot_candidate:
  "\<exists>c. shs_HotKeyCandidate (dbg_Shards (fst (DebugSnapshotOf (\<lambda>_. 0) demoDebugClock demoHotDiag)) ! 0) = Some c"
  "0 < length (dbg_Shards (fst (DebugSnapshotOf (\<lambda>_. 0) demoDebugClock demoHotDiag)))"
proof -
  let ?s = "dg_sched demoHotDiag"
  obtain v0 v1 where v: "view_shards (collectSchedulerDebugView ?s) = [v0, v1]" "sv_depth v0 = 0" using demoHot_view by blast
  have d: "dbg_Shards (fst (DebugSnapshotOf (\<lambda>_. 0) demoDebugClock demoHotDiag)) = fst (shardSnapshotsFrom (\<lambda>_. 200) 0 [v0, v1] ?s)"
    using dbg_Shards_plain [of demoHotDiag "\<lambda>_. 0" demoDebugClock] demoHot_detect(3) v(1)
    by (simp add: demoHotDiag_def demoDiag_def demoDebugClock_def)
  have t: "hotKeyTrackerForShard ?s 0 = Some demoTracker" by (simp add: hotKeyTrackerForShard_def demoHotDiag_def)
  have "fst (detectHotKeyCandidates demoTracker 0 0 0 200) \<noteq> None" using demoHot_detect(1) by auto
  then obtain c cs t' where c: "detectHotKeyCandidates demoTracker 0 0 0 200 = (Some (c, cs), t')" by (metis not_None_eq prod.exhaust fst_conv)
  have w: "acc_totalNanos (s_shardQueueWait ?s ! 0) = 0"
    using demoHot_wait by (simp add: demoHotDiag_def)
  have "shs_HotKeyCandidate (fst (shardSnapshotOf (\<lambda>_. 200) 0 v0 ?s)) = Some c"
    using t c v(2) demoHot_detect(2) unfolding shardSnapshotOf_def by (simp add: Let_def w)
  then show "\<exists>c. shs_HotKeyCandidate (dbg_Shards (fst (DebugSnapshotOf (\<lambda>_. 0) demoDebugClock demoHotDiag)) ! 0) = Some c"
    unfolding d by (simp add: case_prod_beta)
  show "0 < length (dbg_Shards (fst (DebugSnapshotOf (\<lambda>_. 0) demoDebugClock demoHotDiag)))"
    unfolding d by (simp split: prod.splits)
qed

end
