(* ===== verification/Backend.thy ===== *)
theory Backend
  imports Failure_Class Shard Go_Float_Exact
begin

text \<open>
  Coordination of backend resources: \<open>backend_resource.go\<close>, \<open>backend_resource_config.go\<close>, \<open>backend_coordinator.go\<close>,
  \<open>backend_admission.go\<close>, \<open>backend_lease.go\<close>, \<open>backend_stage_context.go\<close>, \<open>backend_snapshot.go\<close>, \<open>backend_pressure.go\<close>,
  \<open>backend_pressure_collect.go\<close>, \<open>backend_observability.go\<close> and the two pool adapters. A lane of a resource bounds the work
  in flight by leases; a lease gives its slot back once. A Go map is an association list with distinct keys. What a
  context carries is an argument: its error and the execution metadata of the stage. The events handed to hooks are results.
\<close>

subsection \<open>Execution metadata\<close>

record StageMeta =
  sme_Name :: string
  sme_Operation :: string

record StageExecutionContext =
  sec_RequestID :: string
  sec_Key :: string
  sec_Lane :: string
  sec_ShardID :: int
  sec_Transport :: string
  sec_Operation :: string
  sec_Stage :: StageMeta
  sec_StageIndex :: int
  sec_StageCount :: int
  sec_Attempt :: int
  sec_QueueWait :: duration
  sec_Deadline :: DeadlineBudgetSnapshot

subsection \<open>Operations and their validation\<close>

record BackendOperation =
  bo_Resource :: string
  bo_Lane :: string
  bo_Stage :: string
  bo_Operation :: string

text \<open>\<open>strings.Contains(value, sub)\<close>.\<close>

fun containsSub :: "string \<Rightarrow> string \<Rightarrow> bool" where
  "containsSub [] sub = (sub = [])"
| "containsSub (c # cs) sub = (take (length sub) (c # cs) = sub \<or> containsSub cs sub)"

text \<open>\<open>True\<close> for \<open>nil\<close>; every error wraps \<open>ErrInvalidConfig\<close>.\<close>

definition validateBackendLabel :: "string \<Rightarrow> bool" where
  "validateBackendLabel value = (if containsSub value ''://'' then False else length value \<le> 128)"

definition ValidateBackendOperation :: "BackendOperation \<Rightarrow> bool" where
  "ValidateBackendOperation op =
     (if bo_Resource op = [] then False
      else if bo_Lane op = [] then False
      else if \<not> validateBackendLabel (bo_Resource op) then False
      else if \<not> validateBackendLabel (bo_Lane op) then False
      else if bo_Operation op \<noteq> [] \<and> \<not> validateBackendLabel (bo_Operation op) then False
      else if bo_Stage op \<noteq> [] \<and> \<not> validateBackendLabel (bo_Stage op) then False
      else True)"

subsection \<open>Pool pressure\<close>

record BackendPressureSnapshot =
  bp_Resource :: string
  bp_Lane :: string
  bp_InUse :: int
  bp_Capacity :: int
  bp_Idle :: int
  bp_WaitCount :: u64
  bp_WaitTime :: duration
  bp_Saturated :: bool
  bp_Pressure :: float64

definition isInf :: "float64 \<Rightarrow> bool" where
  "isInf x \<longleftrightarrow> x = FPosInf \<or> x = FNegInf"

text \<open>The statements on \<open>Pressure\<close>, in their order.\<close>

definition normalizePressure :: "int \<Rightarrow> int \<Rightarrow> float64 \<Rightarrow> float64" where
  "normalizePressure inUse cap pressure =
     (let p1 = (if cap > 0
                then (if fle pressure (FFin 0) then fdiv (float64_of_int inUse) (float64_of_int cap) else pressure)
                else FFin 0);
          p2 = (if flt p1 (FFin 0) then FFin 0 else p1);
          p3 = (if fgt p2 (FFin 1) then FFin 1 else p2)
      in if isNaN p3 \<or> isInf p3 then FFin 0 else p3)"

definition normalizeBackendPressureSnapshot :: "BackendPressureSnapshot \<Rightarrow> BackendPressureSnapshot" where
  "normalizeBackendPressureSnapshot s =
     (let inUse = max 0 (bp_InUse s); cap = max 0 (bp_Capacity s)
      in s\<lparr>bp_InUse := inUse, bp_Capacity := cap, bp_Idle := max 0 (bp_Idle s), bp_WaitTime := max 0 (bp_WaitTime s),
           bp_Pressure := normalizePressure inUse cap (bp_Pressure s),
           bp_Saturated := (if cap > 0 \<and> \<not> bp_Saturated s \<and> inUse \<ge> cap then True else bp_Saturated s)\<rparr>)"

definition ValidateBackendPressureSnapshot :: "BackendPressureSnapshot \<Rightarrow> bool" where
  "ValidateBackendPressureSnapshot s =
     (if bp_Resource s = [] then False
      else if bp_Lane s = [] then False
      else if \<not> validateBackendLabel (bp_Resource s) then False
      else validateBackendLabel (bp_Lane s))"

text \<open>A provider is the application's; its answer to a call is a snapshot, or \<open>None\<close> for a panic.\<close>

type_synonym pressureAnswer = "BackendPressureSnapshot option"

definition validateBackendPressureProviderProbe :: "pressureAnswer \<Rightarrow> bool" where
  "validateBackendPressureProviderProbe answer =
     (case answer of
        None \<Rightarrow> False
      | Some snap \<Rightarrow> ValidateBackendPressureSnapshot (normalizeBackendPressureSnapshot snap))"

definition collectProviderPressure :: "pressureAnswer \<Rightarrow> BackendPressureSnapshot option" where
  "collectProviderPressure answer =
     (case answer of
        None \<Rightarrow> None
      | Some raw \<Rightarrow>
          (let snap = normalizeBackendPressureSnapshot raw
           in if ValidateBackendPressureSnapshot snap then Some snap else None))"

text \<open>The diagnostics of all providers; the same snapshots are handed to the hook.\<close>

definition collectBackendPressure :: "pressureAnswer list \<Rightarrow> BackendPressureSnapshot list" where
  "collectBackendPressure answers = List.map_filter collectProviderPressure answers"

text \<open>The adapters. A reader is its five answers, \<open>database/sql\<close>'s \<open>DBStats\<close> the fields the code reads.\<close>

record resourceReader =
  rr_InUse :: int
  rr_Capacity :: int
  rr_WaitCount :: u64
  rr_WaitTime :: duration
  rr_Saturated :: bool

record dbStats =
  st_InUse :: int
  st_Idle :: int
  st_WaitCount :: int
  st_WaitDuration :: duration
  st_MaxOpenConnections :: int

definition emptyPressureSnapshot :: "string \<Rightarrow> string \<Rightarrow> BackendPressureSnapshot" where
  "emptyPressureSnapshot resource lane =
     \<lparr>bp_Resource = resource, bp_Lane = lane, bp_InUse = 0, bp_Capacity = 0, bp_Idle = 0, bp_WaitCount = 0, bp_WaitTime = 0,
      bp_Saturated = False, bp_Pressure = FFin 0\<rparr>"

definition apiBackendPressure :: "string \<Rightarrow> string \<Rightarrow> resourceReader option \<Rightarrow> BackendPressureSnapshot" where
  "apiBackendPressure resource lane reader =
     (let snap = emptyPressureSnapshot resource lane
      in normalizeBackendPressureSnapshot
           (case reader of
              None \<Rightarrow> snap
            | Some r \<Rightarrow>
                snap\<lparr>bp_InUse := rr_InUse r, bp_Capacity := rr_Capacity r, bp_WaitCount := rr_WaitCount r,
                  bp_WaitTime := rr_WaitTime r, bp_Saturated := rr_Saturated r,
                  bp_Pressure := (if rr_Capacity r > 0
                    then fdiv (float64_of_int (rr_InUse r)) (float64_of_int (rr_Capacity r)) else FFin 0)\<rparr>))"

definition sqlBackendPressure :: "string \<Rightarrow> string \<Rightarrow> dbStats option \<Rightarrow> BackendPressureSnapshot" where
  "sqlBackendPressure resource lane db =
     (let snap = emptyPressureSnapshot resource lane
      in normalizeBackendPressureSnapshot
           (case db of
              None \<Rightarrow> snap
            | Some st \<Rightarrow>
                (let snap1 = snap\<lparr>bp_InUse := st_InUse st, bp_Idle := st_Idle st,
                       bp_WaitCount := word_of_int (st_WaitCount st), bp_WaitTime := st_WaitDuration st\<rparr>
                 in if st_MaxOpenConnections st > 0
                    then snap1\<lparr>bp_Capacity := st_MaxOpenConnections st,
                           bp_Saturated := (st_InUse st \<ge> st_MaxOpenConnections st),
                           bp_Pressure := fdiv (float64_of_int (st_InUse st)) (float64_of_int (st_MaxOpenConnections st))\<rparr>
                    else snap1)))"

subsection \<open>Configuration\<close>

datatype BackendAdmissionMode =
  BackendAdmissionModeEmpty | BackendAdmissionReject | BackendAdmissionWait | BackendAdmissionModeOther string

record BackendLanePolicy =
  blp_MaxInFlight :: int
  blp_QueueLimit :: int
  blp_Admission :: BackendAdmissionMode

text \<open>A resource policy is its map of lanes; a \<open>nil\<close> map behaves as the empty one.\<close>

type_synonym BackendResourcePolicy = "(string \<times> BackendLanePolicy) list"

record BackendResourceConfig =
  brc_Enabled :: bool
  brc_Resources :: "(string \<times> BackendResourcePolicy) list"
  brc_PressureProviders :: "pressureAnswer option list"

definition normalizeLanePolicy :: "BackendLanePolicy \<Rightarrow> BackendLanePolicy" where
  "normalizeLanePolicy lp =
     (if blp_Admission lp = BackendAdmissionModeEmpty then lp\<lparr>blp_Admission := BackendAdmissionReject\<rparr> else lp)"

definition NormalizeBackendResourceConfig :: "BackendResourceConfig \<Rightarrow> BackendResourceConfig" where
  "NormalizeBackendResourceConfig cfg =
     (if \<not> brc_Enabled cfg then cfg
      else cfg\<lparr>brc_Resources := map (map_prod id (map (map_prod id normalizeLanePolicy))) (brc_Resources cfg)\<rparr>)"

definition validLanePolicy :: "string \<times> BackendLanePolicy \<Rightarrow> bool" where
  "validLanePolicy l =
     (let (lane, lp) = l
      in if lane = [] then False
         else if blp_MaxInFlight lp < 1 then False
         else if blp_QueueLimit lp < 0 then False
         else blp_Admission lp = BackendAdmissionReject)"

definition validResource :: "string \<times> BackendResourcePolicy \<Rightarrow> bool" where
  "validResource r =
     (let (res, lanes) = r in if res = [] then False else if lanes = [] then False else list_all validLanePolicy lanes)"

definition ValidateBackendResourceConfig :: "BackendResourceConfig \<Rightarrow> bool" where
  "ValidateBackendResourceConfig cfg =
     (if \<not> list_all (\<lambda>p. case p of None \<Rightarrow> False | Some answer \<Rightarrow> validateBackendPressureProviderProbe answer)
            (brc_PressureProviders cfg) then False
      else if \<not> brc_Enabled cfg then True
      else (let normalized = NormalizeBackendResourceConfig cfg
            in if brc_Resources normalized = [] then False else list_all validResource (brc_Resources normalized)))"

subsection \<open>Decisions and events\<close>

datatype BackendAdmissionReason =
    BackendAdmissionAccepted | BackendAdmissionDisabled | BackendAdmissionUnknownResource | BackendAdmissionUnknownLane
  | BackendAdmissionSaturated | BackendAdmissionQueueFull | BackendAdmissionCancelled | BackendAdmissionDeadlineExhausted

record BackendAdmissionDecision =
  bd_Resource :: string
  bd_Lane :: string
  bd_Stage :: string
  bd_RequestID :: string
  bd_KeyHash :: u64
  bd_RequestLane :: string
  bd_ShardID :: int
  bd_Transport :: string
  bd_Operation :: string
  bd_StageIndex :: int
  bd_StageCount :: int
  bd_Attempt :: int
  bd_DeadlineRemaining :: duration
  bd_DeadlineExhausted :: bool
  bd_Accepted :: bool
  bd_Reason :: BackendAdmissionReason
  bd_InFlight :: int
  bd_Capacity :: int
  bd_Queued :: int

definition newBackendAdmissionDecision ::
  "StageExecutionContext option \<Rightarrow> BackendOperation \<Rightarrow> BackendAdmissionReason \<Rightarrow> bool \<Rightarrow> int \<Rightarrow> int \<Rightarrow> int \<Rightarrow>
   BackendAdmissionDecision" where
  "newBackendAdmissionDecision execOf op reason accepted inflight cap queued =
     (let dec = \<lparr>bd_Resource = bo_Resource op, bd_Lane = bo_Lane op, bd_Stage = bo_Stage op, bd_RequestID = [], bd_KeyHash = 0,
            bd_RequestLane = [], bd_ShardID = 0, bd_Transport = [], bd_Operation = bo_Operation op, bd_StageIndex = 0,
            bd_StageCount = 0, bd_Attempt = 0, bd_DeadlineRemaining = 0, bd_DeadlineExhausted = False, bd_Accepted = accepted,
            bd_Reason = reason, bd_InFlight = inflight, bd_Capacity = cap, bd_Queued = queued\<rparr>
      in case execOf of
           None \<Rightarrow> dec
         | Some e \<Rightarrow>
             dec\<lparr>bd_RequestID := sec_RequestID e, bd_KeyHash := (if sec_Key e \<noteq> [] then HashKey (sec_Key e) else 0),
               bd_RequestLane := sec_Lane e, bd_ShardID := sec_ShardID e, bd_Transport := sec_Transport e,
               bd_Operation := (if bo_Operation op = [] then sec_Operation e else bo_Operation op),
               bd_Stage := (if bo_Stage op = [] then sme_Name (sec_Stage e) else bo_Stage op),
               bd_StageIndex := sec_StageIndex e, bd_StageCount := sec_StageCount e, bd_Attempt := sec_Attempt e,
               bd_DeadlineRemaining := dbs_Remaining (sec_Deadline e),
               bd_DeadlineExhausted := dbs_BudgetExhausted (sec_Deadline e)\<rparr>)"

definition backendAdmissionReasonFromContext :: "goerror \<Rightarrow> BackendAdmissionReason" where
  "backendAdmissionReasonFromContext err =
     (if errorsIs err SContextCanceled then BackendAdmissionCancelled
      else if errorsIs err SContextDeadlineExceeded then BackendAdmissionDeadlineExhausted
      else BackendAdmissionCancelled)"

definition SBackendAdmission :: sentinel where
  "SBackendAdmission = SOther ''keylane: backend admission rejected''"

text \<open>A \<open>BackendAdmissionError\<close> unwraps to the sentinel and, when there is one, its cause.\<close>

definition backendAdmissionError :: "goerror option \<Rightarrow> goerror" where
  "backendAdmissionError cause =
     EJoined (Sentinel SBackendAdmission # (case cause of None \<Rightarrow> [] | Some e \<Rightarrow> [e]))"

record BackendReleaseEvent =
  bre_admission :: BackendAdmissionDecision
  bre_HeldFor :: duration
  bre_InFlight :: int
  bre_Capacity :: int
  bre_Queued :: int

text \<open>The event copies the identifying fields of the admission; here it holds the admission itself.\<close>

definition newBackendReleaseEvent :: "BackendAdmissionDecision \<Rightarrow> duration \<Rightarrow> int \<Rightarrow> int \<Rightarrow> int \<Rightarrow> BackendReleaseEvent" where
  "newBackendReleaseEvent admission held inflight cap queued =
     \<lparr>bre_admission = admission, bre_HeldFor = held, bre_InFlight = inflight, bre_Capacity = cap, bre_Queued = queued\<rparr>"

datatype backendEvent = OnBackendAdmission BackendAdmissionDecision | OnBackendReleased BackendReleaseEvent

subsection \<open>The coordinator\<close>

record backendLaneState =
  bls_policy :: BackendLanePolicy
  bls_inflight :: int
  bls_queued :: int

type_synonym backendResourceState = "(string \<times> backendLaneState) list"

record backendCoordinator =
  bc_enabled :: bool
  bc_resources :: "(string \<times> backendResourceState) list"

definition newBackendCoordinator :: "BackendResourceConfig \<Rightarrow> backendCoordinator" where
  "newBackendCoordinator cfg =
     (if \<not> brc_Enabled cfg then \<lparr>bc_enabled = False, bc_resources = []\<rparr>
      else \<lparr>bc_enabled = True, bc_resources =
        map (map_prod id (map (map_prod id (\<lambda>lp. \<lparr>bls_policy = lp, bls_inflight = 0, bls_queued = 0\<rparr>)))) (brc_Resources cfg)\<rparr>)"

text \<open>The lane state behind a pointer, and a write through the pointer.\<close>

definition laneAt :: "backendCoordinator \<Rightarrow> string \<Rightarrow> string \<Rightarrow> backendLaneState option" where
  "laneAt c res lane = (case map_of (bc_resources c) res of None \<Rightarrow> None | Some rs \<Rightarrow> map_of rs lane)"

definition setLane :: "string \<Rightarrow> string \<Rightarrow> (backendLaneState \<Rightarrow> backendLaneState) \<Rightarrow> backendCoordinator \<Rightarrow> backendCoordinator" where
  "setLane res lane f c =
     c\<lparr>bc_resources := map (\<lambda>(r, ls). (r, if r = res then map (\<lambda>(l, st). (l, if l = lane then f st else st)) ls else ls))
        (bc_resources c)\<rparr>"

text \<open>\<open>TrackedLease\<close> is what the release closure of a \<open>trackedBackendLease\<close> captures.\<close>

datatype BackendLease = NoopLease | TrackedLease string string BackendAdmissionDecision time int

record acquireResult =
  ar_lease :: "BackendLease option"
  ar_decision :: "BackendAdmissionDecision option"
  ar_err :: "goerror option"
  ar_event :: "BackendAdmissionDecision option"

definition rejected :: "BackendAdmissionDecision \<Rightarrow> goerror option \<Rightarrow> acquireResult" where
  "rejected dec cause =
     \<lparr>ar_lease = None, ar_decision = Some dec, ar_err = Some (backendAdmissionError cause), ar_event = Some dec\<rparr>"

definition acquire ::
  "goerror option \<Rightarrow> StageExecutionContext option \<Rightarrow> BackendOperation \<Rightarrow> time \<Rightarrow> backendCoordinator \<Rightarrow>
   acquireResult \<times> backendCoordinator" where
  "acquire ctxErr execOf op now c =
     (if \<not> ValidateBackendOperation op
      then (\<lparr>ar_lease = None, ar_decision = None, ar_err = Some (Sentinel (SCore ErrInvalidConfig)), ar_event = None\<rparr>, c)
      else case ctxErr of
        Some err \<Rightarrow>
          (rejected (newBackendAdmissionDecision execOf op (backendAdmissionReasonFromContext err) False 0 0 0) (Some err), c)
      | None \<Rightarrow>
          if \<not> bc_enabled c
          then let dec = newBackendAdmissionDecision execOf op BackendAdmissionDisabled True 0 0 0
               in (\<lparr>ar_lease = Some NoopLease, ar_decision = Some dec, ar_err = None, ar_event = Some dec\<rparr>, c)
          else if (case execOf of None \<Rightarrow> False | Some e \<Rightarrow>
                     dbs_HasDeadline (sec_Deadline e)
                     \<and> (dbs_BudgetExhausted (sec_Deadline e) \<or> dbs_Remaining (sec_Deadline e) \<le> 0))
          then (rejected (newBackendAdmissionDecision execOf op BackendAdmissionDeadlineExhausted False 0 0 0)
                  (Some (EFailure (DeadlineExhaustedFailure (Some (Sentinel SContextDeadlineExceeded))))), c)
          else case map_of (bc_resources c) (bo_Resource op) of
                 None \<Rightarrow> (rejected (newBackendAdmissionDecision execOf op BackendAdmissionUnknownResource False 0 0 0) None, c)
               | Some rs \<Rightarrow>
                   (case map_of rs (bo_Lane op) of
                      None \<Rightarrow> (rejected (newBackendAdmissionDecision execOf op BackendAdmissionUnknownLane False 0 0 0) None, c)
                    | Some ls \<Rightarrow>
                        (let cap = blp_MaxInFlight (bls_policy ls); inflight = bls_inflight ls; queued = bls_queued ls
                         in if inflight \<ge> cap
                            then (rejected (newBackendAdmissionDecision execOf op BackendAdmissionSaturated False inflight
                                    cap queued) None, c)
                            else let dec = newBackendAdmissionDecision execOf op BackendAdmissionAccepted True (inflight + 1)
                                       cap queued
                                 in (\<lparr>ar_lease = Some (TrackedLease (bo_Resource op) (bo_Lane op) dec now cap),
                                      ar_decision = Some dec, ar_err = None, ar_event = Some dec\<rparr>,
                                     setLane (bo_Resource op) (bo_Lane op) (\<lambda>st. st\<lparr>bls_inflight := bls_inflight st + 1\<rparr>) c))))"

text \<open>The release closure, run at most once per lease by \<open>sync.Once\<close>.\<close>

definition releaseLane :: "string \<Rightarrow> string \<Rightarrow> backendCoordinator \<Rightarrow> backendCoordinator" where
  "releaseLane res lane =
     setLane res lane (\<lambda>st. if bls_inflight st > 0 then st\<lparr>bls_inflight := bls_inflight st - 1\<rparr> else st)"

definition runRelease :: "BackendLease \<Rightarrow> time \<Rightarrow> backendCoordinator \<Rightarrow> BackendReleaseEvent option \<times> backendCoordinator" where
  "runRelease l now c =
     (case l of
        NoopLease \<Rightarrow> (None, c)
      | TrackedLease res lane dec acquiredAt cap \<Rightarrow>
          (let c' = releaseLane res lane c
           in (case laneAt c' res lane of
                 None \<Rightarrow> None
               | Some ls \<Rightarrow> Some (newBackendReleaseEvent dec (timeSub now acquiredAt) (bls_inflight ls) cap (bls_queued ls)), c')))"

definition BackendOperationFromStage :: "StageExecutionContext option \<Rightarrow> string \<Rightarrow> string \<Rightarrow> BackendOperation" where
  "BackendOperationFromStage execOf resource lane =
     (case execOf of
        None \<Rightarrow> \<lparr>bo_Resource = resource, bo_Lane = lane, bo_Stage = [], bo_Operation = []\<rparr>
      | Some e \<Rightarrow> \<lparr>bo_Resource = resource, bo_Lane = lane, bo_Stage = sme_Name (sec_Stage e), bo_Operation = sec_Operation e\<rparr>)"

definition AcquireBackend ::
  "goerror option \<Rightarrow> StageExecutionContext option \<Rightarrow> BackendOperation \<Rightarrow> time \<Rightarrow> backendCoordinator \<Rightarrow>
   acquireResult \<times> backendCoordinator" where
  "AcquireBackend ctxErr execOf op now c =
     (let op' = (case execOf of
            None \<Rightarrow> op
          | Some e \<Rightarrow> op\<lparr>bo_Stage := (if bo_Stage op = [] then sme_Name (sec_Stage e) else bo_Stage op),
                           bo_Operation := (if bo_Operation op = [] then sec_Operation e else bo_Operation op)\<rparr>)
      in acquire ctxErr execOf op' now c)"

text \<open>\<open>WithBackend\<close>: the callback \<open>fn\<close> may itself use the coordinator; the deferred release runs whatever it returns.\<close>

definition WithBackend ::
  "goerror option \<Rightarrow> StageExecutionContext option \<Rightarrow> BackendOperation \<Rightarrow> time \<Rightarrow> time \<Rightarrow>
   (backendCoordinator \<Rightarrow> (goerror + 'a) \<times> backendCoordinator) \<Rightarrow> backendCoordinator \<Rightarrow> (goerror + 'a) \<times> backendCoordinator" where
  "WithBackend ctxErr execOf op now later fn c =
     (let (r, c1) = AcquireBackend ctxErr execOf op now c
      in case ar_lease r of
           None \<Rightarrow> (Inl (the (ar_err r)), c1)
         | Some l \<Rightarrow> (let (res, c2) = fn c1 in (res, snd (runRelease l later c2))))"

subsection \<open>The snapshot\<close>

record BackendLaneSnapshot =
  bsn_Lane :: string
  bsn_InFlight :: int
  bsn_Capacity :: int
  bsn_Queued :: int
  bsn_Saturated :: bool

definition laneSnapshot :: "string \<times> backendLaneState \<Rightarrow> BackendLaneSnapshot" where
  "laneSnapshot l =
     (let (lane, ls) = l; cap = blp_MaxInFlight (bls_policy ls)
      in \<lparr>bsn_Lane = lane, bsn_InFlight = bls_inflight ls, bsn_Capacity = cap, bsn_Queued = bls_queued ls,
          bsn_Saturated = (bls_inflight ls \<ge> cap)\<rparr>)"

text \<open>Go iterates a map in any order; the snapshot lists the entries in the order of the association lists.\<close>

definition backendSnapshot :: "backendCoordinator \<Rightarrow> (string \<times> BackendLaneSnapshot list) list" where
  "backendSnapshot c =
     (if \<not> bc_enabled c \<or> bc_resources c = [] then []
      else map (map_prod id (map laneSnapshot)) (bc_resources c))"

end
