(* ===== verification/Backend_Facts.thy ===== *)
theory Backend_Facts
  imports Backend
begin

text \<open>
  The lease discipline of the backend coordinator: leases are acquired and released in any order and as often as the
  application likes, and the in-flight number of every lane is the number of leases that are out. Also what normalisation
  makes of a pool's pressure.
\<close>

subsection \<open>Lanes behind pointers\<close>

lemma map_of_map_entries: "map_of (map (\<lambda>(k, v). (k, g k v)) xs) k = map_option (g k) (map_of xs k)"
  by (induction xs) auto

lemma laneAt_setLane:
  "laneAt (setLane res lane f c) r l = (if r = res \<and> l = lane then map_option f (laneAt c r l) else laneAt c r l)"
proof -
  have "map_of (bc_resources (setLane res lane f c)) r =
      map_option (\<lambda>ls. if r = res then map (\<lambda>(l, st). (l, if l = lane then f st else st)) ls else ls) (map_of (bc_resources c) r)"
    by (simp add: setLane_def map_of_map_entries [of "\<lambda>r ls. if r = res then map (\<lambda>(l, st). (l, if l = lane then f st else st)) ls else ls"])
  moreover have "map_of (map (\<lambda>(l, st). (l, if l = lane then f st else st)) ls) l = map_option (\<lambda>st. if l = lane then f st else st) (map_of ls l)" for ls
    by (rule map_of_map_entries)
  ultimately show ?thesis by (auto simp: laneAt_def option.map_ident split: option.splits)
qed

lemma setLane_enabled [simp]: "bc_enabled (setLane res lane f c) = bc_enabled c"
  by (simp add: setLane_def)

subsection \<open>The lease system\<close>

text \<open>Every lease handed out with the state of its \<open>sync.Once\<close>.\<close>

record leaseSys =
  lsy_coord :: backendCoordinator
  lsy_leases :: "(BackendLease \<times> bool) list"

datatype backendOp =
    BAcquire "goerror option" "StageExecutionContext option" BackendOperation time
  | BRelease nat time

fun backendStep :: "backendOp \<Rightarrow> leaseSys \<Rightarrow> leaseSys" where
  "backendStep (BAcquire ctxErr execOf op now) s =
     (let (r, c') = AcquireBackend ctxErr execOf op now (lsy_coord s)
      in s\<lparr>lsy_coord := c', lsy_leases := lsy_leases s @ (case ar_lease r of None \<Rightarrow> [] | Some l \<Rightarrow> [(l, False)])\<rparr>)"
| "backendStep (BRelease i now) s =
     (if i < length (lsy_leases s) \<and> \<not> snd (lsy_leases s ! i)
      then let l = fst (lsy_leases s ! i)
           in s\<lparr>lsy_coord := snd (runRelease l now (lsy_coord s)), lsy_leases := (lsy_leases s)[i := (l, True)]\<rparr>
      else s)"

definition holds :: "string \<Rightarrow> string \<Rightarrow> BackendLease \<times> bool \<Rightarrow> bool" where
  "holds res lane x = (case x of (TrackedLease r l _ _ _, released) \<Rightarrow> r = res \<and> l = lane \<and> \<not> released | _ \<Rightarrow> False)"

definition outstanding :: "string \<Rightarrow> string \<Rightarrow> leaseSys \<Rightarrow> nat" where
  "outstanding res lane s = length (filter (holds res lane) (lsy_leases s))"

definition lease_inv :: "backendCoordinator \<Rightarrow> leaseSys \<Rightarrow> bool" where
  "lease_inv c0 s \<longleftrightarrow> bc_enabled (lsy_coord s) = bc_enabled c0
     \<and> (\<forall>res lane. map_option bls_policy (laneAt (lsy_coord s) res lane) = map_option bls_policy (laneAt c0 res lane))
     \<and> (\<forall>res lane ls. laneAt (lsy_coord s) res lane = Some ls \<longrightarrow>
          bls_inflight ls = int (outstanding res lane s) \<and> bls_queued ls = 0
          \<and> bls_inflight ls \<le> max 0 (blp_MaxInFlight (bls_policy ls)))"

text \<open>What an accepted acquisition does.\<close>

lemma acquire_cases:
  obtains
    (reject) "snd (acquire ctxErr execOf op now c) = c" "ar_lease (fst (acquire ctxErr execOf op now c)) \<in> {None, Some NoopLease}"
  | (accept) ls dec where "laneAt c (bo_Resource op) (bo_Lane op) = Some ls" "bls_inflight ls < blp_MaxInFlight (bls_policy ls)"
      "ar_lease (fst (acquire ctxErr execOf op now c))
         = Some (TrackedLease (bo_Resource op) (bo_Lane op) dec now (blp_MaxInFlight (bls_policy ls)))"
      "snd (acquire ctxErr execOf op now c)
         = setLane (bo_Resource op) (bo_Lane op) (\<lambda>st. st\<lparr>bls_inflight := bls_inflight st + 1\<rparr>) c"
proof (cases "snd (acquire ctxErr execOf op now c) = c \<and> ar_lease (fst (acquire ctxErr execOf op now c)) \<in> {None, Some NoopLease}")
  case True
  then show ?thesis using reject by blast
next
  case False
  then obtain ls dec where "laneAt c (bo_Resource op) (bo_Lane op) = Some ls" "bls_inflight ls < blp_MaxInFlight (bls_policy ls)"
      "ar_lease (fst (acquire ctxErr execOf op now c))
         = Some (TrackedLease (bo_Resource op) (bo_Lane op) dec now (blp_MaxInFlight (bls_policy ls)))"
      "snd (acquire ctxErr execOf op now c)
         = setLane (bo_Resource op) (bo_Lane op) (\<lambda>st. st\<lparr>bls_inflight := bls_inflight st + 1\<rparr>) c"
    unfolding acquire_def
    by (auto simp: rejected_def Let_def laneAt_def not_le split: if_splits option.splits)
  then show ?thesis by (rule accept)
qed

lemma filter_update_out:
  "i < length xs \<Longrightarrow> P (xs ! i) \<Longrightarrow> \<not> P y \<Longrightarrow> length (filter P xs) = Suc (length (filter P (xs[i := y])))"
proof (induction xs arbitrary: i)
  case (Cons x xs)
  then show ?case by (cases i) auto
qed simp

lemma filter_update_same:
  "i < length xs \<Longrightarrow> \<not> P (xs ! i) \<Longrightarrow> \<not> P y \<Longrightarrow> length (filter P (xs[i := y])) = length (filter P xs)"
proof (induction xs arbitrary: i)
  case (Cons x xs)
  then show ?case by (cases i) auto
qed simp

lemma lease_inv_cong:
  assumes "lsy_coord s' = lsy_coord s" "\<And>r l. outstanding r l s' = outstanding r l s" "lease_inv c0 s"
  shows "lease_inv c0 s'"
  using assms(3) unfolding lease_inv_def assms(1,2) .

lemma lease_inv_set:
  assumes "lease_inv c0 s" "lsy_coord s' = setLane R L f (lsy_coord s)" "\<And>st. bls_policy (f st) = bls_policy st"
    "\<And>r l. \<not> (r = R \<and> l = L) \<Longrightarrow> outstanding r l s' = outstanding r l s"
    "\<And>st. laneAt (lsy_coord s) R L = Some st \<Longrightarrow> bls_inflight (f st) = int (outstanding R L s') \<and> bls_queued (f st) = 0
       \<and> bls_inflight (f st) \<le> max 0 (blp_MaxInFlight (bls_policy st))"
  shows "lease_inv c0 s'"
  unfolding lease_inv_def
proof (intro conjI allI impI)
  note inv = assms(1) [unfolded lease_inv_def]
  show "bc_enabled (lsy_coord s') = bc_enabled c0" using inv assms(2) by simp
  fix res lane
  have "map_option bls_policy (laneAt (lsy_coord s') res lane) = map_option bls_policy (laneAt (lsy_coord s) res lane)"
    using assms(2,3) by (simp add: laneAt_setLane option.map_comp comp_def)
  then show "map_option bls_policy (laneAt (lsy_coord s') res lane) = map_option bls_policy (laneAt c0 res lane)"
    using inv by metis
next
  fix res lane ls assume ls: "laneAt (lsy_coord s') res lane = Some ls"
  have "bls_inflight ls = int (outstanding res lane s') \<and> bls_queued ls = 0
      \<and> bls_inflight ls \<le> max 0 (blp_MaxInFlight (bls_policy ls))"
  proof (cases "res = R \<and> lane = L")
    case True
    then obtain st where "laneAt (lsy_coord s) R L = Some st" "ls = f st" using ls assms(2) by (auto simp: laneAt_setLane)
    then show ?thesis using assms(3,5) True by metis
  next
    case False
    then have "laneAt (lsy_coord s) res lane = Some ls" using ls assms(2) by (auto simp: laneAt_setLane)
    then show ?thesis using assms(1) assms(4) [OF False] unfolding lease_inv_def by metis
  qed
  then show "bls_inflight ls = int (outstanding res lane s')" "bls_queued ls = 0"
    "bls_inflight ls \<le> max 0 (blp_MaxInFlight (bls_policy ls))" by blast+
qed

lemma backendStep_acquire_inv:
  assumes "lease_inv c0 s"
  shows "lease_inv c0 (backendStep (BAcquire ctxErr execOf op0 now) s)"
proof -
  let ?c = "lsy_coord s"
  obtain op where op: "AcquireBackend ctxErr execOf op0 now ?c = acquire ctxErr execOf op now ?c"
    by (simp add: AcquireBackend_def Let_def)
  show ?thesis
  proof (cases rule: acquire_cases [of ctxErr execOf op now ?c])
    case reject
    then have "lsy_coord (backendStep (BAcquire ctxErr execOf op0 now) s) = ?c"
      "outstanding r l (backendStep (BAcquire ctxErr execOf op0 now) s) = outstanding r l s" for r l
      using op by (auto simp: Let_def case_prod_beta outstanding_def holds_def split: option.splits)
    then show ?thesis using assms by (rule lease_inv_cong)
  next
    case (accept ls dec)
    let ?s' = "backendStep (BAcquire ctxErr execOf op0 now) s" and ?r = "bo_Resource op" and ?l = "bo_Lane op"
    have c': "lsy_coord ?s' = setLane ?r ?l (\<lambda>st. st\<lparr>bls_inflight := bls_inflight st + 1\<rparr>) ?c"
      using accept op by (simp add: Let_def case_prod_beta)
    have out: "outstanding r l ?s' = outstanding r l s + (if r = ?r \<and> l = ?l then 1 else 0)" for r l
      using accept op by (auto simp: Let_def case_prod_beta outstanding_def holds_def)
    have ls: "bls_inflight ls = int (outstanding ?r ?l s)" "bls_queued ls = 0"
      using assms accept(1) unfolding lease_inv_def by blast+
    show ?thesis
    proof (rule lease_inv_set [OF assms c'])
      fix st assume "laneAt ?c ?r ?l = Some st"
      then have "st = ls" using accept(1) by simp
      then show "bls_inflight (st\<lparr>bls_inflight := bls_inflight st + 1\<rparr>) = int (outstanding ?r ?l ?s')
          \<and> bls_queued (st\<lparr>bls_inflight := bls_inflight st + 1\<rparr>) = 0
          \<and> bls_inflight (st\<lparr>bls_inflight := bls_inflight st + 1\<rparr>) \<le> max 0 (blp_MaxInFlight (bls_policy st))"
        using ls accept(2) unfolding out by simp
    qed (auto simp: out simp del: backendStep.simps)
  qed
qed

lemma backendStep_release_inv:
  assumes "lease_inv c0 s"
  shows "lease_inv c0 (backendStep (BRelease i now) s)"
proof (cases "i < length (lsy_leases s) \<and> \<not> snd (lsy_leases s ! i)")
  case True
  let ?s' = "backendStep (BRelease i now) s" and ?xs = "lsy_leases s"
  obtain l where x: "?xs ! i = (l, False)" using True by (cases "?xs ! i") simp
  show ?thesis
  proof (cases l)
    case NoopLease
    have out: "outstanding r l' ?s' = outstanding r l' s" for r l'
      using True x NoopLease by (simp add: outstanding_def filter_update_same holds_def)
    have c': "lsy_coord ?s' = lsy_coord s" using True x NoopLease by (simp add: runRelease_def)
    show ?thesis using c' out assms by (rule lease_inv_cong)
  next
    case (TrackedLease res lane dec t cap)
    have c': "lsy_coord ?s' = releaseLane res lane (lsy_coord s)"
      using True x TrackedLease by (simp add: runRelease_def Let_def)
    have out: "outstanding r l' s = outstanding r l' ?s' + (if r = res \<and> l' = lane then 1 else 0)" for r l'
    proof -
      have leases: "lsy_leases ?s' = ?xs[i := (l, True)]" using True x by simp
      have new: "\<not> holds r l' (l, True)" by (simp add: holds_def split: BackendLease.splits)
      have old: "holds r l' (?xs ! i) \<longleftrightarrow> r = res \<and> l' = lane" using x TrackedLease by (auto simp: holds_def)
      show ?thesis
      proof (cases "r = res \<and> l' = lane")
        case at: True
        then show ?thesis unfolding outstanding_def leases using filter_update_out [of i ?xs "holds r l'" "(l, True)"] True old new by simp
      next
        case other: False
        then show ?thesis unfolding outstanding_def leases using filter_update_same [of i ?xs "holds r l'" "(l, True)"] True old new by simp
      qed
    qed
    show ?thesis
    proof (rule lease_inv_set [OF assms c' [unfolded releaseLane_def]])
      fix st assume "laneAt (lsy_coord s) res lane = Some st"
      then have "bls_inflight st = int (outstanding res lane s)" "bls_queued st = 0"
        "bls_inflight st \<le> max 0 (blp_MaxInFlight (bls_policy st))"
        using assms unfolding lease_inv_def by blast+
      then show "bls_inflight (if bls_inflight st > 0 then st\<lparr>bls_inflight := bls_inflight st - 1\<rparr> else st)
            = int (outstanding res lane ?s')
          \<and> bls_queued (if bls_inflight st > 0 then st\<lparr>bls_inflight := bls_inflight st - 1\<rparr> else st) = 0
          \<and> bls_inflight (if bls_inflight st > 0 then st\<lparr>bls_inflight := bls_inflight st - 1\<rparr> else st)
            \<le> max 0 (blp_MaxInFlight (bls_policy st))"
        unfolding out [of res lane] by (simp del: backendStep.simps)
    next
      fix r l' assume "\<not> (r = res \<and> l' = lane)"
      then show "outstanding r l' ?s' = outstanding r l' s" using out [of r l'] by (simp only: if_False add_0_right)
    qed simp
  qed
next
  case False
  then show ?thesis using assms by (simp only: backendStep.simps if_False)
qed

interpretation backendLeases: op_system backendStep "lease_inv c0" for c0
proof unfold_locales
  fix s op assume "lease_inv c0 s"
  then show "lease_inv c0 (backendStep op s)"
    using backendStep_acquire_inv backendStep_release_inv by (cases op) (simp only:, blast)+
qed

lemma map_of_map_prod_id: "map_of (map (map_prod id f) xs) k = map_option f (map_of xs k)"
  by (induction xs) auto

lemma new_laneAt:
  "laneAt (newBackendCoordinator cfg) res lane = Some ls \<Longrightarrow> bls_inflight ls = 0 \<and> bls_queued ls = 0"
  by (auto simp: laneAt_def newBackendCoordinator_def map_of_map_prod_id split: if_splits option.splits)

lemma new_lease_inv: "lease_inv (newBackendCoordinator cfg) \<lparr>lsy_coord = newBackendCoordinator cfg, lsy_leases = []\<rparr>"
  using new_laneAt by (auto simp: lease_inv_def outstanding_def)

subsection \<open>Properties\<close>

definition leaseRun :: "BackendResourceConfig \<Rightarrow> backendOp list \<Rightarrow> leaseSys" where
  "leaseRun cfg ops = fold backendStep ops \<lparr>lsy_coord = newBackendCoordinator cfg, lsy_leases = []\<rparr>"

lemma leaseRun_inv: "lease_inv (newBackendCoordinator cfg) (leaseRun cfg ops)"
  unfolding leaseRun_def by (rule backendLeases.run_inv [OF new_lease_inv])

text \<open>An operation that reaches the lane of its resource: nothing rejects it before.\<close>

definition reachesLane :: "goerror option \<Rightarrow> StageExecutionContext option \<Rightarrow> BackendOperation \<Rightarrow> bool" where
  "reachesLane ctxErr execOf op \<longleftrightarrow> ValidateBackendOperation op \<and> ctxErr = None
     \<and> (case execOf of None \<Rightarrow> True | Some e \<Rightarrow>
          \<not> (dbs_HasDeadline (sec_Deadline e) \<and> (dbs_BudgetExhausted (sec_Deadline e) \<or> dbs_Remaining (sec_Deadline e) \<le> 0)))"

lemma acquire_at_lane:
  assumes "reachesLane ctxErr execOf op" "bc_enabled c" "laneAt c (bo_Resource op) (bo_Lane op) = Some ls"
  shows "ar_lease (fst (acquire ctxErr execOf op now c)) \<noteq> None \<longleftrightarrow> bls_inflight ls < blp_MaxInFlight (bls_policy ls)"
    "\<not> bls_inflight ls < blp_MaxInFlight (bls_policy ls) \<Longrightarrow>
       map_option bd_Reason (ar_decision (fst (acquire ctxErr execOf op now c))) = Some BackendAdmissionSaturated"
proof -
  obtain rs where rs: "map_of (bc_resources c) (bo_Resource op) = Some rs" "map_of rs (bo_Lane op) = Some ls"
    using assms(3) by (auto simp: laneAt_def split: option.splits)
  have "\<not> (case execOf of None \<Rightarrow> False | Some e \<Rightarrow>
      dbs_HasDeadline (sec_Deadline e) \<and> (dbs_BudgetExhausted (sec_Deadline e) \<or> dbs_Remaining (sec_Deadline e) \<le> 0))"
    using assms(1) by (auto simp: reachesLane_def split: option.splits)
  then show "ar_lease (fst (acquire ctxErr execOf op now c)) \<noteq> None \<longleftrightarrow> bls_inflight ls < blp_MaxInFlight (bls_policy ls)"
    "\<not> bls_inflight ls < blp_MaxInFlight (bls_policy ls) \<Longrightarrow>
       map_option bd_Reason (ar_decision (fst (acquire ctxErr execOf op now c))) = Some BackendAdmissionSaturated"
    using assms rs unfolding acquire_def reachesLane_def
    by (simp_all add: rejected_def newBackendAdmissionDecision_def Let_def split: option.splits)
qed

text \<open>C38: A backend lane never has more work in flight than its policy allows, and never loses a slot. After any
  sequence of acquisitions and releases, in any order, with leases released never, once or several times: every configured lane
  still has its policy, its in-flight number is the number of its leases that have not been released, at most
  \<open>MaxInFlight\<close>; and an acquisition that reaches the lane succeeds exactly when fewer leases than that are out and is
  otherwise rejected as saturated.\<close>

theorem backend_slots:
  fixes cfg ops
  defines "s \<equiv> leaseRun cfg ops"
  assumes "laneAt (newBackendCoordinator cfg) (bo_Resource op) (bo_Lane op) = Some ls0" "reachesLane ctxErr execOf op"
  shows "\<exists>ls. laneAt (lsy_coord s) (bo_Resource op) (bo_Lane op) = Some ls \<and> bls_policy ls = bls_policy ls0
    \<and> bls_inflight ls = int (outstanding (bo_Resource op) (bo_Lane op) s)
    \<and> bls_inflight ls \<le> max 0 (blp_MaxInFlight (bls_policy ls0))
    \<and> (ar_lease (fst (acquire ctxErr execOf op now (lsy_coord s))) \<noteq> None
         \<longleftrightarrow> int (outstanding (bo_Resource op) (bo_Lane op) s) < blp_MaxInFlight (bls_policy ls0))
    \<and> (\<not> int (outstanding (bo_Resource op) (bo_Lane op) s) < blp_MaxInFlight (bls_policy ls0) \<longrightarrow>
         map_option bd_Reason (ar_decision (fst (acquire ctxErr execOf op now (lsy_coord s)))) = Some BackendAdmissionSaturated)"
proof -
  let ?r = "bo_Resource op" and ?l = "bo_Lane op"
  have inv: "lease_inv (newBackendCoordinator cfg) s" unfolding s_def by (rule leaseRun_inv)
  have "map_option bls_policy (laneAt (lsy_coord s) ?r ?l) = Some (bls_policy ls0)"
    using inv assms(2) unfolding lease_inv_def by simp
  then obtain ls where ls: "laneAt (lsy_coord s) ?r ?l = Some ls" "bls_policy ls = bls_policy ls0" by auto
  have en: "bc_enabled (lsy_coord s)"
    using inv assms(2) by (auto simp: lease_inv_def laneAt_def newBackendCoordinator_def split: if_splits)
  have n: "bls_inflight ls = int (outstanding ?r ?l s)" "bls_inflight ls \<le> max 0 (blp_MaxInFlight (bls_policy ls))"
    using inv ls(1) unfolding lease_inv_def by blast+
  show ?thesis using acquire_at_lane [OF assms(3) en ls(1)] ls n by auto
qed

definition demoBackend :: BackendResourceConfig where
  "demoBackend = \<lparr>brc_Enabled = True, brc_Resources =
     [(''db'', [(''db_write'', \<lparr>blp_MaxInFlight = 1, blp_QueueLimit = 0, blp_Admission = BackendAdmissionReject\<rparr>)])],
     brc_PressureProviders = []\<rparr>"

definition demoOp :: BackendOperation where
  "demoOp = \<lparr>bo_Resource = ''db'', bo_Lane = ''db_write'', bo_Stage = [], bo_Operation = []\<rparr>"

lemma demoBackend_facts:
  "ValidateBackendOperation demoOp" "outstanding ''db'' ''db_write'' (leaseRun demoBackend [BAcquire None None demoOp 1]) = 1"
  by code_simp+

theorem backend_slots_witness:
  "ar_lease (fst (acquire None None demoOp 2 (lsy_coord (leaseRun demoBackend [BAcquire None None demoOp 1])))) = None
   \<and> map_option bd_Reason (ar_decision (fst (acquire None None demoOp 2
       (lsy_coord (leaseRun demoBackend [BAcquire None None demoOp 1]))))) = Some BackendAdmissionSaturated"
proof -
  let ?ls = "\<lparr>bls_policy = \<lparr>blp_MaxInFlight = 1, blp_QueueLimit = 0, blp_Admission = BackendAdmissionReject\<rparr>,
    bls_inflight = 0, bls_queued = 0\<rparr>"
  have "laneAt (newBackendCoordinator demoBackend) (bo_Resource demoOp) (bo_Lane demoOp) = Some ?ls"
    by (simp add: laneAt_def newBackendCoordinator_def demoBackend_def demoOp_def)
  moreover have "reachesLane None None demoOp" using demoBackend_facts(1) by (simp add: reachesLane_def)
  ultimately show ?thesis
    using backend_slots [of demoBackend demoOp ?ls None None "[BAcquire None None demoOp 1]" 2] demoBackend_facts(2)
    by (auto simp: demoOp_def)
qed

text \<open>A lease is spent once: releasing it again changes nothing.\<close>

lemma release_once: "backendStep (BRelease i later) (backendStep (BRelease i now) s) = backendStep (BRelease i now) s"
  by (cases "i < length (lsy_leases s)"; cases "snd (lsy_leases s ! i)") (simp_all add: Let_def)

text \<open>\<open>WithBackend\<close> gives its slot back: with a callback that leaves the coordinator alone, every lane is as before.\<close>

lemma with_backend_neutral:
  assumes "\<And>c. snd (fn c) = c" "\<And>r l ls. laneAt c r l = Some ls \<Longrightarrow> 0 \<le> bls_inflight ls"
  shows "laneAt (snd (WithBackend ctxErr execOf op now later fn c)) r l = laneAt c r l"
proof -
  obtain op' where op: "AcquireBackend ctxErr execOf op now c = acquire ctxErr execOf op' now c"
    by (simp add: AcquireBackend_def Let_def)
  show ?thesis
  proof (cases rule: acquire_cases [of ctxErr execOf op' now c])
    case reject
    then show ?thesis using op assms(1) by (auto simp: WithBackend_def Let_def case_prod_beta runRelease_def split: option.splits)
  next
    case (accept ls dec)
    have "snd (WithBackend ctxErr execOf op now later fn c) = releaseLane (bo_Resource op') (bo_Lane op')
        (setLane (bo_Resource op') (bo_Lane op') (\<lambda>st. st\<lparr>bls_inflight := bls_inflight st + 1\<rparr>) c)"
      using op accept(3,4) assms(1) by (simp add: WithBackend_def Let_def case_prod_beta runRelease_def)
    then show ?thesis using accept(1) assms(2) [OF accept(1)] by (simp add: releaseLane_def laneAt_setLane)
  qed
qed

subsection \<open>Pressure of a pool\<close>

lemma normalizePressure_unit: "unitRatio (normalizePressure u c p)"
proof -
  have "unitRatio (let p2 = (if flt q (FFin 0) then FFin 0 else q); p3 = (if fgt p2 (FFin 1) then FFin 1 else p2)
      in if isNaN p3 \<or> isInf p3 then FFin 0 else p3)" for q
    by (cases q) (auto simp: unitRatio_def isNaN_def isInf_def Let_def)
  then show ?thesis unfolding normalizePressure_def Let_def .
qed

lemma normalizePressure_again:
  assumes "\<not> isNaN p"
  shows "normalizePressure u c (normalizePressure u c p) = normalizePressure u c p"
proof (cases "c > 0")
  case True
  let ?q = "fdiv (float64_of_int u) (float64_of_int c)"
  have "normalizePressure u c (FFin 0) = normalizePressure u c p" if "normalizePressure u c p = FFin 0"
    using that assms True
    by (cases p; cases ?q) (auto simp: normalizePressure_def Let_def isNaN_def isInf_def split: if_splits)
  moreover have "normalizePressure u c x = x" if "x = normalizePressure u c p" "x \<noteq> FFin 0" for x
    using that normalizePressure_unit [of u c p] True
    by (cases x) (auto simp: normalizePressure_def Let_def isNaN_def isInf_def unitRatio_def)
  ultimately show ?thesis by metis
qed (simp add: normalizePressure_def Let_def isNaN_def isInf_def)

text \<open>The pressure of a pool is normalised to sane values. Whatever a provider answers, the numbers are not negative, the
  pressure lies between 0 and 1, a pool that is full is marked saturated, and identity and wait count are kept;
  normalising again changes nothing, unless the provider answered a pressure that is not a number.\<close>

lemma backend_pressure_normal:
  fixes s
  defines "n \<equiv> normalizeBackendPressureSnapshot s"
  shows "0 \<le> bp_InUse n \<and> 0 \<le> bp_Capacity n \<and> 0 \<le> bp_Idle n \<and> 0 \<le> bp_WaitTime n \<and> unitRatio (bp_Pressure n)
    \<and> (0 < bp_Capacity n \<and> bp_Capacity n \<le> bp_InUse n \<longrightarrow> bp_Saturated n)
    \<and> bp_Resource n = bp_Resource s \<and> bp_Lane n = bp_Lane s \<and> bp_WaitCount n = bp_WaitCount s
    \<and> (\<not> isNaN (bp_Pressure s) \<longrightarrow> normalizeBackendPressureSnapshot n = n)"
  unfolding n_def
  by (auto simp: normalizeBackendPressureSnapshot_def Let_def normalizePressure_unit normalizePressure_again)

lemma pressure_nan_twice:
  "normalizePressure 1 2 FNaN = FFin 0" "normalizePressure 1 2 (normalizePressure 1 2 FNaN) = FFin (1 / 2)"
  by code_simp+

end
