(* ===== verification/Continuation.thy ===== *)
theory Continuation
  imports Backend "HOL-Library.AList"
begin

text \<open>
  Pipeline continuations: \<open>continuation.go\<close>, \<open>continuation_registry.go\<close>, \<open>continuation_config.go\<close>,
  \<open>continuation_observability.go\<close> and the yield and resolution part of \<open>submit_pipeline_continuation.go\<close>. A stage that
  yields hands out a completer; any number of goroutines may call it while a resolution goroutine waits for the outcome or
  for the end of the request's context. Channels are their contents, a \<open>sync.Once\<close> is whether it has run, and every
  step that other goroutines can see separately is a step of its own. Clock readings and the errors of the contexts are
  arguments. The resolution ends at the call of \<open>resumeContinuation\<close> or \<open>completeFailed\<close>: the job that resumes the
  pipeline is a new submission, and a resolution that ends in an error carries the error those functions are given.
\<close>

subsection \<open>Configuration\<close>

record ContinuationConfig =
  ccf_Enabled :: bool
  ccf_MaxPending :: int
  ccf_MaxPendingPerShard :: int
  ccf_CompletionRetention :: duration

definition DefaultContinuationMaxPending :: int where
  "DefaultContinuationMaxPending = 256"

text \<open>The pointer argument is \<open>None\<close> for \<open>nil\<close>.\<close>

definition NormalizeContinuationConfig :: "ContinuationConfig option \<Rightarrow> ContinuationConfig option" where
  "NormalizeContinuationConfig cfg =
     (case cfg of None \<Rightarrow> None
      | Some c \<Rightarrow>
          if \<not> ccf_Enabled c then Some c
          else if ccf_MaxPending c \<le> 0 then Some (c\<lparr>ccf_MaxPending := DefaultContinuationMaxPending\<rparr>)
          else Some c)"

text \<open>\<open>True\<close> for \<open>nil\<close>; every error wraps \<open>ErrInvalidContinuation\<close>.\<close>

definition ValidateContinuationConfig :: "ContinuationConfig \<Rightarrow> bool" where
  "ValidateContinuationConfig cfg =
     (if \<not> ccf_Enabled cfg then True
      else if ccf_MaxPending cfg < 1 then False
      else if ccf_MaxPendingPerShard cfg < 0 then False
      else True)"

definition ErrContinuationLimitExceeded :: goerror where
  "ErrContinuationLimitExceeded = Sentinel (SOther ''keylane: continuation limit exceeded'')"
definition ErrContinuationCancelled :: goerror where
  "ErrContinuationCancelled = Sentinel (SOther ''keylane: continuation cancelled'')"
definition ErrContinuationResumeRejected :: goerror where
  "ErrContinuationResumeRejected = Sentinel (SOther ''keylane: continuation resume rejected'')"
definition ErrContinuationLate :: goerror where
  "ErrContinuationLate = Sentinel (SOther ''keylane: continuation late completion'')"

subsection \<open>Registry\<close>

datatype ContinuationOutcomeKind = continuationOutcomeComplete | continuationOutcomeFail | continuationOutcomeCancel

datatype resolveOutcome =
    resolveOutcomeCompleted | resolveOutcomeFailed | resolveOutcomeCancelled | resolveOutcomeLate

record ContinuationSnapshot =
  csn_Pending :: int
  csn_MaxPending :: int
  csn_Completed :: u64
  csn_Failed :: u64
  csn_Cancelled :: u64
  csn_LateCompletions :: u64
  csn_ResumeRejected :: u64

record ShardContinuationSnapshot =
  scs_ShardID :: int
  scs_Pending :: int
  scs_MaxPending :: int

text \<open>The closure \<open>closeDone\<close> of an entry is a result of \<open>resolve\<close>: the entry whose channel is closed.\<close>

record pendingEntry =
  pe_id :: u64
  pe_shardID :: int
  pe_registeredAt :: time

text \<open>The two Go maps are association lists with distinct keys.\<close>

record continuationRegistry =
  cr_cfg :: ContinuationConfig
  cr_pending :: "(u64 \<times> pendingEntry) list"
  cr_nextID :: u64
  cr_completed :: u64
  cr_failed :: u64
  cr_cancelled :: u64
  cr_lateCompletions :: u64
  cr_resumeRejected :: u64
  cr_perShard :: "(int \<times> int) list"

definition newContinuationRegistry :: "ContinuationConfig \<Rightarrow> continuationRegistry" where
  "newContinuationRegistry cfg =
     \<lparr>cr_cfg = cfg, cr_pending = [], cr_nextID = 0, cr_completed = 0, cr_failed = 0, cr_cancelled = 0,
      cr_lateCompletions = 0, cr_resumeRejected = 0, cr_perShard = []\<rparr>"

definition allocID :: "continuationRegistry \<Rightarrow> u64 \<times> continuationRegistry" where
  "allocID r = (let n = cr_nextID r + 1 in (n, r\<lparr>cr_nextID := n\<rparr>))"

text \<open>\<open>r.perShard[shardID]\<close>, zero for an absent key.\<close>

definition perShardCount :: "continuationRegistry \<Rightarrow> int \<Rightarrow> int" where
  "perShardCount r sh = (case map_of (cr_perShard r) sh of None \<Rightarrow> 0 | Some n \<Rightarrow> n)"

definition register :: "pendingEntry \<Rightarrow> continuationRegistry \<Rightarrow> goerror option \<times> continuationRegistry" where
  "register entry r =
     (if ccf_MaxPending (cr_cfg r) > 0 \<and> int (length (cr_pending r)) \<ge> ccf_MaxPending (cr_cfg r)
        then (Some ErrContinuationLimitExceeded, r)
      else if ccf_MaxPendingPerShard (cr_cfg r) > 0 \<and> perShardCount r (pe_shardID entry) \<ge> ccf_MaxPendingPerShard (cr_cfg r)
        then (Some ErrContinuationLimitExceeded, r)
      else (None, r\<lparr>cr_pending := AList.update (pe_id entry) entry (cr_pending r),
                     cr_perShard := AList.update (pe_shardID entry) (wrapInt (perShardCount r (pe_shardID entry) + 1)) (cr_perShard r)\<rparr>))"

text \<open>The outcome, whether the entry was found, and the entry whose \<open>closeDone\<close> has run.\<close>

definition resolve :: "u64 \<Rightarrow> ContinuationOutcomeKind \<Rightarrow> continuationRegistry \<Rightarrow>
    (resolveOutcome \<times> bool \<times> pendingEntry option) \<times> continuationRegistry" where
  "resolve cid kind r =
     (case map_of (cr_pending r) cid of
        None \<Rightarrow> ((resolveOutcomeLate, False, None), r\<lparr>cr_lateCompletions := cr_lateCompletions r + 1\<rparr>)
      | Some entry \<Rightarrow>
          (let sh = pe_shardID entry;
               n = wrapInt (perShardCount r sh - 1);
               r1 = r\<lparr>cr_pending := AList.delete cid (cr_pending r),
                       cr_perShard := (if n = 0 then AList.delete sh (cr_perShard r) else AList.update sh n (cr_perShard r))\<rparr>
           in case kind of
                continuationOutcomeComplete \<Rightarrow> ((resolveOutcomeCompleted, True, Some entry), r1\<lparr>cr_completed := cr_completed r + 1\<rparr>)
              | continuationOutcomeFail \<Rightarrow> ((resolveOutcomeFailed, True, Some entry), r1\<lparr>cr_failed := cr_failed r + 1\<rparr>)
              | continuationOutcomeCancel \<Rightarrow> ((resolveOutcomeCancelled, True, Some entry), r1\<lparr>cr_cancelled := cr_cancelled r + 1\<rparr>)))"

definition recordResumeRejected :: "continuationRegistry \<Rightarrow> continuationRegistry" where
  "recordResumeRejected r = r\<lparr>cr_resumeRejected := cr_resumeRejected r + 1\<rparr>"

definition recordLate :: "continuationRegistry \<Rightarrow> continuationRegistry" where
  "recordLate r = r\<lparr>cr_lateCompletions := cr_lateCompletions r + 1\<rparr>"

definition snapshotContinuations :: "continuationRegistry \<Rightarrow> ContinuationSnapshot" where
  "snapshotContinuations r =
     \<lparr>csn_Pending = int (length (cr_pending r)), csn_MaxPending = ccf_MaxPending (cr_cfg r), csn_Completed = cr_completed r,
      csn_Failed = cr_failed r, csn_Cancelled = cr_cancelled r, csn_LateCompletions = cr_lateCompletions r,
      csn_ResumeRejected = cr_resumeRejected r\<rparr>"

text \<open>Go visits the map in some order; the model lists it in the order of the association list.\<close>

definition shardSnapshot :: "continuationRegistry \<Rightarrow> ShardContinuationSnapshot list" where
  "shardSnapshot r =
     map (\<lambda>(sh, n). \<lparr>scs_ShardID = sh, scs_Pending = n, scs_MaxPending = ccf_MaxPendingPerShard (cr_cfg r)\<rparr>) (cr_perShard r)"

subsection \<open>Observations\<close>

record ContinuationObservation =
  cob_ContinuationID :: u64
  cob_RequestID :: string
  cob_Key :: string
  cob_Lane :: string
  cob_ShardID :: int
  cob_Transport :: string
  cob_Operation :: string
  cob_Stage :: StageMeta
  cob_StageIndex :: int
  cob_StageCount :: int
  cob_Attempt :: int
  cob_YieldedFor :: duration
  cob_ResumeQueueWait :: duration
  cob_Outcome :: RequestOutcome
  cob_FailureKind :: FailureKind
  cob_Err :: "goerror option"

definition continuationObsFromExec :: "u64 \<Rightarrow> StageExecutionContext \<Rightarrow> duration \<Rightarrow> duration \<Rightarrow> RequestOutcome \<Rightarrow> FailureKind \<Rightarrow>
    goerror option \<Rightarrow> ContinuationObservation" where
  "continuationObsFromExec cid exec yieldedFor resumeQueueWait outcome failureKind err =
     \<lparr>cob_ContinuationID = cid, cob_RequestID = sec_RequestID exec, cob_Key = sec_Key exec, cob_Lane = sec_Lane exec,
      cob_ShardID = sec_ShardID exec, cob_Transport = sec_Transport exec, cob_Operation = sec_Operation exec,
      cob_Stage = sec_Stage exec, cob_StageIndex = sec_StageIndex exec, cob_StageCount = sec_StageCount exec,
      cob_Attempt = sec_Attempt exec, cob_YieldedFor = yieldedFor, cob_ResumeQueueWait = resumeQueueWait,
      cob_Outcome = outcome, cob_FailureKind = failureKind, cob_Err = err\<rparr>"

definition classifyOutcomeRequestOutcome :: "ContinuationOutcomeKind \<Rightarrow> RequestOutcome" where
  "classifyOutcomeRequestOutcome kind =
     (case kind of continuationOutcomeComplete \<Rightarrow> RequestOutcomeCompleted
      | continuationOutcomeCancel \<Rightarrow> RequestOutcomeCancelled
      | continuationOutcomeFail \<Rightarrow> RequestOutcomeFailed)"

definition classifyOutcomeFailureKind :: "ContinuationOutcomeKind \<Rightarrow> FailureKind" where
  "classifyOutcomeFailureKind kind =
     (case kind of continuationOutcomeComplete \<Rightarrow> FailureNone
      | continuationOutcomeCancel \<Rightarrow> FailureCancelled
      | continuationOutcomeFail \<Rightarrow> FailureUnknown)"

datatype continuationEvent =
    OnContinuationYielded ContinuationObservation
  | OnContinuationCompleted ContinuationObservation
  | OnContinuationFailed ContinuationObservation
  | OnContinuationCancelled ContinuationObservation
  | OnContinuationLate ContinuationObservation

subsection \<open>A continuation and its goroutines\<close>

text \<open>\<open>co_state\<close> is \<open>None\<close> for Go's zero value.\<close>

record 's continuationOutcome =
  co_kind :: ContinuationOutcomeKind
  co_state :: "'s option"
  co_err :: "goerror option"

text \<open>The context a continuation holds: the one given to \<open>NewContinuation\<close>, then the request's.\<close>

datatype ctxRef = YieldContext | RequestContext

record 's Continuation =
  cn_ID :: u64
  cn_exec :: StageExecutionContext
  cn_stageIndex :: int
  cn_stageCount :: int
  cn_yieldedAt :: time
  cn_reqCtx :: ctxRef
  cn_done :: bool
  cn_outcome :: "'s continuationOutcome option"
  cn_lateOnce :: bool
  cn_registryLateOnce :: bool

text \<open>\<open>cm_queue\<close>: whether \<open>setContinuationLateHandler\<close> has given the completer its queue. The optional \<open>late\<close> callback is
  \<open>nil\<close> in the runner.\<close>

record continuationCompleter =
  cm_once :: bool
  cm_queue :: bool
  cm_exec :: "StageExecutionContext option"

text \<open>Where a call of the completer is: before the extra check of \<open>Cancel\<close>, before the check of \<open>done\<close> in \<open>deliver\<close>,
  before the check of the context, before either use of \<open>once\<close>, or returned. The outcome is the one the call brings.\<close>

datatype 's callPc =
    CallCancel "goerror option"
  | CallDeliver "'s continuationOutcome"
  | CallContext "'s continuationOutcome"
  | CallOnceLate "'s continuationOutcome"
  | CallOnce "'s continuationOutcome"
  | CallReturned "'s continuationOutcome option" bool

text \<open>Where the runner and then its resolution goroutine are.\<close>

datatype 's runnerPc =
    RunYielded
  | RunChecked
  | RunHandlerSet
  | RunAborted goerror
  | Resolving
  | CancelSend "'s continuationOutcome"
  | CancelDrain nat "'s continuationOutcome"
  | Received "'s continuationOutcome"
  | ResolveReg "'s continuationOutcome"
  | Resume "'s continuationOutcome" ContinuationObservation
  | Settled "'s continuationOutcome"

record 's contSys =
  sy_cont :: "'s Continuation"
  sy_completer :: continuationCompleter
  sy_reg :: continuationRegistry
  sy_yieldErr :: "goerror option"
  sy_reqErr :: "goerror option"
  sy_runner :: "'s runnerPc"
  sy_calls :: "'s callPc list"
  sy_events :: "continuationEvent list"

definition NewContinuation :: "StageExecutionContext \<Rightarrow> time \<Rightarrow> 's Continuation \<times> continuationCompleter" where
  "NewContinuation noExec now =
     (\<lparr>cn_ID = 0, cn_exec = noExec, cn_stageIndex = 0, cn_stageCount = 0, cn_yieldedAt = now, cn_reqCtx = YieldContext,
       cn_done = False, cn_outcome = None, cn_lateOnce = False, cn_registryLateOnce = False\<rparr>,
      \<lparr>cm_once = False, cm_queue = False, cm_exec = None\<rparr>)"

definition setRequestContext :: "'s Continuation \<Rightarrow> 's Continuation" where
  "setRequestContext cont = cont\<lparr>cn_reqCtx := RequestContext\<rparr>"

definition requestContextErr :: "'s contSys \<Rightarrow> goerror option" where
  "requestContextErr s = (case cn_reqCtx (sy_cont s) of YieldContext \<Rightarrow> sy_yieldErr s | RequestContext \<Rightarrow> sy_reqErr s)"

definition emit :: "continuationEvent \<Rightarrow> 's contSys \<Rightarrow> 's contSys" where
  "emit e s = s\<lparr>sy_events := sy_events s @ [e]\<rparr>"

definition lateObservation :: "'s Continuation \<Rightarrow> StageExecutionContext \<Rightarrow> ContinuationOutcomeKind \<Rightarrow> goerror option \<Rightarrow> time \<Rightarrow>
    ContinuationObservation" where
  "lateObservation cont exec kind err now =
     continuationObsFromExec (cn_ID cont) exec (timeSub now (cn_yieldedAt cont)) 0 (classifyOutcomeRequestOutcome kind)
       (classifyOutcomeFailureKind kind) (case err of None \<Rightarrow> Some ErrContinuationLate | Some e \<Rightarrow> Some e)"

definition recordLateRegistry :: "'s contSys \<Rightarrow> 's contSys" where
  "recordLateRegistry s =
     (if cn_registryLateOnce (sy_cont s) then s
      else s\<lparr>sy_cont := (sy_cont s)\<lparr>cn_registryLateOnce := True\<rparr>, sy_reg := recordLate (sy_reg s)\<rparr>)"

definition lateHook :: "StageExecutionContext \<Rightarrow> ContinuationOutcomeKind \<Rightarrow> goerror option \<Rightarrow> time \<Rightarrow> 's contSys \<Rightarrow> 's contSys" where
  "lateHook exec kind err now s =
     (if cn_lateOnce (sy_cont s) then s
      else emit (OnContinuationLate (lateObservation (sy_cont s) exec kind err now))
             (s\<lparr>sy_cont := (sy_cont s)\<lparr>cn_lateOnce := True\<rparr>\<rparr>))"

definition recordLateCompletion :: "StageExecutionContext \<Rightarrow> ContinuationOutcomeKind \<Rightarrow> goerror option \<Rightarrow> time \<Rightarrow>
    's contSys \<Rightarrow> 's contSys" where
  "recordLateCompletion exec kind err now s =
     (if kind = continuationOutcomeCancel then s
      else lateHook exec kind (case err of None \<Rightarrow> Some ErrContinuationLate | Some e \<Rightarrow> Some e) now (recordLateRegistry s))"

definition recordLateCompleterIgnored :: "StageExecutionContext \<Rightarrow> time \<Rightarrow> 's contSys \<Rightarrow> 's contSys" where
  "recordLateCompleterIgnored exec now s =
     lateHook exec continuationOutcomeComplete (Some ErrContinuationLate) now (recordLateRegistry s)"

definition setContinuationLateHandler :: "StageExecutionContext \<Rightarrow> continuationCompleter \<Rightarrow> continuationCompleter" where
  "setContinuationLateHandler exec c = c\<lparr>cm_queue := True, cm_exec := Some exec\<rparr>"

definition invokeLate :: "time \<Rightarrow> 's contSys \<Rightarrow> 's contSys" where
  "invokeLate now s =
     (case cm_exec (sy_completer s) of
        Some exec \<Rightarrow> if cm_queue (sy_completer s) then recordLateCompleterIgnored exec now s else s
      | None \<Rightarrow> s)"

subsection \<open>The completer\<close>

text \<open>\<open>Complete\<close> and \<open>Fail\<close> start at \<open>CallDeliver\<close>, \<open>Cancel\<close> at \<open>CallCancel\<close>.\<close>

definition Complete :: "'s \<Rightarrow> 's callPc" where
  "Complete st = CallDeliver \<lparr>co_kind = continuationOutcomeComplete, co_state = Some st, co_err = None\<rparr>"

definition Fail :: "goerror option \<Rightarrow> 's callPc" where
  "Fail err = CallDeliver \<lparr>co_kind = continuationOutcomeFail, co_state = None, co_err = err\<rparr>"

definition Cancel :: "goerror option \<Rightarrow> 's callPc" where
  "Cancel err = CallCancel err"

text \<open>\<open>resolveLate\<close>: when \<open>done\<close> is closed the late handler runs and the call returns false.\<close>

definition resolveLate :: "time \<Rightarrow> 's continuationOutcome option \<Rightarrow> 's callPc \<Rightarrow> 's contSys \<Rightarrow> 's callPc \<times> 's contSys" where
  "resolveLate now oc otherwise s =
     (if cn_done (sy_cont s) then (CallReturned oc False, invokeLate now s) else (otherwise, s))"

fun callStep :: "time \<Rightarrow> 's callPc \<Rightarrow> 's contSys \<Rightarrow> 's callPc \<times> 's contSys" where
  "callStep now (CallCancel err) s =
     (let oc = \<lparr>co_kind = continuationOutcomeCancel, co_state = None,
               co_err = (case err of None \<Rightarrow> Some ErrContinuationCancelled | Some e \<Rightarrow> Some e)\<rparr>
      in resolveLate now None (CallDeliver oc) s)"
| "callStep now (CallDeliver oc) s = resolveLate now (Some oc) (CallContext oc) s"
| "callStep now (CallContext oc) s = ((case requestContextErr s of Some _ \<Rightarrow> CallOnceLate oc | None \<Rightarrow> CallOnce oc), s)"
| "callStep now (CallOnceLate oc) s =
     (CallReturned (Some oc) False,
      if cm_once (sy_completer s) then s else invokeLate now (s\<lparr>sy_completer := (sy_completer s)\<lparr>cm_once := True\<rparr>\<rparr>))"
| "callStep now (CallOnce oc) s =
     (if cm_once (sy_completer s) then (CallReturned (Some oc) False, s)
      else (let s1 = s\<lparr>sy_completer := (sy_completer s)\<lparr>cm_once := True\<rparr>\<rparr>
            in case cn_outcome (sy_cont s) of
                 None \<Rightarrow> (CallReturned (Some oc) True, s1\<lparr>sy_cont := (sy_cont s)\<lparr>cn_outcome := Some oc\<rparr>\<rparr>)
               | Some _ \<Rightarrow> (CallReturned (Some oc) False, invokeLate now s1)))"
| "callStep now (CallReturned oc b) s = (CallReturned oc b, s)"

subsection \<open>The runner and its resolution goroutine\<close>

definition closeDone :: "'s contSys \<Rightarrow> 's contSys" where
  "closeDone s = s\<lparr>sy_cont := (sy_cont s)\<lparr>cn_done := True\<rparr>\<rparr>"

definition takeOutcome :: "'s contSys \<Rightarrow> 's contSys" where
  "takeOutcome s = s\<lparr>sy_cont := (sy_cont s)\<lparr>cn_outcome := None\<rparr>\<rparr>"

text \<open>One \<open>select\<close> that takes a late outcome out of the channel, or does nothing.\<close>

definition drainLate :: "time \<Rightarrow> 's contSys \<Rightarrow> 's contSys" where
  "drainLate now s =
     (case cn_outcome (sy_cont s) of
        Some x \<Rightarrow> recordLateCompletion (cn_exec (sy_cont s)) (co_kind x) (co_err x) now (takeOutcome s)
      | None \<Rightarrow> s)"

text \<open>The yield: identity and position are written to the continuation, and the late handler is installed.\<close>

definition yieldContinuation :: "StageExecutionContext \<Rightarrow> time \<Rightarrow> u64 \<Rightarrow> 's contSys \<Rightarrow> 's contSys" where
  "yieldContinuation exec now cid s =
     s\<lparr>sy_cont := (sy_cont s)\<lparr>cn_exec := exec, cn_stageIndex := sec_StageIndex exec, cn_stageCount := sec_StageCount exec,
         cn_yieldedAt := now, cn_ID := cid\<rparr>,
       sy_completer := setContinuationLateHandler exec (sy_completer s)\<rparr>"

definition outcomeObservation :: "'s continuationOutcome \<Rightarrow> time \<Rightarrow> 's contSys \<Rightarrow> ContinuationObservation" where
  "outcomeObservation oc now s =
     continuationObsFromExec (cn_ID (sy_cont s)) (cn_exec (sy_cont s)) (timeSub now (cn_yieldedAt (sy_cont s))) 0
       (classifyOutcomeRequestOutcome (co_kind oc)) (classifyOutcomeFailureKind (co_kind oc)) (co_err oc)"

text \<open>What surrounds a step: the clock, which ready case a \<open>select\<close> takes, the execution context and the continuation's
  number at the yield, and the error of the resume job's \<open>Enqueue\<close>.\<close>

record stepEnv =
  se_now :: time
  se_preferDone :: bool
  se_exec :: StageExecutionContext
  se_id :: u64
  se_enqueueErr :: "goerror option"

text \<open>One step of the runner, \<open>None\<close> where it has nothing to do or waits. In \<open>CancelSend\<close> the channel of capacity one
  is either empty, so that the send is ready, or full, so that the receive is: the third case of that \<open>select\<close> cannot be taken.\<close>

fun runnerStep :: "stepEnv \<Rightarrow> 's runnerPc \<Rightarrow> 's contSys \<Rightarrow> ('s runnerPc \<times> 's contSys) option" where
  "runnerStep env RunYielded s =
     (let s1 = s\<lparr>sy_cont := setRequestContext (sy_cont s)\<rparr>
      in case sy_reqErr s of
           Some e \<Rightarrow> Some (RunAborted e, closeDone s1)
         | None \<Rightarrow> Some (RunChecked, s1))"
| "runnerStep env RunChecked s = Some (RunHandlerSet, yieldContinuation (se_exec env) (se_now env) (se_id env) s)"
| "runnerStep env RunHandlerSet s =
     (let c = sy_cont s;
          (err, reg) = register \<lparr>pe_id = cn_ID c, pe_shardID = sec_ShardID (cn_exec c), pe_registeredAt = cn_yieldedAt c\<rparr> (sy_reg s)
      in case err of
           Some e \<Rightarrow> Some (RunAborted e, closeDone s)
         | None \<Rightarrow> Some (Resolving,
             emit (OnContinuationYielded (continuationObsFromExec (cn_ID c) (cn_exec c) 0 0 RequestOutcomeCompleted FailureNone None))
               (s\<lparr>sy_reg := reg\<rparr>)))"
| "runnerStep env (RunAborted e) s = None"
| "runnerStep env Resolving s =
     (case sy_reqErr s of
        Some e \<Rightarrow>
          if se_preferDone env \<or> cn_outcome (sy_cont s) = None
          then Some (CancelSend \<lparr>co_kind = continuationOutcomeCancel, co_state = None, co_err = Some e\<rparr>, closeDone s)
          else map_option (\<lambda>oc. (Received oc, takeOutcome s)) (cn_outcome (sy_cont s))
      | None \<Rightarrow> map_option (\<lambda>oc. (Received oc, takeOutcome s)) (cn_outcome (sy_cont s)))"
| "runnerStep env (CancelSend oc) s =
     (case cn_outcome (sy_cont s) of
        None \<Rightarrow> Some (CancelDrain 2 oc, s\<lparr>sy_cont := (sy_cont s)\<lparr>cn_outcome := Some oc\<rparr>\<rparr>)
      | Some _ \<Rightarrow> Some (CancelDrain 2 oc, drainLate (se_now env) s))"
| "runnerStep env (CancelDrain n oc) s =
     (case n of 0 \<Rightarrow> Some (ResolveReg oc, s) | Suc m \<Rightarrow> Some (CancelDrain m oc, drainLate (se_now env) s))"
| "runnerStep env (Received oc) s =
     (case sy_reqErr s of
        Some e \<Rightarrow> Some (ResolveReg (oc\<lparr>co_kind := continuationOutcomeCancel, co_err := Some e\<rparr>),
                     recordLateCompletion (cn_exec (sy_cont s)) (co_kind oc) (co_err oc) (se_now env) s)
      | None \<Rightarrow> Some (ResolveReg oc, s))"
| "runnerStep env (ResolveReg oc) s =
     (let ((_, found, closed), reg) = resolve (cn_ID (sy_cont s)) (co_kind oc) (sy_reg s);
          s1 = (case closed of None \<Rightarrow> s\<lparr>sy_reg := reg\<rparr> | Some _ \<Rightarrow> closeDone (s\<lparr>sy_reg := reg\<rparr>));
          obs = outcomeObservation oc (se_now env) s
      in if \<not> found then Some (Settled oc, emit (OnContinuationLate obs) s1)
         else case co_kind oc of
                continuationOutcomeComplete \<Rightarrow> Some (Resume oc obs, emit (OnContinuationCompleted obs) s1)
              | continuationOutcomeFail \<Rightarrow> Some (Settled oc, emit (OnContinuationFailed obs) s1)
              | continuationOutcomeCancel \<Rightarrow> Some (Settled oc, emit (OnContinuationCancelled obs) s1))"
| "runnerStep env (Resume oc obs) s =
     (case se_enqueueErr env of
        None \<Rightarrow> Some (Settled oc, s)
      | Some _ \<Rightarrow> Some (Settled oc,
          emit (OnContinuationFailed (obs\<lparr>cob_FailureKind := FailureRejected, cob_Err := Some ErrContinuationResumeRejected\<rparr>))
            (s\<lparr>sy_reg := recordResumeRejected (sy_reg s)\<rparr>)))"
| "runnerStep env (Settled oc) s = None"

end
