(* ===== verification/Continuation_Facts.thy ===== *)
theory Continuation_Facts
  imports Continuation
begin

text \<open>
  The registry keeps its books under every interleaving of its operations, and the completion protocol of one continuation
  delivers at most one outcome. The protocol is a step relation: calls of the completer, the runner and the resolution
  goroutine, the end of a context and the registry work of other requests interleave freely.
\<close>

subsection \<open>Runs of the registry\<close>

text \<open>A number is allocated first and registered later, so that other runners come in between. \<open>rg_allocated\<close> are the numbers
  handed out and not yet registered, \<open>rg_registered\<close> counts the registrations that succeeded.\<close>

record regSys =
  rg_reg :: continuationRegistry
  rg_allocated :: "u64 list"
  rg_registered :: nat

datatype regOp =
    RegAlloc
  | RegRegister u64 int time
  | RegResolve u64 ContinuationOutcomeKind
  | RegLate
  | RegResumeRejected

fun regStep :: "regOp \<Rightarrow> regSys \<Rightarrow> regSys" where
  "regStep RegAlloc s =
     (let (cid, r) = allocID (rg_reg s) in s\<lparr>rg_reg := r, rg_allocated := cid # rg_allocated s\<rparr>)"
| "regStep (RegRegister cid sh now) s =
     (if cid \<in> set (rg_allocated s) then
        (let (err, r) = register \<lparr>pe_id = cid, pe_shardID = sh, pe_registeredAt = now\<rparr> (rg_reg s)
         in s\<lparr>rg_reg := r, rg_allocated := remove1 cid (rg_allocated s),
              rg_registered := (if err = None then Suc (rg_registered s) else rg_registered s)\<rparr>)
      else s)"
| "regStep (RegResolve cid kind) s = s\<lparr>rg_reg := snd (resolve cid kind (rg_reg s))\<rparr>"
| "regStep RegLate s = s\<lparr>rg_reg := recordLate (rg_reg s)\<rparr>"
| "regStep RegResumeRejected s = s\<lparr>rg_reg := recordResumeRejected (rg_reg s)\<rparr>"

definition newRegSys :: "ContinuationConfig \<Rightarrow> regSys" where
  "newRegSys cfg = \<lparr>rg_reg = newContinuationRegistry cfg, rg_allocated = [], rg_registered = 0\<rparr>"

definition pendingOn :: "continuationRegistry \<Rightarrow> int \<Rightarrow> nat" where
  "pendingOn r sh = length (filter (\<lambda>e. pe_shardID (snd e) = sh) (cr_pending r))"

text \<open>What the mutex protects: the two maps agree and respect the configured caps.\<close>

definition reg_maps_ok :: "continuationRegistry \<Rightarrow> bool" where
  "reg_maps_ok r \<longleftrightarrow> distinct (map fst (cr_pending r)) \<and> distinct (map fst (cr_perShard r))
     \<and> (\<forall>sh. perShardCount r sh = int (pendingOn r sh)) \<and> (\<forall>e \<in> set (cr_perShard r). snd e \<noteq> 0)
     \<and> (ccf_MaxPending (cr_cfg r) > 0 \<longrightarrow> int (length (cr_pending r)) \<le> ccf_MaxPending (cr_cfg r))
     \<and> (\<forall>sh. ccf_MaxPendingPerShard (cr_cfg r) > 0 \<longrightarrow> perShardCount r sh \<le> ccf_MaxPendingPerShard (cr_cfg r))"

definition reg_counts_ok :: "nat \<Rightarrow> continuationRegistry \<Rightarrow> bool" where
  "reg_counts_ok n r \<longleftrightarrow> cr_completed r + cr_failed r + cr_cancelled r + of_nat (length (cr_pending r)) = of_nat n"

definition reg_ids_ok :: "nat \<Rightarrow> regSys \<Rightarrow> bool" where
  "reg_ids_ok n s \<longleftrightarrow> unat (cr_nextID (rg_reg s)) \<le> n \<and> distinct (rg_allocated s)
     \<and> set (rg_allocated s) \<inter> fst ` set (cr_pending (rg_reg s)) = {}
     \<and> (\<forall>cid \<in> set (rg_allocated s) \<union> fst ` set (cr_pending (rg_reg s)). unat cid \<le> unat (cr_nextID (rg_reg s)))
     \<and> length (cr_pending (rg_reg s)) + length (rg_allocated s) \<le> n"

definition reg_inv :: "nat \<Rightarrow> ContinuationConfig \<Rightarrow> regSys \<Rightarrow> bool" where
  "reg_inv n cfg s \<longleftrightarrow> cr_cfg (rg_reg s) = cfg \<and> reg_maps_ok (rg_reg s) \<and> reg_counts_ok (rg_registered s) (rg_reg s) \<and> reg_ids_ok n s"

lemma perShardCount_update:
  "perShardCount (r\<lparr>cr_pending := p, cr_perShard := AList.update sh n (cr_perShard r)\<rparr>) sh' = (if sh' = sh then n else perShardCount r sh')"
  by (simp add: perShardCount_def update_conv')

lemma perShardCount_delete:
  "perShardCount (r\<lparr>cr_pending := p, cr_perShard := AList.delete sh (cr_perShard r)\<rparr>) sh' = (if sh' = sh then 0 else perShardCount r sh')"
  by (simp add: perShardCount_def delete_conv')

lemma perShardCount_more [simp]:
  "perShardCount (r\<lparr>cr_completed := a\<rparr>) = perShardCount r" "perShardCount (r\<lparr>cr_failed := a\<rparr>) = perShardCount r"
  "perShardCount (r\<lparr>cr_cancelled := a\<rparr>) = perShardCount r" "perShardCount (r\<lparr>cr_lateCompletions := a\<rparr>) = perShardCount r"
  "perShardCount (r\<lparr>cr_resumeRejected := a\<rparr>) = perShardCount r" "perShardCount (r\<lparr>cr_nextID := c\<rparr>) = perShardCount r"
  by (simp_all add: perShardCount_def fun_eq_iff)

lemma update_new: "k \<notin> fst ` set xs \<Longrightarrow> AList.update k v xs = xs @ [(k, v)]"
  by (induction xs) auto

lemma filter_delete_split:
  assumes "distinct (map fst xs)" "map_of xs k = Some e"
  shows "length (filter P xs) = length (filter P (AList.delete k xs)) + (if P (k, e) then 1 else 0)"
  using assms
proof (induction xs)
  case (Cons x xs)
  show ?case
  proof (cases "fst x = k")
    case True
    then have "x = (k, e)" using Cons.prems(2) by (cases x) simp
    moreover have "AList.delete k xs = xs" using Cons.prems(1) True by (intro delete_id) simp
    ultimately show ?thesis by simp
  next
    case False
    then have "map_of xs k = Some e" using Cons.prems(2) by (cases x) simp
    then show ?thesis using Cons False by (cases x) simp
  qed
qed simp

lemma length_delete_split:
  "distinct (map fst xs) \<Longrightarrow> map_of xs k = Some e \<Longrightarrow> length xs = Suc (length (AList.delete k xs))"
  using filter_delete_split [of xs k e "\<lambda>_. True"] by simp

lemma distinct_update_fst: "distinct (map fst xs) \<Longrightarrow> distinct (map fst (AList.update k v xs))"
  by (rule distinct_update)

lemma snd_update: "e \<in> set (AList.update k v xs) \<Longrightarrow> e = (k, v) \<or> e \<in> set xs"
  by (induction xs) (auto split: if_splits)

lemma pendingOn_bound: "pendingOn r sh \<le> length (cr_pending r)"
  by (simp add: pendingOn_def)

subsubsection \<open>Registering\<close>

lemma register_cases [case_names full ok]:
  obtains (full) "fst (register e r) = Some ErrContinuationLimitExceeded" "snd (register e r) = r"
  | (ok) "fst (register e r) = None"
      "snd (register e r) = r\<lparr>cr_pending := AList.update (pe_id e) e (cr_pending r),
         cr_perShard := AList.update (pe_shardID e) (wrapInt (perShardCount r (pe_shardID e) + 1)) (cr_perShard r)\<rparr>"
      "ccf_MaxPending (cr_cfg r) > 0 \<longrightarrow> int (length (cr_pending r)) < ccf_MaxPending (cr_cfg r)"
      "ccf_MaxPendingPerShard (cr_cfg r) > 0 \<longrightarrow> perShardCount r (pe_shardID e) < ccf_MaxPendingPerShard (cr_cfg r)"
proof (cases "ccf_MaxPending (cr_cfg r) > 0 \<and> int (length (cr_pending r)) \<ge> ccf_MaxPending (cr_cfg r)
    \<or> ccf_MaxPendingPerShard (cr_cfg r) > 0 \<and> perShardCount r (pe_shardID e) \<ge> ccf_MaxPendingPerShard (cr_cfg r)")
  case True
  show thesis by (rule full) (use True in \<open>auto simp: register_def\<close>)
next
  case False
  show thesis by (rule ok) (use False in \<open>auto simp: register_def\<close>)
qed

lemma register_maps:
  assumes ok: "reg_maps_ok r" and fresh: "pe_id e \<notin> fst ` set (cr_pending r)" and small: "length (cr_pending r) < 2 ^ 62"
  shows "reg_maps_ok (snd (register e r))"
proof (cases rule: register_cases [of e r])
  case ok': ok
  define n where "n = perShardCount r (pe_shardID e) + 1"
  have cnt: "perShardCount r sh = int (pendingOn r sh)" for sh using ok by (simp add: reg_maps_ok_def)
  have n: "wrapInt n = n" "n > 0"
    using pendingOn_bound [of r "pe_shardID e"] small by (auto simp: n_def cnt intro!: wrapInt_id)
  have r': "snd (register e r) = r\<lparr>cr_pending := cr_pending r @ [(pe_id e, e)], cr_perShard := AList.update (pe_shardID e) n (cr_perShard r)\<rparr>"
    using ok'(2) n(1) update_new [OF fresh] by (simp add: n_def)
  have c: "perShardCount (snd (register e r)) sh = (if sh = pe_shardID e then n else perShardCount r sh)" for sh
    by (simp only: r' perShardCount_update)
  have p: "pendingOn (snd (register e r)) sh = pendingOn r sh + (if sh = pe_shardID e then 1 else 0)" for sh
    by (simp add: r' pendingOn_def)
  have z: "\<forall>x \<in> set (cr_perShard (snd (register e r))). snd x \<noteq> 0"
    using ok n(2) snd_update by (fastforce simp: r' reg_maps_ok_def)
  show ?thesis
    unfolding reg_maps_ok_def c p
    using ok fresh ok'(3,4) n z
    by (auto simp: r' reg_maps_ok_def distinct_update_fst cnt n_def)
qed (simp add: ok)

lemma register_counts:
  assumes "reg_counts_ok n r" "pe_id e \<notin> fst ` set (cr_pending r)"
  shows "reg_counts_ok (if fst (register e r) = None then Suc n else n) (snd (register e r))"
  using assms
  by (cases rule: register_cases [of e r]) (simp_all add: reg_counts_ok_def update_new algebra_simps)

subsubsection \<open>Resolving\<close>

lemma resolve_absent:
  "map_of (cr_pending r) cid = None \<Longrightarrow> resolve cid kind r = ((resolveOutcomeLate, False, None), recordLate r)"
  by (simp add: resolve_def recordLate_def)

text \<open>The two maps after an entry was found, without the counter of its kind.\<close>

definition unregister :: "u64 \<Rightarrow> pendingEntry \<Rightarrow> continuationRegistry \<Rightarrow> continuationRegistry" where
  "unregister cid e r =
     (let n = wrapInt (perShardCount r (pe_shardID e) - 1)
      in r\<lparr>cr_pending := AList.delete cid (cr_pending r),
           cr_perShard := (if n = 0 then AList.delete (pe_shardID e) (cr_perShard r) else AList.update (pe_shardID e) n (cr_perShard r))\<rparr>)"

lemma resolve_found:
  assumes "map_of (cr_pending r) cid = Some e"
  shows "fst (resolve cid kind r) = (case kind of continuationOutcomeComplete \<Rightarrow> resolveOutcomeCompleted
           | continuationOutcomeFail \<Rightarrow> resolveOutcomeFailed | continuationOutcomeCancel \<Rightarrow> resolveOutcomeCancelled, True, Some e)"
    and "snd (resolve cid kind r) = (case kind of continuationOutcomeComplete \<Rightarrow> (unregister cid e r)\<lparr>cr_completed := cr_completed r + 1\<rparr>
           | continuationOutcomeFail \<Rightarrow> (unregister cid e r)\<lparr>cr_failed := cr_failed r + 1\<rparr>
           | continuationOutcomeCancel \<Rightarrow> (unregister cid e r)\<lparr>cr_cancelled := cr_cancelled r + 1\<rparr>)"
  using assms by (cases kind; simp add: resolve_def unregister_def Let_def)+

lemma reg_maps_ok_more [simp]:
  "reg_maps_ok (r\<lparr>cr_completed := a\<rparr>) = reg_maps_ok r" "reg_maps_ok (r\<lparr>cr_failed := a\<rparr>) = reg_maps_ok r"
  "reg_maps_ok (r\<lparr>cr_cancelled := a\<rparr>) = reg_maps_ok r" "reg_maps_ok (r\<lparr>cr_lateCompletions := a\<rparr>) = reg_maps_ok r"
  "reg_maps_ok (r\<lparr>cr_resumeRejected := a\<rparr>) = reg_maps_ok r" "reg_maps_ok (r\<lparr>cr_nextID := c\<rparr>) = reg_maps_ok r"
  by (simp_all add: reg_maps_ok_def pendingOn_def)

lemma unregister_maps:
  assumes ok: "reg_maps_ok r" and e: "map_of (cr_pending r) cid = Some e" and small: "length (cr_pending r) < 2 ^ 62"
  shows "reg_maps_ok (unregister cid e r)"
proof -
  define n where "n = perShardCount r (pe_shardID e) - 1"
  have d: "distinct (map fst (cr_pending r))" using ok by (simp add: reg_maps_ok_def)
  have cnt: "perShardCount r sh = int (pendingOn r sh)" for sh using ok by (simp add: reg_maps_ok_def)
  have split: "pendingOn r sh = length (filter (\<lambda>x. pe_shardID (snd x) = sh) (AList.delete cid (cr_pending r)))
      + (if sh = pe_shardID e then 1 else 0)" for sh
    unfolding pendingOn_def filter_delete_split [OF d e, of "\<lambda>x. pe_shardID (snd x) = sh"] by simp
  have n: "wrapInt n = n" "n \<ge> 0"
    using pendingOn_bound [of r "pe_shardID e"] small split [of "pe_shardID e"] by (auto simp: n_def cnt intro!: wrapInt_id)
  have r': "unregister cid e r = r\<lparr>cr_pending := AList.delete cid (cr_pending r),
      cr_perShard := (if n = 0 then AList.delete (pe_shardID e) (cr_perShard r) else AList.update (pe_shardID e) n (cr_perShard r))\<rparr>"
    using n(1) by (simp add: unregister_def n_def Let_def)
  have c: "perShardCount (unregister cid e r) sh = (if sh = pe_shardID e then n else perShardCount r sh)" for sh
    unfolding r' by (cases "n = 0") (simp_all only: simp_thms if_True if_False perShardCount_update perShardCount_delete)
  have p: "int (pendingOn (unregister cid e r) sh) = (if sh = pe_shardID e then n else perShardCount r sh)" for sh
    using split [of sh] by (auto simp: r' pendingOn_def n_def cnt)
  have z: "\<forall>x \<in> set (cr_perShard (unregister cid e r)). snd x \<noteq> 0"
  proof (cases "n = 0")
    case True
    then show ?thesis using ok by (auto simp: r' reg_maps_ok_def AList.delete_eq)
  next
    case False
    then show ?thesis using ok by (auto simp: r' reg_maps_ok_def dest!: snd_update)
  qed
  have dd: "distinct (map fst (AList.delete cid (cr_pending r)))" "distinct (map fst (cr_perShard (unregister cid e r)))"
    using ok by (auto simp: r' reg_maps_ok_def intro!: distinct_update_fst distinct_delete)
  have cap: "ccf_MaxPendingPerShard (cr_cfg r) > 0 \<longrightarrow> n \<le> ccf_MaxPendingPerShard (cr_cfg r)"
    using ok by (auto simp: reg_maps_ok_def n_def intro: order_trans [of _ "perShardCount r (pe_shardID e)"])
  show ?thesis
    unfolding reg_maps_ok_def c p
    using ok dd z cap length_delete_split [OF d e] by (auto simp: r' reg_maps_ok_def)
qed

lemma resolve_maps:
  assumes "reg_maps_ok r" "length (cr_pending r) < 2 ^ 62"
  shows "reg_maps_ok (snd (resolve cid kind r))"
  using unregister_maps [OF assms(1) _ assms(2), of cid]
  by (cases "map_of (cr_pending r) cid"; cases kind) (simp_all add: resolve_absent resolve_found recordLate_def assms)

lemma unregister_pending [simp]: "cr_pending (unregister cid e r) = AList.delete cid (cr_pending r)"
  by (simp add: unregister_def Let_def)

lemma unregister_more [simp]:
  "cr_completed (unregister cid e r) = cr_completed r" "cr_failed (unregister cid e r) = cr_failed r"
  "cr_cancelled (unregister cid e r) = cr_cancelled r" "cr_cfg (unregister cid e r) = cr_cfg r"
  "cr_nextID (unregister cid e r) = cr_nextID r"
  by (simp_all add: unregister_def Let_def)

lemma resolve_counts:
  assumes "reg_counts_ok n r" "distinct (map fst (cr_pending r))"
  shows "reg_counts_ok n (snd (resolve cid kind r))"
proof (cases "map_of (cr_pending r) cid")
  case (Some e)
  show ?thesis
    using assms(1) length_delete_split [OF assms(2) Some]
    by (cases kind) (simp_all add: reg_counts_ok_def resolve_found [OF Some] algebra_simps)
qed (use assms in \<open>simp add: resolve_absent recordLate_def reg_counts_ok_def\<close>)

lemma resolve_pending: "cr_pending (snd (resolve cid kind r)) = AList.delete cid (cr_pending r)"
proof (cases "map_of (cr_pending r) cid")
  case None
  then have "cid \<notin> fst ` set (cr_pending r)" by (simp add: map_of_eq_None_iff)
  then show ?thesis using None by (simp add: resolve_absent recordLate_def delete_id)
qed (cases kind; simp add: resolve_found)

lemma resolve_frame [simp]: "cr_cfg (snd (resolve cid kind r)) = cr_cfg r" "cr_nextID (snd (resolve cid kind r)) = cr_nextID r"
  by (cases "map_of (cr_pending r) cid"; cases kind; simp add: resolve_absent recordLate_def resolve_found)+

lemma register_frame [simp]: "cr_cfg (snd (register e r)) = cr_cfg r" "cr_nextID (snd (register e r)) = cr_nextID r"
  by (cases rule: register_cases [of e r]; simp)+

lemma register_pending:
  "pe_id e \<notin> fst ` set (cr_pending r) \<Longrightarrow>
     cr_pending (snd (register e r)) = cr_pending r @ (if fst (register e r) = None then [(pe_id e, e)] else [])"
  by (cases rule: register_cases [of e r]) (simp_all add: update_new)

subsubsection \<open>Every run\<close>

lemma reg_inv_new: "reg_inv 0 cfg (newRegSys cfg)"
  by (simp add: reg_inv_def newRegSys_def newContinuationRegistry_def reg_maps_ok_def reg_counts_ok_def reg_ids_ok_def
      perShardCount_def pendingOn_def)

lemma reg_inv_alloc:
  assumes inv: "reg_inv n cfg s" and n: "Suc n < 2 ^ 62"
  shows "reg_inv (Suc n) cfg (regStep RegAlloc s)"
proof -
  let ?m = "cr_nextID (rg_reg s)"
  have "unat ?m + 1 < 2 ^ 64" using inv n by (simp add: reg_inv_def reg_ids_ok_def)
  then have m: "unat (?m + 1) = Suc (unat ?m)" by (simp add: unat_word_ariths)
  have le: "unat c \<le> unat ?m" if "c \<in> set (rg_allocated s) \<union> fst ` set (cr_pending (rg_reg s))" for c
    using inv that unfolding reg_inv_def reg_ids_ok_def by blast
  have new: "?m + 1 \<notin> set (rg_allocated s) \<union> fst ` set (cr_pending (rg_reg s))"
  proof
    assume "?m + 1 \<in> set (rg_allocated s) \<union> fst ` set (cr_pending (rg_reg s))"
    from le [OF this] show False using m by simp
  qed
  have le': "\<forall>c \<in> set (rg_allocated s) \<union> fst ` set (cr_pending (rg_reg s)). unat c \<le> Suc (unat ?m)"
    using le le_SucI by blast
  have "reg_ids_ok (Suc n) (regStep RegAlloc s)"
    unfolding reg_ids_ok_def using inv new le' by (simp add: allocID_def m reg_inv_def reg_ids_ok_def Let_def)
  then show ?thesis using inv by (simp add: reg_inv_def allocID_def reg_counts_ok_def Let_def)
qed

lemma reg_inv_register:
  assumes inv: "reg_inv n cfg s" and n: "Suc n < 2 ^ 62"
  shows "reg_inv (Suc n) cfg (regStep (RegRegister cid sh now) s)"
proof (cases "cid \<in> set (rg_allocated s)")
  case True
  define e where "e = \<lparr>pe_id = cid, pe_shardID = sh, pe_registeredAt = now\<rparr>"
  have eid: "pe_id e = cid" by (simp add: e_def)
  have small: "length (cr_pending (rg_reg s)) < 2 ^ 62" using inv n by (simp add: reg_inv_def reg_ids_ok_def)
  have fresh: "pe_id e \<notin> fst ` set (cr_pending (rg_reg s))"
    using True inv by (force simp: eid reg_inv_def reg_ids_ok_def)
  have s': "regStep (RegRegister cid sh now) s = s\<lparr>rg_reg := snd (register e (rg_reg s)), rg_allocated := remove1 cid (rg_allocated s),
      rg_registered := (if fst (register e (rg_reg s)) = None then Suc (rg_registered s) else rg_registered s)\<rparr>"
    using True by (simp add: e_def [symmetric] case_prod_beta Let_def)
  have "cid \<notin> set (remove1 cid (rg_allocated s))" using inv by (simp add: reg_inv_def reg_ids_ok_def)
  then have "reg_ids_ok (Suc n) (regStep (RegRegister cid sh now) s)"
    unfolding s' using inv True fresh set_remove1_subset [of cid "rg_allocated s"]
    by (auto simp: reg_inv_def reg_ids_ok_def register_pending [OF fresh] length_remove1 eid)
  then show ?thesis unfolding s'
    using inv register_maps [OF _ fresh small] register_counts [OF _ fresh, of "rg_registered s"] by (simp add: reg_inv_def)
qed (use inv in \<open>auto simp: reg_inv_def reg_ids_ok_def\<close>)

lemma reg_inv_resolve:
  assumes inv: "reg_inv n cfg s" and n: "Suc n < 2 ^ 62"
  shows "reg_inv (Suc n) cfg (regStep (RegResolve cid kind) s)"
proof -
  have small: "length (cr_pending (rg_reg s)) < 2 ^ 62" using inv n by (simp add: reg_inv_def reg_ids_ok_def)
  have sub: "set (AList.delete cid (cr_pending (rg_reg s))) \<subseteq> set (cr_pending (rg_reg s))" by (auto simp: AList.delete_eq)
  have ids: "reg_ids_ok (Suc n) (regStep (RegResolve cid kind) s)"
    using inv length_delete_le [of cid "cr_pending (rg_reg s)"] sub
    by (auto simp: reg_inv_def reg_ids_ok_def resolve_pending)
  have "distinct (map fst (cr_pending (rg_reg s)))" using inv by (simp add: reg_inv_def reg_maps_ok_def)
  then show ?thesis using inv ids resolve_maps [OF _ small] resolve_counts by (simp add: reg_inv_def)
qed

lemma reg_inv_step:
  assumes "reg_inv n cfg s" "Suc n < 2 ^ 62"
  shows "reg_inv (Suc n) cfg (regStep op s)"
proof (cases op)
  case (RegRegister cid sh now)
  then show ?thesis using reg_inv_register [OF assms] by simp
next
  case (RegResolve cid kind)
  then show ?thesis using reg_inv_resolve [OF assms] by simp
qed (use assms reg_inv_alloc [OF assms] in
    \<open>auto simp: reg_inv_def recordLate_def recordResumeRejected_def reg_counts_ok_def reg_ids_ok_def\<close>)

lemma reg_inv_run:
  assumes "reg_inv n cfg s" "n + length ops < 2 ^ 62"
  shows "reg_inv (n + length ops) cfg (fold regStep ops s)"
  using assms
proof (induction ops arbitrary: n s)
  case (Cons op ops)
  have "reg_inv (Suc n) cfg (regStep op s)" using Cons.prems by (intro reg_inv_step) simp_all
  from Cons.IH [OF this] Cons.prems(2) show ?case by simp
qed simp

text \<open>C34: The continuation registry keeps its books. After any interleaving of allocations, registrations, resolutions (of
  known and unknown numbers), late records and rejected resumes, fewer than \<open>2 ^ 62\<close> in all: no number is pending twice, the
  per-shard counter of every shard is the number of its pending continuations and only shards with pending continuations have an
  entry, the global and the per-shard cap hold, and the completed, failed, cancelled and pending continuations
  add up to the registrations that succeeded.\<close>

theorem registry_accounts:
  fixes cfg :: ContinuationConfig and ops :: "regOp list"
  assumes "length ops < 2 ^ 62"
  defines "s \<equiv> fold regStep ops (newRegSys cfg)"
  defines "r \<equiv> rg_reg s"
  shows "distinct (map fst (cr_pending r))
     \<and> (\<forall>sh. perShardCount r sh = int (length (filter (\<lambda>e. pe_shardID (snd e) = sh) (cr_pending r))))
     \<and> list_all (\<lambda>x. scs_Pending x > 0) (shardSnapshot r)
     \<and> (ccf_MaxPending cfg > 0 \<longrightarrow> csn_Pending (snapshotContinuations r) \<le> ccf_MaxPending cfg)
     \<and> (ccf_MaxPendingPerShard cfg > 0 \<longrightarrow> list_all (\<lambda>x. scs_Pending x \<le> ccf_MaxPendingPerShard cfg) (shardSnapshot r))
     \<and> cr_completed r + cr_failed r + cr_cancelled r + of_nat (length (cr_pending r)) = of_nat (rg_registered s)"
proof -
  have inv: "reg_inv (length ops) cfg s"
    using reg_inv_run [OF reg_inv_new, of ops cfg] assms(1) by (simp add: s_def)
  then have maps: "reg_maps_ok r" and cfg: "cr_cfg r = cfg" by (simp_all add: reg_inv_def r_def)
  have cnt: "perShardCount r sh = int (pendingOn r sh)" for sh using maps by (simp add: reg_maps_ok_def)
  have entry: "snd e = perShardCount r (fst e)" "snd e > 0" if "e \<in> set (cr_perShard r)" for e
  proof -
    have "map_of (cr_perShard r) (fst e) = Some (snd e)" using maps that by (simp add: reg_maps_ok_def)
    then show c: "snd e = perShardCount r (fst e)" by (simp add: perShardCount_def)
    have "snd e \<noteq> 0" using maps that by (simp add: reg_maps_ok_def)
    then show "snd e > 0" unfolding c cnt by simp
  qed
  have shards: "list_all (\<lambda>x. scs_Pending x > 0) (shardSnapshot r)"
    "ccf_MaxPendingPerShard cfg > 0 \<longrightarrow> list_all (\<lambda>x. scs_Pending x \<le> ccf_MaxPendingPerShard cfg) (shardSnapshot r)"
    using entry maps cfg by (fastforce simp: shardSnapshot_def list_all_iff reg_maps_ok_def)+
  then show ?thesis
    using inv maps cfg by (simp add: reg_inv_def reg_maps_ok_def reg_counts_ok_def r_def snapshotContinuations_def pendingOn_def)
qed

theorem registry_accounts_witness:
  "csn_Pending (snapshotContinuations (rg_reg (fold regStep
       [RegAlloc, RegAlloc, RegRegister 1 0 0, RegRegister 2 1 0, RegResolve 1 continuationOutcomeComplete, RegResolve 1 continuationOutcomeFail]
       (newRegSys \<lparr>ccf_Enabled = True, ccf_MaxPending = 3, ccf_MaxPendingPerShard = 1, ccf_CompletionRetention = 0\<rparr>)))) \<le> 3"
  using registry_accounts [where ops = "[RegAlloc, RegAlloc, RegRegister 1 0 0, RegRegister 2 1 0, RegResolve 1 continuationOutcomeComplete,
      RegResolve 1 continuationOutcomeFail]" and cfg = "\<lparr>ccf_Enabled = True, ccf_MaxPending = 3, ccf_MaxPendingPerShard = 1, ccf_CompletionRetention = 0\<rparr>"]
  by simp

subsection \<open>The completion protocol\<close>

text \<open>Registry work of other requests: they never use this continuation's number.\<close>

inductive otherReg :: "u64 \<Rightarrow> continuationRegistry \<Rightarrow> continuationRegistry \<Rightarrow> bool" for cid where
  other_alloc: "otherReg cid r (snd (allocID r))"
| other_register: "pe_id e \<noteq> cid \<Longrightarrow> otherReg cid r (snd (register e r))"
| other_resolve: "x \<noteq> cid \<Longrightarrow> otherReg cid r (snd (resolve x kind r))"
| other_late: "otherReg cid r (recordLate r)"
| other_rejected: "otherReg cid r (recordResumeRejected r)"

inductive contStep :: "'s contSys \<Rightarrow> 's contSys \<Rightarrow> bool" where
  call_start: "pc \<in> range Complete \<union> range Fail \<union> range Cancel \<Longrightarrow> contStep s (s\<lparr>sy_calls := sy_calls s @ [pc]\<rparr>)"
| call_step: "i < length (sy_calls s) \<Longrightarrow> callStep now (sy_calls s ! i) s = (pc, s') \<Longrightarrow>
    contStep s (s'\<lparr>sy_calls := (sy_calls s)[i := pc]\<rparr>)"
| run_step: "runnerStep env (sy_runner s) s = Some (pc, s') \<Longrightarrow> contStep s (s'\<lparr>sy_runner := pc\<rparr>)"
| request_done: "sy_reqErr s = None \<Longrightarrow> contStep s (s\<lparr>sy_reqErr := Some e\<rparr>)"
| yield_done: "sy_yieldErr s = None \<Longrightarrow> contStep s (s\<lparr>sy_yieldErr := Some e\<rparr>)"
| others: "otherReg (cn_ID (sy_cont s)) (sy_reg s) r \<Longrightarrow> contStep s (s\<lparr>sy_reg := r\<rparr>)"

definition newContSys :: "StageExecutionContext \<Rightarrow> time \<Rightarrow> continuationRegistry \<Rightarrow> 's contSys" where
  "newContSys exec now r =
     (let (c, m) = NewContinuation exec now
      in \<lparr>sy_cont = c, sy_completer = m, sy_reg = r, sy_yieldErr = None, sy_reqErr = None, sy_runner = RunYielded,
          sy_calls = [], sy_events = []\<rparr>)"

text \<open>The outcomes of the calls that have returned true.\<close>

definition acceptedOf :: "'s callPc \<Rightarrow> 's continuationOutcome list" where
  "acceptedOf pc = (case pc of CallReturned (Some oc) True \<Rightarrow> [oc] | _ \<Rightarrow> [])"

definition accepted :: "'s contSys \<Rightarrow> 's continuationOutcome list" where
  "accepted s = concat (map acceptedOf (sy_calls s))"

definition isLate :: "continuationEvent \<Rightarrow> bool" where
  "isLate e = (case e of OnContinuationLate _ \<Rightarrow> True | _ \<Rightarrow> False)"

definition late_ok :: "'s contSys \<Rightarrow> bool" where
  "late_ok s \<longleftrightarrow> cn_lateOnce (sy_cont s) = cn_registryLateOnce (sy_cont s)
     \<and> length (filter isLate (sy_events s)) = (if cn_lateOnce (sy_cont s) then 1 else 0)"

text \<open>Where an accepted outcome can be once the request is cancelled: still in the channel, or taken and recorded late
  unless it was itself a cancellation.\<close>

definition handled :: "'s continuationOutcome option \<Rightarrow> 's continuationOutcome list \<Rightarrow> bool \<Rightarrow> bool" where
  "handled chan acc late \<longleftrightarrow>
     (case acc of [] \<Rightarrow> chan = None
      | a # _ \<Rightarrow> chan = Some a \<or> chan = None \<and> (co_kind a = continuationOutcomeCancel \<or> late))"

definition inChannel :: "'s continuationOutcome option \<Rightarrow> 's continuationOutcome list \<Rightarrow> bool" where
  "inChannel chan acc \<longleftrightarrow> chan = (case acc of [] \<Rightarrow> None | a # _ \<Rightarrow> Some a)"

definition settledAs :: "'s continuationOutcome \<Rightarrow> 's continuationOutcome option \<Rightarrow> 's continuationOutcome list \<Rightarrow> bool \<Rightarrow> bool" where
  "settledAs oc chan acc late \<longleftrightarrow> acc = [oc] \<and> chan = None \<or> co_kind oc = continuationOutcomeCancel \<and> handled chan acc late"

fun phase_ok :: "'s runnerPc \<Rightarrow> 's continuationOutcome option \<Rightarrow> 's continuationOutcome list \<Rightarrow> bool \<Rightarrow> bool \<Rightarrow> bool \<Rightarrow> bool" where
  "phase_ok RunYielded chan acc late fin pend \<longleftrightarrow> inChannel chan acc"
| "phase_ok RunChecked chan acc late fin pend \<longleftrightarrow> inChannel chan acc"
| "phase_ok RunHandlerSet chan acc late fin pend \<longleftrightarrow> inChannel chan acc"
| "phase_ok (RunAborted e) chan acc late fin pend \<longleftrightarrow> inChannel chan acc \<and> fin"
| "phase_ok Resolving chan acc late fin pend \<longleftrightarrow> inChannel chan acc \<and> pend"
| "phase_ok (CancelSend oc) chan acc late fin pend \<longleftrightarrow> co_kind oc = continuationOutcomeCancel \<and> inChannel chan acc \<and> pend \<and> fin"
| "phase_ok (CancelDrain n oc) chan acc late fin pend \<longleftrightarrow>
     co_kind oc = continuationOutcomeCancel \<and> pend \<and> fin \<and> (handled chan acc late \<or> 0 < n \<and> acc = [] \<and> chan = Some oc)"
| "phase_ok (Received oc) chan acc late fin pend \<longleftrightarrow> acc = [oc] \<and> chan = None \<and> pend"
| "phase_ok (ResolveReg oc) chan acc late fin pend \<longleftrightarrow> settledAs oc chan acc late \<and> pend"
| "phase_ok (Resume oc obs) chan acc late fin pend \<longleftrightarrow> settledAs oc chan acc late \<and> fin"
| "phase_ok (Settled oc) chan acc late fin pend \<longleftrightarrow> settledAs oc chan acc late \<and> fin"

definition contInv :: "'s contSys \<Rightarrow> bool" where
  "contInv s \<longleftrightarrow> length (accepted s) \<le> 1 \<and> (accepted s \<noteq> [] \<longrightarrow> cm_once (sy_completer s)) \<and> late_ok s
     \<and> phase_ok (sy_runner s) (cn_outcome (sy_cont s)) (accepted s) (cn_registryLateOnce (sy_cont s)) (cn_done (sy_cont s))
         (map_of (cr_pending (sy_reg s)) (cn_ID (sy_cont s)) \<noteq> None)"

subsubsection \<open>Late accounting\<close>

lemma recordLate_pending [simp]: "cr_pending (recordLate r) = cr_pending r"
  by (simp add: recordLate_def)

text \<open>What \<open>invokeLate\<close> and \<open>recordLateCompletion\<close> leave alone.\<close>

definition lateFrame :: "'s contSys \<Rightarrow> 's contSys \<Rightarrow> bool" where
  "lateFrame s t \<longleftrightarrow> sy_completer t = sy_completer s \<and> sy_runner t = sy_runner s \<and> sy_calls t = sy_calls s
     \<and> sy_reqErr t = sy_reqErr s \<and> sy_yieldErr t = sy_yieldErr s
     \<and> cn_outcome (sy_cont t) = cn_outcome (sy_cont s) \<and> cn_done (sy_cont t) = cn_done (sy_cont s)
     \<and> cn_ID (sy_cont t) = cn_ID (sy_cont s) \<and> cr_pending (sy_reg t) = cr_pending (sy_reg s)
     \<and> (cn_registryLateOnce (sy_cont s) \<longrightarrow> cn_registryLateOnce (sy_cont t)) \<and> (late_ok s \<longrightarrow> late_ok t)"

lemma lateFrame_refl [simp]: "lateFrame s s"
  by (simp add: lateFrame_def)

lemma late_record: "lateFrame s (lateHook exec kind err now (recordLateRegistry s))"
  by (auto simp: lateFrame_def lateHook_def recordLateRegistry_def emit_def late_ok_def isLate_def)

lemma late_invoke: "lateFrame s (invokeLate now s)"
  using late_record by (auto simp: invokeLate_def recordLateCompleterIgnored_def split: option.splits)

lemma late_completion: "lateFrame s (recordLateCompletion exec kind err now s)"
  using late_record by (auto simp: recordLateCompletion_def)

lemma late_completion_marks:
  "kind \<noteq> continuationOutcomeCancel \<Longrightarrow> cn_registryLateOnce (sy_cont (recordLateCompletion exec kind err now s))"
  by (simp add: recordLateCompletion_def lateHook_def recordLateRegistry_def emit_def)

lemma accepted_frame: "lateFrame s t \<Longrightarrow> accepted t = accepted s"
  by (simp add: lateFrame_def accepted_def)

lemma handled_mono: "handled chan acc late \<Longrightarrow> (late \<Longrightarrow> late') \<Longrightarrow> handled chan acc late'"
  by (auto simp: handled_def split: list.splits)

lemma settledAs_mono: "settledAs oc chan acc late \<Longrightarrow> (late \<Longrightarrow> late') \<Longrightarrow> settledAs oc chan acc late'"
  by (auto simp: settledAs_def intro: handled_mono)

lemma phase_mono: "phase_ok pc chan acc late fin pend \<Longrightarrow> (late \<Longrightarrow> late') \<Longrightarrow> phase_ok pc chan acc late' fin pend"
  by (cases pc) (auto intro: handled_mono settledAs_mono)

lemma contInv_late: "contInv s \<Longrightarrow> lateFrame s t \<Longrightarrow> contInv t"
  unfolding contInv_def lateFrame_def accepted_def by (auto elim: phase_mono)

subsubsection \<open>Calls\<close>

lemma accepted_set:
  "i < length (sy_calls s) \<Longrightarrow> acceptedOf (sy_calls s ! i) = [] \<Longrightarrow> acceptedOf pc = [] \<Longrightarrow>
     concat (map acceptedOf ((sy_calls s)[i := pc])) = accepted s"
proof -
  assume i: "i < length (sy_calls s)" "acceptedOf (sy_calls s ! i) = []" "acceptedOf pc = []"
  have "map acceptedOf ((sy_calls s)[i := pc]) = map acceptedOf (sy_calls s)"
    using i by (simp add: map_update list_update_same_conv)
  then show ?thesis by (simp add: accepted_def)
qed

lemma accepted_first:
  assumes "i < length (sy_calls s)" "accepted s = []"
  shows "concat (map acceptedOf ((sy_calls s)[i := pc])) = acceptedOf pc"
proof -
  have "concat (map acceptedOf ((sy_calls s)[i := pc])) =
      concat (map acceptedOf (take i (sy_calls s))) @ acceptedOf pc @ concat (map acceptedOf (drop (Suc i) (sy_calls s)))"
    using assms(1) by (simp add: upd_conv_take_nth_drop)
  moreover have "concat (map acceptedOf (take i (sy_calls s))) = []" "concat (map acceptedOf (drop (Suc i) (sy_calls s))) = []"
    using assms(2) by (auto simp: accepted_def dest: in_set_takeD in_set_dropD)
  ultimately show ?thesis by simp
qed

text \<open>Sending into the empty channel keeps every phase.\<close>

lemma phase_publish: "phase_ok pc None [] late fin pend \<Longrightarrow> phase_ok pc (Some oc) [oc] late fin pend"
  by (cases pc) (auto simp: inChannel_def handled_def settledAs_def)

lemma contInv_calls:
  assumes "contInv s" "concat (map acceptedOf cs) = accepted s"
  shows "contInv (s\<lparr>sy_calls := cs\<rparr>)"
proof -
  have "accepted (s\<lparr>sy_calls := cs\<rparr>) = accepted s" using assms(2) by (simp add: accepted_def)
  then show ?thesis using assms(1) by (simp add: contInv_def late_ok_def)
qed

lemma acceptedOf_simps [simp]:
  "acceptedOf (CallCancel err) = []" "acceptedOf (CallDeliver oc) = []" "acceptedOf (CallContext oc) = []"
  "acceptedOf (CallOnceLate oc) = []" "acceptedOf (CallOnce oc) = []" "acceptedOf (CallReturned x False) = []"
  "acceptedOf (CallReturned (Some oc) True) = [oc]"
  by (simp_all add: acceptedOf_def split: option.splits)

lemma contInv_once: "contInv s \<Longrightarrow> contInv (s\<lparr>sy_completer := (sy_completer s)\<lparr>cm_once := True\<rparr>\<rparr>)"
  by (simp add: contInv_def accepted_def late_ok_def)

text \<open>A step of a call that accepts nothing.\<close>

lemma contInv_refused:
  assumes "contInv t" "sy_calls t = sy_calls s" "i < length (sy_calls s)" "acceptedOf (sy_calls s ! i) = []" "acceptedOf pc = []"
  shows "contInv (t\<lparr>sy_calls := (sy_calls s)[i := pc]\<rparr>)"
  using contInv_calls [OF assms(1)] accepted_set [of i t pc] assms by simp

lemma lateFrame_calls: "lateFrame s t \<Longrightarrow> sy_calls t = sy_calls s"
  by (simp add: lateFrame_def)

lemma contInv_publish:
  assumes inv: "contInv s" and i: "i < length (sy_calls s)" and once: "\<not> cm_once (sy_completer s)"
    and empty: "cn_outcome (sy_cont s) = None"
  shows "contInv (s\<lparr>sy_completer := (sy_completer s)\<lparr>cm_once := True\<rparr>, sy_cont := (sy_cont s)\<lparr>cn_outcome := Some oc\<rparr>,
           sy_calls := (sy_calls s)[i := CallReturned (Some oc) True]\<rparr>)"
proof -
  have none: "accepted s = []" using inv once by (auto simp: contInv_def)
  let ?t = "s\<lparr>sy_completer := (sy_completer s)\<lparr>cm_once := True\<rparr>, sy_cont := (sy_cont s)\<lparr>cn_outcome := Some oc\<rparr>,
           sy_calls := (sy_calls s)[i := CallReturned (Some oc) True]\<rparr>"
  have acc: "accepted ?t = [oc]" using accepted_first [OF i none] by (simp add: accepted_def)
  have "phase_ok (sy_runner s) None [] (cn_registryLateOnce (sy_cont s)) (cn_done (sy_cont s))
         (map_of (cr_pending (sy_reg s)) (cn_ID (sy_cont s)) \<noteq> None)"
    using inv none empty by (simp add: contInv_def)
  from phase_publish [OF this, of oc] show ?thesis
    using inv unfolding contInv_def acc by (simp add: late_ok_def)
qed

text \<open>A call changes the late accounting and \<open>once\<close>, or publishes its outcome.\<close>

lemma call_effect:
  assumes "callStep now pc0 s = (pc, t)"
  obtains (returned) "pc = pc0" "t = s"
  | (refused) "acceptedOf pc0 = []" "acceptedOf pc = []" "lateFrame s t"
  | (refused_once) "acceptedOf pc0 = []" "acceptedOf pc = []" "lateFrame (s\<lparr>sy_completer := (sy_completer s)\<lparr>cm_once := True\<rparr>\<rparr>) t"
  | (published) oc where "pc = CallReturned (Some oc) True" "\<not> cm_once (sy_completer s)" "cn_outcome (sy_cont s) = None"
      "t = s\<lparr>sy_completer := (sy_completer s)\<lparr>cm_once := True\<rparr>, sy_cont := (sy_cont s)\<lparr>cn_outcome := Some oc\<rparr>\<rparr>"
proof (cases pc0)
  case (CallCancel err)
  then have "acceptedOf pc = [] \<and> lateFrame s t"
    using assms late_invoke [of s] by (cases "cn_done (sy_cont s)") (auto simp: resolveLate_def)
  then show ?thesis using CallCancel refused by simp
next
  case (CallDeliver oc)
  then have "acceptedOf pc = [] \<and> lateFrame s t"
    using assms late_invoke [of s] by (cases "cn_done (sy_cont s)") (auto simp: resolveLate_def)
  then show ?thesis using CallDeliver refused by simp
next
  case (CallContext oc)
  then have "acceptedOf pc = [] \<and> lateFrame s t" using assms by (cases "requestContextErr s") auto
  then show ?thesis using CallContext refused by simp
next
  case (CallOnceLate oc)
  show ?thesis
  proof (cases "cm_once (sy_completer s)")
    case True
    then have "pc = CallReturned (Some oc) False" "t = s" using CallOnceLate assms by simp_all
    then show ?thesis by (intro refused) (simp_all add: CallOnceLate)
  next
    case False
    then have "pc = CallReturned (Some oc) False" "t = invokeLate now (s\<lparr>sy_completer := (sy_completer s)\<lparr>cm_once := True\<rparr>\<rparr>)"
      using CallOnceLate assms by simp_all
    then show ?thesis by (intro refused_once) (simp_all add: CallOnceLate late_invoke)
  qed
next
  case (CallOnce oc)
  show ?thesis
  proof (cases "cm_once (sy_completer s)")
    case True
    then have "pc = CallReturned (Some oc) False" "t = s" using CallOnce assms by simp_all
    then show ?thesis by (intro refused) (simp_all add: CallOnce)
  next
    case False
    show ?thesis
    proof (cases "cn_outcome (sy_cont s)")
      case None
      then show ?thesis using CallOnce assms False by (intro published [of oc]) (simp_all add: Let_def)
    next
      case (Some x)
      then have "pc = CallReturned (Some oc) False" "t = invokeLate now (s\<lparr>sy_completer := (sy_completer s)\<lparr>cm_once := True\<rparr>\<rparr>)"
        using CallOnce assms False by (simp_all add: Let_def)
      then show ?thesis by (intro refused_once) (simp_all add: CallOnce late_invoke)
    qed
  qed
next
  case (CallReturned x b)
  then show ?thesis using assms returned by simp
qed

lemma contInv_call:
  assumes inv: "contInv s" and i: "i < length (sy_calls s)" and st: "callStep now (sy_calls s ! i) s = (pc, t)"
  shows "contInv (t\<lparr>sy_calls := (sy_calls s)[i := pc]\<rparr>)"
  using st
proof (cases rule: call_effect)
  case returned
  then show ?thesis using inv by simp
next
  case refused
  from contInv_refused [OF contInv_late [OF inv refused(3)] lateFrame_calls [OF refused(3)] i refused(1,2)] show ?thesis .
next
  case refused_once
  have "sy_calls t = sy_calls s" using lateFrame_calls [OF refused_once(3)] by simp
  from contInv_refused [OF contInv_late [OF contInv_once [OF inv] refused_once(3)] this i refused_once(1,2)] show ?thesis .
next
  case (published oc)
  then show ?thesis using contInv_publish [OF inv i published(2,3), of oc] by simp
qed

subsubsection \<open>The resolution goroutine\<close>

lemma drain_frame:
  "sy_completer (drainLate now s) = sy_completer s" "accepted (drainLate now s) = accepted s"
  "cn_done (sy_cont (drainLate now s)) = cn_done (sy_cont s)" "cn_ID (sy_cont (drainLate now s)) = cn_ID (sy_cont s)"
  "cr_pending (sy_reg (drainLate now s)) = cr_pending (sy_reg s)" "late_ok s \<Longrightarrow> late_ok (drainLate now s)"
  "cn_outcome (sy_cont (drainLate now s)) = None"
proof -
  have f: "drainLate now s = s \<and> cn_outcome (sy_cont s) = None \<or> lateFrame (takeOutcome s) (drainLate now s)"
    using late_completion by (auto simp: drainLate_def split: option.splits)
  then show "sy_completer (drainLate now s) = sy_completer s" "cn_done (sy_cont (drainLate now s)) = cn_done (sy_cont s)"
    "cn_ID (sy_cont (drainLate now s)) = cn_ID (sy_cont s)" "cr_pending (sy_reg (drainLate now s)) = cr_pending (sy_reg s)"
    "cn_outcome (sy_cont (drainLate now s)) = None" "accepted (drainLate now s) = accepted s"
    by (auto simp: lateFrame_def takeOutcome_def accepted_def)
  have "late_ok (takeOutcome s) = late_ok s" by (simp add: late_ok_def takeOutcome_def)
  then show "late_ok s \<Longrightarrow> late_ok (drainLate now s)" using f by (auto simp: lateFrame_def)
qed

lemma drain_late_mono: "cn_registryLateOnce (sy_cont s) \<Longrightarrow> cn_registryLateOnce (sy_cont (drainLate now s))"
  using late_completion [of "takeOutcome s"]
  by (auto simp: drainLate_def lateFrame_def takeOutcome_def split: option.splits)

lemma drain_marks:
  "cn_outcome (sy_cont s) = Some x \<Longrightarrow> co_kind x \<noteq> continuationOutcomeCancel \<Longrightarrow> cn_registryLateOnce (sy_cont (drainLate now s))"
  by (simp add: drainLate_def late_completion_marks)

lemma drain_handled:
  assumes "handled (cn_outcome (sy_cont s)) (accepted s) (cn_registryLateOnce (sy_cont s))"
  shows "handled None (accepted s) (cn_registryLateOnce (sy_cont (drainLate now s)))"
  using assms drain_late_mono [of s now] drain_marks [of s]
  by (auto simp: handled_def split: list.splits)

lemma inChannel_handled: "inChannel chan acc \<Longrightarrow> handled chan acc late"
  by (auto simp: inChannel_def handled_def split: list.splits)

lemma register_keeps:
  assumes "map_of (cr_pending r) cid = Some y"
  shows "\<exists>y. map_of (cr_pending (snd (register e r))) cid = Some y"
  using assms by (cases rule: register_cases [of e r]) (simp_all add: update_conv')

lemma register_adds:
  "fst (register e r) = None \<Longrightarrow> map_of (cr_pending (snd (register e r))) (pe_id e) \<noteq> None"
  by (cases rule: register_cases [of e r]) (simp_all add: update_conv')

lemma other_keeps: "otherReg cid r r' \<Longrightarrow> map_of (cr_pending r) cid \<noteq> None \<Longrightarrow> map_of (cr_pending r') cid \<noteq> None"
  by (induction rule: otherReg.induct)
    (auto simp: allocID_def Let_def resolve_pending delete_conv' recordResumeRejected_def dest: register_keeps)

text \<open>Before the resolution goroutine starts.\<close>

lemma contInv_setup:
  assumes inv: "contInv s" and pc: "sy_runner s \<in> {RunYielded, RunChecked, RunHandlerSet}"
    and st: "runnerStep env (sy_runner s) s = Some (pc, t)"
  shows "contInv (t\<lparr>sy_runner := pc\<rparr>)"
proof -
  consider "sy_runner s = RunYielded" | "sy_runner s = RunChecked" | "sy_runner s = RunHandlerSet" using pc by blast
  then show ?thesis
  proof cases
    case 1
    then show ?thesis using inv st
      by (auto simp: contInv_def accepted_def late_ok_def closeDone_def setRequestContext_def Let_def split: option.splits)
  next
    case 2
    then show ?thesis using inv st
      by (auto simp: contInv_def accepted_def late_ok_def yieldContinuation_def setContinuationLateHandler_def)
  next
    case 3
    let ?e = "\<lparr>pe_id = cn_ID (sy_cont s), pe_shardID = sec_ShardID (cn_exec (sy_cont s)), pe_registeredAt = cn_yieldedAt (sy_cont s)\<rparr>"
    show ?thesis
    proof (cases "fst (register ?e (sy_reg s))")
      case None
      then show ?thesis using 3 inv st register_adds [OF None]
        by (auto simp: contInv_def accepted_def late_ok_def emit_def isLate_def Let_def case_prod_beta)
    next
      case (Some err)
      then show ?thesis using 3 inv st
        by (auto simp: contInv_def accepted_def late_ok_def closeDone_def Let_def case_prod_beta)
    qed
  qed
qed

lemma contInv_select:
  assumes inv: "contInv s" and pc: "sy_runner s = Resolving" and st: "runnerStep env Resolving s = Some (pc, t)"
  shows "contInv (t\<lparr>sy_runner := pc\<rparr>)"
proof -
  have ch: "inChannel (cn_outcome (sy_cont s)) (accepted s)" and len: "length (accepted s) \<le> 1" using inv pc by (simp_all add: contInv_def)
  have one: "accepted s = [oc]" if "cn_outcome (sy_cont s) = Some oc" for oc
    using ch len that by (cases "accepted s") (simp_all add: inChannel_def)
  consider (cancel) e where "pc = CancelSend \<lparr>co_kind = continuationOutcomeCancel, co_state = None, co_err = Some e\<rparr>" "t = closeDone s"
    | (got) oc where "pc = Received oc" "t = takeOutcome s" "cn_outcome (sy_cont s) = Some oc"
    using st by (auto split: option.splits if_splits)
  then show ?thesis
  proof cases
    case cancel
    then show ?thesis using inv pc by (simp add: contInv_def closeDone_def late_ok_def accepted_def)
  next
    case got
    have "accepted (t\<lparr>sy_runner := pc\<rparr>) = [oc]" using one [OF got(3)] got(2) by (simp add: accepted_def takeOutcome_def)
    then show ?thesis using inv pc got one [OF got(3)] unfolding contInv_def by (simp add: takeOutcome_def late_ok_def)
  qed
qed

lemma accepted_runner [simp]: "accepted (s\<lparr>sy_runner := pc\<rparr>) = accepted s"
  by (simp add: accepted_def)

lemma late_ok_runner [simp]: "late_ok (s\<lparr>sy_runner := pc\<rparr>) = late_ok s"
  by (simp add: late_ok_def)

lemma contInv_cancel:
  assumes inv: "contInv s" and pc: "sy_runner s = CancelSend oc" and st: "runnerStep env (CancelSend oc) s = Some (pc', t)"
  shows "contInv (t\<lparr>sy_runner := pc'\<rparr>)"
proof (cases "cn_outcome (sy_cont s)")
  case None
  have t: "pc' = CancelDrain 2 oc" "t = s\<lparr>sy_cont := (sy_cont s)\<lparr>cn_outcome := Some oc\<rparr>\<rparr>" using st None by simp_all
  have "accepted t = accepted s" "late_ok t = late_ok s" by (simp_all add: t accepted_def late_ok_def)
  moreover have "accepted s = []" using inv pc None by (cases "accepted s") (simp_all add: contInv_def inChannel_def)
  ultimately show ?thesis using inv pc by (simp add: contInv_def t)
next
  case (Some x)
  have t: "pc' = CancelDrain 2 oc" "t = drainLate (se_now env) s" using st Some by simp_all
  have "inChannel (cn_outcome (sy_cont s)) (accepted s)" using inv pc by (simp add: contInv_def)
  from drain_handled [OF inChannel_handled [OF this]] show ?thesis
    using inv pc by (simp add: contInv_def t drain_frame)
qed

lemma contInv_drain:
  assumes inv: "contInv s" and pc: "sy_runner s = CancelDrain n oc" and st: "runnerStep env (CancelDrain n oc) s = Some (pc', t)"
  shows "contInv (t\<lparr>sy_runner := pc'\<rparr>)"
proof (cases n)
  case 0
  then show ?thesis using inv pc st by (auto simp: contInv_def settledAs_def)
next
  case (Suc m)
  have t: "pc' = CancelDrain m oc" "t = drainLate (se_now env) s" using st Suc by simp_all
  have "handled (cn_outcome (sy_cont s)) (accepted s) (cn_registryLateOnce (sy_cont s)) \<or> accepted s = []"
    using inv pc by (auto simp: contInv_def)
  then have "handled None (accepted s) (cn_registryLateOnce (sy_cont (drainLate (se_now env) s)))"
    using drain_handled by (auto simp: handled_def)
  then show ?thesis using inv pc by (simp add: contInv_def t drain_frame)
qed

lemma contInv_received:
  assumes inv: "contInv s" and pc: "sy_runner s = Received oc" and st: "runnerStep env (Received oc) s = Some (pc', t)"
  shows "contInv (t\<lparr>sy_runner := pc'\<rparr>)"
proof (cases "sy_reqErr s")
  case None
  then show ?thesis using inv pc st by (auto simp: contInv_def settledAs_def)
next
  case (Some e)
  let ?t = "recordLateCompletion (cn_exec (sy_cont s)) (co_kind oc) (co_err oc) (se_now env) s"
  have t: "pc' = ResolveReg (oc\<lparr>co_kind := continuationOutcomeCancel, co_err := Some e\<rparr>)" "t = ?t" using st Some by simp_all
  have f: "lateFrame s ?t" by (rule late_completion)
  have m: "co_kind oc = continuationOutcomeCancel \<or> cn_registryLateOnce (sy_cont ?t)" using late_completion_marks by blast
  show ?thesis
    using inv pc f m accepted_frame [OF f] by (auto simp: contInv_def t settledAs_def handled_def lateFrame_def)
qed

lemma contInv_resolve:
  assumes inv: "contInv s" and pc: "sy_runner s = ResolveReg oc" and st: "runnerStep env (ResolveReg oc) s = Some (pc', t)"
  shows "contInv (t\<lparr>sy_runner := pc'\<rparr>) \<and> (\<exists>obs. pc' = Resume oc obs \<and> co_kind oc = continuationOutcomeComplete \<or> pc' = Settled oc)"
proof -
  obtain e where e: "map_of (cr_pending (sy_reg s)) (cn_ID (sy_cont s)) = Some e" using inv pc by (auto simp: contInv_def)
  show ?thesis using inv pc st
    by (cases "co_kind oc")
      (auto simp: Let_def case_prod_beta resolve_found [OF e] contInv_def accepted_def late_ok_def emit_def closeDone_def isLate_def)
qed

lemma contInv_run:
  assumes inv: "contInv s" and st: "runnerStep env (sy_runner s) s = Some (pc, t)"
  shows "contInv (t\<lparr>sy_runner := pc\<rparr>)"
proof (cases "sy_runner s")
  case (Resume oc obs)
  then show ?thesis using inv st
    by (auto simp: contInv_def accepted_def late_ok_def emit_def isLate_def recordResumeRejected_def split: option.splits)
qed (use inv st contInv_setup [OF inv _ st] contInv_select [OF inv] contInv_cancel [OF inv] contInv_drain [OF inv]
    contInv_received [OF inv] contInv_resolve [OF inv] in \<open>simp_all\<close>)

lemma accepted_reg: "accepted (s\<lparr>sy_reg := r\<rparr>) = accepted s"
  by (simp add: accepted_def)

lemma late_ok_reg: "late_ok (s\<lparr>sy_reg := r\<rparr>) = late_ok s"
  by (simp add: late_ok_def)

lemma contInv_step: "contStep s t \<Longrightarrow> contInv s \<Longrightarrow> contInv t"
proof (induction rule: contStep.induct)
  case (call_start pc s)
  then have "acceptedOf pc = []" by (auto simp: Complete_def Fail_def Cancel_def)
  then show ?case using call_start contInv_calls [of s "sy_calls s @ [pc]"] by (simp add: accepted_def)
next
  case (call_step i s now pc s')
  then show ?case by (intro contInv_call) simp_all
next
  case (run_step env s pc s')
  then show ?case by (intro contInv_run)
next
  case (others s r)
  have "map_of (cr_pending (sy_reg s)) (cn_ID (sy_cont s)) \<noteq> None \<longrightarrow> map_of (cr_pending r) (cn_ID (sy_cont s)) \<noteq> None"
    using other_keeps [OF others.hyps] by blast
  then show ?case using others.prems
    by (cases "sy_runner s") (auto simp: contInv_def accepted_reg late_ok_reg)
qed (auto simp: contInv_def accepted_def late_ok_def)

lemma contInv_new: "contInv (newContSys exec now r)"
  by (simp add: contInv_def newContSys_def NewContinuation_def accepted_def late_ok_def inChannel_def)

lemma contInv_reachable: "contStep\<^sup>*\<^sup>* (newContSys exec now r) s \<Longrightarrow> contInv s"
  by (induction rule: rtranclp_induct) (auto intro: contInv_new contInv_step)

subsubsection \<open>Concrete schedules\<close>

datatype 's sched = DoComplete 's | DoFail "goerror option" | DoCancel "goerror option" | DoCall nat time | DoRun stepEnv | DoRequestDone goerror

fun doStep :: "'s sched \<Rightarrow> 's contSys \<Rightarrow> 's contSys" where
  "doStep (DoComplete st) s = s\<lparr>sy_calls := sy_calls s @ [Complete st]\<rparr>"
| "doStep (DoFail err) s = s\<lparr>sy_calls := sy_calls s @ [Fail err]\<rparr>"
| "doStep (DoCancel err) s = s\<lparr>sy_calls := sy_calls s @ [Cancel err]\<rparr>"
| "doStep (DoCall i now) s =
     (if i < length (sy_calls s) then let (pc, t) = callStep now (sy_calls s ! i) s in t\<lparr>sy_calls := (sy_calls s)[i := pc]\<rparr> else s)"
| "doStep (DoRun env) s = (case runnerStep env (sy_runner s) s of None \<Rightarrow> s | Some (pc, t) \<Rightarrow> t\<lparr>sy_runner := pc\<rparr>)"
| "doStep (DoRequestDone e) s = (if sy_reqErr s = None then s\<lparr>sy_reqErr := Some e\<rparr> else s)"

lemma doStep_reach: "contStep\<^sup>*\<^sup>* s (doStep a s)"
proof (cases a)
  case (DoCall i now)
  then show ?thesis using contStep.call_step [of i s now]
    by (cases "i < length (sy_calls s)"; cases "callStep now (sy_calls s ! i) s") auto
next
  case (DoRun env)
  then show ?thesis using contStep.run_step [of env s]
    by (cases "runnerStep env (sy_runner s) s") auto
next
  case (DoRequestDone e)
  then show ?thesis using contStep.request_done [of s e] by auto
qed (auto intro!: r_into_rtranclp contStep.call_start)

lemma fold_reach: "contStep\<^sup>*\<^sup>* s (fold doStep as s)"
proof (induction as arbitrary: s)
  case (Cons a as)
  then show ?case using doStep_reach [of s a] by (simp add: rtranclp_trans)
qed simp

text \<open>The execution context of the examples.\<close>

definition sampleExec :: StageExecutionContext where
  "sampleExec = \<lparr>sec_RequestID = ''r1'', sec_Key = ''tenant'', sec_Lane = ''fast'', sec_ShardID = 3, sec_Transport = ''http'',
     sec_Operation = ''op'', sec_Stage = \<lparr>sme_Name = ''db_read'', sme_Operation = []\<rparr>, sec_StageIndex = 1, sec_StageCount = 2, sec_Attempt = 1,
     sec_QueueWait = 0, sec_Deadline = \<lparr>dbs_HasDeadline = False, dbs_Deadline = 0, dbs_Remaining = 0, dbs_QueueWait = 0, dbs_Runtime = 0,
       dbs_BudgetExhausted = False\<rparr>\<rparr>"

definition sampleRegistry :: continuationRegistry where
  "sampleRegistry = newContinuationRegistry \<lparr>ccf_Enabled = True, ccf_MaxPending = 256, ccf_MaxPendingPerShard = 0, ccf_CompletionRetention = 0\<rparr>"

subsection \<open>Properties\<close>

text \<open>C35: A continuation is completed at most once. Whatever goroutines call \<open>Complete\<close>, \<open>Fail\<close> and \<open>Cancel\<close>, and however their
  steps interleave with the yield, the resolution goroutine, the end of the request and other requests, at most one call returns
  true and at most one late completion is reported. When the continuation is settled with a completion or a failure, it is the one
  the accepted call brought. An accepted outcome that is not the one settled was overtaken by a cancellation; it is then recorded as
  late, unless it is itself a cancellation or was left in the channel. The channel \<open>done\<close> is closed when it is settled.\<close>

theorem completion_once:
  assumes "contStep\<^sup>*\<^sup>* (newContSys exec now r) s"
  shows "length (accepted s) \<le> 1 \<and> length (filter isLate (sy_events s)) \<le> 1
     \<and> (\<forall>oc. sy_runner s = Settled oc \<longrightarrow> cn_done (sy_cont s)
          \<and> (co_kind oc \<noteq> continuationOutcomeCancel \<longrightarrow> accepted s = [oc])
          \<and> (\<forall>a. accepted s = [a] \<longrightarrow> a = oc \<or> co_kind oc = continuationOutcomeCancel
               \<and> (cn_outcome (sy_cont s) = Some a \<or> co_kind a = continuationOutcomeCancel \<or> cn_registryLateOnce (sy_cont s))))"
  using contInv_reachable [OF assms] by (auto simp: contInv_def late_ok_def settledAs_def handled_def)

theorem completion_once_witness:
  defines "s \<equiv> fold doStep [DoComplete (7 :: int), DoFail None, DoCall 0 0, DoCall 1 0, DoCall 0 0, DoCall 1 0, DoCall 1 0, DoCall 0 0]
      (newContSys sampleExec 0 sampleRegistry)"
  shows "length (accepted s) \<le> 1 \<and> sy_calls s = [CallReturned (Some \<lparr>co_kind = continuationOutcomeComplete, co_state = Some 7, co_err = None\<rparr>) False,
      CallReturned (Some \<lparr>co_kind = continuationOutcomeFail, co_state = None, co_err = None\<rparr>) True]"
proof
  show "length (accepted s) \<le> 1" using completion_once [of sampleExec 0 sampleRegistry s] fold_reach unfolding s_def by blast
qed (simp add: s_def newContSys_def NewContinuation_def Complete_def Fail_def resolveLate_def requestContextErr_def)

text \<open>How far the runner still has to go.\<close>

fun runnerRank :: "'s runnerPc \<Rightarrow> nat" where
  "runnerRank RunYielded = 10" | "runnerRank RunChecked = 9" | "runnerRank RunHandlerSet = 8" | "runnerRank (RunAborted e) = 0"
| "runnerRank Resolving = 7" | "runnerRank (CancelSend oc) = 6" | "runnerRank (CancelDrain n oc) = 3 + n" | "runnerRank (Received oc) = 3"
| "runnerRank (ResolveReg oc) = 2" | "runnerRank (Resume oc obs) = 1" | "runnerRank (Settled oc) = 0"

lemma runnerStep_rank: "runnerStep env pc s = Some (pc', t) \<Longrightarrow> runnerRank pc' < runnerRank pc"
  by (cases pc)
    (auto simp: Let_def case_prod_beta split: option.splits if_splits nat.splits ContinuationOutcomeKind.splits)

lemma call_runner: "callStep now pc s = (pc', t) \<Longrightarrow> sy_runner t = sy_runner s"
  by (cases rule: call_effect [of now pc s pc' t]) (auto simp: lateFrame_def)

lemma contStep_rank: "contStep s t \<Longrightarrow> sy_runner t = sy_runner s \<or> runnerRank (sy_runner t) < runnerRank (sy_runner s)"
  by (induction rule: contStep.induct) (auto dest: runnerStep_rank call_runner)

text \<open>C36: Every continuation is resolved. Once the request's context has ended or a completer call has returned true, the runner
  is settled or has given up, or its next step is enabled whatever the environment; every step of the whole system either leaves the
  runner where it is or brings it closer to the end, which is at most ten of its own steps away. \<close>

theorem continuation_resolves:
  assumes "contStep\<^sup>*\<^sup>* (newContSys exec now r) s" and "sy_reqErr s \<noteq> None \<or> accepted s \<noteq> []"
  shows "(runnerRank (sy_runner s) = 0 \<longrightarrow> cn_done (sy_cont s))
     \<and> (runnerRank (sy_runner s) > 0 \<longrightarrow> runnerStep env (sy_runner s) s \<noteq> None)
     \<and> (\<forall>t. contStep s t \<longrightarrow> sy_runner t = sy_runner s \<or> runnerRank (sy_runner t) < runnerRank (sy_runner s))
     \<and> runnerRank (sy_runner s) \<le> 10"
proof -
  have inv: "contInv s" by (rule contInv_reachable [OF assms(1)])
  have fin: "runnerRank (sy_runner s) = 0 \<longrightarrow> cn_done (sy_cont s)"
    using inv by (cases "sy_runner s") (auto simp: contInv_def)
  have en: "runnerStep env (sy_runner s) s \<noteq> None" if "runnerRank (sy_runner s) > 0"
  proof (cases "sy_runner s")
    case Resolving
    then have "inChannel (cn_outcome (sy_cont s)) (accepted s)" using inv by (simp add: contInv_def)
    then show ?thesis using Resolving assms(2)
      by (auto simp: inChannel_def split: option.splits list.splits)
  qed (use that in \<open>auto simp: Let_def case_prod_beta split: option.splits nat.splits ContinuationOutcomeKind.splits\<close>)
  have "sy_runner t = sy_runner s \<or> runnerRank (sy_runner t) < runnerRank (sy_runner s)" if "contStep s t" for t
    by (rule contStep_rank [OF that])
  moreover have "runnerRank (sy_runner s) \<le> 10"
    using assms(1)
  proof (induction rule: rtranclp_induct)
    case base
    show ?case by (simp add: newContSys_def NewContinuation_def)
  next
    case (step y z)
    then show ?case using contStep_rank [of y z] by auto
  qed
  ultimately show ?thesis using fin en by blast
qed

theorem continuation_resolves_witness:
  "runnerRank (sy_runner (doStep (DoRequestDone (Sentinel SContextCanceled)) (newContSys sampleExec 0 sampleRegistry :: int contSys))) \<le> 10"
proof -
  have "sy_reqErr (doStep (DoRequestDone (Sentinel SContextCanceled)) (newContSys sampleExec 0 sampleRegistry :: int contSys)) \<noteq> None"
    by (simp add: newContSys_def NewContinuation_def)
  with continuation_resolves [OF doStep_reach] show ?thesis by blast
qed

text \<open>C37: An accepted completion can get lost. The application's \<open>Complete\<close> passes both of its checks, the request is cancelled, the
  resolution goroutine looks into the channel for the last time, and only then does \<open>Complete\<close> publish its outcome: it returns true, the
  pipeline is cancelled, and no late completion is counted or reported.\<close>

theorem completion_lost:
  "\<exists>s. contStep\<^sup>*\<^sup>* (newContSys sampleExec 0 sampleRegistry) s
     \<and> sy_calls s = [CallReturned (Some \<lparr>co_kind = continuationOutcomeComplete, co_state = Some (7 :: int), co_err = None\<rparr>) True]
     \<and> sy_runner s = Settled \<lparr>co_kind = continuationOutcomeCancel, co_state = None, co_err = Some (Sentinel SContextCanceled)\<rparr>
     \<and> cr_cancelled (sy_reg s) = 1 \<and> cr_completed (sy_reg s) = 0 \<and> cr_lateCompletions (sy_reg s) = 0
     \<and> filter isLate (sy_events s) = []"
proof -
  let ?run = "DoRun \<lparr>se_now = 0, se_preferDone = True, se_exec = sampleExec, se_id = 1, se_enqueueErr = None\<rparr>"
  let ?s = "fold doStep [?run, ?run, ?run, DoComplete (7 :: int), DoCall 0 0, DoCall 0 0, DoRequestDone (Sentinel SContextCanceled),
      ?run, ?run, ?run, ?run, DoCall 0 0, ?run, ?run] (newContSys sampleExec 0 sampleRegistry)"
  show ?thesis
    by (rule exI [of _ ?s], intro conjI, rule fold_reach)
      (simp_all add: sampleRegistry_def newContSys_def NewContinuation_def newContinuationRegistry_def Complete_def resolveLate_def requestContextErr_def
        setRequestContext_def yieldContinuation_def setContinuationLateHandler_def register_def perShardCount_def emit_def closeDone_def
        drainLate_def takeOutcome_def recordLateCompletion_def resolve_def wrapInt_id isLate_def Let_def)
qed

end
