(* ===== verification/Queue_Submit.thy ===== *)
theory Queue_Submit
  imports Scheduler_Steps Failure_Class
begin

text \<open>
  The submission path of the public queue: \<open>submit.go\<close>, \<open>try_submit.go\<close>, \<open>job.go\<close>, \<open>lane.go\<close>, and the three checks
  \<open>CheckOverload\<close> (\<open>overload.go\<close>), \<open>CheckAdmission\<close> (\<open>admission.go\<close>) and \<open>CheckPerKeyAdmission\<close>
  (\<open>per_key_admission.go\<close>, \<open>per_key_wire.go\<close>) with their configuration, on top of the scheduler. The registry the queue looks lanes up
  in is the one \<open>New\<close> gives to the scheduler. Clock readings are arguments; the events given to hooks are results. The
  receiver is a queue: the first test of the methods, a \<open>nil\<close> queue answered with \<open>ErrNilQueue\<close>, has no counterpart. A call
  runs here without other goroutines in between: \<open>Scheduler_Steps\<close> has the interleavings of its steps.
\<close>

subsection \<open>Jobs and requests\<close>

record RequestMeta =
  rm_RequestID :: string
  rm_Key :: string
  rm_Lane :: string
  rm_Transport :: string
  rm_Operation :: string

record Job =
  jb_Key :: string
  jb_Lane :: string
  jb_Run :: "run_ref option"
  jb_UseWorkerTiming :: bool

definition LaneValidate :: "string \<Rightarrow> goerror option" where
  "LaneValidate lane = (if lane = [] then Some (Sentinel (SCore ErrInvalidLane)) else None)"

definition JobValidate :: "Job \<Rightarrow> goerror option" where
  "JobValidate j =
     (if jb_Key j = [] then Some (Sentinel (SCore ErrInvalidKey))
      else case LaneValidate (jb_Lane j) of
             Some e \<Rightarrow> Some (EJoined [Sentinel (SCore ErrInvalidJob), e])
           | None \<Rightarrow> if jb_Run j = None then Some (Sentinel (SCore ErrNilJobRun)) else None)"

subsection \<open>Per-key configuration\<close>

text \<open>The public configuration; \<open>None\<close> is the empty string for \<open>MinStatus\<close>, \<open>PerKeyMitigationEmpty\<close> for \<open>DefaultAction\<close>. Strings outside the
  constants are not represented.\<close>

record PublicPerKeyConfig =
  ppk_Enabled :: bool
  ppk_MinStatus :: "HotKeyStatus option"
  ppk_DefaultAction :: PerKeyMitigationAction
  ppk_MaxQueuedPerKey :: int
  ppk_MaxInflightPerKey :: int
  ppk_PressureRatioThreshold :: float64
  ppk_RejectRatioThreshold :: float64
  ppk_Cooldown :: duration
  ppk_RecoveryWindow :: duration
  ppk_MaxSnapshotsPerShard :: int
  ppk_MaxSnapshotsTotal :: int

definition DefaultPerKeyAdmissionConfig :: PublicPerKeyConfig where
  "DefaultPerKeyAdmissionConfig =
     \<lparr>ppk_Enabled = True, ppk_MinStatus = Some HotKeyStatusCandidate, ppk_DefaultAction = PerKeyMitigationThrottle,
      ppk_MaxQueuedPerKey = 0, ppk_MaxInflightPerKey = 0, ppk_PressureRatioThreshold = flit (4 / 10),
      ppk_RejectRatioThreshold = flit (2 / 10), ppk_Cooldown = 10 * Second, ppk_RecoveryWindow = 30 * Second,
      ppk_MaxSnapshotsPerShard = 5, ppk_MaxSnapshotsTotal = 25\<rparr>"

definition NormalizePerKeyAdmissionConfig :: "PublicPerKeyConfig \<Rightarrow> PublicPerKeyConfig" where
  "NormalizePerKeyAdmissionConfig cfg =
     (if \<not> ppk_Enabled cfg then cfg
      else let d = DefaultPerKeyAdmissionConfig
           in cfg\<lparr>ppk_MinStatus := (if ppk_MinStatus cfg = None then ppk_MinStatus d else ppk_MinStatus cfg),
                ppk_DefaultAction := (if ppk_DefaultAction cfg = PerKeyMitigationEmpty then ppk_DefaultAction d else ppk_DefaultAction cfg),
                ppk_PressureRatioThreshold := (if fle (ppk_PressureRatioThreshold cfg) (FFin 0) then ppk_PressureRatioThreshold d
                  else ppk_PressureRatioThreshold cfg),
                ppk_RejectRatioThreshold := (if fle (ppk_RejectRatioThreshold cfg) (FFin 0) then ppk_RejectRatioThreshold d
                  else ppk_RejectRatioThreshold cfg),
                ppk_Cooldown := (if ppk_Cooldown cfg \<le> 0 then ppk_Cooldown d else ppk_Cooldown cfg),
                ppk_RecoveryWindow := (if ppk_RecoveryWindow cfg \<le> 0 then ppk_RecoveryWindow d else ppk_RecoveryWindow cfg),
                ppk_MaxSnapshotsPerShard := (if ppk_MaxSnapshotsPerShard cfg \<le> 0 then ppk_MaxSnapshotsPerShard d
                  else ppk_MaxSnapshotsPerShard cfg),
                ppk_MaxSnapshotsTotal := (if ppk_MaxSnapshotsTotal cfg \<le> 0 then ppk_MaxSnapshotsTotal d
                  else ppk_MaxSnapshotsTotal cfg)\<rparr>)"

text \<open>\<open>True\<close> for \<open>nil\<close>; every error wraps \<open>ErrInvalidPerKeyAdmissionConfig\<close>.\<close>

definition ValidatePerKeyAdmissionConfig :: "PublicPerKeyConfig \<Rightarrow> HotKeyConfig \<Rightarrow> bool" where
  "ValidatePerKeyAdmissionConfig cfg hotKey =
     (if \<not> ppk_Enabled cfg then True
      else if \<not> hkc_Enabled hotKey \<or> hkc_MaxTrackedKeysPerShard hotKey \<le> 0 then False
      else if ppk_MinStatus cfg \<noteq> Some HotKeyStatusCandidate \<and> ppk_MinStatus cfg \<noteq> Some HotKeyStatusDominant then False
      else if flt (ppk_PressureRatioThreshold cfg) (FFin 0) \<or> fgt (ppk_PressureRatioThreshold cfg) (FFin 1) then False
      else if flt (ppk_RejectRatioThreshold cfg) (FFin 0) \<or> fgt (ppk_RejectRatioThreshold cfg) (FFin 1) then False
      else if ppk_MaxQueuedPerKey cfg < 0 \<or> ppk_MaxInflightPerKey cfg < 0 then False
      else if ppk_MaxSnapshotsPerShard cfg < 0 then False
      else if ppk_MaxSnapshotsTotal cfg < 0 then False
      else True)"

text \<open>The conversion to the internal type; there the empty string ranks as \<open>HotKeyStatusNone\<close> does.\<close>

definition toCorePerKeyAdmissionConfig :: "PublicPerKeyConfig \<Rightarrow> PerKeyAdmissionConfig" where
  "toCorePerKeyAdmissionConfig cfg =
     \<lparr>pk_Enabled = ppk_Enabled cfg,
      pk_MinStatus = (case ppk_MinStatus cfg of None \<Rightarrow> HotKeyStatusNone | Some st \<Rightarrow> st),
      pk_DefaultAction = ppk_DefaultAction cfg, pk_MaxQueuedPerKey = ppk_MaxQueuedPerKey cfg,
      pk_MaxInflightPerKey = ppk_MaxInflightPerKey cfg, pk_PressureRatioThreshold = ppk_PressureRatioThreshold cfg,
      pk_RejectRatioThreshold = ppk_RejectRatioThreshold cfg, pk_Cooldown = ppk_Cooldown cfg,
      pk_RecoveryWindow = ppk_RecoveryWindow cfg, pk_MaxSnapshotsPerShard = ppk_MaxSnapshotsPerShard cfg,
      pk_MaxSnapshotsTotal = ppk_MaxSnapshotsTotal cfg\<rparr>"

definition perKeyAdmissionConfigEqual :: "PublicPerKeyConfig \<Rightarrow> PublicPerKeyConfig \<Rightarrow> bool" where
  "perKeyAdmissionConfigEqual a b \<longleftrightarrow>
     ppk_Enabled a = ppk_Enabled b \<and> ppk_MinStatus a = ppk_MinStatus b \<and> ppk_DefaultAction a = ppk_DefaultAction b
     \<and> ppk_MaxQueuedPerKey a = ppk_MaxQueuedPerKey b \<and> ppk_MaxInflightPerKey a = ppk_MaxInflightPerKey b
     \<and> feq (ppk_PressureRatioThreshold a) (ppk_PressureRatioThreshold b)
     \<and> feq (ppk_RejectRatioThreshold a) (ppk_RejectRatioThreshold b)
     \<and> ppk_Cooldown a = ppk_Cooldown b \<and> ppk_RecoveryWindow a = ppk_RecoveryWindow b
     \<and> ppk_MaxSnapshotsPerShard a = ppk_MaxSnapshotsPerShard b \<and> ppk_MaxSnapshotsTotal a = ppk_MaxSnapshotsTotal b"

subsection \<open>The queue\<close>

text \<open>The parts of \<open>Queue\<close> and its \<open>Config\<close> that submissions read.\<close>

record Queue =
  q_sched :: Scheduler
  q_OverloadEnabled :: bool
  q_AdmissionEnabled :: bool
  q_HotKey :: HotKeyConfig
  q_PerKeyAdmission :: PublicPerKeyConfig
  q_ShardCount :: int
  q_hotKeyExposeRawKey :: bool
  q_perKeyAdmissionEnabled :: bool
  q_perKeyAdmissionCore :: PerKeyAdmissionConfig

definition ShardIDForKey :: "Queue \<Rightarrow> string \<Rightarrow> nat" where
  "ShardIDForKey q key = (if q_ShardCount q < 1 then 0 else unat (HashKey key mod word_of_int (q_ShardCount q)))"

record OverloadDecision =
  od_Action :: OverloadAction
  od_Reason :: OverloadReason
  od_Lane :: string
  od_Class :: string
  od_Pressure :: float64
  od_LaneDepth :: u32
  od_MaxDepth :: u32
  od_RetryAfter :: duration
  od_MinDelay :: duration
  od_MaxDelay :: duration
  od_Jitter :: bool
  od_PolicyVersion :: u64

definition overloadDecisionFromResult :: "string \<Rightarrow> OverloadEvalResult \<Rightarrow> OverloadDecision" where
  "overloadDecisionFromResult lane r =
     \<lparr>od_Action = oer_Action r, od_Reason = oer_Reason r, od_Lane = lane, od_Class = oer_Class r, od_Pressure = oer_Pressure r,
      od_LaneDepth = oer_LaneDepth r, od_MaxDepth = oer_MaxDepth r, od_RetryAfter = oer_RetryAfter r,
      od_MinDelay = oer_MinBackoff r, od_MaxDelay = oer_MaxBackoff r, od_Jitter = oer_Jitter r,
      od_PolicyVersion = oer_PolicyVersion r\<rparr>"

text \<open>Of the rejecting error values the model keeps what they unwrap to; the decision of a rejection is with the event.\<close>

datatype queueEvent =
    OverloadPolicyEvent OverloadDecision float64
  | OnPerKeyAdmissionDecision PerKeyAdmissionDecision

type_synonym checkResult = "goerror option \<times> queueEvent list \<times> Queue"

definition withSched :: "(Scheduler \<Rightarrow> Scheduler) \<Rightarrow> Queue \<Rightarrow> Queue" where
  "withSched f q = q\<lparr>q_sched := f (q_sched q)\<rparr>"

definition CheckOverload :: "bool \<Rightarrow> RequestMeta \<Rightarrow> time \<Rightarrow> Queue \<Rightarrow> checkResult" where
  "CheckOverload cfgEnabled meta now q =
     (if \<not> cfgEnabled then (None, [], q)
      else case LaneValidate (rm_Lane meta) of
        Some e \<Rightarrow> (Some e, [], q)
      | None \<Rightarrow>
          (case Lookup (s_laneReg (q_sched q)) (rm_Lane meta) of
             None \<Rightarrow> (Some (Sentinel (SCore ErrInvalidLane)), [], q)
           | Some laneID \<Rightarrow>
               (let keyHash = HashKey (rm_Key meta);
                    signals = OverloadSignalsForLane (q_sched q) laneID keyHash;
                    result = EvaluateOverloadForLane (q_sched q) laneID signals
                in if oer_Action result = OverloadActionKeep then (None, [], q)
                   else let q1 = withSched (\<lambda>s. s\<lparr>s_laneCounters :=
                              RecordOverloadDecision (obs_EnableCounters (s_Obs s)) (s_laneCounters s) laneID (oer_Action result)\<rparr>) q;
                            q2 = (if hkc_Enabled (q_HotKey q) \<and> rm_Key meta \<noteq> []
                                  then withSched (RecordHotKeyReject keyHash (ShardIDForKey q (rm_Key meta)) now) q1 else q1)
                        in (Some (EOverload (oer_Action result)),
                            [OverloadPolicyEvent (overloadDecisionFromResult (rm_Lane meta) result)
                               (p_TotalDepthRatio (schedPressure (q_sched q2)))], q2))))"

record AdmissionConfig =
  acf_Enabled :: bool
  acf_RejectAboveRatio :: float64

definition NormalizeAdmissionConfig :: "AdmissionConfig \<Rightarrow> AdmissionConfig" where
  "NormalizeAdmissionConfig cfg =
     (if \<not> acf_Enabled cfg then cfg
      else if feq (acf_RejectAboveRatio cfg) (FFin 0) then cfg\<lparr>acf_RejectAboveRatio := flit (9 / 10)\<rparr>
      else cfg)"

definition validateNormalizedAdmission :: "AdmissionConfig \<Rightarrow> goerror option" where
  "validateNormalizedAdmission cfg =
     (if fle (acf_RejectAboveRatio cfg) (FFin 0) then Some (Sentinel (SCore ErrInvalidConfig)) else None)"

definition ValidateAdmissionConfig :: "AdmissionConfig \<Rightarrow> goerror option" where
  "ValidateAdmissionConfig cfg =
     (if \<not> acf_Enabled cfg then None else validateNormalizedAdmission (NormalizeAdmissionConfig cfg))"

definition CheckAdmission :: "AdmissionConfig \<Rightarrow> RequestMeta \<Rightarrow> time \<Rightarrow> Queue \<Rightarrow> checkResult" where
  "CheckAdmission cfg meta now q =
     (if \<not> acf_Enabled cfg then (None, [], q)
      else case LaneValidate (rm_Lane meta) of
        Some e \<Rightarrow> (Some e, [], q)
      | None \<Rightarrow>
          (case validateNormalizedAdmission (NormalizeAdmissionConfig cfg) of
             Some e \<Rightarrow> (Some e, [], q)
           | None \<Rightarrow>
               (case Lookup (s_laneReg (q_sched q)) (rm_Lane meta) of
                  None \<Rightarrow> (Some (Sentinel (SCore ErrInvalidLane)), [], q)
                | Some laneID \<Rightarrow>
                    (let pressure = p_TotalDepthRatio (schedPressure (q_sched q));
                         depth = laneQueueDepth (q_sched q) laneID;
                         result = EvaluateAdmissionForLane (q_sched q) laneID pressure depth
                     in if aer_Admit result then (None, [], q)
                        else let q1 = withSched (RecordPressureAdmissionRejected laneID) q;
                                 q2 = (if hkc_Enabled (q_HotKey q) \<and> rm_Key meta \<noteq> []
                                       then withSched (RecordHotKeyReject (HashKey (rm_Key meta)) (ShardIDForKey q (rm_Key meta)) now) q1
                                       else q1)
                             in (Some EAdmissionRejected, [], q2)))))"

text \<open>Two clock readings: the evaluation's and, for a rejection, the tracker's.\<close>

definition CheckPerKeyAdmission :: "PublicPerKeyConfig \<Rightarrow> RequestMeta \<Rightarrow> time \<Rightarrow> time \<Rightarrow> Queue \<Rightarrow> checkResult" where
  "CheckPerKeyAdmission cfg meta now nowReject q =
     (if \<not> ppk_Enabled cfg then (None, [], q)
      else case LaneValidate (rm_Lane meta) of
        Some e \<Rightarrow> (Some e, [], q)
      | None \<Rightarrow>
          (let cached = q_perKeyAdmissionEnabled q \<and> perKeyAdmissionConfigEqual cfg (q_PerKeyAdmission q);
               normalized = NormalizePerKeyAdmissionConfig cfg
           in if \<not> cached \<and> \<not> ValidatePerKeyAdmissionConfig normalized (q_HotKey q)
              then (Some (Sentinel (SCore ErrInvalidPerKeyAdmissionConfig)), [], q)
              else let coreCfg = (if cached then q_perKeyAdmissionCore q else toCorePerKeyAdmissionConfig normalized)
                   in case Lookup (s_laneReg (q_sched q)) (rm_Lane meta) of
                        None \<Rightarrow> (Some (Sentinel (SCore ErrInvalidLane)), [], q)
                      | Some laneID \<Rightarrow>
                          (let keyHash = HashKey (rm_Key meta);
                               shardID = ShardIDForKey q (rm_Key meta);
                               (dec, s1) = EvaluatePerKeyAdmissionWithConfig shardID keyHash laneID coreCfg now (q_sched q);
                               q1 = q\<lparr>q_sched := s1\<rparr>
                           in if pd_Action dec = PerKeyMitigationAllow then (None, [], q1)
                              else (Some (EPerKeyAdmission (pd_Action dec)), [OnPerKeyAdmissionDecision dec],
                                    withSched (RecordHotKeyReject keyHash shardID nowReject) q1))))"

subsection \<open>Submitting\<close>

text \<open>The clock readings of a submission: those of the three checks and of \<open>Enqueue\<close>.\<close>

record submitClock =
  sk_overload :: time
  sk_admission :: time
  sk_perKey :: time
  sk_perKeyReject :: time
  sk_submit :: time
  sk_accept :: time
  sk_enqueue :: time

text \<open>A check that fails ends the submission with its error.\<close>

definition thenCheck :: "checkResult \<Rightarrow> (Queue \<Rightarrow> checkResult) \<Rightarrow> checkResult" where
  "thenCheck r k = (case r of (Some e, evs, q) \<Rightarrow> (Some e, evs, q)
     | (None, evs, q) \<Rightarrow> (let (err, evs', q') = k q in (err, evs @ evs', q')))"

definition queueChecks :: "RequestMeta \<Rightarrow> submitClock \<Rightarrow> Queue \<Rightarrow> checkResult" where
  "queueChecks meta clk q =
     thenCheck (if q_OverloadEnabled q then CheckOverload True meta (sk_overload clk) q else (None, [], q))
       (\<lambda>q1. thenCheck
          (if q_AdmissionEnabled q1
           then CheckAdmission \<lparr>acf_Enabled = True, acf_RejectAboveRatio = FFin 0\<rparr> meta (sk_admission clk) q1 else (None, [], q1))
          (\<lambda>q2. CheckPerKeyAdmission (q_PerKeyAdmission q2) meta (sk_perKey clk) (sk_perKeyReject clk) q2))"

definition internalJob :: "Queue \<Rightarrow> Job \<Rightarrow> LaneID \<Rightarrow> core_error + InternalJob" where
  "internalJob q job laneID =
     (case NewInternalJob (jb_Run job) (HashKey (jb_Key job)) laneID of
        Inl e \<Rightarrow> Inl e
      | Inr j \<Rightarrow> Inr (j\<lparr>job_UseWorkerTiming := jb_UseWorkerTiming job,
                       job_RawKey := (if q_hotKeyExposeRawKey q then jb_Key job else job_RawKey j)\<rparr>))"

text \<open>The wake-up at the end of \<open>Submit\<close>. \<open>sendDone\<close> is the error of the context when the \<open>select\<close> takes \<open>ctx.Done()\<close>. With a full
  channel and a live context the \<open>select\<close> waits; \<open>ready_channel_room\<close> excludes that.\<close>

definition wake :: "goerror option \<Rightarrow> nat \<Rightarrow> bool \<Rightarrow> Scheduler \<Rightarrow> goerror option \<times> Scheduler" where
  "wake sendDone shardID becameReady s =
     (if \<not> becameReady then (None, s)
      else case sendDone of
             Some e \<Rightarrow> (Some e, s)
           | None \<Rightarrow> (None, s\<lparr>s_ReadyCh := s_ReadyCh s @ [shardID]\<rparr>))"

text \<open>\<open>None\<close> is a Go panic.\<close>

definition Submit :: "goerror option \<Rightarrow> goerror option \<Rightarrow> Job \<Rightarrow> submitClock \<Rightarrow> Queue \<Rightarrow> checkResult option" where
  "Submit ctxErr sendDone job clk q =
     (case ctxErr of
        Some e \<Rightarrow> Some (Some e, [], q)
      | None \<Rightarrow>
          (case JobValidate job of
             Some e \<Rightarrow> Some (Some e, [], q)
           | None \<Rightarrow>
               (let meta = \<lparr>rm_RequestID = [], rm_Key = jb_Key job, rm_Lane = jb_Lane job, rm_Transport = [], rm_Operation = []\<rparr>;
                    (err, evs, q1) = queueChecks meta clk q
                in case err of
                     Some e \<Rightarrow> Some (Some e, evs, q1)
                   | None \<Rightarrow>
                       (case Lookup (s_laneReg (q_sched q1)) (jb_Lane job) of
                          None \<Rightarrow> Some (Some (Sentinel (SCore ErrInvalidLane)), evs, q1)
                        | Some laneID \<Rightarrow>
                            (case internalJob q1 job laneID of
                               Inl e \<Rightarrow> Some (Some (Sentinel (SCore e)), evs, q1)
                             | Inr iJob \<Rightarrow>
                                 map_option
                                   (\<lambda>(r, s). case r of
                                       Inl e \<Rightarrow> (Some (Sentinel (SCore e)), evs, q1\<lparr>q_sched := s\<rparr>)
                                     | Inr (shardID, becameReady) \<Rightarrow>
                                         (let (err, s') = wake sendDone shardID becameReady s in (err, evs, q1\<lparr>q_sched := s'\<rparr>)))
                                   (Enqueue iJob (sk_submit clk) (sk_accept clk) (sk_enqueue clk) (q_sched q1)))))))"

text \<open>\<open>TrySubmit\<close>: the \<open>default\<close> branch of its \<open>select\<close> is taken when the channel is full.\<close>

definition TrySubmit :: "Job \<Rightarrow> submitClock \<Rightarrow> Queue \<Rightarrow> (bool \<times> queueEvent list \<times> Queue) option" where
  "TrySubmit job clk q =
     (if JobValidate job \<noteq> None then Some (False, [], q)
      else let meta = \<lparr>rm_RequestID = [], rm_Key = jb_Key job, rm_Lane = jb_Lane job, rm_Transport = [], rm_Operation = []\<rparr>;
               (err, evs, q1) = queueChecks meta clk q
           in if err \<noteq> None then Some (False, evs, q1)
              else case Lookup (s_laneReg (q_sched q1)) (jb_Lane job) of
                     None \<Rightarrow> Some (False, evs, q1)
                   | Some laneID \<Rightarrow>
                       (case internalJob q1 job laneID of
                          Inl e \<Rightarrow> Some (False, evs, q1)
                        | Inr iJob \<Rightarrow>
                            map_option
                              (\<lambda>(r, s). case r of
                                  Inl e \<Rightarrow> (False, evs, q1\<lparr>q_sched := s\<rparr>)
                                | Inr (shardID, becameReady) \<Rightarrow>
                                    (True, evs, q1\<lparr>q_sched :=
                                       (if becameReady \<and> length (s_ReadyCh s) < readyCap s
                                        then s\<lparr>s_ReadyCh := s_ReadyCh s @ [shardID]\<rparr> else s)\<rparr>))
                              (TryEnqueue iJob (sk_submit clk) (sk_accept clk) (sk_enqueue clk) (q_sched q1))))"

end
