(* ===== verification/Submit_Facts.thy ===== *)
theory Submit_Facts
  imports Queue_Submit
begin

text \<open>
  A submission either changes no queue or appends exactly the submitted job, and the two ways to submit agree. The
  checks before the enqueue change counters and hot-key trackers only.
\<close>

subsection \<open>Checks leave the queues alone\<close>

definition qkeeps :: "Queue \<Rightarrow> Queue \<Rightarrow> bool" where
  "qkeeps q q' \<longleftrightarrow> keeps (q_sched q) (q_sched q') \<and> q' = q\<lparr>q_sched := q_sched q'\<rparr>"

lemma qkeeps_refl [simp]: "qkeeps q q"
  by (simp add: qkeeps_def keeps_refl)

lemma qkeeps_trans:
  assumes "qkeeps a b" "qkeeps b c"
  shows "qkeeps a c"
proof -
  have "c = b\<lparr>q_sched := q_sched c\<rparr>" "b = a\<lparr>q_sched := q_sched b\<rparr>" using assms by (simp_all add: qkeeps_def)
  then have "c = a\<lparr>q_sched := q_sched c\<rparr>" by (metis Queue.surjective Queue.update_convs(1))
  then show ?thesis using assms keeps_trans by (auto simp: qkeeps_def)
qed

lemma qkeeps_with: "(\<And>s. keeps s (f s)) \<Longrightarrow> qkeeps q (withSched f q)"
  by (simp add: qkeeps_def withSched_def)

lemma keeps_reject: "keeps s (RecordHotKeyReject k i now s)"
  by (rule sideCall_keeps [OF sideCall.hot_key_reject])

lemma keeps_overload: "keeps s (s\<lparr>s_laneCounters := RecordOverloadDecision b (s_laneCounters s) l a\<rparr>)"
  by (simp add: keeps_def trackers_ok_def RecordOverloadDecision_def)

lemma keeps_pressure: "keeps s (RecordPressureAdmissionRejected l s)"
  by (simp add: RecordPressureAdmissionRejected_def keeps_counters keeps_refl)

lemmas check_keeps = qkeeps_with [OF keeps_reject] qkeeps_with [OF keeps_overload] qkeeps_with [OF keeps_pressure]

text \<open>The queue after a check.\<close>

abbreviation after :: "checkResult \<Rightarrow> Queue" where
  "after r \<equiv> snd (snd r)"

lemma CheckOverload_keeps: "qkeeps q (after (CheckOverload en meta now q))"
  using check_keeps(1,2) qkeeps_trans [OF check_keeps(2) check_keeps(1)]
  by (simp add: CheckOverload_def Let_def split: option.splits)

lemma CheckAdmission_keeps: "qkeeps q (after (CheckAdmission cfg meta now q))"
  using check_keeps(1,3) qkeeps_trans [OF check_keeps(3) check_keeps(1)]
  by (simp add: CheckAdmission_def Let_def split: option.splits)

lemma perKey_keeps: "qkeeps q (q\<lparr>q_sched := snd (EvaluatePerKeyAdmissionWithConfig i k l cfg now (q_sched q))\<rparr>)"
  by (simp add: qkeeps_def keeps_perKey)

lemma CheckPerKeyAdmission_keeps: "qkeeps q (after (CheckPerKeyAdmission cfg meta now nowReject q))"
  using perKey_keeps qkeeps_trans [OF perKey_keeps check_keeps(1)]
  by (simp add: CheckPerKeyAdmission_def Let_def case_prod_beta split: option.splits)

lemma thenCheck_keeps:
  "qkeeps q (after r) \<Longrightarrow> (\<And>q'. qkeeps q' (after (k q'))) \<Longrightarrow> qkeeps q (after (thenCheck r k))"
  by (cases r) (auto simp: thenCheck_def case_prod_beta Let_def split: option.splits intro: qkeeps_trans)

lemma queueChecks_keeps: "qkeeps q (after (queueChecks meta clk q))"
  unfolding queueChecks_def
  by (intro thenCheck_keeps) (simp_all add: CheckOverload_keeps CheckAdmission_keeps CheckPerKeyAdmission_keeps)

subsection \<open>The enqueue\<close>

lemma internalJob_Inr:
  assumes "internalJob q job l = Inr j"
  shows "job_KeyHash j = HashKey (jb_Key job)" "job_LaneID j = l" "job_Run j = jb_Run job"
    "job_UseWorkerTiming j = jb_UseWorkerTiming job"
  using assms by (auto simp: internalJob_def NewInternalJob_def zeroJob_def split: if_splits)

lemma internalJob_run: "jb_Run job \<noteq> None \<Longrightarrow> \<exists>j. internalJob q job l = Inr j"
  by (auto simp: internalJob_def NewInternalJob_def)

lemma Lookup_less: "reg_wf r \<Longrightarrow> Lookup r lane = Some l \<Longrightarrow> unat l < Len r"
  by (auto simp: Lookup_Some_iff unat_of_nat take_bit_nat_def intro: le_less_trans [OF mod_less_eq_dividend])

lemma stampJob_timing [simp]: "job_UseWorkerTiming (stampJob t a w j) = job_UseWorkerTiming j"
  by (simp add: stampJob_def)

text \<open>Job \<open>job\<close> is queued in its lane on the shard of its key and nowhere else, and the shard has been woken if that was needed and
  \<open>woken\<close> says so.\<close>

definition jobQueued :: "bool \<Rightarrow> Job \<Rightarrow> Scheduler \<Rightarrow> Scheduler \<Rightarrow> bool" where
  "jobQueued woken job s s' \<longleftrightarrow>
     (\<exists>j i. i = routeShardID (HashKey (jb_Key job)) (length (s_shards s)) \<and> job_KeyHash j = HashKey (jb_Key job)
        \<and> Lookup (s_laneReg s) (jb_Lane job) = Some (job_LaneID j) \<and> job_Run j = jb_Run job
        \<and> job_UseWorkerTiming j = jb_UseWorkerTiming job
        \<and> appended s (s'\<lparr>s_ReadyCh := s_ReadyCh s\<rparr>) i j
        \<and> s_ReadyCh s' = s_ReadyCh s @ (if woken \<and> \<not> sh_Ready (s_shards s ! i) then [i] else []))"

definition untouched :: "Scheduler \<Rightarrow> Scheduler \<Rightarrow> bool" where
  "untouched s s' \<longleftrightarrow> s_shards s' = s_shards s \<and> s_ReadyCh s' = s_ReadyCh s \<and> s_inflight s' = s_inflight s \<and> s_state s' = s_state s"

lemma keeps_untouched: "keeps s s' \<Longrightarrow> untouched s s'"
  by (simp add: keeps_def untouched_def)

lemma appended_after:
  assumes "keeps s s1" "appended s1 s2 i j"
  shows "appended s (s2\<lparr>s_ReadyCh := s_ReadyCh s\<rparr>) i j" "s_ReadyCh s2 = s_ReadyCh s"
  using assms by (simp_all add: appended_def keeps_def Let_def)

lemma enqueue_after:
  assumes k: "keeps s s1" and wf: "sched_wf s" and l: "Lookup (s_laneReg s) (jb_Lane job) = Some (job_LaneID j)" "unat (job_LaneID j) < Len (s_laneReg s)"
    and j: "job_KeyHash j = HashKey (jb_Key job)" "job_Run j = jb_Run job" "job_UseWorkerTiming j = jb_UseWorkerTiming job"
  obtains (refused) e s2 where "Enqueue j t1 t2 t3 s1 = Some (Inl e, s2)" "sched_wf s2" "untouched s s2"
  | (accepted) i b s2 where "Enqueue j t1 t2 t3 s1 = Some (Inr (i, b), s2)" "sched_wf s2" "jobQueued False job s s2"
      "i = routeShardID (HashKey (jb_Key job)) (length (s_shards s))" "b \<longleftrightarrow> \<not> sh_Ready (s_shards s ! i)"
      "s_ReadyCh s2 = s_ReadyCh s"
proof -
  have wf1: "sched_wf s1" by (rule keeps_wf [OF k wf])
  have "Enqueue j t1 t2 t3 s1 \<noteq> None"
    using l(2) k sched_wfD(5) [OF wf1] by (simp add: Enqueue_def Let_def keeps_def)
  then obtain r s2 where res: "Enqueue j t1 t2 t3 s1 = Some (r, s2)" by fastforce
  have sh: "s_shards s1 = s_shards s" using k by (simp add: keeps_def)
  from wf1 res show thesis
  proof (cases rule: Enqueue_cases)
    case (1 e)
    then show thesis using refused res k by (auto simp: untouched_def keeps_def)
  next
    case (2 i b)
    note ap = appended_after [OF k 2(3)]
    have "jobQueued False job s s2" unfolding jobQueued_def
      using ap l(1) j 2(4) sh
      by (intro exI [of _ "stampJob t2 (obs_EnableQueueWaitTiming (s_Obs s1)) (obs_TrackQueueWait (s_Obs s1)) j"] exI [of _ i]) simp
    then show thesis using accepted res 2 ap(2) j(1) sh by simp
  qed
qed

lemma jobQueued_wake: "jobQueued False job s s2 \<Longrightarrow> i = routeShardID (HashKey (jb_Key job)) (length (s_shards s)) \<Longrightarrow>
    s_ReadyCh s2 = s_ReadyCh s \<Longrightarrow>
    jobQueued True job s (if \<not> sh_Ready (s_shards s ! i) then s2\<lparr>s_ReadyCh := s_ReadyCh s2 @ [i]\<rparr> else s2)"
  by (auto simp: jobQueued_def)

lemma Enqueue_ready:
  "Enqueue j t1 t2 t3 s = Some (r, s') \<Longrightarrow> s_ReadyCh s' = s_ReadyCh s \<and> length (s_shards s') = length (s_shards s)"
  by (auto simp: Enqueue_def enqueueRouted_def Let_def split: if_splits sum.splits prod.splits)

lemma sched_wf_ready [simp]: "sched_wf (s\<lparr>s_ReadyCh := r\<rparr>) = sched_wf s"
  by (simp add: sched_wf_def trackers_ok_def)

subsection \<open>Submit and TrySubmit\<close>

lemma JobValidate_run: "JobValidate job = None \<Longrightarrow> jb_Run job \<noteq> None"
  by (auto simp: JobValidate_def split: if_splits option.splits)

text \<open>The part of a submission up to the enqueue: it ends with an error and untouched queues, or with an internal job.\<close>

lemma before_enqueue:
  assumes wf: "sched_wf (q_sched q)" "reg_wf (s_laneReg (q_sched q))" and v: "JobValidate job = None"
    and c: "queueChecks meta clk q = (None, evs, q1)"
  obtains (no_lane) "Lookup (s_laneReg (q_sched q1)) (jb_Lane job) = None"
  | (lane) l j where "Lookup (s_laneReg (q_sched q1)) (jb_Lane job) = Some l" "internalJob q1 job l = Inr j"
      "Lookup (s_laneReg (q_sched q)) (jb_Lane job) = Some (job_LaneID j)" "unat (job_LaneID j) < Len (s_laneReg (q_sched q))"
      "job_KeyHash j = HashKey (jb_Key job)" "job_Run j = jb_Run job" "job_UseWorkerTiming j = jb_UseWorkerTiming job"
proof (cases "Lookup (s_laneReg (q_sched q1)) (jb_Lane job)")
  case None
  then show thesis by (rule no_lane)
next
  case (Some l)
  have "keeps (q_sched q) (q_sched q1)" using queueChecks_keeps [of q meta clk] c by (simp add: qkeeps_def)
  then have reg: "s_laneReg (q_sched q1) = s_laneReg (q_sched q)" by (simp add: keeps_def)
  obtain j where j: "internalJob q1 job l = Inr j" using internalJob_run JobValidate_run [OF v] by blast
  show thesis
    using lane [OF Some j] internalJob_Inr [OF j] Some Lookup_less [OF wf(2), of "jb_Lane job" l] by (simp add: reg)
qed

abbreviation jobMeta :: "Job \<Rightarrow> RequestMeta" where
  "jobMeta job \<equiv> \<lparr>rm_RequestID = [], rm_Key = jb_Key job, rm_Lane = jb_Lane job, rm_Transport = [], rm_Operation = []\<rparr>"

lemma Submit_cases:
  assumes wf: "sched_wf (q_sched q)" "reg_wf (s_laneReg (q_sched q))"
  obtains (refused) e evs q' where "Submit ctxErr sendDone job clk q = Some (Some e, evs, q')" "sched_wf (q_sched q')"
      "untouched (q_sched q) (q_sched q')"
  | (accepted) evs q' where "Submit ctxErr sendDone job clk q = Some (None, evs, q')" "sched_wf (q_sched q')"
      "jobQueued True job (q_sched q) (q_sched q')"
  | (asleep) e evs q' where "Submit ctxErr sendDone job clk q = Some (Some e, evs, q')" "sched_wf (q_sched q')"
      "jobQueued False job (q_sched q) (q_sched q')" "sendDone = Some e"
proof -
  have early: thesis if "Submit ctxErr sendDone job clk q = Some (Some e, evs, q')" "keeps (q_sched q) (q_sched q')" for e evs q'
    using refused [OF that(1) keeps_wf [OF that(2) wf(1)] keeps_untouched [OF that(2)]] .
  obtain err evs q1 where c: "queueChecks (jobMeta job) clk q = (err, evs, q1)" by (rule prod_cases3)
  have k: "keeps (q_sched q) (q_sched q1)" using queueChecks_keeps [of q "jobMeta job" clk] c by (simp add: qkeeps_def)
  show thesis
  proof (cases "ctxErr \<noteq> None \<or> JobValidate job \<noteq> None \<or> err \<noteq> None")
    case True
    then have "\<exists>e evs' q'. Submit ctxErr sendDone job clk q = Some (Some e, evs', q') \<and> keeps (q_sched q) (q_sched q')"
      using k c by (cases ctxErr; cases "JobValidate job"; cases err) (simp_all add: Submit_def keeps_refl)
    then show thesis using early by blast
  next
    case False
    then have v: "JobValidate job = None" and c0: "queueChecks (jobMeta job) clk q = (None, evs, q1)" using c by auto
    from wf v c0 show thesis
    proof (cases rule: before_enqueue)
      case no_lane
      then show thesis using early [of _ evs q1] k False c0 by (auto simp: Submit_def)
    next
      case (lane l j)
      have sub: "Submit ctxErr sendDone job clk q = map_option
          (\<lambda>(r, s). case r of Inl e \<Rightarrow> (Some (Sentinel (SCore e)), evs, q1\<lparr>q_sched := s\<rparr>)
             | Inr (i, b) \<Rightarrow> (let (err, s') = wake sendDone i b s in (err, evs, q1\<lparr>q_sched := s'\<rparr>)))
          (Enqueue j (sk_submit clk) (sk_accept clk) (sk_enqueue clk) (q_sched q1))"
        using False c0 lane(1,2) by (simp add: Submit_def)
      show thesis
      proof (cases rule: enqueue_after [OF k wf(1) lane(3-7), of "sk_submit clk" "sk_accept clk" "sk_enqueue clk"])
        case (1 e s2)
        then show thesis using refused [of _ evs "q1\<lparr>q_sched := s2\<rparr>"] sub by simp
      next
        case (2 i b s2)
        note w = jobQueued_wake [OF 2(3,4,6)]
        show thesis
        proof (cases "b \<and> sendDone \<noteq> None")
          case True
          then show thesis using asleep [of _ evs "q1\<lparr>q_sched := s2\<rparr>"] sub 2(1-3) by (auto simp: wake_def)
        next
          case False
          then show thesis
            using accepted [of evs "q1\<lparr>q_sched := (if b then s2\<lparr>s_ReadyCh := s_ReadyCh s2 @ [i]\<rparr> else s2)\<rparr>"] sub 2(1,2,5) w
            by (auto simp: wake_def split: if_splits)
        qed
      qed
    qed
  qed
qed

text \<open>C10: A submission is all or nothing. On a queue whose scheduler is well formed \<open>Submit\<close> does not panic. When it returns no
  error, exactly the submitted job, with its key's hash and its lane's number, has been appended to its lane on the shard its key
  routes to, and the shard's wake-up is in the channel unless it was already ready. When it returns an error, whatever
  check or stage it comes from, all queues, the channel and the in-flight count are as before, with one exception: the
  context ended while the wake-up was being sent, and then the job is queued without its wake-up.\<close>

theorem submit_effect:
  assumes "sched_wf (q_sched q)" "reg_wf (s_laneReg (q_sched q))"
  shows "\<exists>err evs q'. Submit ctxErr sendDone job clk q = Some (err, evs, q') \<and> sched_wf (q_sched q')
     \<and> (case err of None \<Rightarrow> jobQueued True job (q_sched q) (q_sched q')
        | Some e \<Rightarrow> untouched (q_sched q) (q_sched q') \<or> sendDone = Some e \<and> jobQueued False job (q_sched q) (q_sched q'))"
  by (cases rule: Submit_cases [OF assms, of ctxErr sendDone job clk]) auto

lemma NewScheduler_reg: "NewScheduler shardCount workerCount queueSize reg = Some s \<Longrightarrow> s_laneReg s = reg"
  by (auto simp: NewScheduler_def Let_def split: option.splits)

lemmas demoSched_reg = NewScheduler_reg [OF demoSched_built]

definition demoQueue :: Queue where
  "demoQueue = \<lparr>q_sched = demoSched, q_OverloadEnabled = True, q_AdmissionEnabled = True,
     q_HotKey = \<lparr>hkc_Enabled = False, hkc_MaxTrackedKeysPerShard = 0, hkc_DetectionWindow = 0, hkc_HotKeyDepthRatio = FFin 0,
       hkc_HotKeyWaitRatio = FFin 0, hkc_MaxCandidatesPerSnapshot = 0, hkc_ExposeRawKey = False\<rparr>,
     q_PerKeyAdmission = DefaultPerKeyAdmissionConfig\<lparr>ppk_Enabled := False\<rparr>, q_ShardCount = 2, q_hotKeyExposeRawKey = False,
     q_perKeyAdmissionEnabled = False, q_perKeyAdmissionCore = zeroPerKeyConfig\<rparr>"

theorem submit_effect_witness:
  "\<exists>err evs q'. Submit None None \<lparr>jb_Key = ''tenant'', jb_Lane = ''io'', jb_Run = Some 0, jb_UseWorkerTiming = False\<rparr>
     \<lparr>sk_overload = 0, sk_admission = 0, sk_perKey = 0, sk_perKeyReject = 0, sk_submit = 0, sk_accept = 0, sk_enqueue = 0\<rparr> demoQueue
     = Some (err, evs, q') \<and> sched_wf (q_sched q')"
proof -
  have "sched_wf (q_sched demoQueue)" "reg_wf (s_laneReg (q_sched demoQueue))"
    using demoSched_wf demoReg_wf(1) demoSched_reg by (simp_all add: demoQueue_def)
  from submit_effect [OF this] show ?thesis by blast
qed

text \<open>C11: \<open>TrySubmit\<close> agrees with \<open>Submit\<close>. On a running scheduler with room in the wake-up channel it runs the same checks with the
  same effects, accepts exactly the jobs that \<open>Submit\<close> with a live context accepts, and leaves the same queue behind.\<close>

theorem try_submit_agrees:
  assumes "s_state (q_sched q) = stateRunning" "length (s_ReadyCh (q_sched q)) < length (s_shards (q_sched q))"
  shows "TrySubmit job clk q = map_option (\<lambda>(err, evs, q'). (err = None, evs, q')) (Submit None None job clk q)"
proof (cases "JobValidate job")
  case None
  obtain err evs q1 where c: "queueChecks (jobMeta job) clk q = (err, evs, q1)" by (rule prod_cases3)
  have k: "keeps (q_sched q) (q_sched q1)" using queueChecks_keeps [of q "jobMeta job" clk] c by (simp add: qkeeps_def)
  then have run: "s_state (q_sched q1) = stateRunning" and room: "length (s_ReadyCh (q_sched q1)) < length (s_shards (q_sched q1))"
    using assms by (simp_all add: keeps_def)
  have room': "length (s_ReadyCh s) < readyCap s" if "Enqueue j t1 t2 t3 (q_sched q1) = Some (r, s)" for j t1 t2 t3 r s
    using Enqueue_ready [OF that] room by (simp add: readyCap_def)
  show ?thesis
    using None c TryEnqueue_Enqueue [OF run] room'
    by (auto simp: TrySubmit_def Submit_def wake_def map_option_case split: option.splits sum.splits)
qed (simp add: TrySubmit_def Submit_def)

theorem try_submit_agrees_witness:
  "TrySubmit \<lparr>jb_Key = ''tenant'', jb_Lane = ''io'', jb_Run = Some 0, jb_UseWorkerTiming = False\<rparr>
     \<lparr>sk_overload = 0, sk_admission = 0, sk_perKey = 0, sk_perKeyReject = 0, sk_submit = 0, sk_accept = 0, sk_enqueue = 0\<rparr>
     (withSched (\<lambda>s. s\<lparr>s_state := stateRunning\<rparr>) demoQueue)
   = map_option (\<lambda>(err, evs, q'). (err = None, evs, q'))
     (Submit None None \<lparr>jb_Key = ''tenant'', jb_Lane = ''io'', jb_Run = Some 0, jb_UseWorkerTiming = False\<rparr>
     \<lparr>sk_overload = 0, sk_admission = 0, sk_perKey = 0, sk_perKeyReject = 0, sk_submit = 0, sk_accept = 0, sk_enqueue = 0\<rparr>
     (withSched (\<lambda>s. s\<lparr>s_state := stateRunning\<rparr>) demoQueue))"
proof -
  have "length (s_ReadyCh demoSched) < length (s_shards demoSched)" by code_simp
  then show ?thesis by (intro try_submit_agrees) (simp_all add: demoQueue_def withSched_def)
qed

end
