(* ===== verification/Spec2Isabelle.thy ===== *)
theory Spec2Isabelle
  imports Scheduler_Runs Adaptive_Quota_Facts Retry_Counters Debug_Facts Backend_Facts Continuation_Facts Submit_Facts
begin

text \<open>
  Keylane: a keyed, sharded, lane-aware in-process job queue written in Go.

  A submitted job has a key and a lane. The key's hash chooses a shard, and the shard keeps one bounded ring buffer
  per lane. A shard with work owns one token in the channel \<open>ReadyCh\<close>; a worker that receives the token
  takes up to a quota of jobs from every lane of the shard in one pass, runs them, and sends the token back
  when work is left. Around this core stand the policies a submission passes: quotas per lane, admission and overload
  control by queue pressure, and per-key admission fed by a bounded hot-key tracker. The theories follow the source
  file by file; the names of definitions are the names of the code.

  \<^item> \<open>Keylane_Prelude\<close>: Go's fixed-width types, errors as sums, maps as association lists, shared lemmas.
  \<^item> \<open>Go_Float\<close>: \<open>float64\<close> as IEEE binary64 with computed rounding.
  \<^item> \<open>Lane_Queue\<close> (\<open>internal/core/lane_queue.go\<close>, \<open>job.go\<close>): the ring buffer; it refines a bounded list
    through the locale of FIFO queues.
  \<^item> \<open>Lane_Registry\<close> (\<open>lane_registry.go\<close>): lane names and sixteen-bit lane ids.
  \<^item> \<open>Shard\<close> (\<open>shard.go\<close>, \<open>enqueue.go\<close>, \<open>route.go\<close>, \<open>hash.go\<close>, the batch collection of \<open>process_shard.go\<close>).
  \<^item> \<open>Lane_Counters\<close> (\<open>lane_counters.go\<close>, \<open>queue_wait.go\<close>, \<open>run_duration.go\<close>).
  \<^item> \<open>Pressure\<close> (\<open>pressure.go\<close>), \<open>Quota_Policy\<close> (\<open>quota_policy.go\<close>), \<open>Admission_Policy\<close> (\<open>admission_policy.go\<close>),
    \<open>Overload_Policy\<close> (\<open>overload_policy.go\<close>): validation, compilation to lane tables, decision functions. The
    locale of republishable policies states the round trip of view and build once for the three.
  \<^item> \<open>HotKey_Tracker\<close> (\<open>hotkey_tracker.go\<close>, \<open>hotkey_detection.go\<close>) and \<open>Per_Key_Policy\<close> (\<open>per_key_policy.go\<close>,
    \<open>v05_metrics.go\<close>): the bounded table of hot keys and the mitigation of single keys.
  \<^item> \<open>Scheduler\<close>, \<open>Scheduler_Facts\<close>: the scheduler's state as one record and each operation as a function on it.
  \<^item> \<open>Scheduler_Steps\<close>, \<open>Scheduler_Runs\<close>: submitters, workers and shutdown as an interleaving of atomic steps,
    one step per critical section or channel operation, with the token invariant and its consequences over runs.
  \<^item> \<open>Queue_Submit\<close>, \<open>Submit_Facts\<close> (\<open>submit.go\<close>, \<open>try_submit.go\<close>, \<open>overload.go\<close>, \<open>admission.go\<close>,
    \<open>per_key_admission.go\<close>): one submission through the public queue, with the checks in the order of the code.
  \<^item> \<open>Stats_GCPressure\<close> (\<open>stats_gc_pressure.go\<close>), \<open>Adaptive_Quota\<close>, \<open>Adaptive_Quota_Facts\<close>
    (\<open>adaptive_quota.go\<close>, \<open>internal/core/adaptive_quota_eval.go\<close>, \<open>adaptive_quota_controller.go\<close>): the statistics and the controller that moves the quotas.
  \<^item> \<open>Scale_Signal\<close> (\<open>scale_signal.go\<close>), \<open>Shard_Pressure\<close> (\<open>shard_pressure_policy.go\<close>,
    \<open>shard_pressure_classification.go\<close>), \<open>Debug_View\<close>, \<open>Debug_Snapshot\<close>, \<open>Debug_Facts\<close> (\<open>debug_collect.go\<close>, \<open>hotspot.go\<close>,
    \<open>debug_snapshot.go\<close>): autoscaling advice and the diagnostics read from the scheduler.
  \<^item> \<open>Failure_Class\<close> (\<open>failure.go\<close>, \<open>deadline_budget.go\<close>): error trees and their classification. \<open>Retry_Policy\<close>, \<open>Retry_Run\<close>,
    \<open>Retry_Facts\<close>, \<open>Retry_Counters\<close> (\<open>retry_policy.go\<close>, \<open>retry_suppression.go\<close>, \<open>idempotency.go\<close>, \<open>retry_counters.go\<close>): the
    decision whether to retry and the loop around a handler.
  \<^item> \<open>Backend\<close>, \<open>Backend_Facts\<close> (\<open>backend_admission.go\<close>, \<open>backend_lease.go\<close>, \<open>backend_coordinator.go\<close> and their neighbours): bounded
    use of external resources.
  \<^item> \<open>Continuation\<close>, \<open>Continuation_Facts\<close> (\<open>continuation.go\<close>, \<open>continuation_registry.go\<close>, \<open>submit_pipeline_continuation.go\<close>): a
    pipeline stage that yields, its completer and the goroutine that waits, as a step relation.
  \<^item> \<open>Go_Float_Exact\<close>: when the operations of \<open>Go_Float\<close> are exact or monotone.

  What is shown. For the whole system: no shard with work is without a wake-up token as long as no token is given up,
  workers then finish every accepted job, jobs are neither lost nor duplicated, a scheduler that reports
  drained is empty, the channel never overflows, and worker activity is bounded; the one way to lose a wake-up, a \<open>Submit\<close>
  cancelled between \<open>Enqueue\<close> and the send, is proved to leave its shard asleep for good. A submission either leaves every
  queue as it was or appends its job to the one lane of its key's shard, and \<open>TrySubmit\<close> decides as \<open>Submit\<close> does. For the
  components: refinement of the ring buffer to a list, exact acceptance conditions of every policy, round trips of
  the policy views, monotonicity of admission, boundedness and eviction order of the tracker, agreement
  of dry run and evaluation of per-key admission, bounds and guards of the quota controller, bounded attempts and delays of
  the retry loop and the reasons for each retry, hysteresis of the scale signal, exact shard pressure and ranking of
  diagnostics, slots of a backend resource neither leaked nor overcommitted, and a completer that takes effect at most
  once, with the accounts of the registry balanced and every waiting continuation able to end.

  Bounds. No definition has fuel: the loops are structural or have a termination proof. Integers have the width the source
  gives them. The signed counters of the continuation registry are followed for fewer than \<open>2 ^ 62\<close> operations, where
  they cannot wrap; the resolution goroutine of a continuation takes at most ten steps.

  Parameters. Clocks, the outcome of a job, the state of contexts, the application's hooks, pressure providers and classifiers
  are arguments of the operations. The \<open>sort.Slice\<close> of
  the quota controller, whose comparison has ties, is an argument, any sort by priority; the comparisons of the diagnostics rank every two
  entries, so every sort gives the list of the model's own (locale \<open>ranking\<close>).
  \<open>math.Pow\<close> is an argument with the hypotheses its theorem names; the result of converting a \<open>float64\<close> that does not fit
  an integer type, which Go leaves to the machine, is an argument too.

  Not modelled. Futures, values, requests and the loop over pipeline stages are typed wrappers that run user functions
  and forward the results of the operations here. \<open>New\<close> and the methods of \<open>Queue\<close> that copy a scheduler result into a public
  type field by field are left out, as are the HTTP middleware, the Prometheus and OpenTelemetry bindings and the
  examples, which are glue to code outside the repository. A panic of a job or handler is not modelled, and neither
  is the delivery of an event to a hook: the events themselves are results of the operations.
\<close>

subsection \<open>A small system for the witnesses\<close>

text \<open>Two shards, one worker, two lanes of capacity four; one job whose key hash is 7 (shard 1).\<close>

definition demoQuotas :: "int go_map" where
  "demoQuotas = [(''io'', 2), (''bg'', 1)]"

definition demoBuilt :: sysState where
  "demoBuilt = the (builtSys 2 1 4 demoQuotas defaultObservabilityConfig zeroHotKeyConfig)"

definition demoStarted :: sysState where
  "demoStarted = demoBuilt\<lparr>sy_sched := snd (Start (sy_sched demoBuilt)), sy_workers := [WIdle]\<rparr>"

definition demoJob :: InternalJob where
  "demoJob = zeroJob\<lparr>job_KeyHash := 7, job_LaneID := 1, job_Run := Some 0\<rparr>"

definition demoQueued :: sysState where
  "demoQueued = demoStarted\<lparr>sy_sched := snd (the (Enqueue demoJob 10 11 12 (sy_sched demoStarted))),
     sy_accepted := [stamped (sy_sched demoStarted) 11 demoJob], sy_pending := [FromSubmit 1]\<rparr>"

definition demoDropped :: sysState where
  "demoDropped = demoQueued\<lparr>sy_pending := []\<rparr>"

definition demoStopping :: sysState where
  "demoStopping = demoStarted\<lparr>sy_sched := snd (beginStop (sy_sched demoStarted))\<rparr>"

lemma demo_built: "builtSys 2 1 4 demoQuotas defaultObservabilityConfig zeroHotKeyConfig = Some demoBuilt"
proof -
  have "\<not> Option.is_none (builtSys 2 1 4 demoQuotas defaultObservabilityConfig zeroHotKeyConfig)"
    by code_simp
  then show ?thesis by (auto simp: demoBuilt_def Option.is_none_def)
qed

lemma demo_side: "distinct (map fst demoQuotas)" "length demoQuotas \<le> 65536" "(0 :: nat) < 2" "(2 :: nat) < 2 ^ 63"
  by (simp_all add: demoQuotas_def)

lemma demo_init: "sy_workers demoBuilt = []" "sy_pending demoBuilt = []" "sy_accepted demoBuilt = []"
    "sy_ctxDone demoBuilt = False" "sy_ran demoBuilt = []" "sy_dropped demoBuilt = []"
proof -
  obtain s where "initSys s = demoBuilt" using demo_built by (auto simp: builtSys_def split: sum.splits)
  note d = this [symmetric]
  show "sy_workers demoBuilt = []" "sy_pending demoBuilt = []" "sy_accepted demoBuilt = []"
    "sy_ctxDone demoBuilt = False" "sy_ran demoBuilt = []" "sy_dropped demoBuilt = []"
    unfolding d initSys_def by simp_all
qed

lemma demo_start: "step False demoBuilt demoStarted"
proof -
  have st: "s_state (sy_sched demoBuilt) = stateNew" "s_workerCount (sy_sched demoBuilt) = 1" by code_simp+
  then have s: "Start (sy_sched demoBuilt) = (None, snd (Start (sy_sched demoBuilt)))"
    and w: "s_workerCount (snd (Start (sy_sched demoBuilt))) = 1" by (simp_all add: Start_def)
  from step.control [OF controlStep.start [OF s demo_init(1)]] show ?thesis
    unfolding demoStarted_def w by simp
qed

lemma demo_enqueue: "step False demoStarted demoQueued"
proof -
  have "map_option fst (Enqueue demoJob 10 11 12 (sy_sched demoStarted)) = Some (Inr (1, True))" by code_simp
  then have "Enqueue demoJob 10 11 12 (sy_sched demoStarted)
      = Some (Inr (1, True), snd (the (Enqueue demoJob 10 11 12 (sy_sched demoStarted))))" by auto
  from submitStep.enqueue_wakes [OF this] show ?thesis
    by (simp add: demoQueued_def demo_init demoStarted_def step.submit)
qed

lemma demo_stop: "step False demoStarted demoStopping"
proof -
  have "s_state (sy_sched demoStarted) = stateRunning" by code_simp
  then have "beginStop (sy_sched demoStarted) = (StopBegin, snd (beginStop (sy_sched demoStarted)))"
    by (simp add: beginStop_def)
  from controlStep.begin_stop [OF this] show ?thesis by (simp add: demoStopping_def step.control)
qed

lemma reaches_one: "reaches b \<sigma> \<sigma>' \<Longrightarrow> step False \<sigma>' \<sigma>'' \<Longrightarrow> reaches b \<sigma> \<sigma>''"
  by (rule reaches_step) blast+

lemma demo_reaches: "reaches False demoBuilt demoStarted" "reaches False demoBuilt demoQueued"
  "reaches True demoBuilt demoQueued" "reaches True demoBuilt demoStopping"
proof -
  have s: "reaches b demoBuilt demoStarted" for b by (rule reaches_one [OF reaches_refl demo_start])
  show "reaches False demoBuilt demoStarted" by (rule s)
  show "reaches False demoBuilt demoQueued" "reaches True demoBuilt demoQueued"
    by (rule reaches_one [OF s demo_enqueue])+
  show "reaches True demoBuilt demoStopping" by (rule reaches_one [OF s demo_stop])
qed

lemma demo_work: "1 < length (s_shards (sy_sched demoQueued))"
    "concat (laneContents (s_shards (sy_sched demoQueued) ! 1)) \<noteq> []"
  by code_simp+

subsection \<open>The scheduler as a whole\<close>

text \<open>C1: No wake-up is lost. In every state reachable from a freshly built queue by submissions, worker steps,
  policy updates and life-cycle steps that give no token up, a shard that holds queued work has exactly one
  wake-up token: in \<open>ReadyCh\<close>, with a submitter that is about to send it, or with a worker.\<close>

theorem no_lost_wakeup:
  assumes "builtSys shardCount workerCount queueSize quotas obs hk = Some \<sigma>0"
    "distinct (map fst quotas)" "length quotas \<le> 65536" "0 < shardCount" "shardCount < 2 ^ 63"
    "reaches False \<sigma>0 \<sigma>" "i < length (s_shards (sy_sched \<sigma>))" "shardQueue \<sigma> i \<noteq> []"
  shows "tokens \<sigma> i = 1 \<and> (i \<in> set (s_ReadyCh (sy_sched \<sigma>)) \<or> (\<exists>p \<in> set (sy_pending \<sigma>). senderShard p = i)
      \<or> (\<exists>wk \<in> set (sy_workers \<sigma>). workerToken i wk = 1))"
proof
  note b = built_inv [OF assms(1-5)]
  have inv: "sched_wf (sy_sched \<sigma>)" using reaches_inv [OF assms(6) b(1)] by (simp add: sys_inv_def)
  have "sh_Ready (s_shards (sy_sched \<sigma>) ! i)"
    using hasWork_queue [OF inv assms(7)] assms(7,8) sched_wfD(8) [OF inv] by (simp only: shards_ok_def) blast
  then show one: "tokens \<sigma> i = 1"
    using reaches_tokens_eq [OF assms(6) b] assms(7) by (simp add: tokens_eq_def readyOf_def)
  show "i \<in> set (s_ReadyCh (sy_sched \<sigma>)) \<or> (\<exists>p \<in> set (sy_pending \<sigma>). senderShard p = i)
      \<or> (\<exists>wk \<in> set (sy_workers \<sigma>). workerToken i wk = 1)"
    by (rule token_place [OF one])
qed

theorem no_lost_wakeup_witness: "tokens demoQueued 1 = 1"
  using no_lost_wakeup [OF demo_built demo_side demo_reaches(2) demo_work(1,2)] by simp





text \<open>C6: Senders never block and the channel never holds a shard twice. In every reachable state, whatever was
  given up before, \<open>ReadyCh\<close> lists distinct shard ids in range, and while a submitter or a requeueing worker
  still has an id to send the channel has room for it: the \<open>default\<close> branch of \<open>TrySubmit\<close> is never taken.\<close>

theorem ready_channel_room:
  assumes "builtSys shardCount workerCount queueSize quotas obs hk = Some \<sigma>0"
    "distinct (map fst quotas)" "length quotas \<le> 65536" "0 < shardCount" "shardCount < 2 ^ 63"
    "reaches drops \<sigma>0 \<sigma>"
  shows "(distinct (s_ReadyCh (sy_sched \<sigma>)) \<and> (\<forall>i \<in> set (s_ReadyCh (sy_sched \<sigma>)). i < length (s_shards (sy_sched \<sigma>))))
    \<and> (sy_pending \<sigma> \<noteq> [] \<or> (\<exists>i. WRequeue i \<in> set (sy_workers \<sigma>)) \<longrightarrow>
      length (s_ReadyCh (sy_sched \<sigma>)) < readyCap (sy_sched \<sigma>))"
proof (rule conjI, rule_tac [2] impI)
  have inv: "tokens_le \<sigma>"
    using reaches_inv [OF assms(6) built_inv(1) [OF assms(1-5)]] by (simp add: sys_inv_def)
  show "distinct (s_ReadyCh (sy_sched \<sigma>)) \<and> (\<forall>i \<in> set (s_ReadyCh (sy_sched \<sigma>)). i < length (s_shards (sy_sched \<sigma>)))"
    by (rule tokens_le_channel [OF inv])
  show "length (s_ReadyCh (sy_sched \<sigma>)) < readyCap (sy_sched \<sigma>)"
    if "sy_pending \<sigma> \<noteq> [] \<or> (\<exists>i. WRequeue i \<in> set (sy_workers \<sigma>))"
    using that tokens_outside readyCh_room [OF inv] by metis
qed

theorem ready_channel_room_witness: "length (s_ReadyCh (sy_sched demoQueued)) < readyCap (sy_sched demoQueued)"
  by (rule ready_channel_room [OF demo_built demo_side demo_reaches(2), THEN conjunct2, rule_format]) (simp add: demoQueued_def)

text \<open>C3: No job is lost or duplicated. In every reachable state the accepted jobs are exactly the queued ones,
  those a worker holds, those that ran and those dropped on cancellation, each as often as it was accepted, and the
  in-flight counter is the number of jobs the workers hold.\<close>

theorem jobs_conserved:
  assumes "builtSys shardCount workerCount queueSize quotas obs hk = Some \<sigma>0"
    "distinct (map fst quotas)" "length quotas \<le> 65536" "0 < shardCount" "shardCount < 2 ^ 63"
    "reaches drops \<sigma>0 \<sigma>"
  shows "mset (sy_accepted \<sigma>) = mset (queued (sy_sched \<sigma>)) + mset (concat (map remaining (sy_workers \<sigma>)))
      + mset (sy_ran \<sigma>) + mset (sy_dropped \<sigma>)
    \<and> s_inflight (sy_sched \<sigma>) = int (length (concat (map remaining (sy_workers \<sigma>))))"
  using reaches_inv [OF assms(6) built_inv(1) [OF assms(1-5)]] by (simp only: sys_inv_def jobs_ok_def)

theorem jobs_conserved_witness: "mset (queued (sy_sched demoQueued)) = {#stamped (sy_sched demoStarted) 11 demoJob#}"
  using jobs_conserved [OF demo_built demo_side demo_reaches(2)]
  by (simp add: demoQueued_def demoStarted_def demo_init)

text \<open>C4: A drained queue is empty. When \<open>Stop\<close> has set the state to stopping and a scan of \<open>isDrained\<close>,
  interleaved with anything else, returns true, then at that moment no job is queued or held by a worker; and if
  the worker context was not cancelled, every accepted job has run.\<close>

theorem drain_sound:
  assumes "builtSys shardCount workerCount queueSize quotas obs hk = Some \<sigma>0"
    "distinct (map fst quotas)" "length quotas \<le> 65536" "0 < shardCount" "shardCount < 2 ^ 63"
    "reaches True \<sigma>0 \<sigma>" "stoppingOrStopped (sy_sched \<sigma>)" "scanDrained \<sigma> \<sigma>'"
  shows "queued (sy_sched \<sigma>') = [] \<and> concat (map remaining (sy_workers \<sigma>')) = []
    \<and> (\<not> sy_ctxDone \<sigma>' \<longrightarrow> mset (sy_ran \<sigma>') = mset (sy_accepted \<sigma>'))"
proof (intro conjI impI)
  have inv: "sys_inv \<sigma>" by (rule reaches_inv [OF assms(6) built_inv(1) [OF assms(1-5)]])
  note d = scanDrained_empty [OF assms(8) inv assms(7)]
  show "queued (sy_sched \<sigma>') = []" "concat (map remaining (sy_workers \<sigma>')) = []" using d(1,2) by blast+
  assume nc: "\<not> sy_ctxDone \<sigma>'"
  have "reaches True \<sigma> \<sigma>'" using scanned_reaches assms(8) unfolding scanDrained_def by blast
  then have "\<not> sy_ctxDone \<sigma>" "sy_dropped \<sigma>' = sy_dropped \<sigma>" using reaches_dropped [OF _ nc] by simp_all
  moreover have "sy_dropped \<sigma>0 = []" using assms(1) by (auto simp: builtSys_def initSys_def split: sum.splits)
  ultimately have "sy_dropped \<sigma>' = []" using reaches_dropped [OF assms(6)] by simp
  then show "mset (sy_ran \<sigma>') = mset (sy_accepted \<sigma>')" using d(3) by simp
qed

theorem drain_sound_witness: "queued (sy_sched demoStopping) = []"
proof -
  have "s_inflight (sy_sched demoStopping) = 0" "length (s_shards (sy_sched demoStopping)) = 2"
    "\<not> hasWorkLocked (s_shards (sy_sched demoStopping) ! 0)" "\<not> hasWorkLocked (s_shards (sy_sched demoStopping) ! 1)"
    by code_simp+
  then have "scanDrained demoStopping demoStopping"
    using scan_shard [OF scan_shard [OF scan_start], of demoStopping] by (simp add: scanDrained_def numeral_2_eq_2)
  moreover have "stoppingOrStopped (sy_sched demoStopping)" by code_simp
  ultimately show ?thesis
    using drain_sound [OF demo_built demo_side demo_reaches(4)] by blast
qed

text \<open>C5: A cancelled \<open>Submit\<close> can put a shard to sleep for good. When the context of a submitter is done after
  \<open>Enqueue\<close> made the shard ready and before its id is sent, the id is never sent; from then on, whatever happens,
  no worker visits the shard again, its accepted jobs stay queued, and later submissions to it only add to them.\<close>

theorem submit_cancel_sleeps:
  assumes "builtSys shardCount workerCount queueSize quotas obs hk = Some \<sigma>0"
    "distinct (map fst quotas)" "length quotas \<le> 65536" "0 < shardCount" "shardCount < 2 ^ 63"
    "reaches True \<sigma>0 \<sigma>" "k < length (sy_pending \<sigma>)" "sy_pending \<sigma> ! k = FromSubmit i"
    "reaches True (\<sigma>\<lparr>sy_pending := removeAt k (sy_pending \<sigma>)\<rparr>) \<sigma>'"
  shows "mset (shardQueue \<sigma> i) \<subseteq># mset (shardQueue \<sigma>' i) \<and> i \<notin> set (s_ReadyCh (sy_sched \<sigma>'))
    \<and> WGot i \<notin> set (sy_workers \<sigma>')"
proof -
  let ?d = "\<sigma>\<lparr>sy_pending := removeAt k (sy_pending \<sigma>)\<rparr>"
  have inv: "sys_inv \<sigma>" by (rule reaches_inv [OF assms(6) built_inv(1) [OF assms(1-5)]])
  have st: "step True \<sigma> ?d" by (rule step.control [OF controlStep.submit_ctx_done [OF assms(7,8)]])
  have "asleep ?d i" by (rule dropped_sender_asleep [OF _ assms(7)]) (use inv assms(8) in \<open>simp_all add: sys_inv_def\<close>)
  then have a: "asleep \<sigma>' i \<and> mset (shardQueue ?d i) \<subseteq># mset (shardQueue \<sigma>' i)"
    by (rule reaches_asleep [OF assms(9) step_inv [OF st inv]])
  then have "i \<notin> set (s_ReadyCh (sy_sched \<sigma>'))"
    by (metis asleep_def tokens_def add_is_0 count_list_0_iff)
  then show ?thesis using a asleep_no_worker by simp
qed

theorem submit_cancel_sleeps_witness:
  "mset (shardQueue demoQueued 1) \<subseteq># mset (shardQueue demoDropped 1) \<and> shardQueue demoQueued 1 \<noteq> []
    \<and> 1 \<notin> set (s_ReadyCh (sy_sched demoDropped))"
proof -
  have "sy_pending demoQueued = [FromSubmit 1]" by (simp add: demoQueued_def)
  moreover from this have "demoQueued\<lparr>sy_pending := removeAt 0 (sy_pending demoQueued)\<rparr> = demoDropped"
    by (simp add: demoDropped_def removeAt_def)
  ultimately have "mset (shardQueue demoQueued 1) \<subseteq># mset (shardQueue demoDropped 1)
      \<and> 1 \<notin> set (s_ReadyCh (sy_sched demoDropped)) \<and> WGot 1 \<notin> set (sy_workers demoDropped)"
    using submit_cancel_sleeps [OF demo_built demo_side demo_reaches(3), of 0 1 demoDropped]
    by (simp only: reaches_refl list.size nth_Cons_0) simp
  then show ?thesis using demo_work(2) by blast
qed

text \<open>C27: The statistics agree with the queues and with each other. In the snapshot of a well-formed scheduler the
  queued jobs summed over the shards and summed over the lanes give the same total; it is the number of jobs that are
  queued (modulo 2^64), and the depth that \<open>Pressure\<close> reports; the in-flight total is the sum over the shards.\<close>

theorem stats_totals:
  assumes "sched_wf s" "Len (s_laneReg s) \<le> 65536" "obs_EnableStats (s_Obs s)"
  shows "gcs_TotalQueued (StatsGCPressure s) = sum_list (map ssg_Queued (gcs_Shards (StatsGCPressure s)))
    \<and> gcs_TotalQueued (StatsGCPressure s) = sum_list (map lsg_Queued (gcs_Lanes (StatsGCPressure s)))
    \<and> gcs_TotalQueued (StatsGCPressure s) = of_nat (length (queued s))
    \<and> gcs_TotalQueued (StatsGCPressure s) = p_TotalDepth (schedPressure s)
    \<and> gcs_TotalInFlight (StatsGCPressure s) = sum_list (map word_of_int (s_shardInflight s))"
proof -
  note f = StatsGCPressure_fields [OF assms]
  have "p_TotalDepth (schedPressure s) = sum_list (map (\<lambda>sh. sum_list (depthRow sh)) (s_shards s))"
    by (simp add: schedPressure_def collectPressureTotals_def shardTotals_def classifyPressure_def Let_def)
  also have "\<dots> = gcs_TotalQueued (StatsGCPressure s)" using f by metis
  finally have "gcs_TotalQueued (StatsGCPressure s) = p_TotalDepth (schedPressure s)" by (rule sym)
  moreover have "gcs_TotalQueued (StatsGCPressure s) = of_nat (length (queued s))"
    unfolding queued_def by (rule TotalQueued_eq [OF assms])
  moreover have "gcs_TotalInFlight (StatsGCPressure s) = sum_list (map word_of_int (s_shardInflight s))" using f by metis
  ultimately show ?thesis using f by blast
qed

theorem stats_totals_witness:
  "gcs_TotalQueued (StatsGCPressure (sy_sched demoQueued)) = of_nat (length (queued (sy_sched demoQueued)))
   \<and> shardQueue demoQueued 1 \<noteq> []"
proof -
  have "sched_wf (sy_sched demoQueued)"
    using reaches_inv [OF demo_reaches(2) built_inv(1) [OF demo_built demo_side]] by (simp add: sys_inv_def)
  moreover have "Len (s_laneReg (sy_sched demoQueued)) = 2" by code_simp
  then have "Len (s_laneReg (sy_sched demoQueued)) \<le> 65536" by simp
  moreover have "obs_EnableStats (s_Obs (sy_sched demoQueued))" by code_simp
  ultimately show ?thesis using stats_totals demo_work(2) by blast
qed

end
